(* ===== verification/Prelude.thy ===== *)
theory Prelude
  imports Complex_Main "HOL-Library.AList" "HOL-Library.Sublist"
begin

text \<open>
  What the components share: the errors a Python operation raises and the result type that carries
  them, insertion-ordered dictionaries with their counting idiom, the string operations the code
  uses (\<open>split\<close>, \<open>join\<close>, \<open>rstrip\<close>, \<open>startswith\<close>, \<open>lower\<close>, decimal formatting), and Python's
  \<open>float\<close> with its infinities and its NaN.

  Text is a \<open>string\<close> whose characters are the code points below 256. A finite float is a real
  number: rounding is not modelled.
\<close>

named_theorems dict_simps "rewriting dictionary reads after writes"
named_theorems text_simps "splitting, joining and stripping text"

section \<open>Errors as values\<close>

datatype py_error =
    ValueError
  | KeyError
  | ZeroDivisionError
  | TypeError
  | AttributeError

type_synonym 'a py_result = "py_error + 'a"

definition py_bind :: "'e + 'a \<Rightarrow> ('a \<Rightarrow> 'e + 'b) \<Rightarrow> 'e + 'b" where
  "py_bind x f = (case x of Inl e \<Rightarrow> Inl e | Inr a \<Rightarrow> f a)"

lemma py_bind_simps [simp]:
  "py_bind (Inl e) f = Inl e"
  "py_bind (Inr a) f = f a"
  by (simp_all add: py_bind_def)

lemma py_bind_Inr_iff: "py_bind x f = Inr b \<longleftrightarrow> (\<exists>a. x = Inr a \<and> f a = Inr b)"
  by (cases x) simp_all

text \<open>A list comprehension whose element may raise: it stops at the first error.\<close>

fun py_mapM :: "('a \<Rightarrow> 'e + 'b) \<Rightarrow> 'a list \<Rightarrow> 'e + 'b list" where
  "py_mapM f [] = Inr []"
| "py_mapM f (x # xs) = py_bind (f x) (\<lambda>y. py_bind (py_mapM f xs) (\<lambda>ys. Inr (y # ys)))"

lemma py_mapM_Inr: "(\<And>x. x \<in> set xs \<Longrightarrow> f x = Inr (g x)) \<Longrightarrow> py_mapM f xs = Inr (map g xs)"
  by (induction xs) simp_all

lemma length_filter_mono:
  "(\<And>x. x \<in> set xs \<Longrightarrow> P x \<Longrightarrow> Q x) \<Longrightarrow> length (filter P xs) \<le> length (filter Q xs)"
  by (induction xs) (auto intro: le_SucI)

lemma py_mapM_map: "py_mapM f (map g xs) = py_mapM (\<lambda>x. f (g x)) xs"
  by (induction xs) simp_all

lemma py_mapM_length: "py_mapM f xs = Inr ys \<Longrightarrow> length ys = length xs"
  by (induction xs arbitrary: ys) (auto simp: py_bind_Inr_iff)

lemma py_mapM_Inl: "py_mapM f xs = Inl e \<Longrightarrow> \<exists>x \<in> set xs. f x = Inl e"
  by (induction xs) (auto simp: py_bind_def split: sum.splits)

lemma py_mapM_fails: "x \<in> set xs \<Longrightarrow> f x = Inl e \<Longrightarrow> \<exists>y \<in> set xs. \<exists>e'. f y = Inl e' \<and> py_mapM f xs = Inl e'"
proof (induction xs)
  case (Cons y ys)
  then show ?case by (cases "f y") (auto simp: py_bind_def split: sum.splits)
qed simp

lemma find_SomeD: "find P xs = Some x \<Longrightarrow> x \<in> set xs \<and> P x"
  by (auto simp: find_Some_iff)

section \<open>Dictionaries\<close>

text \<open>
  A Python dictionary keeps its insertion order and overwrites in place, which is what
  \<open>AList.update\<close> does to an association list.
\<close>

type_synonym ('k, 'v) dict = "('k \<times> 'v) list"

definition dict_get :: "('k, 'v) dict \<Rightarrow> 'k \<Rightarrow> 'v option" where
  "dict_get d k = map_of d k"

definition dict_set :: "('k, 'v) dict \<Rightarrow> 'k \<Rightarrow> 'v \<Rightarrow> ('k, 'v) dict" where
  "dict_set d k v = AList.update k v d"

definition dict_keys :: "('k, 'v) dict \<Rightarrow> 'k list" where
  "dict_keys d = map fst d"

definition dict_wf :: "('k, 'v) dict \<Rightarrow> bool" where
  "dict_wf d \<longleftrightarrow> distinct (map fst d)"

text \<open>What a client relies on: the laws of reading after writing.\<close>

locale dictionary =
  fixes empty :: 'd
    and get :: "'d \<Rightarrow> 'k \<Rightarrow> 'v option"
    and put :: "'d \<Rightarrow> 'k \<Rightarrow> 'v \<Rightarrow> 'd"
    and keys :: "'d \<Rightarrow> 'k list"
    and invar :: "'d \<Rightarrow> bool"
  assumes get_empty: "get empty k = None"
    and get_put: "get (put d k v) j = (if j = k then Some v else get d j)"
    and invar_empty: "invar empty"
    and invar_put: "invar d \<Longrightarrow> invar (put d k v)"
    and keys_get: "set (keys d) = {k. get d k \<noteq> None}"
    and keys_distinct: "invar d \<Longrightarrow> distinct (keys d)"
begin

text \<open>Writing a sequence of pairs: the last write of a key is the one that is read.\<close>

definition put_all :: "('k \<times> 'v) list \<Rightarrow> 'd \<Rightarrow> 'd" where
  "put_all ps d = fold (\<lambda>(k, v) d. put d k v) ps d"

lemma get_put_all: "get (put_all ps d) j = (case map_of (rev ps) j of None \<Rightarrow> get d j | Some v \<Rightarrow> Some v)"
proof (induction ps arbitrary: d)
  case Nil
  show ?case by (simp add: put_all_def)
next
  case (Cons p ps)
  obtain k v where p: "p = (k, v)" by (cases p)
  have "get (put_all (p # ps) d) j = get (put_all ps (put d k v)) j"
    by (simp add: put_all_def p)
  also have "\<dots> = (case map_of (rev ps) j of None \<Rightarrow> get (put d k v) j | Some v \<Rightarrow> Some v)"
    by (rule Cons.IH)
  finally show ?case
    by (auto simp: p get_put map_add_def split: option.splits)
qed

lemma invar_put_all: "invar d \<Longrightarrow> invar (put_all ps d)"
  by (induction ps arbitrary: d) (auto simp: put_all_def invar_put)

lemma keys_put_all: "set (keys (put_all ps d)) = set (keys d) \<union> fst ` set ps"
proof (rule set_eqI)
  fix j
  have "map_of (rev ps) j = None \<longleftrightarrow> j \<notin> fst ` set ps"
    by (simp add: map_of_eq_None_iff)
  then show "j \<in> set (keys (put_all ps d)) \<longleftrightarrow> j \<in> set (keys d) \<union> fst ` set ps"
    by (auto simp: keys_get get_put_all split: option.splits)
qed

end

interpretation pydict: dictionary "[]" dict_get dict_set dict_keys dict_wf
proof
  show "dict_get (dict_set d k v) j = (if j = k then Some v else dict_get d j)"
    for d :: "('k, 'v) dict" and k v j
    by (simp add: dict_get_def dict_set_def update_conv')
  show "dict_wf (dict_set d k v)" if "dict_wf d" for d :: "('k, 'v) dict" and k v
    using that by (simp add: dict_wf_def dict_set_def distinct_update)
  show "set (dict_keys d) = {k. dict_get d k \<noteq> None}" for d :: "('k, 'v) dict"
    by (auto simp: dict_keys_def dict_get_def map_of_eq_None_iff)
qed (simp_all add: dict_get_def dict_wf_def dict_keys_def)

lemmas dict_get_simps [simp, dict_simps] = pydict.get_empty pydict.get_put
lemmas dict_wf_intros [intro, simp] = pydict.invar_empty pydict.invar_put

lemma dict_get_in: "dict_wf d \<Longrightarrow> (k, v) \<in> set d \<longleftrightarrow> dict_get d k = Some v"
  by (simp add: dict_wf_def dict_get_def)

lemma dict_get_SomeD: "dict_get d k = Some v \<Longrightarrow> (k, v) \<in> set d"
  by (simp add: dict_get_def map_of_SomeD)

text \<open>Summing a dictionary: the loop \<open>sum(d.values())\<close> of a function of key and value.\<close>

definition dict_sum :: "('k \<Rightarrow> 'v \<Rightarrow> 'a::comm_monoid_add) \<Rightarrow> ('k, 'v) dict \<Rightarrow> 'a" where
  "dict_sum f d = (\<Sum>(k, v) \<leftarrow> d. f k v)"

lemma dict_sum_eq:
  assumes "dict_wf d"
  shows "dict_sum f d = (\<Sum>k \<in> set (dict_keys d). f k (the (dict_get d k)))"
  using assms
proof (induction d)
  case Nil
  show ?case by (simp add: dict_sum_def dict_keys_def)
next
  case (Cons p d)
  obtain k v where p: "p = (k, v)" by (cases p)
  from Cons.prems have wf: "dict_wf d" and k: "k \<notin> fst ` set d"
    by (auto simp: dict_wf_def p)
  have "(\<Sum>j \<in> fst ` set d. f j (the (map_of (p # d) j))) = (\<Sum>j \<in> fst ` set d. f j (the (map_of d j)))"
    using k by (intro sum.cong) (auto simp: p)
  with Cons.IH [OF wf] k show ?case
    by (simp add: dict_sum_def dict_keys_def dict_get_def p)
qed

text \<open>A dictionary comprehension: the pairs are written in order, later ones overwriting.\<close>

definition dict_of :: "('k \<times> 'v) list \<Rightarrow> ('k, 'v) dict" where
  "dict_of ps = fold (\<lambda>(k, v) d. dict_set d k v) ps []"

lemma dict_of_put_all: "dict_of ps = pydict.put_all ps []"
  by (simp add: dict_of_def pydict.put_all_def)

lemma dict_get_dict_of: "dict_get (dict_of ps) k = map_of (rev ps) k"
  by (simp add: dict_of_put_all pydict.get_put_all split: option.splits)

lemma dict_wf_dict_of [simp]: "dict_wf (dict_of ps)"
  by (simp add: dict_of_put_all pydict.invar_put_all)

lemma dict_keys_dict_of: "set (dict_keys (dict_of ps)) = fst ` set ps"
  by (simp add: dict_of_put_all pydict.keys_put_all) (simp add: dict_keys_def)

lemma dict_set_new: "k \<notin> fst ` set d \<Longrightarrow> dict_set d k v = d @ [(k, v)]"
  by (induction d) (auto simp: dict_set_def)

lemma dict_of_id: "dict_wf ps \<Longrightarrow> dict_of ps = ps"
proof (induction ps rule: rev_induct)
  case (snoc p ps)
  then show ?case by (cases p) (auto simp: dict_of_def dict_wf_def dict_set_new)
qed (simp add: dict_of_def)

text \<open>
  Storing a dictionary under other keys and reading it back: \<open>f\<close> and \<open>g\<close> write keys and values,
  \<open>dk\<close> and \<open>dv\<close> read them and may raise, and in between the pairs are sorted by key.
\<close>

definition encode_dict :: "('k \<Rightarrow> 'a) \<Rightarrow> ('v \<Rightarrow> 'b) \<Rightarrow> ('k, 'v) dict \<Rightarrow> ('a, 'b) dict" where
  "encode_dict f g d = dict_of (map (\<lambda>(k, v). (f k, g v)) d)"

definition decode_dict ::
    "('a \<Rightarrow> 'k py_result) \<Rightarrow> ('b \<Rightarrow> 'v py_result) \<Rightarrow> ('a, 'b) dict \<Rightarrow> ('k, 'v) dict py_result" where
  "decode_dict dk dv d =
     py_bind (py_mapM (\<lambda>(k, v). py_bind (dk k) (\<lambda>k'. py_bind (dv v) (\<lambda>v'. Inr (k', v')))) d)
       (\<lambda>ps. Inr (dict_of ps))"

lemma insort_key_map: "insort_key g (f x) (map f xs) = map f (insort_key (\<lambda>y. g (f y)) x xs)"
  by (induction xs) simp_all

lemma sort_key_map: "sort_key g (map f xs) = map f (sort_key (\<lambda>y. g (f y)) xs)"
  by (induction xs) (simp_all add: insort_key_map)

lemma dict_get_cong_set:
  assumes "dict_wf d" and "dict_wf d'" and "set d = set d'"
  shows "dict_get d k = dict_get d' k"
proof -
  have "dict_get d k = Some v \<longleftrightarrow> dict_get d' k = Some v" for v
    using assms by (simp add: dict_get_in [symmetric])
  then show ?thesis by (metis not_None_eq)
qed

lemma decode_encode_dict:
  fixes f :: "'k \<Rightarrow> 'a::linorder"
  assumes "dict_wf d"
    and "\<And>k v. (k, v) \<in> set d \<Longrightarrow> dk (f k) = Inr k \<and> (\<exists>v'. dv (g v) = Inr v')"
  obtains d' where "decode_dict dk dv (sort_key fst (encode_dict f g d)) = Inr d'" "dict_wf d'"
    "\<And>k. dict_get d' k = map_option (\<lambda>v. projr (dv (g v))) (dict_get d k)"
proof -
  let ?F = "\<lambda>(k, v). (f k, g v)"
  have "inj_on f (fst ` set d)"
    using assms(2) by (intro inj_onI) (metis (no_types, lifting) imageE prod.collapse sum.inject(2))
  then have "dict_wf (map ?F d)"
    using assms(1) by (simp add: dict_wf_def comp_def case_prod_unfold distinct_map inj_on_def)
  then have enc: "encode_dict f g d = map ?F d" by (simp add: encode_dict_def dict_of_id)
  define s where "s = sort_key (\<lambda>p. fst (?F p)) d"
  have set_s: "set s = set d" and wf_s: "dict_wf s"
    using assms(1) by (simp_all add: s_def dict_wf_def distinct_map)
  define d' where "d' = map (\<lambda>(k, v). (k, projr (dv (g v)))) s"
  have "py_mapM (\<lambda>(k, v). py_bind (dk k) (\<lambda>k'. py_bind (dv v) (\<lambda>v'. Inr (k', v')))) (map ?F s) = Inr d'"
    unfolding py_mapM_map d'_def using assms(2) set_s by (intro py_mapM_Inr) fastforce
  moreover have wf: "dict_wf d'"
    using wf_s by (simp add: d'_def dict_wf_def comp_def case_prod_unfold)
  ultimately have "decode_dict dk dv (sort_key fst (encode_dict f g d)) = Inr d'"
    by (simp add: decode_dict_def enc sort_key_map s_def dict_of_id)
  moreover have "dict_get d' k = map_option (\<lambda>v. projr (dv (g v))) (dict_get s k)" for k
    by (simp add: d'_def dict_get_def map_of_map)
  ultimately show thesis
    using that wf dict_get_cong_set [OF wf_s assms(1) set_s] by simp
qed

lemma dict_set_map_values: "dict_set (map (\<lambda>(k, v). (k, h v)) d) k (h v) = map (\<lambda>(k, v). (k, h v)) (dict_set d k v)"
  by (induction d) (auto simp: dict_set_def)

lemma encode_dict_map_values: "map (\<lambda>(k, v). (k, h v)) (encode_dict f g d) = encode_dict f (\<lambda>v. h (g v)) d"
proof (induction d rule: rev_induct)
  case (snoc p d)
  then show ?case by (cases p) (simp add: encode_dict_def dict_of_def dict_set_map_values [symmetric])
qed (simp add: encode_dict_def dict_of_def)

lemma encode_dict_pairs:
  "set (encode_dict f g d) \<subseteq> (\<lambda>(k, v). (f k, g v)) ` set d"
  "set (dict_keys (encode_dict f g d)) = f ` set (dict_keys d)"
proof -
  have "set (dict_set e k v) \<subseteq> insert (k, v) (set e)" for e :: "('a, 'b) dict" and k v
    by (induction e) (auto simp: dict_set_def)
  then have "set (dict_of ps) \<subseteq> set ps" for ps :: "('a \<times> 'b) list"
    by (induction ps rule: rev_induct) (fastforce simp: dict_of_def)+
  then show "set (encode_dict f g d) \<subseteq> (\<lambda>(k, v). (f k, g v)) ` set d"
    by (simp add: encode_dict_def) (metis list.set_map)
  show "set (dict_keys (encode_dict f g d)) = f ` set (dict_keys d)"
    unfolding encode_dict_def dict_keys_dict_of by (simp add: dict_keys_def image_image case_prod_unfold)
qed

section \<open>Text\<close>

text \<open>\<open>s.split(c)\<close> for a one-character separator, and \<open>c.join(parts)\<close>.\<close>

fun split_on :: "'a \<Rightarrow> 'a list \<Rightarrow> 'a list list" where
  "split_on c [] = [[]]"
| "split_on c (x # xs) =
     (if x = c then [] # split_on c xs
      else (case split_on c xs of [] \<Rightarrow> [[x]] | y # ys \<Rightarrow> (x # y) # ys))"

fun join_with :: "'a \<Rightarrow> 'a list list \<Rightarrow> 'a list" where
  "join_with c [] = []"
| "join_with c [x] = x"
| "join_with c (x # y # ys) = x @ c # join_with c (y # ys)"

text \<open>\<open>sep.join(parts)\<close> for a separator of any length.\<close>

fun join_str :: "'a list \<Rightarrow> 'a list list \<Rightarrow> 'a list" where
  "join_str sep [] = []"
| "join_str sep [x] = x"
| "join_str sep (x # y # ys) = x @ sep @ join_str sep (y # ys)"

lemma split_on_not_Nil [simp]: "split_on c xs \<noteq> []"
  by (induction xs) (auto split: list.splits)

lemma split_on_no_sep [text_simps]: "c \<notin> set xs \<Longrightarrow> split_on c xs = [xs]"
  by (induction xs) auto

lemma split_on_append_sep [text_simps]: "c \<notin> set xs \<Longrightarrow> split_on c (xs @ c # ys) = xs # split_on c ys"
  by (induction xs) auto

lemma split_on_join [text_simps]:
  "xss \<noteq> [] \<Longrightarrow> \<forall>xs \<in> set xss. c \<notin> set xs \<Longrightarrow> split_on c (join_with c xss) = xss"
  by (induction c xss rule: join_with.induct) (auto simp: text_simps)

lemma join_split_on [text_simps]: "join_with c (split_on c xs) = xs"
proof (induction xs)
  case (Cons x xs)
  obtain y ys where ys: "split_on c xs = y # ys"
    by (cases "split_on c xs") auto
  with Cons show ?case by (cases ys) auto
qed simp

lemma split_on_parts: "p \<in> set (split_on c xs) \<Longrightarrow> c \<notin> set p"
proof (induction xs arbitrary: p)
  case (Cons x xs)
  obtain y ys where ys: "split_on c xs = y # ys"
    by (cases "split_on c xs") auto
  with Cons show ?case by (auto split: if_splits)
qed simp

lemma length_split_on: "length (split_on c xs) = Suc (count_list xs c)"
proof (induction xs)
  case (Cons x xs)
  obtain y ys where "split_on c xs = y # ys" by (cases "split_on c xs") auto
  with Cons show ?case by auto
qed simp

lemma count_list_join_with:
  "count_list (join_with c xss) c = (\<Sum>xs \<leftarrow> xss. count_list xs c) + (length xss - 1)"
  by (induction c xss rule: join_with.induct) simp_all

lemma set_join_with: "set (join_with c xss) \<subseteq> insert c (\<Union> (set ` set xss))"
  by (induction c xss rule: join_with.induct) auto

text \<open>\<open>s.rstrip(c)\<close>: drop the trailing occurrences of one character.\<close>

definition rstrip :: "'a \<Rightarrow> 'a list \<Rightarrow> 'a list" where
  "rstrip c xs = rev (dropWhile (\<lambda>x. x = c) (rev xs))"

lemma rstrip_id [text_simps]: "c \<notin> set xs \<Longrightarrow> rstrip c xs = xs"
  by (cases xs rule: rev_cases) (auto simp: rstrip_def)

text \<open>\<open>s.rsplit(c, 1)[-1]\<close>: what follows the last separator.\<close>

definition after_last :: "'a \<Rightarrow> 'a list \<Rightarrow> 'a list" where
  "after_last c xs = last (split_on c xs)"

lemma after_last_no_sep: "c \<notin> set (after_last c xs)"
  by (metis after_last_def last_in_set split_on_not_Nil split_on_parts)

definition starts_with :: "'a list \<Rightarrow> 'a list \<Rightarrow> bool" where
  "starts_with xs p \<longleftrightarrow> take (length p) xs = p"

lemma starts_with_append [simp]: "starts_with (p @ xs) p"
  by (simp add: starts_with_def)

lemma starts_with_iff: "starts_with xs p \<longleftrightarrow> (\<exists>ys. xs = p @ ys)"
  by (auto simp: starts_with_def) (metis append_take_drop_id)

text \<open>The truth value of an optional text.\<close>

definition truthy_text :: "string option \<Rightarrow> bool" where
  "truthy_text x \<longleftrightarrow> (case x of None \<Rightarrow> False | Some s \<Rightarrow> s \<noteq> [])"

text \<open>\<open>str.lower\<close> on the code points below 256.\<close>

definition lower_char :: "char \<Rightarrow> char" where
  "lower_char c =
     (let n = of_char c :: nat in
      if 65 \<le> n \<and> n \<le> 90 \<or> 192 \<le> n \<and> n \<le> 222 \<and> n \<noteq> 215 then char_of (n + 32) else c)"

definition lower :: "string \<Rightarrow> string" where
  "lower s = map lower_char s"

text \<open>\<open>str.upper\<close> on the code points below 256 whose upper case is below 256 too.\<close>

definition upper_char :: "char \<Rightarrow> char" where
  "upper_char c =
     (let n = of_char c :: nat in
      if 97 \<le> n \<and> n \<le> 122 \<or> 224 \<le> n \<and> n \<le> 254 \<and> n \<noteq> 247 then char_of (n - 32) else c)"

definition upper :: "string \<Rightarrow> string" where
  "upper s = map upper_char s"

text \<open>\<open>p in s\<close> on text, and \<open>str.strip\<close>.\<close>

fun contains :: "string \<Rightarrow> string \<Rightarrow> bool" where
  "contains [] p \<longleftrightarrow> p = []"
| "contains (c # cs) p \<longleftrightarrow> starts_with (c # cs) p \<or> contains cs p"

definition is_space :: "char \<Rightarrow> bool" where
  "is_space c \<longleftrightarrow> (of_char c :: nat) \<in> {9, 10, 11, 12, 13, 28, 29, 30, 31, 32, 133, 160}"

definition strip :: "string \<Rightarrow> string" where
  "strip s = rev (dropWhile is_space (rev (dropWhile is_space s)))"

text \<open>The decimal form of a natural number and of an integer, as f-strings print them.\<close>

fun show_nat :: "nat \<Rightarrow> string" where
  "show_nat n =
     (if n < 10 then [char_of (48 + n)] else show_nat (n div 10) @ [char_of (48 + n mod 10)])"

declare show_nat.simps [simp del]

definition show_int :: "int \<Rightarrow> string" where
  "show_int i = (if i < 0 then CHR ''-'' # show_nat (nat (- i)) else show_nat (nat i))"

definition read_digits :: "string \<Rightarrow> nat" where
  "read_digits s = foldl (\<lambda>n c. 10 * n + (of_char c - 48)) 0 s"

lemma read_digits_show_nat [simp]: "read_digits (show_nat n) = n"
proof (induction n rule: show_nat.induct)
  case (1 n)
  show ?case
  proof (cases "n < 10")
    case True
    then show ?thesis by (simp add: show_nat.simps [of n] read_digits_def)
  next
    case False
    with 1 have IH: "read_digits (show_nat (n div 10)) = n div 10" by simp
    have "read_digits (show_nat n) = 10 * read_digits (show_nat (n div 10)) + n mod 10"
      using False by (simp add: show_nat.simps [of n] read_digits_def)
    then show ?thesis by (simp add: IH)
  qed
qed

lemma show_nat_digits: "c \<in> set (show_nat n) \<Longrightarrow> 48 \<le> (of_char c :: nat) \<and> (of_char c :: nat) \<le> 57"
proof (induction n rule: show_nat.induct)
  case (1 n)
  show ?case
  proof (cases "n < 10")
    case True
    with 1(2) show ?thesis by (simp add: show_nat.simps [of n])
  next
    case False
    with 1(2) have "c \<in> set (show_nat (n div 10)) \<or> c = char_of (48 + n mod 10)"
      by (simp add: show_nat.simps [of n] disj_commute)
    then show ?thesis
      using 1(1) [OF False] by (elim disjE) auto
  qed
qed

lemma show_nat_not_Nil [simp]: "show_nat n \<noteq> []"
  by (simp add: show_nat.simps [of n])

lemma show_nat_inject [simp]: "show_nat m = show_nat n \<longleftrightarrow> m = n"
  by (metis read_digits_show_nat)

lemma show_int_inject [simp]: "show_int i = show_int j \<longleftrightarrow> i = j"
proof -
  have minus: "CHR ''-'' \<notin> set (show_nat n)" for n
    using show_nat_digits [of "CHR ''-''" n] by auto
  then have "show_nat m \<noteq> CHR ''-'' # s" "CHR ''-'' # s \<noteq> show_nat m" for m s
    by (metis list.set_intros(1))+
  then show ?thesis by (auto simp: show_int_def eq_nat_nat_iff)
qed

lemma show_int_no_colon: "CHR '':'' \<notin> set (show_int i)"
  using show_nat_digits [of "CHR '':''"] by (auto simp: show_int_def split: if_splits)

section \<open>Floats\<close>

text \<open>A float is a finite value, an infinity, or NaN, which compares as false with everything.\<close>

datatype pyfloat = Fin real | PInf | NInf | NaN

instantiation pyfloat :: ord
begin

fun less_pyfloat :: "pyfloat \<Rightarrow> pyfloat \<Rightarrow> bool" where
  "less_pyfloat (Fin x) (Fin y) = (x < y)"
| "less_pyfloat (Fin x) PInf = True"
| "less_pyfloat NInf (Fin y) = True"
| "less_pyfloat NInf PInf = True"
| "less_pyfloat _ _ = False"

fun less_eq_pyfloat :: "pyfloat \<Rightarrow> pyfloat \<Rightarrow> bool" where
  "less_eq_pyfloat NaN _ = False"
| "less_eq_pyfloat _ NaN = False"
| "less_eq_pyfloat (Fin x) (Fin y) = (x \<le> y)"
| "less_eq_pyfloat (Fin x) PInf = True"
| "less_eq_pyfloat (Fin x) NInf = False"
| "less_eq_pyfloat PInf (Fin y) = False"
| "less_eq_pyfloat PInf PInf = True"
| "less_eq_pyfloat PInf NInf = False"
| "less_eq_pyfloat NInf _ = True"

instance ..

end

text \<open>Addition and multiplication, with the NaN results of infinities that cancel and of zero times
  an infinity.\<close>

instantiation pyfloat :: "{plus, times}"
begin

fun plus_pyfloat :: "pyfloat \<Rightarrow> pyfloat \<Rightarrow> pyfloat" where
  "plus_pyfloat (Fin x) (Fin y) = Fin (x + y)"
| "plus_pyfloat NaN _ = NaN"
| "plus_pyfloat _ NaN = NaN"
| "plus_pyfloat PInf NInf = NaN"
| "plus_pyfloat NInf PInf = NaN"
| "plus_pyfloat PInf _ = PInf"
| "plus_pyfloat _ PInf = PInf"
| "plus_pyfloat NInf _ = NInf"
| "plus_pyfloat _ NInf = NInf"

definition float_sign :: "pyfloat \<Rightarrow> real" where
  "float_sign x = (case x of Fin r \<Rightarrow> sgn r | PInf \<Rightarrow> 1 | NInf \<Rightarrow> -1 | NaN \<Rightarrow> 0)"

definition times_pyfloat :: "pyfloat \<Rightarrow> pyfloat \<Rightarrow> pyfloat" where
  "times_pyfloat x y =
     (case (x, y) of
        (Fin a, Fin b) \<Rightarrow> Fin (a * b)
      | _ \<Rightarrow> (if x = NaN \<or> y = NaN then NaN
              else let s = float_sign x * float_sign y
                   in if s > 0 then PInf else if s < 0 then NInf else NaN))"

instance ..

end

instantiation pyfloat :: "{uminus, minus, abs}"
begin

fun uminus_pyfloat :: "pyfloat \<Rightarrow> pyfloat" where
  "uminus_pyfloat (Fin x) = Fin (- x)"
| "uminus_pyfloat PInf = NInf"
| "uminus_pyfloat NInf = PInf"
| "uminus_pyfloat NaN = NaN"

definition minus_pyfloat :: "pyfloat \<Rightarrow> pyfloat \<Rightarrow> pyfloat" where
  "minus_pyfloat x y = x + (- y)"

fun abs_pyfloat :: "pyfloat \<Rightarrow> pyfloat" where
  "abs_pyfloat (Fin x) = Fin \<bar>x\<bar>"
| "abs_pyfloat NInf = PInf"
| "abs_pyfloat x = x"

instance ..

end

lemma minus_pyfloat_Fin [simp]: "Fin a - Fin b = Fin (a - b)"
  by (simp add: minus_pyfloat_def)

lemma minus_pyfloat_NaN [simp]: "NaN - x = NaN" "x - NaN = NaN"
  by (cases x; simp add: minus_pyfloat_def)+

text \<open>Division by a float other than zero.\<close>

fun float_div :: "pyfloat \<Rightarrow> pyfloat \<Rightarrow> pyfloat" where
  "float_div (Fin a) (Fin b) = Fin (a / b)"
| "float_div (Fin a) PInf = Fin 0"
| "float_div (Fin a) NInf = Fin 0"
| "float_div PInf (Fin b) = (if b < 0 then NInf else PInf)"
| "float_div NInf (Fin b) = (if b < 0 then PInf else NInf)"
| "float_div _ _ = NaN"

text \<open>\<open>max(a, b)\<close> and \<open>min(a, b)\<close>: the first argument unless the second is strictly better.\<close>

definition py_max :: "pyfloat \<Rightarrow> pyfloat \<Rightarrow> pyfloat" where
  "py_max a b = (if a < b then b else a)"

definition py_min :: "pyfloat \<Rightarrow> pyfloat \<Rightarrow> pyfloat" where
  "py_min a b = (if b < a then b else a)"

lemma clamp_unit: "\<exists>r. py_max (Fin 0) (py_min (Fin 1) x) = Fin r \<and> 0 \<le> r \<and> r \<le> 1"
  by (cases x) (auto simp: py_max_def py_min_def)

lemma clamp_NaN [simp]: "py_max (Fin 0) (py_min (Fin 1) NaN) = Fin 1"
  by (simp add: py_max_def py_min_def)

lemma clamp_Fin: "0 \<le> r \<Longrightarrow> r \<le> 1 \<Longrightarrow> py_max (Fin 0) (py_min (Fin 1) (Fin r)) = Fin r"
  by (auto simp: py_max_def py_min_def)

lemma times_pyfloat_Fin [simp]: "Fin a * Fin b = Fin (a * b)"
  by (simp add: times_pyfloat_def)

lemma times_pyfloat_NaN [simp]: "NaN * x = NaN" "x * NaN = NaN"
  by (cases x; simp add: times_pyfloat_def)+

lemma plus_pyfloat_NaN [simp]: "x + NaN = NaN"
  by (cases x) simp_all

definition is_nan :: "pyfloat \<Rightarrow> bool" where
  "is_nan x \<longleftrightarrow> x = NaN"

definition is_finite :: "pyfloat \<Rightarrow> bool" where
  "is_finite x \<longleftrightarrow> (\<exists>r. x = Fin r)"

lemma is_nan_simps [simp]: "is_nan (Fin x) = False" "is_nan PInf = False" "is_nan NInf = False" "is_nan NaN"
  by (simp_all add: is_nan_def)

lemma is_finite_code [simp, code]:
  "is_finite (Fin x) = True" "is_finite PInf = False" "is_finite NInf = False" "is_finite NaN = False"
  by (simp_all add: is_finite_def)

lemma pyfloat_irrefl [simp]: "\<not> (x :: pyfloat) < x"
  by (cases x) simp_all

lemma pyfloat_less_trans: "(x :: pyfloat) < y \<Longrightarrow> y < z \<Longrightarrow> x < z"
  by (cases x; cases y; cases z) simp_all

text \<open>
  \<open>min(x :: xs, key=f)\<close>: the first element no later one is strictly below.
\<close>

fun min_by :: "('a \<Rightarrow> 'b::ord) \<Rightarrow> 'a \<Rightarrow> 'a list \<Rightarrow> 'a" where
  "min_by f best [] = best"
| "min_by f best (x # xs) = min_by f (if f x < f best then x else best) xs"

lemma min_by_in: "min_by f x xs \<in> set (x # xs)"
proof (induction xs arbitrary: x)
  case (Cons y ys)
  show ?case using Cons.IH [of x] Cons.IH [of y] by auto
qed simp

lemma pyfloat_le_or_less: "x \<noteq> NaN \<Longrightarrow> y \<noteq> NaN \<Longrightarrow> \<not> (x :: pyfloat) < y \<Longrightarrow> \<not> y < z \<Longrightarrow> \<not> x < z"
  by (cases x; cases y; cases z) simp_all

lemma min_by_least:
  fixes f :: "'a \<Rightarrow> pyfloat"
  assumes "\<And>y. y \<in> set (x # xs) \<Longrightarrow> f y \<noteq> NaN"
    and "y \<in> set (x # xs)"
  shows "\<not> f y < f (min_by f x xs)"
  using assms
proof (induction xs arbitrary: x y)
  case Nil
  then show ?case by simp
next
  case (Cons z zs)
  let ?b = "if f z < f x then z else x"
  have b: "\<not> f u < f (min_by f ?b zs)" if "u \<in> set (?b # zs)" for u
    using Cons.prems(1) that by (intro Cons.IH) auto
  have "\<not> f x < f ?b" "\<not> f z < f ?b"
    using pyfloat_less_trans [of "f x" "f z" "f x"] by auto
  moreover have nn: "f x \<noteq> NaN" "f z \<noteq> NaN" "f ?b \<noteq> NaN"
    using Cons.prems(1) by auto
  moreover have "\<not> f ?b < f (min_by f ?b zs)"
    by (rule b) (rule list.set_intros(1))
  ultimately have "\<not> f x < f (min_by f ?b zs)" and "\<not> f z < f (min_by f ?b zs)"
    using pyfloat_le_or_less [of _ "f ?b"] by blast+
  with b Cons.prems(2) show ?case by auto
qed

end
