(* ===== verification/Ctypes.thy ===== *)
theory Ctypes
  imports Prelude "HOL-Library.Word"
begin

text \<open>
  The parts of Python's \<open>ctypes\<close> and of its codecs that the event parser uses: packed little-endian
  structures described by field lists (\<open>csize\<close>, \<open>read_struct\<close>), and the decoding of byte strings
  as Latin-1, ASCII and UTF-8 with the \<open>replace\<close> error handler. \<open>write_struct\<close> is what the packed
  C structures of the kernel side put on the wire; it is used to state the round trips.

  Decoded text is a list of code points, since UTF-8 reaches beyond 255.
\<close>

type_synonym bytes = "8 word list"
type_synonym codepoints = "nat list"

section \<open>Little-endian integers\<close>

fun le_nat :: "bytes \<Rightarrow> nat" where
  "le_nat [] = 0"
| "le_nat (b # bs) = unat b + 256 * le_nat bs"

fun le_bytes :: "nat \<Rightarrow> nat \<Rightarrow> bytes" where
  "le_bytes 0 n = []"
| "le_bytes (Suc k) n = word_of_nat (n mod 256) # le_bytes k (n div 256)"

lemma length_le_bytes [simp]: "length (le_bytes k n) = k"
  by (induction k arbitrary: n) simp_all

lemma unat_byte_less: "unat (b :: 8 word) < 256"
  by (rule order_less_le_trans [OF unsigned_less]) simp

lemma unat_byte_of_nat [simp]: "n < 256 \<Longrightarrow> unat (word_of_nat n :: 8 word) = n"
  by (simp add: unat_of_nat)

lemma le_nat_less: "le_nat bs < 256 ^ length bs"
proof (induction bs)
  case (Cons b bs)
  then show ?case using unat_byte_less [of b] by simp
qed simp

lemma le_nat_le_bytes: "n < 256 ^ k \<Longrightarrow> le_nat (le_bytes k n) = n"
proof (induction k arbitrary: n)
  case (Suc k)
  then have "n div 256 < 256 ^ k" by (simp add: less_mult_imp_div_less mult.commute)
  with Suc.IH show ?case by simp
qed simp

text \<open>Two's complement at a width of \<open>k\<close> bytes.\<close>

definition signed_of :: "nat \<Rightarrow> nat \<Rightarrow> int" where
  "signed_of k n = (if 2 * n < 256 ^ k then int n else int n - 256 ^ k)"

definition unsigned_of :: "nat \<Rightarrow> int \<Rightarrow> nat" where
  "unsigned_of k i = nat (i mod 256 ^ k)"

lemma unsigned_of_less: "unsigned_of k i < 256 ^ k"
  by (simp add: unsigned_of_def nat_less_iff)

lemma of_nat_256_less: "int n < 256 ^ k \<longleftrightarrow> n < 256 ^ k"
  by (metis of_nat_less_iff of_nat_numeral of_nat_power)

lemma signed_unsigned_of:
  assumes "0 < k" and "- (256 ^ k) \<le> 2 * i" and "2 * i < 256 ^ k"
  shows "signed_of k (unsigned_of k i) = i"
proof (cases "0 \<le> i")
  case True
  with assms have "i mod 256 ^ k = i" by simp
  moreover have "2 * nat i < 256 ^ k"
    using of_nat_256_less [of "2 * nat i" k] True assms by simp
  ultimately show ?thesis
    using True by (simp add: signed_of_def unsigned_of_def)
next
  case False
  have "(i + 256 ^ k) mod 256 ^ k = i + 256 ^ k"
    using False assms by (intro mod_pos_pos_trivial) auto
  then have m: "i mod 256 ^ k = i + 256 ^ k" by simp
  have "\<not> 2 * nat (i + 256 ^ k) < 256 ^ k"
    using of_nat_256_less [of "2 * nat (i + 256 ^ k)" k] False assms by simp
  with False assms m show ?thesis by (simp add: signed_of_def unsigned_of_def)
qed

lemma signed_of_range:
  assumes "n < 256 ^ k"
  shows "- (256 ^ k) \<le> 2 * signed_of k n" and "2 * signed_of k n < 256 ^ k"
proof -
  from assms have "int n < 256 ^ k" by (simp only: of_nat_256_less)
  moreover have "int (2 * n) < 256 ^ k \<longleftrightarrow> 2 * n < 256 ^ k" by (rule of_nat_256_less)
  moreover have "(0::int) < 256 ^ k" by simp
  ultimately show "- (256 ^ k) \<le> 2 * signed_of k n" and "2 * signed_of k n < 256 ^ k"
    unfolding signed_of_def by (simp_all, linarith+)
qed

section \<open>Structures\<close>

datatype ctype =
    c_uint8
  | c_uint16
  | c_uint32
  | c_uint64
  | c_int32
  | c_int64
  | c_char_array nat
  | c_uint8_array nat
  | c_struct "(string \<times> ctype) list"

type_synonym layout = "(string \<times> ctype) list"

text \<open>\<open>ctypes.sizeof\<close> under \<open>_pack_ = 1\<close>: no padding.\<close>

fun csize :: "ctype \<Rightarrow> nat" and lsize :: "layout \<Rightarrow> nat" where
  "csize c_uint8 = 1"
| "csize c_uint16 = 2"
| "csize c_uint32 = 4"
| "csize c_uint64 = 8"
| "csize c_int32 = 4"
| "csize c_int64 = 8"
| "csize (c_char_array n) = n"
| "csize (c_uint8_array n) = n"
| "csize (c_struct fs) = lsize fs"
| "lsize [] = 0"
| "lsize ((name, t) # fs) = csize t + lsize fs"

text \<open>
  What an attribute access yields: an integer, a byte string (for a \<open>c_char\<close> array the bytes up to
  its first NUL, for a \<open>c_uint8\<close> array all of them), or a nested structure, kept as its bytes.
\<close>

datatype cvalue = CInt int | CBytes bytes | CStruct bytes

fun cread :: "ctype \<Rightarrow> bytes \<Rightarrow> cvalue" where
  "cread c_uint8 bs = CInt (int (le_nat bs))"
| "cread c_uint16 bs = CInt (int (le_nat bs))"
| "cread c_uint32 bs = CInt (int (le_nat bs))"
| "cread c_uint64 bs = CInt (int (le_nat bs))"
| "cread c_int32 bs = CInt (signed_of 4 (le_nat bs))"
| "cread c_int64 bs = CInt (signed_of 8 (le_nat bs))"
| "cread (c_char_array n) bs = CBytes (takeWhile (\<lambda>b. b \<noteq> 0) bs)"
| "cread (c_uint8_array n) bs = CBytes bs"
| "cread (c_struct fs) bs = CStruct bs"

text \<open>\<open>from_buffer_copy\<close> of exactly \<open>sizeof\<close> bytes: every field at its packed offset.\<close>

fun read_struct :: "layout \<Rightarrow> bytes \<Rightarrow> (string, cvalue) dict" where
  "read_struct [] bs = []"
| "read_struct ((name, t) # fs) bs =
     (name, cread t (take (csize t) bs)) # read_struct fs (drop (csize t) bs)"

definition int_field :: "(string, cvalue) dict \<Rightarrow> string \<Rightarrow> int" where
  "int_field c name = (case dict_get c name of Some (CInt i) \<Rightarrow> i | _ \<Rightarrow> 0)"

definition bytes_field :: "(string, cvalue) dict \<Rightarrow> string \<Rightarrow> bytes" where
  "bytes_field c name = (case dict_get c name of Some (CBytes b) \<Rightarrow> b | _ \<Rightarrow> [])"

text \<open>The other direction: the bytes a packed structure with these values occupies.\<close>

fun cfits :: "ctype \<Rightarrow> cvalue \<Rightarrow> bool" where
  "cfits c_uint8 (CInt i) = (0 \<le> i \<and> i < 2 ^ 8)"
| "cfits c_uint16 (CInt i) = (0 \<le> i \<and> i < 2 ^ 16)"
| "cfits c_uint32 (CInt i) = (0 \<le> i \<and> i < 2 ^ 32)"
| "cfits c_uint64 (CInt i) = (0 \<le> i \<and> i < 2 ^ 64)"
| "cfits c_int32 (CInt i) = (- (2 ^ 31) \<le> i \<and> i < 2 ^ 31)"
| "cfits c_int64 (CInt i) = (- (2 ^ 63) \<le> i \<and> i < 2 ^ 63)"
| "cfits (c_char_array n) (CBytes b) = (length b \<le> n \<and> 0 \<notin> set b)"
| "cfits (c_uint8_array n) (CBytes b) = (length b = n)"
| "cfits (c_struct fs) (CStruct b) = (length b = lsize fs)"
| "cfits _ _ = False"

fun cwrite :: "ctype \<Rightarrow> cvalue \<Rightarrow> bytes" where
  "cwrite (c_char_array n) (CBytes b) = b @ replicate (n - length b) 0"
| "cwrite (c_uint8_array n) (CBytes b) = b"
| "cwrite (c_struct fs) (CStruct b) = b"
| "cwrite t (CInt i) = le_bytes (csize t) (unsigned_of (csize t) i)"
| "cwrite _ _ = []"

fun write_struct :: "layout \<Rightarrow> cvalue list \<Rightarrow> bytes" where
  "write_struct [] vs = []"
| "write_struct fs [] = []"
| "write_struct ((name, t) # fs) (v # vs) = cwrite t v @ write_struct fs vs"

definition fits :: "layout \<Rightarrow> cvalue list \<Rightarrow> bool" where
  "fits fs vs \<longleftrightarrow> list_all2 (\<lambda>(name, t) v. cfits t v) fs vs"

lemma fits_simps [simp]:
  "fits [] vs \<longleftrightarrow> vs = []"
  "fits ((name, t) # fs) (v # vs) \<longleftrightarrow> cfits t v \<and> fits fs vs"
  "fits ((name, t) # fs) [] \<longleftrightarrow> False"
  by (simp_all add: fits_def)

lemma length_cwrite: "cfits t v \<Longrightarrow> length (cwrite t v) = csize t"
  by (cases t; cases v) auto

lemma unsigned_of_small: "0 \<le> i \<Longrightarrow> i < 256 ^ k \<Longrightarrow> int (unsigned_of k i) = i"
  by (simp add: unsigned_of_def)

lemma le_nat_unsigned_of [simp]: "le_nat (le_bytes k (unsigned_of k i)) = unsigned_of k i"
  by (rule le_nat_le_bytes) (rule unsigned_of_less)

lemma cread_cwrite_int: "cfits t (CInt i) \<Longrightarrow> cread t (cwrite t (CInt i)) = CInt i"
  by (cases t)
     (simp_all del: le_bytes.simps le_nat.simps add: unsigned_of_small signed_unsigned_of)

lemma cread_cwrite:
  assumes "cfits t v"
  shows "cread t (cwrite t v) = v"
proof (cases v)
  case (CInt i)
  with assms show ?thesis by (blast intro: cread_cwrite_int)
next
  case (CBytes b)
  have "takeWhile (\<lambda>b. b \<noteq> 0) (b @ replicate (n - length b) 0) = b" if "0 \<notin> set b" for n
    using that by (subst takeWhile_append2) (auto simp: takeWhile_replicate)
  with assms CBytes show ?thesis by (cases t) auto
next
  case (CStruct b)
  with assms show ?thesis by (cases t) auto
qed

lemma length_write_struct: "fits fs vs \<Longrightarrow> length (write_struct fs vs) = lsize fs"
  by (induction fs vs rule: write_struct.induct) (auto simp: length_cwrite)

lemma read_write_struct:
  "fits fs vs \<Longrightarrow> read_struct fs (write_struct fs vs @ rest) = zip (map fst fs) vs"
  by (induction fs vs rule: write_struct.induct) (auto simp: length_cwrite cread_cwrite)

lemma read_struct_take:
  "lsize fs \<le> n \<Longrightarrow> read_struct fs (take n bs) = read_struct fs bs"
proof (induction fs arbitrary: n bs)
  case (Cons f fs)
  obtain name t where f: "f = (name, t)" by (cases f)
  from Cons have "read_struct fs (take (n - csize t) (drop (csize t) bs)) = read_struct fs (drop (csize t) bs)"
    by (simp add: f)
  with Cons.prems show ?case by (simp add: f min_absorb1 drop_take)
qed simp

lemma read_struct_append:
  assumes "lsize fs \<le> length bs"
  shows "read_struct fs (bs @ rest) = read_struct fs bs"
proof -
  have "read_struct fs (bs @ rest) = read_struct fs (take (length bs) (bs @ rest))"
    by (rule read_struct_take [OF assms, symmetric])
  then show ?thesis by simp
qed

text \<open>
  Reading always yields values that fit their fields.\<close>

lemma cread_fits: "length bs = csize t \<Longrightarrow> cfits t (cread t bs)"
proof (cases t)
  case c_int32
  assume l: "length bs = csize t"
  show ?thesis using signed_of_range [of "le_nat bs" 4] le_nat_less [of bs] l c_int32 by auto
next
  case c_int64
  assume l: "length bs = csize t"
  show ?thesis using signed_of_range [of "le_nat bs" 8] le_nat_less [of bs] l c_int64 by auto
next
  case (c_char_array n)
  assume "length bs = csize t"
  then show ?thesis using c_char_array
    by (auto dest: set_takeWhileD simp: length_takeWhile_le)
qed (use le_nat_less [of bs] in auto)

lemma read_struct_fits:
  "lsize fs \<le> length bs \<Longrightarrow> fits fs (map snd (read_struct fs bs))"
  by (induction fs bs rule: read_struct.induct) (auto intro: cread_fits)

section \<open>Decoding text\<close>

definition latin1_decode :: "bytes \<Rightarrow> codepoints" where
  "latin1_decode bs = map unat bs"

definition replacement :: nat where
  "replacement = 65533"

definition ascii_decode :: "bytes \<Rightarrow> codepoints" where
  "ascii_decode bs = map (\<lambda>b. if unat b < 128 then unat b else replacement) bs"

text \<open>
  UTF-8 with \<open>errors="replace"\<close>: an ill-formed sequence gives one replacement character for its
  longest well-formed beginning, and decoding goes on at the byte that broke it.
\<close>

definition is_cont :: "nat \<Rightarrow> bool" where
  "is_cont b \<longleftrightarrow> 128 \<le> b \<and> b < 192"

definition second_of_three :: "nat \<Rightarrow> nat \<Rightarrow> bool" where
  "second_of_three b0 b1 \<longleftrightarrow> is_cont b1 \<and> (if b1 < 160 then b0 \<noteq> 224 else b0 \<noteq> 237)"

definition second_of_four :: "nat \<Rightarrow> nat \<Rightarrow> bool" where
  "second_of_four b0 b1 \<longleftrightarrow> is_cont b1 \<and> (if b1 < 144 then b0 \<noteq> 240 else b0 \<noteq> 244)"

text \<open>
  Each of the next three takes the lead byte and what follows it, and returns a code point with the
  bytes that are left.
\<close>

fun utf8_two :: "nat \<Rightarrow> nat list \<Rightarrow> nat \<times> nat list" where
  "utf8_two b0 [] = (replacement, [])"
| "utf8_two b0 (b1 # bs) =
     (if is_cont b1 then ((b0 - 192) * 64 + (b1 - 128), bs) else (replacement, b1 # bs))"

fun utf8_three :: "nat \<Rightarrow> nat list \<Rightarrow> nat \<times> nat list" where
  "utf8_three b0 [] = (replacement, [])"
| "utf8_three b0 [b1] = (replacement, if second_of_three b0 b1 then [] else [b1])"
| "utf8_three b0 (b1 # b2 # bs) =
     (if \<not> second_of_three b0 b1 then (replacement, b1 # b2 # bs)
      else if \<not> is_cont b2 then (replacement, b2 # bs)
      else ((b0 - 224) * 4096 + (b1 - 128) * 64 + (b2 - 128), bs))"

fun utf8_four :: "nat \<Rightarrow> nat list \<Rightarrow> nat \<times> nat list" where
  "utf8_four b0 [] = (replacement, [])"
| "utf8_four b0 [b1] = (replacement, if second_of_four b0 b1 then [] else [b1])"
| "utf8_four b0 [b1, b2] =
     (replacement,
      if \<not> second_of_four b0 b1 then [b1, b2] else if \<not> is_cont b2 then [b2] else [])"
| "utf8_four b0 (b1 # b2 # b3 # bs) =
     (if \<not> second_of_four b0 b1 then (replacement, b1 # b2 # b3 # bs)
      else if \<not> is_cont b2 then (replacement, b2 # b3 # bs)
      else if \<not> is_cont b3 then (replacement, b3 # bs)
      else ((b0 - 240) * 262144 + (b1 - 128) * 4096 + (b2 - 128) * 64 + (b3 - 128), bs))"

definition utf8_step :: "nat \<Rightarrow> nat list \<Rightarrow> nat \<times> nat list" where
  "utf8_step b0 bs =
     (if b0 < 128 then (b0, bs)
      else if 194 \<le> b0 \<and> b0 < 224 then utf8_two b0 bs
      else if 224 \<le> b0 \<and> b0 < 240 then utf8_three b0 bs
      else if 240 \<le> b0 \<and> b0 < 245 then utf8_four b0 bs
      else (replacement, bs))"

lemma utf8_part_suffix:
  "suffix (snd (utf8_two b0 bs)) bs"
  "suffix (snd (utf8_three b0 bs)) bs"
  "suffix (snd (utf8_four b0 bs)) bs"
  by (cases "(b0, bs)" rule: utf8_two.cases, auto simp: suffix_ConsI)
     (cases "(b0, bs)" rule: utf8_three.cases, auto simp: suffix_ConsI,
      cases "(b0, bs)" rule: utf8_four.cases, auto simp: suffix_ConsI)

lemma utf8_step_suffix: "suffix (snd (utf8_step b0 bs)) bs"
  by (auto simp: utf8_step_def utf8_part_suffix)

function utf8_decode :: "nat list \<Rightarrow> codepoints" where
  "utf8_decode [] = []"
| "utf8_decode (b0 # bs) = (let (c, rest) = utf8_step b0 bs in c # utf8_decode rest)"
  by pat_completeness auto
termination
proof (relation "measure length")
  fix b0 :: nat and bs x c rest
  assume "x = utf8_step b0 bs" "(c, rest) = x"
  then have "suffix rest bs" using utf8_step_suffix [of b0 bs] by (metis snd_conv)
  then show "(rest, b0 # bs) \<in> measure length" by (simp add: suffix_length_le le_imp_less_Suc)
qed simp

definition utf8_text :: "bytes \<Rightarrow> codepoints" where
  "utf8_text bs = utf8_decode (map unat bs)"

text \<open>A Unicode scalar value, and the encoder of one.\<close>

definition is_scalar :: "nat \<Rightarrow> bool" where
  "is_scalar c \<longleftrightarrow> c < 55296 \<or> 57344 \<le> c \<and> c < 1114112"

definition utf8_encode1 :: "nat \<Rightarrow> nat list" where
  "utf8_encode1 c =
     (if c < 128 then [c]
      else if c < 2048 then [192 + c div 64, 128 + c mod 64]
      else if c < 65536 then [224 + c div 4096, 128 + c div 64 mod 64, 128 + c mod 64]
      else [240 + c div 262144, 128 + c div 4096 mod 64, 128 + c div 64 mod 64, 128 + c mod 64])"

definition utf8_encode :: "codepoints \<Rightarrow> nat list" where
  "utf8_encode cs = concat (map utf8_encode1 cs)"

lemma replacement_scalar [simp]: "is_scalar replacement"
  by (simp add: is_scalar_def replacement_def)

lemma second_of_three_intro:
  "a * 4096 + b * 64 + r = c \<Longrightarrow> b < 64 \<Longrightarrow> r < 64 \<Longrightarrow> 2048 \<le> c \<Longrightarrow> is_scalar c
    \<Longrightarrow> second_of_three (224 + a) (128 + b)"
  by (auto simp: second_of_three_def is_cont_def is_scalar_def)

lemma second_of_four_intro:
  "a * 262144 + b * 4096 + r * 64 + s = c \<Longrightarrow> b < 64 \<Longrightarrow> r < 64 \<Longrightarrow> s < 64 \<Longrightarrow> 65536 \<le> c
    \<Longrightarrow> c < 1114112 \<Longrightarrow> second_of_four (240 + a) (128 + b)"
  by (auto simp: second_of_four_def is_cont_def)

lemma sextets3: "c div 4096 * 4096 + c div 64 mod 64 * 64 + c mod 64 = (c :: nat)"
proof -
  have "c div 64 div 64 * 64 + c div 64 mod 64 = c div 64" "c div 64 * 64 + c mod 64 = c"
    by (rule div_mult_mod_eq)+
  moreover have "c div 4096 = c div 64 div 64" by (simp flip: div_mult2_eq)
  ultimately show ?thesis by linarith
qed

lemma sextets4:
  "c div 262144 * 262144 + c div 4096 mod 64 * 4096 + c div 64 mod 64 * 64 + c mod 64 = (c :: nat)"
proof -
  have "c div 4096 div 64 * 64 + c div 4096 mod 64 = c div 4096"
    by (rule div_mult_mod_eq)
  moreover have "c div 262144 = c div 4096 div 64" by (simp flip: div_mult2_eq)
  ultimately show ?thesis using sextets3 [of c] by linarith
qed

lemma utf8_step_encode1:
  assumes "is_scalar c" and "utf8_encode1 c = b0 # bs"
  shows "utf8_step b0 (bs @ rest) = (c, rest)"
proof -
  consider "c < 128" | "128 \<le> c" "c < 2048" | "2048 \<le> c" "c < 65536" | "65536 \<le> c" "c < 1114112"
    using assms by (auto simp: is_scalar_def) linarith+
  then show ?thesis
  proof cases
    case 1
    with assms show ?thesis by (simp add: utf8_encode1_def utf8_step_def)
  next
    case 2
    then have "2 \<le> c div 64" "c div 64 < 32" "c div 64 * 64 + c mod 64 = c" by auto
    with 2 assms(2) show ?thesis by (auto simp: utf8_encode1_def is_cont_def utf8_step_def)
  next
    case 3
    let ?a = "c div 4096" and ?b = "c div 64 mod 64" and ?r = "c mod 64"
    have c: "?a * 4096 + ?b * 64 + ?r = c" by (rule sextets3)
    have lt: "?a < 16" "?b < 64" "?r < 64" using 3 by auto
    have sec: "second_of_three (224 + ?a) (128 + ?b)"
      by (rule second_of_three_intro [OF c lt(2,3) 3(1) assms(1)])
    have "utf8_three (224 + ?a) ((128 + ?b) # (128 + ?r) # rest) = (c, rest)"
      using lt sec c by (simp add: is_cont_def)
    with lt 3 assms(2) show ?thesis by (auto simp: utf8_encode1_def utf8_step_def simp del: utf8_three.simps)
  next
    case 4
    let ?a = "c div 262144" and ?b = "c div 4096 mod 64" and ?r = "c div 64 mod 64" and ?s = "c mod 64"
    have c: "?a * 262144 + ?b * 4096 + ?r * 64 + ?s = c" by (rule sextets4)
    have lt: "?a < 5" "?b < 64" "?r < 64" "?s < 64" using 4 by auto
    have sec: "second_of_four (240 + ?a) (128 + ?b)"
      by (rule second_of_four_intro [OF c lt(2-4) 4])
    have "utf8_four (240 + ?a) ((128 + ?b) # (128 + ?r) # (128 + ?s) # rest) = (c, rest)"
      using lt sec c by (simp add: is_cont_def)
    with lt 4 assms(2) show ?thesis by (auto simp: utf8_encode1_def utf8_step_def simp del: utf8_four.simps)
  qed
qed

lemma utf8_decode_encode1:
  assumes "is_scalar c"
  shows "utf8_decode (utf8_encode1 c @ rest) = c # utf8_decode rest"
proof -
  have "utf8_encode1 c \<noteq> []" by (simp add: utf8_encode1_def)
  then obtain b0 bs where e: "utf8_encode1 c = b0 # bs" by (cases "utf8_encode1 c") auto
  show ?thesis by (simp add: e utf8_step_encode1 [OF assms e])
qed

lemma utf8_decode_encode: "\<forall>c \<in> set cs. is_scalar c \<Longrightarrow> utf8_decode (utf8_encode cs) = cs"
  by (induction cs) (simp_all add: utf8_encode_def utf8_decode_encode1)

lemma utf8_two_scalar: "194 \<le> b0 \<Longrightarrow> b0 < 224 \<Longrightarrow> is_scalar (fst (utf8_two b0 bs)) \<and> 0 < fst (utf8_two b0 bs)"
  by (cases "(b0, bs)" rule: utf8_two.cases) (auto simp: is_cont_def is_scalar_def replacement_def)

lemma three_value:
  assumes "k < 16" "i < 64" "j < 64" "if i < 32 then k \<noteq> 0 else k \<noteq> 13"
  shows "is_scalar (k * 4096 + (i * 64 + j)) \<and> 0 < k * 4096 + (i * 64 + j)"
proof -
  have ij: "i * 64 + j < 4096" using assms by linarith
  consider "k \<le> 12" | "k = 13" | "14 \<le> k" by linarith
  then show ?thesis
  proof cases
    case 1
    then have "k * 4096 + (i * 64 + j) < 55296" using ij by linarith
    with assms(4) show ?thesis by (auto simp: is_scalar_def split: if_splits)
  next
    case 2
    with assms have "i < 32" by (simp split: if_splits)
    with 2 assms(3) show ?thesis by (simp add: is_scalar_def)
  next
    case 3
    with assms(1) ij have "57344 \<le> k * 4096 + (i * 64 + j)" "k * 4096 + (i * 64 + j) < 1114112"
      by linarith+
    then show ?thesis by (auto simp: is_scalar_def)
  qed
qed

lemma utf8_three_scalar:
  assumes "224 \<le> b0" "b0 < 240"
  shows "is_scalar (fst (utf8_three b0 bs)) \<and> 0 < fst (utf8_three b0 bs)"
proof (cases "(b0, bs)" rule: utf8_three.cases)
  case (3 b b1 b2 bs')
  show ?thesis
  proof (cases "second_of_three b0 b1 \<and> is_cont b2")
    case True
    then have "b0 - 224 < 16" "b1 - 128 < 64" "b2 - 128 < 64"
      "if b1 - 128 < 32 then b0 - 224 \<noteq> 0 else b0 - 224 \<noteq> 13"
      using assms by (auto simp: second_of_three_def is_cont_def split: if_splits)
    from three_value [OF this] True 3 show ?thesis by (simp add: add.assoc)
  qed (use 3 in \<open>auto simp: replacement_def is_scalar_def\<close>)
qed (auto simp: replacement_def is_scalar_def)

lemma utf8_four_scalar:
  assumes "240 \<le> b0" "b0 < 245"
  shows "is_scalar (fst (utf8_four b0 bs)) \<and> 0 < fst (utf8_four b0 bs)"
proof (cases "(b0, bs)" rule: utf8_four.cases)
  case (4 b b1 b2 b3 bs')
  show ?thesis
  proof (cases "second_of_four b0 b1 \<and> is_cont b2 \<and> is_cont b3")
    case True
    define k i j l where v: "k = b0 - 240" "i = b1 - 128" "j = b2 - 128" "l = b3 - 128"
    have lt: "k < 5" "i < 64" "j < 64" "l < 64" "if i < 16 then k \<noteq> 0 else k \<noteq> 4"
      using assms True by (auto simp: v second_of_four_def is_cont_def split: if_splits)
    then have "65536 \<le> k * 262144 + i * 4096 + j * 64 + l" "k * 262144 + i * 4096 + j * 64 + l < 1114112"
      by (cases "i < 16"; simp; linarith)+
    then have "is_scalar (k * 262144 + i * 4096 + j * 64 + l) \<and> 0 < k * 262144 + i * 4096 + j * 64 + l"
      unfolding is_scalar_def by linarith
    with True 4 show ?thesis by (simp add: v)
  qed (use 4 in \<open>auto simp: replacement_def is_scalar_def\<close>)
qed (auto simp: replacement_def is_scalar_def)

lemma utf8_step_scalar: "is_scalar (fst (utf8_step b0 bs)) \<and> (fst (utf8_step b0 bs) = 0 \<longrightarrow> b0 = 0)"
  using utf8_two_scalar [of b0 bs] utf8_three_scalar [of b0 bs] utf8_four_scalar [of b0 bs]
  by (auto simp: utf8_step_def is_scalar_def replacement_def)

lemma utf8_decode_scalar: "c \<in> set (utf8_decode bs) \<Longrightarrow> is_scalar c"
proof (induction bs rule: utf8_decode.induct)
  case (2 b0 bs)
  then show ?case using utf8_step_scalar [of b0 bs] by (cases "utf8_step b0 bs") auto
qed simp

lemma length_utf8_decode: "length (utf8_decode bs) \<le> length bs"
proof (induction bs rule: utf8_decode.induct)
  case (2 b0 bs)
  obtain c rest where st: "utf8_step b0 bs = (c, rest)" by fastforce
  with utf8_step_suffix [of b0 bs] have "length rest \<le> length bs" by (simp add: suffix_length_le)
  with 2 [OF st [symmetric] refl] st show ?case by simp
qed simp

lemma utf8_decode_no_nul: "0 \<notin> set bs \<Longrightarrow> 0 \<notin> set (utf8_decode bs)"
proof (induction bs rule: utf8_decode.induct)
  case (2 b0 bs)
  obtain c rest where st: "utf8_step b0 bs = (c, rest)" by fastforce
  with utf8_step_suffix [of b0 bs] 2(2) have "0 \<notin> set rest" by (auto dest: set_mono_suffix)
  moreover have "c \<noteq> 0" using utf8_step_scalar [of b0 bs] st 2(2) by auto
  ultimately show ?case using 2(1) [OF st [symmetric] refl] st by auto
qed simp

lemma utf8_encode1_bytes: "is_scalar c \<Longrightarrow> b \<in> set (utf8_encode1 c) \<Longrightarrow> b < 256"
  by (auto simp: utf8_encode1_def is_scalar_def split: if_splits)

lemma utf8_encode1_no_nul: "0 < c \<Longrightarrow> 0 \<notin> set (utf8_encode1 c)"
  by (auto simp: utf8_encode1_def)

end
