(* ===== verification/Event_Parser.thy ===== *)
theory Event_Parser
  imports Ctypes
begin

text \<open>
  The agent's decoder of ring-buffer records, \<open>infrastructure/ebpf/event_parser.py\<close>: the packed
  structure of every event kind, the parsed dataclasses, \<open>_parse_header\<close> and \<open>parse_event\<close>.

  The lemmas show that every structure has the size the module asserts at load time, which buffers
  are accepted, that bytes beyond the structure are ignored, that every accepted event is well
  formed, and that an event laid out as the kernel lays it out is parsed back unchanged.
\<close>

section \<open>ABI constants and structures\<close>

definition PHANTOM_ABI_VERSION :: int where
  "PHANTOM_ABI_VERSION = 1"

definition PHANTOM_PATH_MAX :: nat where
  "PHANTOM_PATH_MAX = 4096"

definition HEADER_SIZE :: nat where
  "HEADER_SIZE = 88"

datatype event_type =
    EXEC | FILE_OPEN | FILE_WRITE | NET_CONNECT | NET_ACCEPT | PRIVILEGE | NAMESPACE | MODULE_LOAD
  | LOSS

fun event_type_value :: "event_type \<Rightarrow> int" where
  "event_type_value EXEC = 1"
| "event_type_value FILE_OPEN = 2"
| "event_type_value FILE_WRITE = 3"
| "event_type_value NET_CONNECT = 4"
| "event_type_value NET_ACCEPT = 5"
| "event_type_value PRIVILEGE = 6"
| "event_type_value NAMESPACE = 7"
| "event_type_value MODULE_LOAD = 8"
| "event_type_value LOSS = 9"

definition CHeader :: layout where
  "CHeader =
     [(''abi_version'', c_uint16), (''event_type'', c_uint16), (''total_size'', c_uint32),
      (''event_id_hi'', c_uint64), (''event_id_lo'', c_uint64), (''kernel_timestamp_ns'', c_uint64),
      (''cgroup_id'', c_uint64), (''pid_start_time_ns'', c_uint64), (''pid'', c_uint32),
      (''tgid'', c_uint32), (''ppid'', c_uint32), (''uid'', c_uint32), (''gid'', c_uint32),
      (''cpu'', c_uint32), (''comm'', c_char_array 16)]"

definition CExecEvent :: layout where
  "CExecEvent =
     [(''header'', c_struct CHeader), (''parent_tgid'', c_uint32), (''argc'', c_uint32),
      (''exec_flags'', c_uint32), (''executable_path'', c_char_array PHANTOM_PATH_MAX),
      (''argv_digest'', c_char_array 65)]"

definition CFileOpenEvent :: layout where
  "CFileOpenEvent =
     [(''header'', c_struct CHeader), (''fd'', c_int32), (''open_flags'', c_uint32),
      (''mode'', c_uint32), (''syscall_result'', c_uint32),
      (''path'', c_char_array PHANTOM_PATH_MAX)]"

definition CFileWriteEvent :: layout where
  "CFileWriteEvent =
     [(''header'', c_struct CHeader), (''fd'', c_int32), (''requested_bytes'', c_uint32),
      (''result_bytes'', c_int64), (''file_inode'', c_uint64), (''file_device_major'', c_uint32),
      (''file_device_minor'', c_uint32), (''path'', c_char_array PHANTOM_PATH_MAX)]"

definition CNetworkEvent :: layout where
  "CNetworkEvent =
     [(''header'', c_struct CHeader), (''direction'', c_uint8), (''address_family'', c_uint8),
      (''protocol'', c_uint8), (''socket_type'', c_uint8), (''local_port'', c_uint16),
      (''remote_port'', c_uint16), (''local_address'', c_uint8_array 16),
      (''remote_address'', c_uint8_array 16), (''syscall_result'', c_int32)]"

definition CPrivilegeEvent :: layout where
  "CPrivilegeEvent =
     [(''header'', c_struct CHeader), (''previous_uid'', c_uint32), (''new_uid'', c_uint32),
      (''previous_gid'', c_uint32), (''new_gid'', c_uint32),
      (''capability_effective_before'', c_uint64), (''capability_effective_after'', c_uint64),
      (''transition_kind'', c_uint32)]"

definition CNamespaceEvent :: layout where
  "CNamespaceEvent =
     [(''header'', c_struct CHeader), (''namespace_type'', c_uint32), (''operation'', c_uint32),
      (''previous_namespace_inode'', c_uint64), (''target_namespace_inode'', c_uint64),
      (''syscall_result'', c_int32)]"

definition CModuleLoadEvent :: layout where
  "CModuleLoadEvent =
     [(''header'', c_struct CHeader), (''operation'', c_uint32), (''syscall_result'', c_int32),
      (''module_name'', c_char_array 64), (''module_digest'', c_char_array 65)]"

definition CLossEvent :: layout where
  "CLossEvent =
     [(''header'', c_struct CHeader), (''dropped_since_last_report'', c_uint64),
      (''ring_buffer_reserve_failures'', c_uint64), (''user_space_submit_failures'', c_uint64),
      (''loss_scope'', c_uint32)]"

text \<open>The sizes the parser slices the buffer with.\<close>

definition EXPECTED_EXEC_SIZE :: nat where
  "EXPECTED_EXEC_SIZE = HEADER_SIZE + 4 + 4 + 4 + PHANTOM_PATH_MAX + 65"

definition EXPECTED_FILE_OPEN_SIZE :: nat where
  "EXPECTED_FILE_OPEN_SIZE = HEADER_SIZE + 4 + 4 + 4 + 4 + PHANTOM_PATH_MAX"

definition EXPECTED_FILE_WRITE_SIZE :: nat where
  "EXPECTED_FILE_WRITE_SIZE = HEADER_SIZE + 4 + 4 + 8 + 8 + 4 + 4 + PHANTOM_PATH_MAX"

definition EXPECTED_NETWORK_SIZE :: nat where
  "EXPECTED_NETWORK_SIZE = HEADER_SIZE + 1 + 1 + 1 + 1 + 2 + 2 + 16 + 16 + 4"

definition EXPECTED_PRIVILEGE_SIZE :: nat where
  "EXPECTED_PRIVILEGE_SIZE = HEADER_SIZE + 4 + 4 + 4 + 4 + 8 + 8 + 4"

definition EXPECTED_NAMESPACE_SIZE :: nat where
  "EXPECTED_NAMESPACE_SIZE = HEADER_SIZE + 4 + 4 + 8 + 8 + 4"

definition EXPECTED_MODULE_SIZE :: nat where
  "EXPECTED_MODULE_SIZE = HEADER_SIZE + 4 + 4 + 64 + 65"

definition EXPECTED_LOSS_SIZE :: nat where
  "EXPECTED_LOSS_SIZE = HEADER_SIZE + 8 + 8 + 8 + 4"

lemmas body_layout_defs =
  CExecEvent_def CFileOpenEvent_def CFileWriteEvent_def CNetworkEvent_def
  CPrivilegeEvent_def CNamespaceEvent_def CModuleLoadEvent_def CLossEvent_def

lemmas layout_defs = CHeader_def body_layout_defs

lemmas size_defs =
  HEADER_SIZE_def PHANTOM_PATH_MAX_def EXPECTED_EXEC_SIZE_def EXPECTED_FILE_OPEN_SIZE_def
  EXPECTED_FILE_WRITE_SIZE_def EXPECTED_NETWORK_SIZE_def EXPECTED_PRIVILEGE_SIZE_def
  EXPECTED_NAMESPACE_SIZE_def EXPECTED_MODULE_SIZE_def EXPECTED_LOSS_SIZE_def

section \<open>Parsed events\<close>

record parsed_header =
  h_abi_version :: int
  h_event_type :: int
  h_total_size :: int
  h_event_id_hi :: int
  h_event_id_lo :: int
  h_kernel_timestamp_ns :: int
  h_cgroup_id :: int
  h_pid_start_time_ns :: int
  h_pid :: int
  h_tgid :: int
  h_ppid :: int
  h_uid :: int
  h_gid :: int
  h_cpu :: int
  h_comm :: codepoints

record parsed_exec =
  ex_header :: parsed_header
  ex_parent_tgid :: int
  ex_argc :: int
  ex_exec_flags :: int
  ex_executable_path :: codepoints
  ex_argv_digest :: codepoints

record parsed_file_open =
  fo_header :: parsed_header
  fo_fd :: int
  fo_open_flags :: int
  fo_mode :: int
  fo_syscall_result :: int
  fo_path :: codepoints

record parsed_file_write =
  fw_header :: parsed_header
  fw_fd :: int
  fw_requested_bytes :: int
  fw_result_bytes :: int
  fw_file_inode :: int
  fw_file_device_major :: int
  fw_file_device_minor :: int
  fw_path :: codepoints

record parsed_network =
  nw_header :: parsed_header
  nw_direction :: int
  nw_address_family :: int
  nw_protocol :: int
  nw_socket_type :: int
  nw_local_port :: int
  nw_remote_port :: int
  nw_local_address :: bytes
  nw_remote_address :: bytes
  nw_syscall_result :: int

record parsed_privilege =
  pv_header :: parsed_header
  pv_previous_uid :: int
  pv_new_uid :: int
  pv_previous_gid :: int
  pv_new_gid :: int
  pv_capability_effective_before :: int
  pv_capability_effective_after :: int
  pv_transition_kind :: int

record parsed_namespace =
  ns_header :: parsed_header
  ns_namespace_type :: int
  ns_operation :: int
  ns_previous_namespace_inode :: int
  ns_target_namespace_inode :: int
  ns_syscall_result :: int

record parsed_module_load =
  ml_header :: parsed_header
  ml_operation :: int
  ml_syscall_result :: int
  ml_module_name :: codepoints
  ml_module_digest :: codepoints

record parsed_loss =
  ls_header :: parsed_header
  ls_dropped_since_last_report :: int
  ls_ring_buffer_reserve_failures :: int
  ls_user_space_submit_failures :: int
  ls_loss_scope :: int

datatype parsed_event =
    ParsedExecEvent parsed_exec
  | ParsedFileOpenEvent parsed_file_open
  | ParsedFileWriteEvent parsed_file_write
  | ParsedNetworkEvent parsed_network
  | ParsedPrivilegeEvent parsed_privilege
  | ParsedNamespaceEvent parsed_namespace
  | ParsedModuleLoadEvent parsed_module_load
  | ParsedLossEvent parsed_loss

text \<open>The ways \<open>ParseError\<close> is raised, with what its message reports.\<close>

datatype parse_error =
    HeaderTooShort nat
  | AbiMismatch int
  | EventTooShort event_type nat
  | UnknownEventType int

section \<open>The parser\<close>

text \<open>\<open>c.f.rstrip(b"\x00")\<close>\<close>

definition stripped :: "(string, cvalue) dict \<Rightarrow> string \<Rightarrow> bytes" where
  "stripped c name = rstrip 0 (bytes_field c name)"

definition mk_header :: "(string, cvalue) dict \<Rightarrow> parsed_header" where
  "mk_header c =
     \<lparr>h_abi_version = int_field c ''abi_version'',
      h_event_type = int_field c ''event_type'',
      h_total_size = int_field c ''total_size'',
      h_event_id_hi = int_field c ''event_id_hi'',
      h_event_id_lo = int_field c ''event_id_lo'',
      h_kernel_timestamp_ns = int_field c ''kernel_timestamp_ns'',
      h_cgroup_id = int_field c ''cgroup_id'',
      h_pid_start_time_ns = int_field c ''pid_start_time_ns'',
      h_pid = int_field c ''pid'',
      h_tgid = int_field c ''tgid'',
      h_ppid = int_field c ''ppid'',
      h_uid = int_field c ''uid'',
      h_gid = int_field c ''gid'',
      h_cpu = int_field c ''cpu'',
      h_comm = latin1_decode (stripped c ''comm'')\<rparr>"

definition parse_header :: "bytes \<Rightarrow> parse_error + parsed_header" where
  "parse_header raw =
     (if length raw < HEADER_SIZE then Inl (HeaderTooShort (length raw))
      else Inr (mk_header (read_struct CHeader (take HEADER_SIZE raw))))"

definition mk_exec :: "parsed_header \<Rightarrow> (string, cvalue) dict \<Rightarrow> parsed_event" where
  "mk_exec header c = ParsedExecEvent
     \<lparr>ex_header = header,
      ex_parent_tgid = int_field c ''parent_tgid'',
      ex_argc = int_field c ''argc'',
      ex_exec_flags = int_field c ''exec_flags'',
      ex_executable_path = utf8_text (stripped c ''executable_path''),
      ex_argv_digest = ascii_decode (stripped c ''argv_digest'')\<rparr>"

definition mk_file_open :: "parsed_header \<Rightarrow> (string, cvalue) dict \<Rightarrow> parsed_event" where
  "mk_file_open header c = ParsedFileOpenEvent
     \<lparr>fo_header = header,
      fo_fd = int_field c ''fd'',
      fo_open_flags = int_field c ''open_flags'',
      fo_mode = int_field c ''mode'',
      fo_syscall_result = int_field c ''syscall_result'',
      fo_path = utf8_text (stripped c ''path'')\<rparr>"

definition mk_file_write :: "parsed_header \<Rightarrow> (string, cvalue) dict \<Rightarrow> parsed_event" where
  "mk_file_write header c = ParsedFileWriteEvent
     \<lparr>fw_header = header,
      fw_fd = int_field c ''fd'',
      fw_requested_bytes = int_field c ''requested_bytes'',
      fw_result_bytes = int_field c ''result_bytes'',
      fw_file_inode = int_field c ''file_inode'',
      fw_file_device_major = int_field c ''file_device_major'',
      fw_file_device_minor = int_field c ''file_device_minor'',
      fw_path = utf8_text (stripped c ''path'')\<rparr>"

definition mk_network :: "parsed_header \<Rightarrow> (string, cvalue) dict \<Rightarrow> parsed_event" where
  "mk_network header c = ParsedNetworkEvent
     \<lparr>nw_header = header,
      nw_direction = int_field c ''direction'',
      nw_address_family = int_field c ''address_family'',
      nw_protocol = int_field c ''protocol'',
      nw_socket_type = int_field c ''socket_type'',
      nw_local_port = int_field c ''local_port'',
      nw_remote_port = int_field c ''remote_port'',
      nw_local_address = bytes_field c ''local_address'',
      nw_remote_address = bytes_field c ''remote_address'',
      nw_syscall_result = int_field c ''syscall_result''\<rparr>"

definition mk_privilege :: "parsed_header \<Rightarrow> (string, cvalue) dict \<Rightarrow> parsed_event" where
  "mk_privilege header c = ParsedPrivilegeEvent
     \<lparr>pv_header = header,
      pv_previous_uid = int_field c ''previous_uid'',
      pv_new_uid = int_field c ''new_uid'',
      pv_previous_gid = int_field c ''previous_gid'',
      pv_new_gid = int_field c ''new_gid'',
      pv_capability_effective_before = int_field c ''capability_effective_before'',
      pv_capability_effective_after = int_field c ''capability_effective_after'',
      pv_transition_kind = int_field c ''transition_kind''\<rparr>"

definition mk_namespace :: "parsed_header \<Rightarrow> (string, cvalue) dict \<Rightarrow> parsed_event" where
  "mk_namespace header c = ParsedNamespaceEvent
     \<lparr>ns_header = header,
      ns_namespace_type = int_field c ''namespace_type'',
      ns_operation = int_field c ''operation'',
      ns_previous_namespace_inode = int_field c ''previous_namespace_inode'',
      ns_target_namespace_inode = int_field c ''target_namespace_inode'',
      ns_syscall_result = int_field c ''syscall_result''\<rparr>"

definition mk_module_load :: "parsed_header \<Rightarrow> (string, cvalue) dict \<Rightarrow> parsed_event" where
  "mk_module_load header c = ParsedModuleLoadEvent
     \<lparr>ml_header = header,
      ml_operation = int_field c ''operation'',
      ml_syscall_result = int_field c ''syscall_result'',
      ml_module_name = utf8_text (stripped c ''module_name''),
      ml_module_digest = ascii_decode (stripped c ''module_digest'')\<rparr>"

definition mk_loss :: "parsed_header \<Rightarrow> (string, cvalue) dict \<Rightarrow> parsed_event" where
  "mk_loss header c = ParsedLossEvent
     \<lparr>ls_header = header,
      ls_dropped_since_last_report = int_field c ''dropped_since_last_report'',
      ls_ring_buffer_reserve_failures = int_field c ''ring_buffer_reserve_failures'',
      ls_user_space_submit_failures = int_field c ''user_space_submit_failures'',
      ls_loss_scope = int_field c ''loss_scope''\<rparr>"

text \<open>
  One branch of \<open>parse_event\<close>: the length check, then the structure read from a slice of exactly
  the expected size.
\<close>

definition parse_body ::
    "event_type \<Rightarrow> nat \<Rightarrow> layout \<Rightarrow> (parsed_header \<Rightarrow> (string, cvalue) dict \<Rightarrow> parsed_event)
      \<Rightarrow> parsed_header \<Rightarrow> bytes \<Rightarrow> parse_error + parsed_event" where
  "parse_body kind expected lay build header raw =
     (if length raw < expected then Inl (EventTooShort kind (length raw))
      else Inr (build header (read_struct lay (take expected raw))))"

definition parse_event :: "bytes \<Rightarrow> parse_error + parsed_event" where
  "parse_event raw =
     py_bind (parse_header raw) (\<lambda>header.
       if h_abi_version header \<noteq> PHANTOM_ABI_VERSION then Inl (AbiMismatch (h_abi_version header))
       else
         (let ev_type = h_event_type header in
          if ev_type = event_type_value EXEC then
            parse_body EXEC EXPECTED_EXEC_SIZE CExecEvent mk_exec header raw
          else if ev_type = event_type_value FILE_OPEN then
            parse_body FILE_OPEN EXPECTED_FILE_OPEN_SIZE CFileOpenEvent mk_file_open header raw
          else if ev_type = event_type_value FILE_WRITE then
            parse_body FILE_WRITE EXPECTED_FILE_WRITE_SIZE CFileWriteEvent mk_file_write header raw
          else if ev_type = event_type_value NET_CONNECT \<or> ev_type = event_type_value NET_ACCEPT then
            parse_body NET_CONNECT EXPECTED_NETWORK_SIZE CNetworkEvent mk_network header raw
          else if ev_type = event_type_value PRIVILEGE then
            parse_body PRIVILEGE EXPECTED_PRIVILEGE_SIZE CPrivilegeEvent mk_privilege header raw
          else if ev_type = event_type_value NAMESPACE then
            parse_body NAMESPACE EXPECTED_NAMESPACE_SIZE CNamespaceEvent mk_namespace header raw
          else if ev_type = event_type_value MODULE_LOAD then
            parse_body MODULE_LOAD EXPECTED_MODULE_SIZE CModuleLoadEvent mk_module_load header raw
          else if ev_type = event_type_value LOSS then
            parse_body LOSS EXPECTED_LOSS_SIZE CLossEvent mk_loss header raw
          else Inl (UnknownEventType ev_type)))"

section \<open>The wire format of an event\<close>

text \<open>
  What the kernel side writes: the values of an event in the order of its structure. Text is
  encoded as the parser decodes it.
\<close>

definition latin1_encode :: "codepoints \<Rightarrow> bytes" where
  "latin1_encode cs = map word_of_nat cs"

definition utf8_bytes :: "codepoints \<Rightarrow> bytes" where
  "utf8_bytes cs = map word_of_nat (utf8_encode cs)"

definition header_values :: "parsed_header \<Rightarrow> cvalue list" where
  "header_values h =
     map CInt
       [h_abi_version h, h_event_type h, h_total_size h, h_event_id_hi h, h_event_id_lo h,
        h_kernel_timestamp_ns h, h_cgroup_id h, h_pid_start_time_ns h, h_pid h, h_tgid h, h_ppid h,
        h_uid h, h_gid h, h_cpu h]
     @ [CBytes (latin1_encode (h_comm h))]"

fun event_header :: "parsed_event \<Rightarrow> parsed_header" where
  "event_header (ParsedExecEvent e) = ex_header e"
| "event_header (ParsedFileOpenEvent e) = fo_header e"
| "event_header (ParsedFileWriteEvent e) = fw_header e"
| "event_header (ParsedNetworkEvent e) = nw_header e"
| "event_header (ParsedPrivilegeEvent e) = pv_header e"
| "event_header (ParsedNamespaceEvent e) = ns_header e"
| "event_header (ParsedModuleLoadEvent e) = ml_header e"
| "event_header (ParsedLossEvent e) = ls_header e"

fun event_layout :: "parsed_event \<Rightarrow> layout" where
  "event_layout (ParsedExecEvent e) = CExecEvent"
| "event_layout (ParsedFileOpenEvent e) = CFileOpenEvent"
| "event_layout (ParsedFileWriteEvent e) = CFileWriteEvent"
| "event_layout (ParsedNetworkEvent e) = CNetworkEvent"
| "event_layout (ParsedPrivilegeEvent e) = CPrivilegeEvent"
| "event_layout (ParsedNamespaceEvent e) = CNamespaceEvent"
| "event_layout (ParsedModuleLoadEvent e) = CModuleLoadEvent"
| "event_layout (ParsedLossEvent e) = CLossEvent"

fun body_values :: "parsed_event \<Rightarrow> cvalue list" where
  "body_values (ParsedExecEvent e) =
     [CInt (ex_parent_tgid e), CInt (ex_argc e), CInt (ex_exec_flags e),
      CBytes (utf8_bytes (ex_executable_path e)), CBytes (latin1_encode (ex_argv_digest e))]"
| "body_values (ParsedFileOpenEvent e) =
     [CInt (fo_fd e), CInt (fo_open_flags e), CInt (fo_mode e), CInt (fo_syscall_result e),
      CBytes (utf8_bytes (fo_path e))]"
| "body_values (ParsedFileWriteEvent e) =
     [CInt (fw_fd e), CInt (fw_requested_bytes e), CInt (fw_result_bytes e),
      CInt (fw_file_inode e), CInt (fw_file_device_major e), CInt (fw_file_device_minor e),
      CBytes (utf8_bytes (fw_path e))]"
| "body_values (ParsedNetworkEvent e) =
     [CInt (nw_direction e), CInt (nw_address_family e), CInt (nw_protocol e),
      CInt (nw_socket_type e), CInt (nw_local_port e), CInt (nw_remote_port e),
      CBytes (nw_local_address e), CBytes (nw_remote_address e), CInt (nw_syscall_result e)]"
| "body_values (ParsedPrivilegeEvent e) =
     map CInt
       [pv_previous_uid e, pv_new_uid e, pv_previous_gid e, pv_new_gid e,
        pv_capability_effective_before e, pv_capability_effective_after e, pv_transition_kind e]"
| "body_values (ParsedNamespaceEvent e) =
     map CInt
       [ns_namespace_type e, ns_operation e, ns_previous_namespace_inode e,
        ns_target_namespace_inode e, ns_syscall_result e]"
| "body_values (ParsedModuleLoadEvent e) =
     [CInt (ml_operation e), CInt (ml_syscall_result e),
      CBytes (utf8_bytes (ml_module_name e)), CBytes (latin1_encode (ml_module_digest e))]"
| "body_values (ParsedLossEvent e) =
     map CInt
       [ls_dropped_since_last_report e, ls_ring_buffer_reserve_failures e,
        ls_user_space_submit_failures e, ls_loss_scope e]"

definition event_values :: "parsed_event \<Rightarrow> cvalue list" where
  "event_values e = CStruct (write_struct CHeader (header_values (event_header e))) # body_values e"

definition emit_event :: "parsed_event \<Rightarrow> bytes" where
  "emit_event e = write_struct (event_layout e) (event_values e)"

text \<open>
  A well-formed event: every integer fits its field, every text can be stored in its field and read
  back, the type field names the constructor, and the ABI version is the current one.
\<close>

fun event_kinds :: "parsed_event \<Rightarrow> event_type list" where
  "event_kinds (ParsedExecEvent e) = [EXEC]"
| "event_kinds (ParsedFileOpenEvent e) = [FILE_OPEN]"
| "event_kinds (ParsedFileWriteEvent e) = [FILE_WRITE]"
| "event_kinds (ParsedNetworkEvent e) = [NET_CONNECT, NET_ACCEPT]"
| "event_kinds (ParsedPrivilegeEvent e) = [PRIVILEGE]"
| "event_kinds (ParsedNamespaceEvent e) = [NAMESPACE]"
| "event_kinds (ParsedModuleLoadEvent e) = [MODULE_LOAD]"
| "event_kinds (ParsedLossEvent e) = [LOSS]"

definition single_byte_text :: "nat \<Rightarrow> codepoints \<Rightarrow> bool" where
  "single_byte_text bound cs \<longleftrightarrow> (\<forall>c \<in> set cs. 0 < c \<and> c < bound)"

definition scalar_text :: "codepoints \<Rightarrow> bool" where
  "scalar_text cs \<longleftrightarrow> (\<forall>c \<in> set cs. 0 < c \<and> is_scalar c)"

fun texts_ok :: "parsed_event \<Rightarrow> bool" where
  "texts_ok (ParsedExecEvent e) =
     (scalar_text (ex_executable_path e) \<and> single_byte_text 128 (ex_argv_digest e))"
| "texts_ok (ParsedFileOpenEvent e) = scalar_text (fo_path e)"
| "texts_ok (ParsedFileWriteEvent e) = scalar_text (fw_path e)"
| "texts_ok (ParsedModuleLoadEvent e) =
     (scalar_text (ml_module_name e) \<and> single_byte_text 128 (ml_module_digest e))"
| "texts_ok _ = True"

definition wf_header :: "parsed_header \<Rightarrow> bool" where
  "wf_header h \<longleftrightarrow> fits CHeader (header_values h) \<and> single_byte_text 256 (h_comm h)"

definition wf_event :: "parsed_event \<Rightarrow> bool" where
  "wf_event e \<longleftrightarrow>
     wf_header (event_header e) \<and> h_abi_version (event_header e) = PHANTOM_ABI_VERSION
     \<and> h_event_type (event_header e) \<in> event_type_value ` set (event_kinds e)
     \<and> fits (event_layout e) (event_values e) \<and> texts_ok e"


section \<open>Sizes and lookups\<close>

lemma struct_sizes:
  "lsize CHeader = HEADER_SIZE"
  "lsize CExecEvent = EXPECTED_EXEC_SIZE"
  "lsize CFileOpenEvent = EXPECTED_FILE_OPEN_SIZE"
  "lsize CFileWriteEvent = EXPECTED_FILE_WRITE_SIZE"
  "lsize CNetworkEvent = EXPECTED_NETWORK_SIZE"
  "lsize CPrivilegeEvent = EXPECTED_PRIVILEGE_SIZE"
  "lsize CNamespaceEvent = EXPECTED_NAMESPACE_SIZE"
  "lsize CModuleLoadEvent = EXPECTED_MODULE_SIZE"
  "lsize CLossEvent = EXPECTED_LOSS_SIZE"
  by (simp_all add: layout_defs size_defs)

lemma int_field_Cons [simp]:
  "int_field ((n, v) # c) name =
     (if n = name then (case v of CInt i \<Rightarrow> i | _ \<Rightarrow> 0) else int_field c name)"
  by (simp add: int_field_def dict_get_def)

lemma bytes_field_Cons [simp]:
  "bytes_field ((n, v) # c) name =
     (if n = name then (case v of CBytes b \<Rightarrow> b | _ \<Rightarrow> []) else bytes_field c name)"
  by (simp add: bytes_field_def dict_get_def)

lemma stripped_Cons [simp]:
  "stripped ((n, v) # c) name =
     (if n = name then rstrip 0 (case v of CBytes b \<Rightarrow> b | _ \<Rightarrow> []) else stripped c name)"
  by (simp add: stripped_def)

text \<open>
  Text survives being encoded, stored in a NUL-padded array, stripped and decoded.\<close>

lemma unat_of_nat_bytes: "\<forall>c \<in> set cs. c < 256 \<Longrightarrow> map unat (map word_of_nat cs :: bytes) = cs"
  by (simp add: map_idI)

lemma zero_notin_bytes: "\<forall>c \<in> set cs. 0 < c \<and> c < 256 \<Longrightarrow> 0 \<notin> set (map word_of_nat cs :: bytes)"
proof
  assume ok: "\<forall>c \<in> set cs. 0 < c \<and> c < 256" and "0 \<in> set (map word_of_nat cs :: bytes)"
  then obtain c where c: "c \<in> set cs" "(word_of_nat c :: 8 word) = 0" by auto
  from ok c(1) have "unat (word_of_nat c :: 8 word) = c" by simp
  with c ok show False by (metis less_irrefl unsigned_0)
qed

lemma latin1_text [text_simps]:
  "single_byte_text 256 cs \<Longrightarrow> latin1_decode (rstrip 0 (latin1_encode cs)) = cs"
  by (simp add: single_byte_text_def latin1_decode_def latin1_encode_def rstrip_id zero_notin_bytes
      del: set_map) (simp add: map_idI)

lemma ascii_text [text_simps]:
  assumes "single_byte_text 128 cs"
  shows "ascii_decode (rstrip 0 (latin1_encode cs)) = cs"
proof -
  have "0 \<notin> set (latin1_encode cs)"
    unfolding latin1_encode_def using assms
    by (intro zero_notin_bytes) (auto simp: single_byte_text_def)
  then show ?thesis
    using assms by (auto simp: rstrip_id ascii_decode_def latin1_encode_def single_byte_text_def
        intro!: map_idI)
qed

lemma utf8_roundtrip_text [text_simps]:
  assumes "scalar_text cs"
  shows "utf8_text (rstrip 0 (utf8_bytes cs)) = cs"
proof -
  have lt: "\<forall>b \<in> set (utf8_encode cs). 0 < b \<and> b < 256"
    using assms utf8_encode1_bytes utf8_encode1_no_nul
    by (fastforce simp: utf8_encode_def scalar_text_def intro!: gr0I)
  then have "map unat (utf8_bytes cs) = utf8_encode cs"
    by (simp add: utf8_bytes_def map_idI)
  moreover have "rstrip 0 (utf8_bytes cs) = utf8_bytes cs"
    unfolding utf8_bytes_def using lt by (intro rstrip_id zero_notin_bytes)
  ultimately show ?thesis
    using assms by (simp add: utf8_text_def utf8_decode_encode scalar_text_def)
qed

section \<open>Round trip\<close>

lemma mk_header_values:
  "single_byte_text 256 (h_comm h) \<Longrightarrow> mk_header (zip (map fst CHeader) (header_values h)) = h"
  by (simp add: mk_header_def CHeader_def header_values_def latin1_text)

lemma parse_header_emitted:
  assumes "wf_header h"
  shows "parse_header (write_struct CHeader (header_values h) @ rest) = Inr h"
proof -
  have fit: "fits CHeader (header_values h)" and tx: "single_byte_text 256 (h_comm h)"
    using assms by (simp_all add: wf_header_def)
  then show ?thesis
    by (simp add: parse_header_def read_struct_take read_write_struct struct_sizes mk_header_values
        length_write_struct del: take_append)
qed

lemma emit_event_header:
  "emit_event e = write_struct CHeader (header_values (event_header e))
     @ write_struct (tl (event_layout e)) (body_values e)"
  by (cases e) (simp_all add: emit_event_def event_values_def layout_defs)

lemma read_emitted:
  assumes "wf_event e"
  shows "read_struct (event_layout e) (take (lsize (event_layout e)) (emit_event e @ rest))
      = zip (map fst (event_layout e)) (event_values e)"
    and "lsize (event_layout e) \<le> length (emit_event e @ rest)"
  using assms
  by (simp_all add: wf_event_def emit_event_def read_struct_take read_write_struct length_write_struct
      del: take_append)

lemma parse_body_emitted:
  assumes "wf_event e" and "event_layout e = lay" and "lsize lay = n"
  shows "parse_body kind n lay build h (emit_event e @ rest)
      = Inr (build h (zip (map fst lay) (event_values e)))"
  using read_emitted [OF assms(1), of rest] assms(2,3) by (simp add: parse_body_def)

text \<open>
  Building the dataclass from the values of an event gives the event back.\<close>

lemma built_events:
  "texts_ok (ParsedExecEvent x1) \<Longrightarrow>
     mk_exec (ex_header x1) (zip (map fst CExecEvent) (event_values (ParsedExecEvent x1))) = ParsedExecEvent x1"
  "texts_ok (ParsedFileOpenEvent x2) \<Longrightarrow>
     mk_file_open (fo_header x2) (zip (map fst CFileOpenEvent) (event_values (ParsedFileOpenEvent x2))) = ParsedFileOpenEvent x2"
  "texts_ok (ParsedFileWriteEvent x3) \<Longrightarrow>
     mk_file_write (fw_header x3) (zip (map fst CFileWriteEvent) (event_values (ParsedFileWriteEvent x3))) = ParsedFileWriteEvent x3"
  "mk_network (nw_header x4) (zip (map fst CNetworkEvent) (event_values (ParsedNetworkEvent x4))) = ParsedNetworkEvent x4"
  "mk_privilege (pv_header x5) (zip (map fst CPrivilegeEvent) (event_values (ParsedPrivilegeEvent x5))) = ParsedPrivilegeEvent x5"
  "mk_namespace (ns_header x6) (zip (map fst CNamespaceEvent) (event_values (ParsedNamespaceEvent x6))) = ParsedNamespaceEvent x6"
  "texts_ok (ParsedModuleLoadEvent x7) \<Longrightarrow>
     mk_module_load (ml_header x7) (zip (map fst CModuleLoadEvent) (event_values (ParsedModuleLoadEvent x7))) = ParsedModuleLoadEvent x7"
  "mk_loss (ls_header x8) (zip (map fst CLossEvent) (event_values (ParsedLossEvent x8))) = ParsedLossEvent x8"
  by (simp_all add: mk_exec_def mk_file_open_def mk_file_write_def mk_network_def mk_privilege_def
      mk_namespace_def mk_module_load_def mk_loss_def event_values_def body_layout_defs text_simps)

text \<open>The branch of \<open>parse_event\<close> that the type field selects, as a table.\<close>

fun kind_layout :: "event_type \<Rightarrow> layout" where
  "kind_layout EXEC = CExecEvent"
| "kind_layout FILE_OPEN = CFileOpenEvent"
| "kind_layout FILE_WRITE = CFileWriteEvent"
| "kind_layout NET_CONNECT = CNetworkEvent"
| "kind_layout NET_ACCEPT = CNetworkEvent"
| "kind_layout PRIVILEGE = CPrivilegeEvent"
| "kind_layout NAMESPACE = CNamespaceEvent"
| "kind_layout MODULE_LOAD = CModuleLoadEvent"
| "kind_layout LOSS = CLossEvent"

fun kind_build :: "event_type \<Rightarrow> parsed_header \<Rightarrow> (string, cvalue) dict \<Rightarrow> parsed_event" where
  "kind_build EXEC = mk_exec"
| "kind_build FILE_OPEN = mk_file_open"
| "kind_build FILE_WRITE = mk_file_write"
| "kind_build NET_CONNECT = mk_network"
| "kind_build NET_ACCEPT = mk_network"
| "kind_build PRIVILEGE = mk_privilege"
| "kind_build NAMESPACE = mk_namespace"
| "kind_build MODULE_LOAD = mk_module_load"
| "kind_build LOSS = mk_loss"

lemma parse_event_branch:
  assumes "parse_header raw = Inr h" and "h_abi_version h = PHANTOM_ABI_VERSION"
    and "h_event_type h = event_type_value k"
  shows "parse_event raw =
     parse_body (if k = NET_ACCEPT then NET_CONNECT else k) (lsize (kind_layout k)) (kind_layout k)
       (kind_build k) h raw"
  using assms by (cases k) (simp_all add: parse_event_def struct_sizes)

lemma event_type_value_range: "event_type_value k \<in> {1..9}"
  by (cases k) simp_all

lemma event_type_value_onto: "v \<in> {1..9} \<Longrightarrow> \<exists>k. v = event_type_value k"
proof -
  assume "v \<in> {1..9}"
  then have "v = 1 \<or> v = 2 \<or> v = 3 \<or> v = 4 \<or> v = 5 \<or> v = 6 \<or> v = 7 \<or> v = 8 \<or> v = 9" by auto
  then show ?thesis by (metis event_type_value.simps)
qed

lemma parse_event_unknown:
  assumes "parse_header raw = Inr h" and "h_abi_version h = PHANTOM_ABI_VERSION"
    and "h_event_type h \<notin> {1..9}"
  shows "parse_event raw = Inl (UnknownEventType (h_event_type h))"
  using assms by (auto simp: parse_event_def)

lemma kind_of_event:
  assumes "k \<in> set (event_kinds e)" and "texts_ok e"
  shows "kind_layout k = event_layout e"
    and "kind_build k (event_header e) (zip (map fst (event_layout e)) (event_values e)) = e"
  using assms by (cases e; auto simp: built_events simp del: texts_ok.simps)+

lemma parse_emitted:
  assumes "wf_event e"
  shows "parse_event (emit_event e @ rest) = Inr e"
proof -
  have hdr: "parse_header (emit_event e @ rest) = Inr (event_header e)"
    using assms by (simp add: emit_event_header parse_header_emitted wf_event_def)
  have abi: "h_abi_version (event_header e) = PHANTOM_ABI_VERSION" and tx: "texts_ok e"
    using assms by (simp_all add: wf_event_def)
  obtain k where k: "h_event_type (event_header e) = event_type_value k" "k \<in> set (event_kinds e)"
    using assms by (auto simp: wf_event_def)
  show ?thesis
    by (simp add: parse_event_branch [OF hdr abi k(1)] kind_of_event [OF k(2) tx]
        parse_body_emitted [OF assms refl refl])
qed


section \<open>What is accepted, and what an accepted event looks like\<close>

text \<open>The first two fields of the header, and the record sizes the module documentation lists.\<close>

definition wire_abi :: "bytes \<Rightarrow> nat" where
  "wire_abi raw = le_nat (take 2 raw)"

definition wire_type :: "bytes \<Rightarrow> nat" where
  "wire_type raw = le_nat (take 2 (drop 2 raw))"

definition documented_record :: "nat \<Rightarrow> (event_type \<times> nat) option" where
  "documented_record v =
     map_of [(1, EXEC, 4261), (2, FILE_OPEN, 4200), (3, FILE_WRITE, 4216), (4, NET_CONNECT, 132),
       (5, NET_CONNECT, 132), (6, PRIVILEGE, 124), (7, NAMESPACE, 116), (8, MODULE_LOAD, 225),
       (9, LOSS, 116)] v"

definition rejection :: "bytes \<Rightarrow> parse_error option" where
  "rejection raw =
     (if length raw < 88 then Some (HeaderTooShort (length raw))
      else if wire_abi raw \<noteq> 1 then Some (AbiMismatch (int (wire_abi raw)))
      else (case documented_record (wire_type raw) of
              None \<Rightarrow> Some (UnknownEventType (int (wire_type raw)))
            | Some (k, n) \<Rightarrow> if length raw < n then Some (EventTooShort k (length raw)) else None))"

lemma mk_header_first_fields:
  "h_abi_version (mk_header (read_struct CHeader bs)) = int (wire_abi bs)"
  "h_event_type (mk_header (read_struct CHeader bs)) = int (wire_type bs)"
  by (simp_all add: mk_header_def CHeader_def wire_abi_def wire_type_def)

lemma parse_header_ok:
  assumes "88 \<le> length raw"
  shows "parse_header raw = Inr (mk_header (read_struct CHeader raw))"
  using assms by (simp add: parse_header_def HEADER_SIZE_def read_struct_take struct_sizes)

lemma documented_kind:
  "documented_record (nat (event_type_value k)) =
     Some (if k = NET_ACCEPT then NET_CONNECT else k, lsize (kind_layout k))"
  by (cases k) (simp_all add: documented_record_def struct_sizes size_defs)

lemma documented_none: "int v \<notin> {1..9} \<Longrightarrow> documented_record v = None"
  by (auto simp: documented_record_def)

lemma parse_event_by_rejection:
  "case rejection raw of
     Some err \<Rightarrow> parse_event raw = Inl err
   | None \<Rightarrow> \<exists>k. int (wire_type raw) = event_type_value k \<and> wire_abi raw = 1
        \<and> 88 \<le> length raw \<and> lsize (kind_layout k) \<le> length raw
        \<and> parse_event raw = Inr (kind_build k (mk_header (read_struct CHeader raw))
                                  (read_struct (kind_layout k) raw))"
proof (cases "length raw < 88")
  case True
  then show ?thesis by (simp add: rejection_def parse_event_def parse_header_def HEADER_SIZE_def)
next
  case long: False
  let ?h = "mk_header (read_struct CHeader raw)"
  have hdr: "parse_header raw = Inr ?h" using long by (simp add: parse_header_ok)
  show ?thesis
  proof (cases "wire_abi raw = 1")
    case False
    then show ?thesis
      using long by (simp add: rejection_def parse_event_def hdr mk_header_first_fields PHANTOM_ABI_VERSION_def)
  next
    case True
    then have abi: "h_abi_version ?h = PHANTOM_ABI_VERSION"
      by (simp add: mk_header_first_fields PHANTOM_ABI_VERSION_def)
    show ?thesis
    proof (cases "int (wire_type raw) \<in> {1..9}")
      case False
      with parse_event_unknown [OF hdr abi] long True documented_none [OF False] show ?thesis
        by (simp add: rejection_def mk_header_first_fields)
    next
      case known: True
      obtain k where k: "int (wire_type raw) = event_type_value k"
        using event_type_value_onto [OF known] by blast
      then have "h_event_type ?h = event_type_value k" by (simp add: mk_header_first_fields)
      note branch = parse_event_branch [OF hdr abi this]
      have doc: "documented_record (wire_type raw) =
          Some (if k = NET_ACCEPT then NET_CONNECT else k, lsize (kind_layout k))"
        using documented_kind [of k] by (simp flip: k)
      show ?thesis
        using long True doc k
        by (auto simp: rejection_def branch parse_body_def read_struct_take intro!: exI [of _ k])
    qed
  qed
qed

text \<open>Every field of a parsed event is in the range of its C type, and its text is clean.\<close>

definition field_ok :: "ctype \<Rightarrow> cvalue \<Rightarrow> bool" where
  "field_ok t v =
     (case v of
        CInt i \<Rightarrow> cfits t v
      | CBytes b \<Rightarrow> (case t of c_uint8_array n \<Rightarrow> length b = n | _ \<Rightarrow> True)
      | CStruct b \<Rightarrow> True)"

definition fields_ok :: "layout \<Rightarrow> cvalue list \<Rightarrow> bool" where
  "fields_ok fs vs = list_all2 (\<lambda>(name, t) v. field_ok t v) fs vs"

definition digest_text :: "codepoints \<Rightarrow> bool" where
  "digest_text cs \<longleftrightarrow> length cs \<le> 65 \<and> (\<forall>c \<in> set cs. 0 < c \<and> (c < 128 \<or> c = replacement))"

fun parsed_texts_ok :: "parsed_event \<Rightarrow> bool" where
  "parsed_texts_ok (ParsedExecEvent e) =
     (scalar_text (ex_executable_path e) \<and> length (ex_executable_path e) \<le> PHANTOM_PATH_MAX
      \<and> digest_text (ex_argv_digest e))"
| "parsed_texts_ok (ParsedFileOpenEvent e) =
     (scalar_text (fo_path e) \<and> length (fo_path e) \<le> PHANTOM_PATH_MAX)"
| "parsed_texts_ok (ParsedFileWriteEvent e) =
     (scalar_text (fw_path e) \<and> length (fw_path e) \<le> PHANTOM_PATH_MAX)"
| "parsed_texts_ok (ParsedModuleLoadEvent e) =
     (scalar_text (ml_module_name e) \<and> length (ml_module_name e) \<le> 64
      \<and> digest_text (ml_module_digest e))"
| "parsed_texts_ok _ = True"

definition parsed_ok :: "parsed_event \<Rightarrow> bool" where
  "parsed_ok e \<longleftrightarrow>
     fields_ok CHeader (header_values (event_header e))
     \<and> single_byte_text 256 (h_comm (event_header e)) \<and> length (h_comm (event_header e)) \<le> 16
     \<and> h_abi_version (event_header e) = PHANTOM_ABI_VERSION
     \<and> h_event_type (event_header e) \<in> event_type_value ` set (event_kinds e)
     \<and> fields_ok (event_layout e) (event_values e) \<and> parsed_texts_ok e"

lemma fields_ok_simps [simp]:
  "fields_ok [] vs \<longleftrightarrow> vs = []"
  "fields_ok ((name, t) # fs) (v # vs) \<longleftrightarrow> field_ok t v \<and> fields_ok fs vs"
  by (simp_all add: fields_ok_def)

lemma field_ok_simps [simp]:
  "field_ok t (CInt i) = cfits t (CInt i)"
  "field_ok (c_char_array n) (CBytes b)"
  "field_ok (c_uint8_array n) (CBytes b) \<longleftrightarrow> length b = n"
  "field_ok t (CStruct b)"
  by (simp_all add: field_ok_def)

lemma takeWhile_no_nul: "0 \<notin> set (takeWhile (\<lambda>b. b \<noteq> 0) bs)"
  by (auto dest: set_takeWhileD)

lemma array_text:
  fixes bs :: bytes
  defines "cs \<equiv> rstrip 0 (takeWhile (\<lambda>b. b \<noteq> 0) bs)"
  assumes "length bs \<le> n"
  shows "scalar_text (utf8_text cs)" and "length (utf8_text cs) \<le> n"
    and "\<forall>c \<in> set (ascii_decode cs). 0 < c \<and> (c < 128 \<or> c = replacement)"
    and "length (ascii_decode cs) \<le> n"
    and "single_byte_text 256 (latin1_decode cs)" and "length (latin1_decode cs) \<le> n"
proof -
  have cs: "cs = takeWhile (\<lambda>b. b \<noteq> 0) bs"
    unfolding cs_def by (rule rstrip_id) (rule takeWhile_no_nul)
  have nul: "0 \<notin> unat ` set cs"
    using takeWhile_no_nul [of bs] by (auto simp: cs unat_eq_0)
  have len: "length cs \<le> n"
    using assms length_takeWhile_le [of "\<lambda>b. b \<noteq> 0" bs] by (simp add: cs)
  show "scalar_text (utf8_text cs)"
    using utf8_decode_no_nul [of "map unat cs"] nul
    by (auto simp: scalar_text_def utf8_text_def intro: utf8_decode_scalar gr0I)
  show "length (utf8_text cs) \<le> n"
    using length_utf8_decode [of "map unat cs"] len by (simp add: utf8_text_def)
  show "\<forall>c \<in> set (ascii_decode cs). 0 < c \<and> (c < 128 \<or> c = replacement)"
    using nul by (auto simp: ascii_decode_def replacement_def intro!: gr0I)
  show "single_byte_text 256 (latin1_decode cs)"
    using nul by (auto simp: single_byte_text_def latin1_decode_def unat_byte_less intro!: gr0I)
  show "length (ascii_decode cs) \<le> n" "length (latin1_decode cs) \<le> n"
    using len by (simp_all add: ascii_decode_def latin1_decode_def)
qed

lemmas array_text_clean = array_text(1,3,5) [OF order_refl]
lemmas array_text_bounds = array_text(2,4,6)

lemma mk_header_ok:
  assumes "88 \<le> length raw"
  shows "fields_ok CHeader (header_values (mk_header (read_struct CHeader raw)))"
    and "single_byte_text 256 (h_comm (mk_header (read_struct CHeader raw)))"
    and "length (h_comm (mk_header (read_struct CHeader raw))) \<le> 16"
proof -
  have "fits CHeader (map snd (read_struct CHeader raw))"
    using assms by (intro read_struct_fits) (simp add: struct_sizes HEADER_SIZE_def)
  then show "fields_ok CHeader (header_values (mk_header (read_struct CHeader raw)))"
    by (simp add: CHeader_def mk_header_def header_values_def)
  show "single_byte_text 256 (h_comm (mk_header (read_struct CHeader raw)))"
    "length (h_comm (mk_header (read_struct CHeader raw))) \<le> 16"
    by (simp_all add: CHeader_def mk_header_def array_text_clean array_text_bounds)
qed

lemmas kind_build_defs =
  mk_exec_def mk_file_open_def mk_file_write_def mk_network_def mk_privilege_def mk_namespace_def
  mk_module_load_def mk_loss_def

lemma kind_build_header:
  "event_header (kind_build k h c) = h" "k \<in> set (event_kinds (kind_build k h c))"
  "event_layout (kind_build k h c) = kind_layout k"
  by (cases k; simp add: kind_build_defs)+

lemma kind_build_ok:
  fixes h :: parsed_header
  assumes "lsize (kind_layout k) \<le> length raw"
  defines "e \<equiv> kind_build k h (read_struct (kind_layout k) raw)"
  shows "fields_ok (kind_layout k) (event_values e)" and "parsed_texts_ok e"
proof -
  have "fits (kind_layout k) (map snd (read_struct (kind_layout k) raw))"
    using assms(1) by (rule read_struct_fits)
  then show "fields_ok (kind_layout k) (event_values e)"
    by (cases k) (simp_all add: e_def kind_build_defs body_layout_defs event_values_def)
  show "parsed_texts_ok e"
    by (cases k) (simp_all add: e_def kind_build_defs body_layout_defs digest_text_def array_text_clean
        array_text_bounds)
qed

lemma parse_event_parsed_ok:
  assumes "parse_event raw = Inr e"
  shows "parsed_ok e"
proof -
  have "rejection raw = None"
    using assms parse_event_by_rejection [of raw] by (auto split: option.splits)
  then obtain k where k: "int (wire_type raw) = event_type_value k" "wire_abi raw = 1" "88 \<le> length raw"
      "lsize (kind_layout k) \<le> length raw"
      and e: "e = kind_build k (mk_header (read_struct CHeader raw)) (read_struct (kind_layout k) raw)"
    using assms parse_event_by_rejection [of raw] by auto
  have ev: "event_header e = mk_header (read_struct CHeader raw)" "k \<in> set (event_kinds e)"
    "event_layout e = kind_layout k"
    by (simp_all add: e kind_build_header)
  have "fields_ok (kind_layout k) (event_values e)" and "parsed_texts_ok e"
    unfolding e by (rule kind_build_ok [OF k(4)])+
  with k mk_header_ok [OF k(3)] ev show ?thesis
    by (auto simp: parsed_ok_def mk_header_first_fields PHANTOM_ABI_VERSION_def)
qed


section \<open>Properties of the parser\<close>

text \<open>
  C1: The decoder rejects exactly the buffers that are shorter than a header, carry another ABI
version, carry a type outside 1..9, or are shorter than the documented record of their type, each
with its own error, tested in that order; it accepts every other buffer and no other check is
made.\<close>

theorem parse_event_rejects_exactly: "parse_event raw = Inl err \<longleftrightarrow> rejection raw = Some err"
  using parse_event_by_rejection [of raw] by (auto split: option.splits)

text \<open>
  C2: Round trip: a well-formed event laid out as its packed structure, followed by anything, is
parsed back to the same event (UTF-8 paths, NUL padding, signed and unsigned fields included).\<close>

theorem parse_event_roundtrip:
  assumes "wf_event e"
  shows "parse_event (emit_event e @ rest) = Inr e"
  using assms by (rule parse_emitted)

definition sample_module_event :: parsed_event where
  "sample_module_event = ParsedModuleLoadEvent
     \<lparr>ml_header =
        \<lparr>h_abi_version = 1, h_event_type = 8, h_total_size = 225, h_event_id_hi = 7,
         h_event_id_lo = 2 ^ 63, h_kernel_timestamp_ns = 5, h_cgroup_id = 11,
         h_pid_start_time_ns = 3, h_pid = 40, h_tgid = 40, h_ppid = 1, h_uid = 0, h_gid = 0,
         h_cpu = 2, h_comm = [109, 111, 100, 233]\<rparr>,
      ml_operation = 1, ml_syscall_result = - 22,
      ml_module_name = [110, 8364, 128512], ml_module_digest = [97, 98]\<rparr>"

lemma sample_module_event_wf: "wf_event sample_module_event"
  by (simp add: sample_module_event_def wf_event_def wf_header_def header_values_def event_values_def
      layout_defs PHANTOM_ABI_VERSION_def single_byte_text_def scalar_text_def is_scalar_def
      latin1_encode_def utf8_bytes_def utf8_encode_def utf8_encode1_def)

lemma parse_event_roundtrip_witness:
  "wf_event sample_module_event
   \<and> parse_event (emit_event sample_module_event @ [1, 2, 3]) = Inr sample_module_event"
  using parse_event_roundtrip [OF sample_module_event_wf] sample_module_event_wf by simp

text \<open>
  C3: Type safety of the decoder: in every event it returns, each integer is in the range of its
C type, addresses have 16 bytes, the constructor agrees with the type field, the ABI version is the
current one, and every text is NUL-free, made of Unicode scalar values and no longer than its
array.\<close>

theorem parse_event_well_typed:
  assumes "parse_event raw = Inr e"
  shows "parsed_ok e"
  using assms by (rule parse_event_parsed_ok)

lemma parse_event_well_typed_witness:
  "parse_event (emit_event sample_module_event) = Inr sample_module_event
   \<and> parsed_ok sample_module_event"
proof -
  have p: "parse_event (emit_event sample_module_event) = Inr sample_module_event"
    using parse_emitted [OF sample_module_event_wf, of "[]"] by simp
  show ?thesis using parse_event_well_typed [OF p] p by simp
qed

text \<open>
  An accepted buffer is decoded from the bytes of its record only: replacing everything after
the documented record size of its type changes nothing.\<close>

theorem parse_event_reads_record_only:
  assumes "parse_event raw = Inr e" and "documented_record (wire_type raw) = Some (k, n)"
  shows "parse_event (take n raw @ rest) = Inr e"
proof -
  have none: "rejection raw = None"
    using assms(1) parse_event_by_rejection [of raw] by (auto split: option.splits)
  then obtain j where j: "int (wire_type raw) = event_type_value j" "wire_abi raw = 1" "88 \<le> length raw"
      "lsize (kind_layout j) \<le> length raw"
      and e: "e = kind_build j (mk_header (read_struct CHeader raw)) (read_struct (kind_layout j) raw)"
    using assms(1) parse_event_by_rejection [of raw] by auto
  have n: "n = lsize (kind_layout j)"
    using documented_kind [of j] assms(2) j(1) by (metis nat_int option.inject prod.inject)
  let ?raw = "take n raw @ rest"
  have n88: "88 \<le> n" by (cases j) (simp_all add: n struct_sizes size_defs)
  have len: "length (take n raw) = n" using j(4) n by simp
  have same: "read_struct fs ?raw = read_struct fs raw" if "lsize fs \<le> n" for fs
    using that len by (simp add: read_struct_append read_struct_take)
  have two: "take 2 ?raw = take 2 raw" "take 2 (drop 2 ?raw) = take 2 (drop 2 raw)"
    using n88 j(3) by (simp_all add: take_drop min_absorb1)
  then have wire: "wire_abi ?raw = wire_abi raw" "wire_type ?raw = wire_type raw"
    by (simp_all only: wire_abi_def wire_type_def)
  have "\<not> length ?raw < 88" using n88 len by simp
  then have "rejection ?raw = None"
    using j(2) assms(2) len by (simp add: rejection_def wire)
  then obtain i where i: "int (wire_type ?raw) = event_type_value i"
      and p: "parse_event ?raw = Inr (kind_build i (mk_header (read_struct CHeader ?raw)) (read_struct (kind_layout i) ?raw))"
    using parse_event_by_rejection [of ?raw] by auto
  have "event_type_value i = event_type_value j" using i j(1) wire by simp
  then have "i = j" by (cases i; cases j) simp_all
  with p e same n n88 show ?thesis by (simp add: struct_sizes HEADER_SIZE_def)
qed

lemma parse_event_reads_record_only_witness:
  "parse_event (take 225 (emit_event sample_module_event) @ [9, 9]) = Inr sample_module_event"
proof -
  have p: "parse_event (emit_event sample_module_event) = Inr sample_module_event"
    using parse_emitted [OF sample_module_event_wf, of "[]"] by simp
  have "wire_type (emit_event sample_module_event) = 8"
    by (simp add: wire_type_def emit_event_header sample_module_event_def header_values_def
        CHeader_def unsigned_of_def le_nat_le_bytes)
  then have "documented_record (wire_type (emit_event sample_module_event)) = Some (MODULE_LOAD, 225)"
    by (simp add: documented_record_def)
  from parse_event_reads_record_only [OF p this] show ?thesis .
qed

end
