(* ===== verification/Markov_Chain.thy ===== *)
theory Markov_Chain
  imports Prelude
begin

text \<open>
  The behavioural contract model, \<open>domain/markov/chain.py\<close>: tokens and their normalisation \<open>tau\<close>,
  the sparse count maps, the BIC scores, the trained model with \<open>predict\<close>, and the training
  algorithm \<open>train\<close> (order selection, context pruning, Laplace smoothing).

  The lemmas show what the count maps count, that pruning retains exactly the contexts its rule
  names, that every retained context gets a probability distribution over the alphabet, and that
  prediction is total and positive. A frozenset is a set; where the code iterates one the model
  uses insertion order, and no property depends on the order.
\<close>

section \<open>Tokens\<close>

type_synonym token = "string \<times> string \<times> string \<times> string"

type_synonym mcontext = "token list"

definition UNK_TOKEN :: string where
  "UNK_TOKEN = ''UNK''"

definition OTHER_RESOURCE_TOKEN :: string where
  "OTHER_RESOURCE_TOKEN = ''OTHER_RESOURCE''"

definition VALID_OPERATION_CLASSES :: "string list" where
  "VALID_OPERATION_CLASSES =
     [''exec'', ''read'', ''write'', ''connect'', ''accept'', ''credential_change'',
      ''namespace_change'', ''module_change'']"

definition VALID_PRIVILEGE_CLASSES :: "string list" where
  "VALID_PRIVILEGE_CLASSES = [''unprivileged'', ''elevated'', ''unknown'']"

definition tau :: "string \<Rightarrow> string \<Rightarrow> string \<Rightarrow> string \<Rightarrow> token" where
  "tau event_type operation_class resource_class privilege_class =
     (let op = (if operation_class \<in> set VALID_OPERATION_CLASSES then operation_class else ''exec'');
          res = (if resource_class \<noteq> [] then resource_class else OTHER_RESOURCE_TOKEN);
          priv = (if privilege_class \<in> set VALID_PRIVILEGE_CLASSES then privilege_class
                  else ''unknown'')
      in (event_type, op, res, priv))"

section \<open>Sparse count maps\<close>

type_synonym row = "(token, nat) dict"

type_synonym count_map = "(mcontext, row) dict"

text \<open>\<open>best_cm.get(ctx, {})\<close>\<close>

definition row_of :: "count_map \<Rightarrow> mcontext \<Rightarrow> row" where
  "row_of cm c = (case dict_get cm c of None \<Rightarrow> [] | Some r \<Rightarrow> r)"

definition count_in :: "row \<Rightarrow> token \<Rightarrow> nat" where
  "count_in r t = (case dict_get r t of None \<Rightarrow> 0 | Some n \<Rightarrow> n)"

text \<open>\<open>counts[context][token] += 1\<close> on nested default dictionaries.\<close>

definition count_one :: "mcontext \<Rightarrow> token \<Rightarrow> count_map \<Rightarrow> count_map" where
  "count_one c t cm = dict_set cm c (dict_set (row_of cm c) t (count_in (row_of cm c) t + 1))"

definition row_total :: "row \<Rightarrow> nat" where
  "row_total r = dict_sum (\<lambda>_ n. n) r"

text \<open>\<open>seq[i - min(order, i) : i]\<close>\<close>

definition context_at :: "int \<Rightarrow> token list \<Rightarrow> nat \<Rightarrow> mcontext" where
  "context_at order seq i = drop (nat (int i - min order (int i))) (take i seq)"

definition build_count_map :: "token list list \<Rightarrow> int \<Rightarrow> count_map" where
  "build_count_map sequences order =
     fold (\<lambda>seq cm. fold (\<lambda>i cm. count_one (context_at order seq i) (seq ! i) cm) [0..<length seq] cm)
       sequences []"

section \<open>Scores\<close>

definition log_likelihood :: "count_map \<Rightarrow> nat \<Rightarrow> real" where
  "log_likelihood cm m =
     dict_sum (\<lambda>_ tok_counts.
       let n_h = row_total tok_counts in
       dict_sum (\<lambda>_ n_hx.
         if n_hx > 0 then real n_hx * ln ((real n_hx + 1) / (real n_h + real m)) else 0) tok_counts) cm"

definition parameter_count :: "count_map \<Rightarrow> nat \<Rightarrow> int" where
  "parameter_count cm m = int (length cm) * (int m - 1)"

definition bic :: "count_map \<Rightarrow> nat \<Rightarrow> nat \<Rightarrow> pyfloat" where
  "bic cm m N =
     (if N \<le> 0 then PInf
      else Fin (- 2 * log_likelihood cm m + real_of_int (parameter_count cm m) * ln (real (max 1 N))))"

definition local_bic :: "row \<Rightarrow> nat \<Rightarrow> real" where
  "local_bic tok_counts m =
     (let n_h = row_total tok_counts;
          denom = real n_h + real m;
          ll_part = dict_sum (\<lambda>_ n_hx.
            if n_hx > 0 then real n_hx * ln ((real n_hx + 1) / denom) else 0) tok_counts
      in - 2 * ll_part + (real m - 1) * ln (real (max 1 n_h)))"

definition suffix1 :: "mcontext \<Rightarrow> mcontext" where
  "suffix1 c = drop 1 c"

section \<open>The trained model\<close>

record markov_model =
  sigma :: "token set"
  k_star :: int
  retained_contexts :: "mcontext set"
  transition :: "(mcontext, (token, real) dict) dict"
  epsilon :: "(mcontext, real) dict"
  bic_score :: pyfloat
  total_n :: int
  alphabet_m :: int
  training_sequences_count :: int

text \<open>\<open>while ctx and ctx not in retained: ctx = _suffix(ctx)\<close>\<close>

fun longest_retained :: "mcontext set \<Rightarrow> mcontext \<Rightarrow> mcontext" where
  "longest_retained R [] = []"
| "longest_retained R (t # ts) = (if t # ts \<in> R then t # ts else longest_retained R ts)"

definition effective_context :: "markov_model \<Rightarrow> mcontext \<Rightarrow> mcontext" where
  "effective_context model c =
     (let ctx = (if k_star model > 0 then drop (length c - nat (k_star model)) c else [])
      in longest_retained (retained_contexts model) ctx)"

text \<open>\<open>self.epsilon.get(ctx, 1.0 / (1 + self.m))\<close>: the default is computed even when unused.\<close>

definition epsilon_or_default :: "markov_model \<Rightarrow> mcontext \<Rightarrow> real py_result" where
  "epsilon_or_default model c =
     (if 1 + alphabet_m model = 0 then Inl ZeroDivisionError
      else Inr (case dict_get (epsilon model) c of
                  Some e \<Rightarrow> e
                | None \<Rightarrow> 1 / real_of_int (1 + alphabet_m model)))"

definition predict :: "markov_model \<Rightarrow> mcontext \<Rightarrow> token \<Rightarrow> real py_result" where
  "predict model c tok =
     (let effective = effective_context model c in
      case dict_get (transition model) effective of
        None \<Rightarrow>
          (case dict_get (transition model) [] of
             Some empty_probs \<Rightarrow>
               (case dict_get empty_probs tok of
                  Some p \<Rightarrow> Inr p
                | None \<Rightarrow> epsilon_or_default model [])
           | None \<Rightarrow> epsilon_or_default model [])
      | Some probs \<Rightarrow>
          (case dict_get probs tok of
             Some p \<Rightarrow> Inr p
           | None \<Rightarrow> epsilon_or_default model effective))"

definition is_novel_token :: "markov_model \<Rightarrow> token \<Rightarrow> bool" where
  "is_novel_token model tok \<longleftrightarrow> tok \<notin> sigma model"

section \<open>Training\<close>

definition unk_token_4 :: token where
  "unk_token_4 = (UNK_TOKEN, UNK_TOKEN, UNK_TOKEN, UNK_TOKEN)"

definition other_token_4 :: token where
  "other_token_4 =
     (OTHER_RESOURCE_TOKEN, OTHER_RESOURCE_TOKEN, OTHER_RESOURCE_TOKEN, OTHER_RESOURCE_TOKEN)"

definition sigma_list :: "token list list \<Rightarrow> token list" where
  "sigma_list sequences = remdups (concat sequences @ [unk_token_4, other_token_4])"

definition k_limit :: "token list list \<Rightarrow> int \<Rightarrow> int" where
  "k_limit sequences k_max =
     (let max_seq_len = foldr (\<lambda>s n. max (length s) n) sequences 0
      in if max_seq_len > 1 then min k_max (int max_seq_len - 1) else 0)"

definition candidate_orders :: "token list list \<Rightarrow> int \<Rightarrow> int option \<Rightarrow> int list" where
  "candidate_orders sequences k_max order =
     (case order of
        Some k \<Rightarrow> [min (max 0 k) (k_limit sequences k_max)]
      | None \<Rightarrow> [0..k_limit sequences k_max])"

text \<open>Step 5: the chosen count map with the order-0 row for the empty context.\<close>

definition with_empty_context :: "token list list \<Rightarrow> (int, count_map) dict \<Rightarrow> count_map \<Rightarrow> count_map" where
  "with_empty_context sequences count_maps cm =
     dict_set cm []
       (case dict_get count_maps 0 of
          Some cm0 \<Rightarrow>
            (case dict_get cm0 [] of
               Some r \<Rightarrow> r
             | None \<Rightarrow> row_of (build_count_map sequences 0) [])
        | None \<Rightarrow> row_of (build_count_map sequences 0) [])"

text \<open>One iteration of the pruning loop; \<open>retained\<close> is the set in insertion order.\<close>

definition prune_step :: "count_map \<Rightarrow> nat \<Rightarrow> mcontext \<Rightarrow> mcontext list \<Rightarrow> mcontext list" where
  "prune_step best_cm m ctx retained =
     (if length ctx = 0 then retained
      else
        (let parent = suffix1 ctx;
             tok_counts_h = row_of best_cm ctx;
             effective_parent = longest_retained (set retained) parent;
             tok_counts_parent = row_of best_cm effective_parent;
             local_bic_h = Fin (local_bic tok_counts_h m);
             local_bic_parent =
               (if tok_counts_parent \<noteq> [] then Fin (local_bic tok_counts_parent m) else PInf)
         in if local_bic_h < local_bic_parent then retained @ [ctx] else retained))"

definition prune_contexts :: "count_map \<Rightarrow> nat \<Rightarrow> mcontext list" where
  "prune_contexts best_cm m =
     fold (prune_step best_cm m) (sort_key length (dict_keys best_cm)) [[]]"

text \<open>Step 6: the smoothed probabilities and the epsilon of one context.\<close>

definition smoothed_row :: "count_map \<Rightarrow> token list \<Rightarrow> mcontext \<Rightarrow> (token, real) dict" where
  "smoothed_row best_cm toks ctx =
     (let tok_counts = row_of best_cm ctx;
          denom = real (row_total tok_counts) + real (length toks)
      in map (\<lambda>tok. (tok, (real (count_in tok_counts tok) + 1) / denom)) toks)"

definition context_epsilon :: "count_map \<Rightarrow> token list \<Rightarrow> mcontext \<Rightarrow> real" where
  "context_epsilon best_cm toks ctx =
     1 / (real (row_total (row_of best_cm ctx)) + real (length toks))"

definition train ::
    "token list list \<Rightarrow> int \<Rightarrow> int option \<Rightarrow> nat \<Rightarrow> markov_model py_result" where
  "train sequences k_max order minimum_training_tokens =
     (if sequences = [] then Inl ValueError
      else
        (let toks = sigma_list sequences;
             m = length toks;
             N = sum_list (map length sequences);
             candidates = candidate_orders sequences k_max order;
             count_maps = map (\<lambda>k. (k, build_count_map sequences k)) candidates;
             bic_of = (\<lambda>k. bic (build_count_map sequences k) m N)
         in case candidates of
              [] \<Rightarrow> Inl ValueError
            | k # ks \<Rightarrow>
                (let best_k = min_by bic_of k ks;
                     best_cm = with_empty_context sequences count_maps
                       (build_count_map sequences best_k);
                     retained = prune_contexts best_cm m
                 in Inr \<lparr>sigma = set toks,
                         k_star = best_k,
                         retained_contexts = set retained,
                         transition = map (\<lambda>ctx. (ctx, smoothed_row best_cm toks ctx)) retained,
                         epsilon = map (\<lambda>ctx. (ctx, context_epsilon best_cm toks ctx)) retained,
                         bic_score = bic_of best_k,
                         total_n = int N,
                         alphabet_m = int m,
                         training_sequences_count = int (length sequences)\<rparr>)))"

section \<open>Counting\<close>

text \<open>The loop nest as one list of observations (context, token).\<close>

definition observations :: "int \<Rightarrow> token list \<Rightarrow> (mcontext \<times> token) list" where
  "observations order seq = map (\<lambda>i. (context_at order seq i, seq ! i)) [0..<length seq]"

definition count_pairs :: "(mcontext \<times> token) list \<Rightarrow> count_map" where
  "count_pairs ps = fold (\<lambda>(c, t). count_one c t) ps []"

lemma fold_concat_map: "fold f (concat (map g xs)) = fold (\<lambda>x. fold f (g x)) xs"
  by (induction xs) (simp_all add: fun_eq_iff)

lemma build_count_map_eq:
  "build_count_map sequences order = count_pairs (concat (map (observations order) sequences))"
  by (simp add: build_count_map_def count_pairs_def fold_concat_map observations_def fold_map comp_def)

lemma count_pairs_snoc: "count_pairs (ps @ [(c, t)]) = count_one c t (count_pairs ps)"
  by (simp add: count_pairs_def)

lemma row_of_count_one:
  "row_of (count_one c t cm) d =
     (if d = c then dict_set (row_of cm c) t (count_in (row_of cm c) t + 1) else row_of cm d)"
  by (simp add: count_one_def row_of_def)

lemma count_in_dict_set [simp]: "count_in (dict_set r t n) u = (if u = t then n else count_in r u)"
  by (simp add: count_in_def)

lemma count_in_Nil [simp]: "count_in [] t = 0"
  by (simp add: count_in_def)

lemma count_in_count_pairs: "count_in (row_of (count_pairs ps) c) t = count_list ps (c, t)"
proof (induction ps rule: rev_induct)
  case Nil
  show ?case by (simp add: count_pairs_def row_of_def)
next
  case (snoc p ps)
  obtain d u where p: "p = (d, u)" by (cases p)
  from snoc show ?case by (auto simp: p count_pairs_snoc row_of_count_one)
qed

text \<open>Well-formed count maps: keys are distinct and every stored count is positive.\<close>

definition row_wf :: "row \<Rightarrow> bool" where
  "row_wf r \<longleftrightarrow> dict_wf r \<and> (\<forall>t n. dict_get r t = Some n \<longrightarrow> 0 < n)"

lemma row_wf_Nil [simp]: "row_wf []"
  by (simp add: row_wf_def)

lemma row_wf_put: "row_wf r \<Longrightarrow> 0 < n \<Longrightarrow> row_wf (dict_set r t n)"
  by (auto simp: row_wf_def)

lemma row_wf_keys: "row_wf r \<Longrightarrow> set (dict_keys r) = {t. 0 < count_in r t}"
  by (auto simp: row_wf_def pydict.keys_get count_in_def split: option.splits)

lemma count_pairs_wf: "dict_wf (count_pairs ps)" "row_wf (row_of (count_pairs ps) c)"
proof (induction ps arbitrary: c rule: rev_induct)
  case Nil
  case 1 show ?case by (simp add: count_pairs_def)
  case 2 show ?case by (simp add: count_pairs_def row_of_def)
next
  case (snoc p ps)
  obtain d u where p: "p = (d, u)" by (cases p)
  case 1 from snoc(1) show ?case by (simp add: p count_pairs_snoc count_one_def)
  case 2 from snoc(2) show ?case by (simp add: p count_pairs_snoc row_of_count_one row_wf_put)
qed

lemma count_pairs_keys: "set (dict_keys (count_pairs ps)) = fst ` set ps"
proof (induction ps rule: rev_induct)
  case Nil
  show ?case by (simp add: count_pairs_def dict_keys_def)
next
  case (snoc p ps)
  obtain d u where p: "p = (d, u)" by (cases p)
  have "set (dict_keys (count_one d u (count_pairs ps))) = insert d (set (dict_keys (count_pairs ps)))"
    by (auto simp: count_one_def pydict.keys_get split: if_splits)
  with snoc show ?case by (simp add: p count_pairs_snoc)
qed

text \<open>
  The total of a row, and sums over it, as sums over any alphabet that contains its keys.\<close>

lemma row_sum_over:
  assumes "row_wf r" and "finite A" and "set (dict_keys r) \<subseteq> A" and "\<And>t. f t 0 = (0 :: real)"
  shows "dict_sum f r = (\<Sum>t \<in> A. f t (count_in r t))"
proof -
  have "dict_sum f r = (\<Sum>t \<in> set (dict_keys r). f t (the (dict_get r t)))"
    using assms(1) by (simp add: row_wf_def dict_sum_eq)
  also have "\<dots> = (\<Sum>t \<in> set (dict_keys r). f t (count_in r t))"
    by (intro sum.cong) (auto simp: count_in_def pydict.keys_get)
  also have "\<dots> = (\<Sum>t \<in> A. f t (count_in r t))"
    using assms by (intro sum.mono_neutral_left) (auto simp: row_wf_keys)
  finally show ?thesis .
qed

lemma real_row_total: "real (row_total r) = dict_sum (\<lambda>_ n. real n) r"
  by (induction r) (auto simp: row_total_def dict_sum_def)

lemma row_total_over:
  assumes "row_wf r" and "finite A" and "set (dict_keys r) \<subseteq> A"
  shows "real (row_total r) = (\<Sum>t \<in> A. real (count_in r t))"
  using row_sum_over [OF assms, of "\<lambda>_ n. real n"] by (simp add: real_row_total)

lemma row_total_dict_set:
  assumes "dict_wf r"
  shows "row_total (dict_set r t (count_in r t + 1)) = row_total r + 1"
  using assms
  by (induction r) (auto simp: row_total_def dict_sum_def dict_set_def count_in_def dict_get_def
      dict_wf_def map_of_eq_None_iff split: option.splits)

lemma row_total_count_pairs:
  "row_total (row_of (count_pairs ps) c) = length (filter (\<lambda>p. fst p = c) ps)"
proof (induction ps rule: rev_induct)
  case Nil
  show ?case by (simp add: count_pairs_def row_of_def row_total_def dict_sum_def)
next
  case (snoc p ps)
  obtain d u where p: "p = (d, u)" by (cases p)
  have "dict_wf (row_of (count_pairs ps) d)" using count_pairs_wf(2) by (simp add: row_wf_def)
  then have "row_total (dict_set (row_of (count_pairs ps) d) u (count_in (row_of (count_pairs ps) d) u + 1))
      = row_total (row_of (count_pairs ps) d) + 1"
    by (rule row_total_dict_set)
  with snoc show ?case
    by (cases "c = d") (simp_all add: p count_pairs_snoc row_of_count_one)
qed

lemma row_total_pos_iff: "row_wf r \<Longrightarrow> 0 < row_total r \<longleftrightarrow> r \<noteq> []"
proof (cases r)
  case (Cons p r')
  assume "row_wf r"
  then have "dict_get r (fst p) = Some (snd p)" and "\<forall>t n. dict_get r t = Some n \<longrightarrow> 0 < n"
    by (simp_all add: Cons dict_get_def row_wf_def)
  then have "0 < snd p" by blast
  with Cons show ?thesis by (cases p) (simp add: row_total_def dict_sum_def)
qed (simp add: row_total_def dict_sum_def)


lemma row_of_count_pairs_nonempty: "dict_get (count_pairs ps) c \<noteq> Some []"
proof (induction ps arbitrary: c rule: rev_induct)
  case (snoc p ps)
  obtain d u where p: "p = (d, u)" by (cases p)
  have "dict_get (dict_set r u n) u \<noteq> dict_get [] u" for r :: row and n by simp
  then have "dict_set r u n \<noteq> []" for r :: row and n by metis
  with snoc show ?case by (simp add: p count_pairs_snoc count_one_def)
qed (simp add: count_pairs_def)

text \<open>
  Contexts have the length the order and the position allow, and end at the position.\<close>

lemma length_context_at:
  "i \<le> length seq \<Longrightarrow> length (context_at order seq i) = min (nat order) i"
  by (auto simp: context_at_def)

lemma context_at_suffix: "suffix (context_at order seq i) (take i seq)"
  by (simp add: context_at_def suffix_drop)

lemma row_of_long_context:
  assumes "nat k < length c"
  shows "row_of (build_count_map seqs k) c = []"
proof -
  have "c \<notin> fst ` set (concat (map (observations k) seqs))"
    using assms length_context_at [of _ _ k] by (auto simp: observations_def)
  then have "c \<notin> set (dict_keys (build_count_map seqs k))"
    by (simp only: build_count_map_eq count_pairs_keys not_False_eq_True)
  then show ?thesis by (simp add: pydict.keys_get row_of_def)
qed

section \<open>Pruning\<close>

text \<open>The rule of the loop as a predicate of the set of retained contexts.\<close>

definition keeps :: "count_map \<Rightarrow> nat \<Rightarrow> mcontext set \<Rightarrow> mcontext \<Rightarrow> bool" where
  "keeps cm m R c \<longleftrightarrow>
     (let parent = row_of cm (longest_retained R (suffix1 c))
      in parent \<noteq> [] \<longrightarrow> local_bic (row_of cm c) m < local_bic parent m)"

lemma prune_step_eq:
  "prune_step cm m c R = (if c \<noteq> [] \<and> keeps cm m (set R) c then R @ [c] else R)"
  by (auto simp: prune_step_def keeps_def Let_def)

lemma longest_retained_cong:
  "(\<And>d. length d \<le> length c \<Longrightarrow> d \<in> A \<longleftrightarrow> d \<in> B) \<Longrightarrow> longest_retained A c = longest_retained B c"
  by (induction c) auto

lemma longest_retained_in: "[] \<in> R \<Longrightarrow> longest_retained R c \<in> R"
  by (induction c) auto

lemma longest_retained_suffix: "suffix (longest_retained R c) c"
  by (induction c) (auto intro: suffix_ConsI)

lemma longest_retained_longest:
  "suffix d c \<Longrightarrow> d \<in> R \<Longrightarrow> length d \<le> length (longest_retained R c)"
  by (induction c) (auto simp: suffix_Cons dest: suffix_length_le)

lemma prune_fold:
  assumes "sorted (map length ys)" and "distinct ys"
  shows "set (fold (prune_step cm m) ys [[]]) =
      insert [] {c \<in> set ys. c \<noteq> [] \<and> keeps cm m (set (fold (prune_step cm m) ys [[]])) c}"
    and "distinct (fold (prune_step cm m) ys [[]])"
  using assms
proof (induction ys rule: rev_induct)
  case Nil
  case 1 show ?case by simp
  case 2 show ?case by simp
next
  case (snoc x ys)
  let ?R = "fold (prune_step cm m) ys [[]]" and ?R' = "fold (prune_step cm m) (ys @ [x]) [[]]"
  have R': "?R' = (if x \<noteq> [] \<and> keeps cm m (set ?R) x then ?R @ [x] else ?R)"
    by (simp add: prune_step_eq)
  have keep: "keeps cm m (set ?R') c \<longleftrightarrow> keeps cm m (set ?R) c" if "c \<noteq> []" "length c \<le> length x" for c
  proof -
    have "longest_retained (set ?R') (suffix1 c) = longest_retained (set ?R) (suffix1 c)"
    proof (rule longest_retained_cong)
      fix d :: mcontext assume "length d \<le> length (suffix1 c)"
      with that have "length d < length x" by (cases c) (auto simp: suffix1_def)
      then show "d \<in> set ?R' \<longleftrightarrow> d \<in> set ?R" unfolding R' by auto
    qed
    then show ?thesis by (simp add: keeps_def)
  qed
  case 1
  then have "sorted (map length ys)" "distinct ys" and le: "\<forall>y \<in> set ys. length y \<le> length x" and x: "x \<notin> set ys"
    by (auto simp: sorted_append)
  with snoc(1) have IH: "set ?R = insert [] {c \<in> set ys. c \<noteq> [] \<and> keeps cm m (set ?R) c}" by blast
  show ?case
  proof (rule set_eqI)
    fix c
    have "c \<in> set ?R' \<longleftrightarrow> c \<in> set ?R \<or> (c = x \<and> x \<noteq> [] \<and> keeps cm m (set ?R) x)"
      unfolding R' by auto
    also have "\<dots> \<longleftrightarrow> c = [] \<or> (c \<in> set (ys @ [x]) \<and> c \<noteq> [] \<and> keeps cm m (set ?R) c)"
      using IH by auto
    also have "\<dots> \<longleftrightarrow> c = [] \<or> (c \<in> set (ys @ [x]) \<and> c \<noteq> [] \<and> keeps cm m (set ?R') c)"
      using keep le by auto
    finally show "c \<in> set ?R' \<longleftrightarrow>
        c \<in> insert [] {c \<in> set (ys @ [x]). c \<noteq> [] \<and> keeps cm m (set ?R') c}" by simp
  qed
  case 2
  then have "sorted (map length ys)" "distinct ys" and x: "x \<notin> set ys"
    by (auto simp: sorted_append)
  with snoc(2) have "distinct ?R" by blast
  moreover have "x \<noteq> [] \<Longrightarrow> x \<notin> set ?R" using IH x by auto
  ultimately show ?case unfolding R' by simp
qed

lemma prune_contexts_eq:
  assumes "dict_wf cm"
  shows "set (prune_contexts cm m) =
      insert [] {c \<in> set (dict_keys cm). c \<noteq> [] \<and> keeps cm m (set (prune_contexts cm m)) c}"
    and "distinct (prune_contexts cm m)"
proof -
  let ?ks = "sort_key length (dict_keys cm)"
  have "sorted (map length ?ks)" "distinct ?ks"
    using assms by (simp_all add: pydict.keys_distinct distinct_sort)
  from prune_fold [OF this, of cm m] show "set (prune_contexts cm m) =
      insert [] {c \<in> set (dict_keys cm). c \<noteq> [] \<and> keeps cm m (set (prune_contexts cm m)) c}"
    and "distinct (prune_contexts cm m)"
    by (simp_all add: prune_contexts_def)
qed

lemma prune_contexts_Nil: "dict_wf cm \<Longrightarrow> [] \<in> set (prune_contexts cm m)"
  using prune_contexts_eq(1) [of cm m] by auto

section \<open>What training returns\<close>

lemma sigma_list_facts:
  "distinct (sigma_list seqs)" "set (sigma_list seqs) = \<Union> (set ` set seqs) \<union> {unk_token_4, other_token_4}"
  "2 \<le> length (sigma_list seqs)"
proof -
  show d: "distinct (sigma_list seqs)" and s: "set (sigma_list seqs) = \<Union> (set ` set seqs) \<union> {unk_token_4, other_token_4}"
    by (auto simp: sigma_list_def)
  have "card {unk_token_4, other_token_4} = 2"
    by (simp add: unk_token_4_def other_token_4_def UNK_TOKEN_def OTHER_RESOURCE_TOKEN_def)
  moreover have "card {unk_token_4, other_token_4} \<le> card (set (sigma_list seqs))"
    by (rule card_mono) (auto simp: s)
  ultimately show "2 \<le> length (sigma_list seqs)" using d by (simp add: distinct_card)
qed

text \<open>The count map after step 5: row by row it counts observations.\<close>

definition chosen_counts :: "token list list \<Rightarrow> int \<Rightarrow> int list \<Rightarrow> count_map" where
  "chosen_counts seqs k ks =
     with_empty_context seqs (map (\<lambda>k. (k, build_count_map seqs k)) ks) (build_count_map seqs k)"

lemma chosen_counts_rows:
  "row_of (chosen_counts seqs k ks) c = row_of (build_count_map seqs (if c = [] then 0 else k)) c"
proof -
  have "dict_get (map (\<lambda>k. (k, build_count_map seqs k)) ks) 0 =
      (if 0 \<in> set ks then Some (build_count_map seqs 0) else None)"
    by (induction ks) (auto simp: dict_get_def)
  then show ?thesis
    by (auto simp: chosen_counts_def with_empty_context_def row_of_def split: option.splits)
qed

lemma chosen_counts_wf: "dict_wf (chosen_counts seqs k ks)" "row_wf (row_of (chosen_counts seqs k ks) c)"
  unfolding chosen_counts_rows
  by (simp_all add: chosen_counts_def with_empty_context_def build_count_map_eq count_pairs_wf
      dict_wf_intros)

lemma chosen_counts_row_keys: "set (dict_keys (row_of (chosen_counts seqs k ks) c)) \<subseteq> set (sigma_list seqs)"
proof
  fix t assume "t \<in> set (dict_keys (row_of (chosen_counts seqs k ks) c))"
  then have "0 < count_in (row_of (chosen_counts seqs k ks) c) t"
    using row_wf_keys [OF chosen_counts_wf(2)] by blast
  then have "0 < count_list (concat (map (observations (if c = [] then 0 else k)) seqs)) (c, t)"
    by (simp add: chosen_counts_rows build_count_map_eq count_in_count_pairs)
  then have "(c, t) \<in> set (concat (map (observations (if c = [] then 0 else k)) seqs))"
    by (metis count_notin less_numeral_extra(3))
  then show "t \<in> set (sigma_list seqs)"
    unfolding sigma_list_facts by (auto simp: observations_def) (metis nth_mem)
qed

lemma train_InrE:
  assumes "train seqs k_max order mt = Inr M"
  obtains k ks R where
    "seqs \<noteq> []" "candidate_orders seqs k_max order = k # ks"
    "k_star M = min_by (\<lambda>k. bic (build_count_map seqs k) (length (sigma_list seqs)) (sum_list (map length seqs))) k ks"
    "R = prune_contexts (chosen_counts seqs (k_star M) (k # ks)) (length (sigma_list seqs))"
    "sigma M = set (sigma_list seqs)" "retained_contexts M = set R"
    "transition M = map (\<lambda>ctx. (ctx, smoothed_row (chosen_counts seqs (k_star M) (k # ks)) (sigma_list seqs) ctx)) R"
    "epsilon M = map (\<lambda>ctx. (ctx, context_epsilon (chosen_counts seqs (k_star M) (k # ks)) (sigma_list seqs) ctx)) R"
    "bic_score M = bic (build_count_map seqs (k_star M)) (length (sigma_list seqs)) (sum_list (map length seqs))"
    "total_n M = int (sum_list (map length seqs))" "alphabet_m M = int (length (sigma_list seqs))"
    "training_sequences_count M = int (length seqs)"
  using assms
  by (cases "candidate_orders seqs k_max order")
     (auto simp: train_def Let_def chosen_counts_def split: if_splits)


lemma train_returns:
  "seqs \<noteq> [] \<Longrightarrow> candidate_orders seqs k_max order \<noteq> [] \<Longrightarrow> \<exists>M. train seqs k_max order mt = Inr M"
  by (cases "candidate_orders seqs k_max order") (auto simp: train_def Let_def)

lemma bic_not_nan [simp]: "bic cm m N \<noteq> NaN"
  by (simp add: bic_def)

section \<open>Well-formed models\<close>

text \<open>
  The invariant a model must satisfy to be scored against: for each retained context, among them
  the empty one, a probability distribution over exactly the alphabet, bounded below by a positive
  epsilon.
\<close>

definition distribution_over :: "token set \<Rightarrow> real \<Rightarrow> (token, real) dict \<Rightarrow> bool" where
  "distribution_over A e probs \<longleftrightarrow>
     dict_wf probs \<and> set (dict_keys probs) = A \<and> dict_sum (\<lambda>_ p. p) probs = 1 \<and>
     0 < e \<and> (\<forall>t p. dict_get probs t = Some p \<longrightarrow> e \<le> p)"

definition context_wf :: "markov_model \<Rightarrow> mcontext \<Rightarrow> bool" where
  "context_wf M c \<longleftrightarrow>
     (case (dict_get (transition M) c, dict_get (epsilon M) c) of
        (Some probs, Some e) \<Rightarrow> distribution_over (sigma M) e probs
      | _ \<Rightarrow> False)"

definition model_wf :: "markov_model \<Rightarrow> bool" where
  "model_wf M \<longleftrightarrow>
     finite (sigma M) \<and> [] \<in> retained_contexts M \<and> finite (retained_contexts M) \<and>
     alphabet_m M = int (card (sigma M)) \<and> (\<forall>c \<in> retained_contexts M. context_wf M c)"

lemma distribution_overD:
  assumes "distribution_over A e probs"
  shows "t \<in> A \<Longrightarrow> \<exists>p. dict_get probs t = Some p \<and> e \<le> p \<and> 0 < p \<and> p \<le> 1"
    and "dict_get probs t = Some p \<Longrightarrow> t \<in> A"
    and "(\<Sum>t \<in> A. the (dict_get probs t)) = 1"
proof -
  have keys: "set (dict_keys probs) = A" and e: "0 < e" "\<And>t p. dict_get probs t = Some p \<Longrightarrow> e \<le> p"
    using assms by (auto simp: distribution_over_def)
  show sum: "(\<Sum>t \<in> A. the (dict_get probs t)) = 1"
    using assms dict_sum_eq [of probs "\<lambda>_ p. p"] by (simp add: distribution_over_def)
  show "dict_get probs t = Some p \<Longrightarrow> t \<in> A"
    using keys by (auto simp: pydict.keys_get)
  assume t: "t \<in> A"
  then obtain p where p: "dict_get probs t = Some p"
    using keys by (auto simp: pydict.keys_get)
  have "finite A" using keys by (metis List.finite_set)
  moreover have "0 \<le> the (dict_get probs u)" if "u \<in> A" for u
    using that keys e by (fastforce simp: pydict.keys_get)
  ultimately have "the (dict_get probs t) \<le> (\<Sum>t \<in> A. the (dict_get probs t))"
    using t by (intro member_le_sum) auto
  with p e(1) e(2) [OF p] sum show "\<exists>p. dict_get probs t = Some p \<and> e \<le> p \<and> 0 < p \<and> p \<le> 1"
    by auto
qed

lemma dict_get_map_pair: "dict_get (map (\<lambda>x. (x, f x)) xs) k = (if k \<in> set xs then Some (f k) else None)"
  by (induction xs) (auto simp: dict_get_def)

lemma dict_keys_map_pair [simp]: "dict_keys (map (\<lambda>x. (x, f x)) xs) = xs"
  by (simp add: dict_keys_def comp_def)

lemma dict_wf_map_pair: "dict_wf (map (\<lambda>x. (x, f x)) xs) \<longleftrightarrow> distinct xs"
  by (simp add: dict_wf_def comp_def)

lemma smoothed_row_distribution:
  assumes "row_wf (row_of cm c)" and "set (dict_keys (row_of cm c)) \<subseteq> set toks"
    and "distinct toks" and "toks \<noteq> []"
  shows "distribution_over (set toks) (context_epsilon cm toks c) (smoothed_row cm toks c)"
proof -
  let ?r = "row_of cm c"
  let ?d = "real (row_total ?r) + real (length toks)"
  have d: "0 < ?d" using \<open>toks \<noteq> []\<close> by (simp add: add_nonneg_pos)
  have "dict_sum (\<lambda>_ p. p) (smoothed_row cm toks c) = (\<Sum>t \<leftarrow> toks. (real (count_in ?r t) + 1) / ?d)"
    by (simp add: dict_sum_def smoothed_row_def Let_def comp_def)
  also have "\<dots> = (\<Sum>t \<in> set toks. (real (count_in ?r t) + 1) / ?d)"
    using \<open>distinct toks\<close> by (simp add: sum_list_distinct_conv_sum_set)
  also have "\<dots> = ((\<Sum>t \<in> set toks. real (count_in ?r t)) + real (card (set toks))) / ?d"
    by (simp add: sum_divide_distrib [symmetric] sum.distrib)
  also have "\<dots> = 1"
    using d row_total_over [OF assms(1) _ assms(2)] \<open>distinct toks\<close> by (simp add: distinct_card)
  finally have "dict_sum (\<lambda>_ p. p) (smoothed_row cm toks c) = 1" .
  with d assms show ?thesis
    by (auto simp: distribution_over_def smoothed_row_def context_epsilon_def Let_def
        dict_wf_map_pair dict_get_map_pair divide_right_mono split: if_splits)
qed

section \<open>Properties of training and prediction\<close>

lemma trained_contexts:
  assumes "train seqs k_max order mt = Inr M"
  obtains cm where
    "\<And>c. row_of cm c = row_of (build_count_map seqs (if c = [] then 0 else k_star M)) c"
    "dict_wf cm" "set (dict_keys cm) = insert [] (set (dict_keys (build_count_map seqs (k_star M))))"
    "retained_contexts M = set (prune_contexts cm (length (sigma_list seqs)))"
    "\<And>c. c \<in> retained_contexts M \<Longrightarrow> dict_get (transition M) c = Some (smoothed_row cm (sigma_list seqs) c)"
    "\<And>c. c \<in> retained_contexts M \<Longrightarrow> dict_get (epsilon M) c = Some (context_epsilon cm (sigma_list seqs) c)"
    "\<And>c. c \<in> retained_contexts M \<Longrightarrow>
       distribution_over (sigma M) (context_epsilon cm (sigma_list seqs) c) (smoothed_row cm (sigma_list seqs) c)"
  using assms
proof (rule train_InrE)
  fix k ks R
  let ?cm = "chosen_counts seqs (k_star M) (k # ks)"
  assume *: "R = prune_contexts ?cm (length (sigma_list seqs))" "sigma M = set (sigma_list seqs)"
    "retained_contexts M = set R"
    "transition M = map (\<lambda>ctx. (ctx, smoothed_row ?cm (sigma_list seqs) ctx)) R"
    "epsilon M = map (\<lambda>ctx. (ctx, context_epsilon ?cm (sigma_list seqs) ctx)) R"
  have "sigma_list seqs \<noteq> []" using sigma_list_facts(3) [of seqs] by auto
  then have dist: "distribution_over (sigma M) (context_epsilon ?cm (sigma_list seqs) c) (smoothed_row ?cm (sigma_list seqs) c)" for c
    unfolding *(2)
    by (intro smoothed_row_distribution chosen_counts_wf chosen_counts_row_keys sigma_list_facts)
  have keys: "set (dict_keys ?cm) = insert [] (set (dict_keys (build_count_map seqs (k_star M))))"
    by (auto simp: chosen_counts_def with_empty_context_def pydict.keys_get split: if_splits)
  show thesis
    using * by (intro that [of ?cm] chosen_counts_rows chosen_counts_wf dist keys) (auto simp: dict_get_map_pair)
qed

lemma trained_order:
  assumes "train seqs k_max order mt = Inr M"
  shows "k_star M \<in> set (candidate_orders seqs k_max order)"
  using assms
proof (rule train_InrE)
  fix k ks
  assume "candidate_orders seqs k_max order = k # ks"
    "k_star M = min_by (\<lambda>k. bic (build_count_map seqs k) (length (sigma_list seqs)) (sum_list (map length seqs))) k ks"
  then show ?thesis by (simp only: min_by_in)
qed

lemma trained_model_wf:
  assumes "train seqs k_max order mt = Inr M"
  shows "model_wf M"
proof -
  obtain cm where
    "dict_wf cm" "retained_contexts M = set (prune_contexts cm (length (sigma_list seqs)))"
    "\<And>c. c \<in> retained_contexts M \<Longrightarrow> context_wf M c"
    using trained_contexts [OF assms] by (metis (no_types, lifting) context_wf_def option.simps(5) prod.case)
  moreover have "sigma M = set (sigma_list seqs)" "alphabet_m M = int (length (sigma_list seqs))"
    using train_InrE [OF assms] by blast+
  ultimately show ?thesis
    using prune_contexts_Nil [of cm] sigma_list_facts(1) [of seqs]
    by (auto simp: model_wf_def distinct_card)
qed

lemma trained_dicts:
  assumes "train seqs k_max order mt = Inr M"
  shows "dict_wf (transition M)" and "dict_wf (epsilon M)"
    and "set (dict_keys (transition M)) = retained_contexts M"
    and "set (dict_keys (epsilon M)) = retained_contexts M"
proof -
  obtain k ks R where R: "R = prune_contexts (chosen_counts seqs (k_star M) (k # ks)) (length (sigma_list seqs))"
    "retained_contexts M = set R"
    "transition M = map (\<lambda>ctx. (ctx, smoothed_row (chosen_counts seqs (k_star M) (k # ks)) (sigma_list seqs) ctx)) R"
    "epsilon M = map (\<lambda>ctx. (ctx, context_epsilon (chosen_counts seqs (k_star M) (k # ks)) (sigma_list seqs) ctx)) R"
    using assms by (rule train_InrE)
  have "distinct R" unfolding R(1) by (rule prune_contexts_eq(2)) (rule chosen_counts_wf)
  with R show "dict_wf (transition M)" "dict_wf (epsilon M)"
    "set (dict_keys (transition M)) = retained_contexts M" "set (dict_keys (epsilon M)) = retained_contexts M"
    by (simp_all add: dict_wf_map_pair)
qed

lemma trained_row:
  assumes "train seqs k_max order mt = Inr M" and "(c, r) \<in> set (transition M)"
  shows "c \<in> retained_contexts M" and "dict_wf r" and "set (dict_keys r) = sigma M"
proof -
  have c: "dict_get (transition M) c = Some r"
    using assms(2) trained_dicts(1) [OF assms(1)] by (simp add: dict_get_in)
  then show "c \<in> retained_contexts M"
    using trained_dicts(3) [OF assms(1)] by (auto simp: pydict.keys_get)
  then have "context_wf M c" using trained_model_wf [OF assms(1)] by (simp add: model_wf_def)
  with c show "dict_wf r" "set (dict_keys r) = sigma M"
    by (auto simp: context_wf_def distribution_over_def split: option.splits)
qed

lemma trained_contexts_tokens:
  assumes "train seqs k_max order mt = Inr M" and "c \<in> retained_contexts M"
  shows "set c \<subseteq> sigma M"
proof -
  obtain cm where cm: "dict_wf cm"
    "set (dict_keys cm) = insert [] (set (dict_keys (build_count_map seqs (k_star M))))"
    "retained_contexts M = set (prune_contexts cm (length (sigma_list seqs)))"
    using trained_contexts [OF assms(1)] by metis
  have "c = [] \<or> c \<in> fst ` set (concat (map (observations (k_star M)) seqs))"
    using assms(2) prune_contexts_eq(1) [OF cm(1)] cm(2,3)
    by (auto simp: build_count_map_eq count_pairs_keys)
  then have "set c \<subseteq> \<Union> (set ` set seqs)"
    by (auto simp: observations_def context_at_def dest!: in_set_dropD in_set_takeD)
  moreover have "sigma M = set (sigma_list seqs)" using assms(1) by (rule train_InrE)
  ultimately show ?thesis by (auto simp: sigma_list_facts)
qed

lemma effective_context_facts:
  assumes "[] \<in> retained_contexts M"
  shows "effective_context M c \<in> retained_contexts M"
    and "suffix (effective_context M c) c"
    and "suffix d c \<Longrightarrow> d \<in> retained_contexts M \<Longrightarrow> int (length d) \<le> max 0 (k_star M) \<Longrightarrow>
      length d \<le> length (effective_context M c)"
proof -
  let ?c = "if k_star M > 0 then drop (length c - nat (k_star M)) c else []"
  have e: "effective_context M c = longest_retained (retained_contexts M) ?c"
    by (simp add: effective_context_def)
  show "effective_context M c \<in> retained_contexts M"
    unfolding e by (rule longest_retained_in) (rule assms)
  have "suffix ?c c" by (simp add: suffix_drop)
  with longest_retained_suffix show "suffix (effective_context M c) c"
    unfolding e by (rule suffix_order.trans)
  assume d: "suffix d c" "d \<in> retained_contexts M" "int (length d) \<le> max 0 (k_star M)"
  have "suffix d ?c"
  proof (cases "k_star M > 0")
    case True
    from d(1) obtain pre where "c = pre @ d" by (auto simp: suffix_def)
    with d(3) True show ?thesis by (auto simp: suffix_def)
  next
    case False
    with d(3) show ?thesis by simp
  qed
  with d(2) show "length d \<le> length (effective_context M c)"
    unfolding e by (intro longest_retained_longest)
qed

lemma predict_wf:
  assumes "model_wf M"
  obtains e probs where
    "distribution_over (sigma M) e probs" "dict_get (transition M) (effective_context M c) = Some probs"
    "\<And>t. predict M c t = Inr (case dict_get probs t of Some p \<Rightarrow> p | None \<Rightarrow> e)"
proof -
  have "context_wf M (effective_context M c)"
    using assms effective_context_facts(1) [of M c] by (simp add: model_wf_def)
  then obtain e probs where *: "dict_get (transition M) (effective_context M c) = Some probs"
      "dict_get (epsilon M) (effective_context M c) = Some e" "distribution_over (sigma M) e probs"
    by (auto simp: context_wf_def split: option.splits)
  have "1 + alphabet_m M \<noteq> 0" using assms by (simp add: model_wf_def)
  with * show thesis
    by (intro that [of e probs]) (auto simp: predict_def epsilon_or_default_def split: option.splits)
qed

lemma predict_wf_positive:
  assumes "model_wf M"
  shows "\<exists>p. predict M c t = Inr p \<and> 0 < p \<and> (t \<in> sigma M \<longrightarrow> p \<le> 1)"
    and "(\<Sum>t \<in> sigma M. projr (predict M c t)) = 1"
proof -
  obtain e probs where *: "distribution_over (sigma M) e probs"
      "\<And>t. predict M c t = Inr (case dict_get probs t of Some p \<Rightarrow> p | None \<Rightarrow> e)"
    using predict_wf [OF assms] by metis
  have "0 < e" using *(1) by (simp add: distribution_over_def)
  then show "\<exists>p. predict M c t = Inr p \<and> 0 < p \<and> (t \<in> sigma M \<longrightarrow> p \<le> 1)"
    using distribution_overD(1,2) [OF *(1), of t] *(2) [of t] by (cases "dict_get probs t") auto
  have "(\<Sum>t \<in> sigma M. projr (predict M c t)) = (\<Sum>t \<in> sigma M. the (dict_get probs t))"
    using distribution_overD(1) [OF *(1)] *(2) by (intro sum.cong) fastforce+
  with distribution_overD(3) [OF *(1)] show "(\<Sum>t \<in> sigma M. projr (predict M c t)) = 1" by simp
qed

text \<open>
  training either raises \<open>ValueError\<close> or returns a model. It raises exactly when there is no
  sequence, or when no order was fixed and the order limit is negative, which takes a negative
  \<open>k_max\<close> and a sequence of two tokens or more.
\<close>

theorem train_raises_exactly:
  "train seqs k_max order mt =
     (if seqs = [] \<or> (order = None \<and> k_limit seqs k_max < 0) then Inl ValueError
      else Inr (projr (train seqs k_max order mt)))"
proof -
  have "candidate_orders seqs k_max order = [] \<longleftrightarrow> order = None \<and> k_limit seqs k_max < 0"
    by (auto simp: candidate_orders_def split: option.splits)
  moreover have "train seqs k_max order mt = Inl ValueError" if "candidate_orders seqs k_max order = []"
    using that by (simp add: train_def Let_def)
  ultimately show ?thesis
    using train_returns [of seqs k_max order mt] by (auto simp: train_def)
qed

text \<open>
  C8: a trained model is well formed: the empty context is retained, and every retained context
  carries a probability distribution over exactly the training alphabet (with both reserved tokens),
  summing to one and bounded below by a positive epsilon.
\<close>

theorem train_model_wf:
  assumes "train seqs k_max order mt = Inr M"
  shows "model_wf M \<and> sigma M = \<Union> (set ` set seqs) \<union> {unk_token_4, other_token_4}"
proof -
  have "sigma M = set (sigma_list seqs)"
    using assms by (rule train_InrE)
  then show ?thesis
    using trained_model_wf [OF assms] by (simp add: sigma_list_facts)
qed

definition tok_exec :: token where
  "tok_exec = (''exec'', ''exec'', ''sh'', ''unknown'')"

definition tok_open :: token where
  "tok_open = (''open'', ''read'', ''etc'', ''unprivileged'')"

lemma train_example: "\<exists>M. train [[tok_exec, tok_open, tok_exec]] 1 None 100 = Inr M"
  by (rule train_returns) (simp_all add: candidate_orders_def k_limit_def)

theorem train_model_wf_witness:
  "\<exists>M. train [[tok_exec, tok_open, tok_exec]] 1 None 100 = Inr M \<and> model_wf M"
  using train_example train_model_wf by blast

text \<open>
  C6: prediction is the Laplace estimate at the longest retained suffix. For every context and every
  token, \<open>predict\<close> returns \<open>(n(h, t) + 1) / (n(h) + m)\<close>, where \<open>h\<close> is the longest suffix of the
  context that is retained and no longer than the selected order, and \<open>n\<close> counts occurrences in
  the training sequences (of order 0 for the empty context).
\<close>

theorem predict_laplace:
  assumes "train seqs k_max order mt = Inr M"
  shows "\<exists>h. h \<in> retained_contexts M \<and> suffix h c \<and>
    (\<forall>d. \<not> (suffix d c \<and> d \<in> retained_contexts M \<and> int (length d) \<le> max 0 (k_star M) \<and>
             length h < length d)) \<and>
    (let r = row_of (build_count_map seqs (if h = [] then 0 else k_star M)) h in
     predict M c t = Inr ((real (count_in r t) + 1) / (real (row_total r) + real (card (sigma M)))))"
proof -
  obtain cm where cm: "row_of cm (effective_context M c) =
        row_of (build_count_map seqs (if effective_context M c = [] then 0 else k_star M)) (effective_context M c)"
      "\<And>c. c \<in> retained_contexts M \<Longrightarrow> dict_get (transition M) c = Some (smoothed_row cm (sigma_list seqs) c)"
      "\<And>c. c \<in> retained_contexts M \<Longrightarrow> dict_get (epsilon M) c = Some (context_epsilon cm (sigma_list seqs) c)"
    using trained_contexts [OF assms] by metis
  obtain k ks where s: "sigma M = set (sigma_list seqs)"
    and ts: "cm' = chosen_counts seqs (k_star M) (k # ks) \<Longrightarrow>
      row_of cm' c' = row_of (build_count_map seqs (if c' = [] then 0 else k_star M)) c'" for cm' c'
    using train_InrE [OF assms] chosen_counts_rows by metis
  have wf: "model_wf M" by (rule trained_model_wf [OF assms])
  let ?h = "effective_context M c"
  let ?r = "row_of (build_count_map seqs (if ?h = [] then 0 else k_star M)) ?h"
  have h: "?h \<in> retained_contexts M" "suffix ?h c"
    using wf effective_context_facts [of M c] by (simp_all add: model_wf_def)
  have out: "count_in ?r t = 0" if "t \<notin> sigma M"
  proof -
    have "t \<notin> set (dict_keys ?r)"
      using that chosen_counts_row_keys [of seqs "k_star M" "k # ks" ?h] ts [OF refl, of ?h] s by auto
    then show ?thesis by (simp add: pydict.keys_get count_in_def)
  qed
  have "predict M c t = Inr ((real (count_in ?r t) + 1) / (real (row_total ?r) + real (card (sigma M))))"
    using out wf cm h(1) sigma_list_facts(1) [of seqs] s
    by (simp add: predict_def smoothed_row_def dict_get_map_pair context_epsilon_def distinct_card Let_def
        epsilon_or_default_def model_wf_def)
  with h show ?thesis
    using wf effective_context_facts(3) [of M _ c]
    by (intro exI [of _ ?h]) (fastforce simp: model_wf_def Let_def)
qed

theorem predict_laplace_witness:
  "\<exists>M p. train [[tok_exec, tok_open, tok_exec]] 1 None 100 = Inr M \<and> predict M [tok_open] tok_exec = Inr p"
proof -
  obtain M where "train [[tok_exec, tok_open, tok_exec]] 1 None 100 = Inr M" using train_example by blast
  with predict_laplace [OF this, of "[tok_open]" tok_exec] show ?thesis by (auto simp: Let_def)
qed

text \<open>
  C7: prediction is a distribution after every context. In a well-formed model every context gives
  every token a positive probability without an error, and the probabilities of the alphabet sum to
  one.
\<close>

theorem predict_distribution:
  assumes "model_wf M"
  shows "(\<forall>t. \<exists>p. predict M c t = Inr p \<and> 0 < p) \<and> (\<Sum>t \<in> sigma M. projr (predict M c t)) = 1"
  using predict_wf_positive [OF assms] by blast

theorem predict_distribution_witness:
  "\<exists>M. train [[tok_exec, tok_open, tok_exec]] 1 None 100 = Inr M \<and>
       (\<Sum>t \<in> sigma M. projr (predict M [tok_exec, tok_open] t)) = 1"
  using train_example trained_model_wf predict_distribution by blast

lemma count_list_concat: "count_list (concat xss) x = (\<Sum>xs \<leftarrow> xss. count_list xs x)"
  by (induction xss) simp_all

lemma count_list_upt: "count_list (map f [0..<n]) x = card {i. i < n \<and> f i = x}"
proof (induction n)
  case (Suc n)
  have "{i. i < Suc n \<and> f i = x} = (if f n = x then insert n {i. i < n \<and> f i = x} else {i. i < n \<and> f i = x})"
    by (auto simp: less_Suc_eq)
  with Suc show ?case by simp
qed simp

lemma context_at_iff:
  assumes "i \<le> length s"
  shows "context_at k s i = c \<longleftrightarrow> suffix c (take i s) \<and> length c = min (nat k) i"
proof
  show "context_at k s i = c \<Longrightarrow> suffix c (take i s) \<and> length c = min (nat k) i"
    using context_at_suffix length_context_at [OF assms] by metis
next
  assume c: "suffix c (take i s) \<and> length c = min (nat k) i"
  then have "suffix c (take i s)" "suffix (context_at k s i) (take i s)" "length c = length (context_at k s i)"
    using length_context_at [OF assms, of k] context_at_suffix by auto
  then show "context_at k s i = c"
    by (metis suffix_length_suffix suffix_order.antisym order_refl)
qed

text \<open>
  the count maps count. For every order, context and token, the stored count is the number of
  positions in the training sequences at which the token stands and the context is the suffix of the
  preceding tokens of length \<open>min(order, i)\<close>.
\<close>

theorem build_count_map_counts:
  "count_in (row_of (build_count_map seqs k) c) t =
     (\<Sum>s \<leftarrow> seqs. card {i. i < length s \<and> s ! i = t \<and> suffix c (take i s) \<and> length c = min (nat k) i})"
proof -
  have "count_list (observations k s) (c, t) =
      card {i. i < length s \<and> s ! i = t \<and> suffix c (take i s) \<and> length c = min (nat k) i}" for s
    unfolding observations_def count_list_upt
    by (rule arg_cong [of _ _ card]) (auto simp: context_at_iff context_at_suffix length_context_at)
  then show ?thesis
    by (simp add: build_count_map_eq count_in_count_pairs count_list_concat comp_def)
qed

text \<open>
  what pruning keeps. The retained contexts are the empty one and those contexts observed at
  the selected order whose local BIC is strictly below that of their longest retained proper suffix.
\<close>

theorem train_prunes_by_local_bic:
  assumes "train seqs k_max order mt = Inr M"
    and "rows = (\<lambda>c. row_of (build_count_map seqs (if c = [] then 0 else k_star M)) c)"
    and "score = (\<lambda>c. local_bic (rows c) (card (sigma M)))"
  shows "c \<in> retained_contexts M \<longleftrightarrow>
    c = [] \<or> (rows c \<noteq> [] \<and>
      (rows (longest_retained (retained_contexts M) (tl c)) \<noteq> [] \<longrightarrow>
        score c < score (longest_retained (retained_contexts M) (tl c))))"
proof -
  obtain cm where cm: "\<And>c. row_of cm c = rows c"
    "dict_wf cm" "set (dict_keys cm) = insert [] (set (dict_keys (build_count_map seqs (k_star M))))"
    "retained_contexts M = set (prune_contexts cm (length (sigma_list seqs)))"
    using trained_contexts [OF assms(1)] unfolding assms(2) by metis
  have m: "card (sigma M) = length (sigma_list seqs)"
    using assms(1) by (rule train_InrE) (simp add: sigma_list_facts(1) distinct_card)
  have rows: "c \<in> set (dict_keys cm) \<longleftrightarrow> rows c \<noteq> []" if "c \<noteq> []"
  proof -
    have "dict_get (build_count_map seqs (k_star M)) c \<noteq> Some []"
      using row_of_count_pairs_nonempty unfolding build_count_map_eq by metis
    moreover have "c \<in> set (dict_keys cm) \<longleftrightarrow> c \<in> set (dict_keys (build_count_map seqs (k_star M)))"
      using that cm(3) by simp
    ultimately show ?thesis
      using that by (auto simp: assms(2) pydict.keys_get row_of_def split: option.splits)
  qed
  have "c \<in> retained_contexts M \<longleftrightarrow>
      c = [] \<or> (c \<in> set (dict_keys cm) \<and> c \<noteq> [] \<and> keeps cm (card (sigma M)) (retained_contexts M) c)"
    using prune_contexts_eq(1) [OF cm(2), of "card (sigma M)"] cm(4) m by auto
  with rows show ?thesis
    by (auto simp: keeps_def Let_def cm(1) assms(3) suffix1_def drop_Suc)
qed

theorem train_prunes_by_local_bic_witness:
  "\<exists>M. train [[tok_exec, tok_open, tok_exec]] 1 (Some 1) 100 = Inr M \<and> [] \<in> retained_contexts M \<and>
       [tok_open, tok_open] \<notin> retained_contexts M"
proof -
  obtain M where M: "train [[tok_exec, tok_open, tok_exec]] 1 (Some 1) 100 = Inr M"
    using train_returns [of "[[tok_exec, tok_open, tok_exec]]" 1 "Some 1"]
    by (auto simp: candidate_orders_def)
  then have "k_star M \<in> set (candidate_orders [[tok_exec, tok_open, tok_exec]] 1 (Some 1))"
    by (rule trained_order)
  then have k: "k_star M = 1" by (simp add: candidate_orders_def k_limit_def)
  have "row_of (build_count_map [[tok_exec, tok_open, tok_exec]] 1) [tok_open, tok_open] = []"
    by (simp add: row_of_long_context)
  then have empty: "row_of (build_count_map [[tok_exec, tok_open, tok_exec]]
      (if [tok_open, tok_open] = [] then 0 else k_star M)) [tok_open, tok_open] = []"
    by (simp only: k list.distinct if_False)
  have "[tok_open, tok_open] \<notin> retained_contexts M"
  proof
    assume "[tok_open, tok_open] \<in> retained_contexts M"
    from iffD1 [OF train_prunes_by_local_bic [OF M refl refl] this] empty show False by blast
  qed
  moreover have "[] \<in> retained_contexts M"
    by (rule iffD2 [OF train_prunes_by_local_bic [OF M refl refl]]) simp
  ultimately show ?thesis using M by blast
qed

text \<open>
  order selection. The selected order is a candidate, no candidate has a strictly smaller BIC
  score, and the model records that score. With a fixed order it is that order clamped to the limit.
\<close>

theorem train_selects_min_bic:
  assumes "train seqs k_max order mt = Inr M"
    and "score = (\<lambda>k. bic (build_count_map seqs k) (card (sigma M)) (sum_list (map length seqs)))"
  shows "k_star M \<in> set (candidate_orders seqs k_max order) \<and> bic_score M = score (k_star M) \<and>
    \<not> (\<exists>k. k \<in> set (candidate_orders seqs k_max order) \<and> score k < score (k_star M))"
  using assms(1)
proof (rule train_InrE)
  fix k ks
  assume *: "candidate_orders seqs k_max order = k # ks"
    "k_star M = min_by (\<lambda>k. bic (build_count_map seqs k) (length (sigma_list seqs)) (sum_list (map length seqs))) k ks"
    "sigma M = set (sigma_list seqs)"
    "bic_score M = bic (build_count_map seqs (k_star M)) (length (sigma_list seqs)) (sum_list (map length seqs))"
  have m: "card (sigma M) = length (sigma_list seqs)"
    by (simp add: *(3) sigma_list_facts(1) distinct_card)
  have k: "k_star M = min_by score k ks" by (simp add: *(2) assms(2) m)
  have "\<not> score y < score (k_star M)" if "y \<in> set (k # ks)" for y
    unfolding k using that by (intro min_by_least) (simp_all add: assms(2))
  moreover have "bic_score M = score (k_star M)" using *(4) by (simp add: assms(2) m)
  ultimately show ?thesis using trained_order [OF assms(1)] unfolding *(1) by blast
qed

theorem train_selects_min_bic_witness:
  "\<exists>M. train [[tok_exec, tok_open, tok_exec]] 1 None 100 = Inr M \<and> k_star M \<in> {0, 1}"
proof -
  obtain M where M: "train [[tok_exec, tok_open, tok_exec]] 1 None 100 = Inr M" using train_example by blast
  have "set (candidate_orders [[tok_exec, tok_open, tok_exec]] 1 None) = {0, 1}"
    by (auto simp: candidate_orders_def k_limit_def)
  with train_selects_min_bic [OF M refl] M show ?thesis by auto
qed

end
