(* ===== verification/Markov_Serializer.thy ===== *)
theory Markov_Serializer
  imports Markov_Chain "HOL-Library.Char_ord" "HOL-Library.List_Lexorder" "HOL-Library.Product_Lexorder"
begin

text \<open>
  Storing a trained model, \<open>domain/markov/serializer.py\<close>. The JSON text is represented by the
  document it denotes, a record with the fields of the documented format: \<open>json.dumps\<close> is the step
  that sorts the keys of every object and refuses a float that is not finite, \<open>json.loads\<close> the
  identity on documents. Documents that miss a field or hold a value of another JSON type are outside
  the model. The iteration order of a frozenset is taken to be ascending.

  The lemmas show that keys decode to what they encode when no field of a token holds a separator,
  that a trained model is then read back with the same predictions, and that a separator in a token
  makes the stored model unreadable.
\<close>

section \<open>Keys and tokens\<close>

fun encode_token :: "token \<Rightarrow> string list" where
  "encode_token (a, b, c, d) = [a, b, c, d]"

definition decode_token :: "string list \<Rightarrow> token py_result" where
  "decode_token lst =
     (if length lst \<noteq> 4 then Inl ValueError else Inr (lst ! 0, lst ! 1, lst ! 2, lst ! 3))"

definition encode_context :: "mcontext \<Rightarrow> string list list" where
  "encode_context ctx = map encode_token ctx"

definition decode_context :: "string list list \<Rightarrow> mcontext py_result" where
  "decode_context lst = py_mapM decode_token lst"

definition context_key :: "mcontext \<Rightarrow> string" where
  "context_key ctx =
     (if ctx = [] then [] else join_with CHR ''|'' (map (\<lambda>t. join_with CHR '';'' (encode_token t)) ctx))"

definition decode_context_key :: "string \<Rightarrow> mcontext py_result" where
  "decode_context_key key =
     (if key = [] then Inr []
      else py_mapM (\<lambda>part.
        let parts = split_on CHR '';'' part in
        if length parts \<noteq> 4 then Inl ValueError
        else Inr (parts ! 0, parts ! 1, parts ! 2, parts ! 3)) (split_on CHR ''|'' key))"

definition token_key :: "token \<Rightarrow> string" where
  "token_key t = join_with CHR '';'' (encode_token t)"

definition decode_token_key :: "string \<Rightarrow> token py_result" where
  "decode_token_key key =
     (let parts = split_on CHR '';'' key in
      if length parts \<noteq> 4 then Inl ValueError
      else Inr (parts ! 0, parts ! 1, parts ! 2, parts ! 3))"

section \<open>Documents\<close>

record model_doc =
  schema_version :: "string option"
  doc_k_star :: int
  doc_m :: int
  doc_N :: int
  doc_bic_score :: pyfloat
  doc_sequences_count :: int
  doc_sigma :: "string list list"
  doc_retained :: "string list list list"
  doc_transition :: "(string, (string, real) dict) dict"
  doc_epsilon :: "(string, real) dict"

text \<open>\<open>json.dumps(doc, sort_keys=True, allow_nan=False)\<close>: the other floats of a model are reals.\<close>

definition json_dumps :: "model_doc \<Rightarrow> model_doc py_result" where
  "json_dumps doc =
     (if \<not> is_finite (doc_bic_score doc) then Inl ValueError
      else Inr (doc \<lparr>doc_transition := sort_key fst (map (\<lambda>(k, r). (k, sort_key fst r)) (doc_transition doc)),
                     doc_epsilon := sort_key fst (doc_epsilon doc)\<rparr>))"

definition serialize :: "markov_model \<Rightarrow> model_doc py_result" where
  "serialize model = json_dumps
     \<lparr>schema_version = Some ''v1'',
      doc_k_star = k_star model,
      doc_m = alphabet_m model,
      doc_N = total_n model,
      doc_bic_score = bic_score model,
      doc_sequences_count = training_sequences_count model,
      doc_sigma = map encode_token (sorted_list_of_set (sigma model)),
      doc_retained = map encode_context (sort_key length (sorted_list_of_set (retained_contexts model))),
      doc_transition = encode_dict context_key (encode_dict token_key (\<lambda>prob. prob)) (transition model),
      doc_epsilon = encode_dict context_key (\<lambda>eps. eps) (epsilon model)\<rparr>"

definition deserialize :: "model_doc \<Rightarrow> markov_model py_result" where
  "deserialize doc =
     (if schema_version doc \<noteq> Some ''v1'' then Inl ValueError
      else py_bind (py_mapM decode_token (doc_sigma doc)) (\<lambda>sig.
           py_bind (py_mapM decode_context (doc_retained doc)) (\<lambda>ret.
           py_bind (decode_dict decode_context_key (decode_dict decode_token_key Inr) (doc_transition doc)) (\<lambda>trans.
           py_bind (decode_dict decode_context_key Inr (doc_epsilon doc)) (\<lambda>eps.
             Inr \<lparr>sigma = set sig,
                  k_star = doc_k_star doc,
                  retained_contexts = set ret,
                  transition = trans,
                  epsilon = eps,
                  bic_score = doc_bic_score doc,
                  total_n = doc_N doc,
                  alphabet_m = doc_m doc,
                  training_sequences_count = doc_sequences_count doc\<rparr>)))))"

section \<open>Separators\<close>

definition clean_token :: "token \<Rightarrow> bool" where
  "clean_token t \<longleftrightarrow> (\<forall>f \<in> set (encode_token t). CHR '';'' \<notin> set f \<and> CHR ''|'' \<notin> set f)"

lemma length_encode_token [simp]: "length (encode_token t) = 4"
  by (cases t) simp

lemma encode_token_not_Nil [simp]: "encode_token t \<noteq> []"
  by (cases t) simp

lemma nth_encode_token [simp]:
  "(encode_token t ! 0, encode_token t ! Suc 0, encode_token t ! 2, encode_token t ! 3) = t"
  by (cases t) simp

lemma decode_encode_token [simp]: "decode_token (encode_token t) = Inr t"
  by (simp add: decode_token_def)

lemma decode_encode_context [simp]: "decode_context (encode_context c) = Inr c"
  unfolding decode_context_def encode_context_def py_mapM_map
  by (simp add: py_mapM_Inr [where g = "\<lambda>t. t"])

lemma split_token_key: "clean_token t \<Longrightarrow> split_on CHR '';'' (token_key t) = encode_token t"
  by (simp add: token_key_def clean_token_def split_on_join)

lemma decode_token_key_inverse: "clean_token t \<Longrightarrow> decode_token_key (token_key t) = Inr t"
  by (simp add: decode_token_key_def split_token_key Let_def)

lemma token_key_no_bar: "clean_token t \<Longrightarrow> CHR ''|'' \<notin> set (token_key t)"
  using set_join_with [of "CHR '';''" "encode_token t"] by (auto simp: token_key_def clean_token_def)

lemma decode_context_key_inverse:
  assumes "\<forall>t \<in> set c. clean_token t"
  shows "decode_context_key (context_key c) = Inr c"
proof (cases "c = []")
  case True
  then show ?thesis by (simp add: context_key_def decode_context_key_def)
next
  case False
  then have key: "context_key c = join_with CHR ''|'' (map token_key c)"
    by (simp add: context_key_def token_key_def [abs_def])
  have split: "split_on CHR ''|'' (context_key c) = map token_key c"
    unfolding key using assms False token_key_no_bar by (intro split_on_join) auto
  have "context_key c \<noteq> []"
  proof
    assume "context_key c = []"
    with split have "map token_key c = [[]]" by simp
    then obtain t where "c = [t]" "token_key t = []" by auto
    then show False by (cases t) (simp add: token_key_def)
  qed
  then have "decode_context_key (context_key c) = py_mapM decode_token_key (map token_key c)"
    by (simp add: decode_context_key_def split decode_token_key_def [abs_def])
  also have "\<dots> = Inr (map (\<lambda>t. t) c)"
    unfolding py_mapM_map using assms by (intro py_mapM_Inr) (simp add: decode_token_key_inverse)
  finally show ?thesis by simp
qed

section \<open>Reading back\<close>

definition same_row :: "(token, real) dict \<Rightarrow> (token, real) dict \<Rightarrow> bool" where
  "same_row r r' \<longleftrightarrow> dict_get r = dict_get r'"

text \<open>Equality of models as Python compares them: dictionaries regardless of order.\<close>

definition same_model :: "markov_model \<Rightarrow> markov_model \<Rightarrow> bool" where
  "same_model M M' \<longleftrightarrow>
     sigma M = sigma M' \<and> k_star M = k_star M' \<and> retained_contexts M = retained_contexts M' \<and>
     (\<forall>c. rel_option same_row (dict_get (transition M) c) (dict_get (transition M') c)) \<and>
     (\<forall>c. dict_get (epsilon M) c = dict_get (epsilon M') c) \<and>
     bic_score M = bic_score M' \<and> total_n M = total_n M' \<and> alphabet_m M = alphabet_m M' \<and>
     training_sequences_count M = training_sequences_count M'"

lemma same_model_predict:
  assumes "same_model M M'"
  shows "predict M c t = predict M' c t"
proof -
  have e: "effective_context M c = effective_context M' c" "epsilon_or_default M c' = epsilon_or_default M' c'" for c'
    using assms by (simp_all add: same_model_def effective_context_def epsilon_or_default_def
        split: option.splits)
  have "rel_option same_row (dict_get (transition M) c) (dict_get (transition M') c)" for c
    using assms by (simp add: same_model_def)
  from this [of "effective_context M' c"] this [of "[]"] show ?thesis
    unfolding predict_def e Let_def
    by (cases "dict_get (transition M) (effective_context M' c)"; cases "dict_get (transition M) []")
       (auto simp: same_row_def option_rel_Some1)
qed

definition storable :: "markov_model \<Rightarrow> bool" where
  "storable M \<longleftrightarrow>
     finite (sigma M) \<and> finite (retained_contexts M) \<and> dict_wf (transition M) \<and> dict_wf (epsilon M) \<and>
     (\<forall>(c, r) \<in> set (transition M). (\<forall>t \<in> set c. clean_token t) \<and> dict_wf r \<and>
        (\<forall>t \<in> set (dict_keys r). clean_token t)) \<and>
     (\<forall>(c, e) \<in> set (epsilon M). \<forall>t \<in> set c. clean_token t)"

lemma dict_keysI: "(k, v) \<in> set d \<Longrightarrow> k \<in> set (dict_keys d)"
  by (force simp: dict_keys_def)

lemma storable_roundtrip:
  assumes "storable M" and "is_finite (bic_score M)"
  shows "\<exists>M'. py_bind (serialize M) deserialize = Inr M' \<and> same_model M M'"
proof -
  let ?row = "\<lambda>r. sort_key fst (encode_dict token_key (\<lambda>prob. prob) r)"
  have row: "\<exists>r'. decode_dict decode_token_key Inr (?row r) = Inr r' \<and> same_row r r'"
    if "(c, r) \<in> set (transition M)" for c r
  proof -
    from that assms(1) have "dict_wf r" "\<forall>t \<in> set (dict_keys r). clean_token t"
      by (auto simp: storable_def)
    then obtain r' where "decode_dict decode_token_key Inr (?row r) = Inr r'"
        "\<And>k. dict_get r' k = map_option (\<lambda>v. projr (Inr v :: real py_result)) (dict_get r k)"
      using decode_encode_dict [of r decode_token_key token_key Inr "\<lambda>prob. prob"]
        decode_token_key_inverse dict_keysI by metis
    then show ?thesis by (auto simp: same_row_def option.map_ident fun_eq_iff)
  qed
  obtain trans where trans:
    "decode_dict decode_context_key (decode_dict decode_token_key Inr)
       (sort_key fst (encode_dict context_key ?row (transition M))) = Inr trans"
    "\<And>c. dict_get trans c = map_option (\<lambda>r. projr (decode_dict decode_token_key Inr (?row r))) (dict_get (transition M) c)"
  proof (rule decode_encode_dict [of "transition M" decode_context_key context_key "decode_dict decode_token_key Inr" ?row])
    show "dict_wf (transition M)" using assms(1) by (simp add: storable_def)
    show "decode_context_key (context_key c) = Inr c \<and> (\<exists>v'. decode_dict decode_token_key Inr (?row r) = Inr v')"
      if "(c, r) \<in> set (transition M)" for c r
      using that assms(1) row [OF that] decode_context_key_inverse by (fastforce simp: storable_def)
  qed blast
  have rel: "rel_option same_row (dict_get (transition M) c) (dict_get trans c)" for c
  proof (cases "dict_get (transition M) c")
    case (Some r)
    with row [OF dict_get_SomeD, OF Some] show ?thesis by (auto simp: trans(2))
  qed (simp add: trans(2))
  obtain eps where eps:
    "decode_dict decode_context_key Inr (sort_key fst (encode_dict context_key (\<lambda>eps. eps) (epsilon M))) = Inr eps"
    "\<And>c. dict_get eps c = map_option (\<lambda>v. projr (Inr v :: real py_result)) (dict_get (epsilon M) c)"
  proof (rule decode_encode_dict [of "epsilon M" decode_context_key context_key Inr "\<lambda>eps. eps"])
    show "dict_wf (epsilon M)" using assms(1) by (simp add: storable_def)
    show "decode_context_key (context_key c) = Inr c \<and> (\<exists>v'. Inr e = (Inr v' :: real py_result))"
      if "(c, e) \<in> set (epsilon M)" for c e
      using that assms(1) decode_context_key_inverse by (fastforce simp: storable_def)
  qed blast
  have "py_mapM decode_token (map encode_token ts) = Inr (map (\<lambda>t. t) ts)" for ts
    unfolding py_mapM_map by (rule py_mapM_Inr) simp
  moreover have "py_mapM decode_context (map encode_context cs) = Inr (map (\<lambda>c. c) cs)" for cs
    unfolding py_mapM_map by (rule py_mapM_Inr) simp
  ultimately show ?thesis
    using assms trans(1) eps rel
    by (simp add: serialize_def json_dumps_def deserialize_def encode_dict_map_values same_model_def
        storable_def option.map_ident)
qed

lemma trained_storable:
  assumes "train seqs k_max order mt = Inr M" and "\<forall>t \<in> sigma M. clean_token t"
  shows "storable M"
proof -
  have wf: "model_wf M" by (rule trained_model_wf [OF assms(1)])
  have "\<forall>t \<in> set c. clean_token t" if "(c, r) \<in> set (transition M)" for c r
    using that trained_row(1) [OF assms(1)] trained_contexts_tokens [OF assms(1)] assms(2) by blast
  moreover have "\<forall>t \<in> set c. clean_token t" if "(c, e) \<in> set (epsilon M)" for c e
    using dict_keysI [OF that] trained_dicts(4) [OF assms(1)] trained_contexts_tokens [OF assms(1)] assms(2)
    by blast
  ultimately show ?thesis
    using wf trained_dicts(1,2) [OF assms(1)] trained_row [OF assms(1)] assms(2)
    by (fastforce simp: storable_def model_wf_def)
qed

lemma clean_reserved [simp]: "clean_token unk_token_4" "clean_token other_token_4"
  by (simp_all add: clean_token_def unk_token_4_def other_token_4_def UNK_TOKEN_def OTHER_RESOURCE_TOKEN_def)

lemma trained_bic_finite:
  assumes "train seqs k_max order mt = Inr M"
  shows "is_finite (bic_score M) \<longleftrightarrow> concat seqs \<noteq> []"
proof -
  have "bic_score M = bic (build_count_map seqs (k_star M)) (length (sigma_list seqs)) (sum_list (map length seqs))"
    using assms by (rule train_InrE)
  then show ?thesis by (auto simp: bic_def length_concat [symmetric] simp del: length_concat sum_list_eq_0_iff)
qed

lemma decode_token_key_semicolon:
  assumes "f \<in> set (encode_token t)" and "CHR '';'' \<in> set f"
  shows "decode_token_key (token_key t) = Inl ValueError"
proof -
  have "count_list f CHR '';'' \<noteq> 0" using assms(2) by (simp add: count_list_0_iff)
  moreover have "count_list f CHR '';'' \<le> (\<Sum>xs \<leftarrow> encode_token t. count_list xs CHR '';'')"
    using assms(1) by (intro member_le_sum_list) simp_all
  ultimately have "(\<Sum>xs \<leftarrow> encode_token t. count_list xs CHR '';'') \<noteq> 0" by linarith
  then have "length (split_on CHR '';'' (token_key t)) \<noteq> 4"
    by (simp add: token_key_def length_split_on count_list_join_with del: sum_list_eq_0_iff)
  then show ?thesis by (simp add: decode_token_key_def)
qed

text \<open>
  Every error of this module is a \<open>ValueError\<close>.\<close>

lemma decode_value_errors:
  "decode_token_key k = Inl e \<Longrightarrow> e = ValueError"
  "decode_context_key k = Inl e \<Longrightarrow> e = ValueError"
  by (auto simp: decode_token_key_def decode_context_key_def Let_def dest!: py_mapM_Inl split: if_splits)

lemma decode_dict_fails:
  assumes "(k, v) \<in> set d" and "dk k = Inl ValueError \<or> dv v = Inl ValueError"
    and "\<And>k e. dk k = Inl e \<Longrightarrow> e = ValueError"
    and "\<And>v e. dv v = Inl e \<Longrightarrow> e = ValueError"
  shows "decode_dict dk dv d = Inl ValueError"
proof -
  let ?f = "\<lambda>(k, v). py_bind (dk k) (\<lambda>k'. py_bind (dv v) (\<lambda>v'. Inr (k', v')))"
  have err: "e = ValueError" if "?f p = Inl e" for p e
    using that assms(3,4) by (cases p) (auto simp: py_bind_def split: sum.splits)
  have "\<exists>e. ?f (k, v) = Inl e"
    using assms(2) by (auto simp: py_bind_def split: sum.splits)
  then obtain e where "?f (k, v) = Inl e" ..
  from py_mapM_fails [of _ _ ?f, OF assms(1) this] err have "py_mapM ?f d = Inl ValueError" by blast
  then show ?thesis by (simp add: decode_dict_def)
qed

lemma deserialize_bad_transition:
  assumes "decode_dict decode_context_key (decode_dict decode_token_key Inr) (doc_transition doc) = Inl ValueError"
  shows "deserialize doc = Inl ValueError"
proof -
  have tok: "decode_token l = Inl e \<Longrightarrow> e = ValueError" for l e
    by (auto simp: decode_token_def split: if_splits)
  then have "decode_context l = Inl e \<Longrightarrow> e = ValueError" for l e
    by (auto simp: decode_context_def dest!: py_mapM_Inl)
  with tok assms show ?thesis
    by (auto simp: deserialize_def py_bind_def dest!: py_mapM_Inl split: sum.splits)
qed

section \<open>Properties\<close>

text \<open>
  C10: a stored model predicts as the trained one. A model trained on at least one token, none of
  whose tokens contains a separator character, is serialized without an error, and deserializing the
  result gives an equal model; its prediction of every token after every context is the same.
\<close>

theorem serialize_roundtrip:
  assumes "train seqs k_max order mt = Inr M" and "concat seqs \<noteq> []"
    and "\<forall>t \<in> set (concat seqs). clean_token t"
  shows "\<exists>M'. py_bind (serialize M) deserialize = Inr M' \<and> same_model M M' \<and>
           (\<forall>c t. predict M' c t = predict M c t)"
proof -
  have "sigma M = set (sigma_list seqs)" using assms(1) by (rule train_InrE)
  with assms(3) have "\<forall>t \<in> sigma M. clean_token t" by (auto simp: sigma_list_facts)
  then have "storable M" by (rule trained_storable [OF assms(1)])
  moreover have "is_finite (bic_score M)" using trained_bic_finite [OF assms(1)] assms(2) by simp
  ultimately show ?thesis using storable_roundtrip [of M] same_model_predict [of M] by metis
qed

theorem serialize_roundtrip_witness:
  "\<exists>M M'. train [[tok_exec, tok_open, tok_exec]] 1 None 100 = Inr M \<and>
     py_bind (serialize M) deserialize = Inr M' \<and> predict M' [] tok_open = predict M [] tok_open"
proof -
  obtain M where M: "train [[tok_exec, tok_open, tok_exec]] 1 None 100 = Inr M" using train_example by blast
  have "\<forall>t \<in> set (concat [[tok_exec, tok_open, tok_exec]]). clean_token t"
    by (simp add: clean_token_def tok_exec_def tok_open_def)
  from serialize_roundtrip [OF M _ this] M show ?thesis by (metis concat.simps list.distinct(1) append.simps)
qed

text \<open>
  a semicolon in a token makes the stored model unreadable. Nothing in training or in
  \<open>serialize\<close> rejects a token with a semicolon in a field, but storing the trained model and reading
  it back then always raises \<open>ValueError\<close>.
\<close>

theorem serialize_semicolon_unreadable:
  assumes "train seqs k_max order mt = Inr M" and "t \<in> set (concat seqs)"
    and "f \<in> set (encode_token t)" and "CHR '';'' \<in> set f"
  shows "py_bind (serialize M) deserialize = Inl ValueError"
proof -
  let ?row = "\<lambda>r. sort_key fst (encode_dict token_key (\<lambda>prob. prob) r)"
  let ?trans = "sort_key fst (encode_dict context_key ?row (transition M))"
  have "sigma M = set (sigma_list seqs)" using assms(1) by (rule train_InrE)
  with assms(2) have t: "t \<in> sigma M" by (auto simp: sigma_list_facts)
  have "[] \<in> retained_contexts M" using trained_model_wf [OF assms(1)] by (simp add: model_wf_def)
  then have "context_key [] \<in> set (dict_keys (encode_dict context_key ?row (transition M)))"
    unfolding encode_dict_pairs trained_dicts(3) [OF assms(1)] by blast
  then obtain k r' where kr: "(k, r') \<in> set (encode_dict context_key ?row (transition M))"
    by (auto simp: dict_keys_def)
  then obtain c r where r: "(c, r) \<in> set (transition M)" "r' = ?row r"
    using encode_dict_pairs(1) by fast
  have "token_key t \<in> set (dict_keys (encode_dict token_key (\<lambda>prob. prob) r))"
    using t trained_row(3) [OF assms(1) r(1)] unfolding encode_dict_pairs by simp
  then obtain p where "(token_key t, p) \<in> set r'"
    unfolding r(2) by (auto simp: dict_keys_def)
  then have "decode_dict decode_token_key Inr r' = (Inl ValueError :: (token, real) dict py_result)"
    using decode_token_key_semicolon [OF assms(3,4)] decode_value_errors(1)
    by (intro decode_dict_fails) auto
  moreover have "e = ValueError" if "decode_dict decode_token_key Inr r = (Inl e :: (token, real) dict py_result)" for r e
    using that decode_value_errors(1)
    by (auto simp: decode_dict_def py_bind_def dest!: py_mapM_Inl split: sum.splits)
  ultimately have "decode_dict decode_context_key (decode_dict decode_token_key Inr) ?trans = Inl ValueError"
    using kr decode_value_errors(2) by (intro decode_dict_fails [of k r']) auto
  then show ?thesis
    by (auto simp: serialize_def json_dumps_def encode_dict_map_values intro: deserialize_bad_transition)
qed

definition tok_odd :: token where
  "tok_odd = (''open'', ''read'', ''/tmp/a;b'', ''unknown'')"

theorem serialize_semicolon_unreadable_witness:
  "\<exists>M. train [[tok_odd]] 5 None 100 = Inr M \<and> py_bind (serialize M) deserialize = Inl ValueError"
proof -
  obtain M where M: "train [[tok_odd]] 5 None 100 = Inr M"
    using train_returns [of "[[tok_odd]]" 5 None 100] by (auto simp: candidate_orders_def k_limit_def)
  have "''/tmp/a;b'' \<in> set (encode_token tok_odd)" by (simp add: tok_odd_def)
  from serialize_semicolon_unreadable [OF M _ this] M show ?thesis by auto
qed

text \<open>
  a model trained on no token cannot be stored. Serializing a trained model raises exactly when
  the training sequences hold no token at all, because its BIC score is then infinite.
\<close>

theorem serialize_raises_exactly:
  assumes "train seqs k_max order mt = Inr M"
  shows "(\<exists>d. serialize M = Inr d \<and> schema_version d = Some ''v1'') = (concat seqs \<noteq> []) \<and>
    (serialize M = Inl ValueError) = (concat seqs = [])"
  unfolding trained_bic_finite [OF assms, symmetric]
  using trained_bic_finite [OF assms] by (auto simp: serialize_def json_dumps_def)

theorem serialize_raises_exactly_witness:
  "\<exists>M. train [[]] 5 None 100 = Inr M \<and> serialize M = Inl ValueError"
proof -
  obtain M where M: "train [[]] 5 None 100 = Inr M"
    using train_returns [of "[[]]" 5 None 100] by (auto simp: candidate_orders_def k_limit_def)
  from serialize_raises_exactly [OF M] M show ?thesis by auto
qed

end
