(* ===== verification/Contract_Generation.thy ===== *)
theory Contract_Generation
  imports Markov_Serializer
begin

text \<open>
  Generating a behavioural contract, \<open>application/use_cases/generate_contract.py\<close>: fetch the training
  sequences, tokenise, train, serialize, hash, sign, persist. The three ports are arguments of the
  model, as are SHA-256, the bytes of the JSON text, the fresh UUID and the clock; the result of a
  run comes with the sequence of port calls it made.

  The lemmas show when a run is refused, that nothing is signed or persisted unless everything before
  it succeeded, and that what is persisted is the signed document of the trained model.
\<close>

section \<open>Ports, command and result\<close>

type_synonym raw_event = "string \<times> string \<times> string \<times> string"

record 'time generate_command =
  cmd_image_digest :: string
  cmd_purl :: string
  cmd_tenant_id :: nat
  window_start :: 'time
  window_end :: 'time
  k_max :: int
  minimum_training_tokens :: int

record 'time contract_record =
  rec_contract_id :: nat
  rec_image_digest :: string
  rec_purl :: string
  rec_model_json :: model_doc
  rec_model_digest :: string
  rec_bundle_uri :: string
  rec_signing_identity :: string
  rec_created_at :: 'time
  rec_k_star :: int
  rec_bic_score :: pyfloat
  rec_training_n :: int

record 'time generate_result =
  gen_contract_id :: nat
  gen_image_digest :: string
  gen_purl :: string
  gen_model_digest :: string
  gen_bundle_uri :: string
  gen_k_star :: int
  gen_bic_score :: pyfloat
  gen_training_n :: int
  gen_created_at :: 'time

datatype 'e gen_error =
    InsufficientTrainingData string string nat int
  | PythonError py_error
  | PortError 'e

datatype 'time port_call =
    FetchSequences string string 'time 'time
  | Sign "nat list" string
  | SaveContract "'time contract_record"

record ('e, 'time) ports =
  fetch_port :: "string \<Rightarrow> string \<Rightarrow> 'time \<Rightarrow> 'time \<Rightarrow> 'e + raw_event list list"
  sign_port :: "nat list \<Rightarrow> string \<Rightarrow> 'e + string \<times> string"
  save_port :: "'time contract_record \<Rightarrow> 'e + unit"
  sha256_hex :: "nat list \<Rightarrow> string"
  json_bytes :: "model_doc \<Rightarrow> nat list"
  fresh_uuid :: nat
  clock_now :: 'time

text \<open>A run that may stop: the calls made so far with the value or the error.\<close>

type_synonym ('e, 'time, 'a) run = "'time port_call list \<times> ('e gen_error + 'a)"

definition run_bind :: "('e, 'time, 'a) run \<Rightarrow> ('a \<Rightarrow> ('e, 'time, 'b) run) \<Rightarrow> ('e, 'time, 'b) run" where
  "run_bind m f =
     (case m of
        (calls, Inl e) \<Rightarrow> (calls, Inl e)
      | (calls, Inr a) \<Rightarrow> (case f a of (calls', r) \<Rightarrow> (calls @ calls', r)))"

definition call_port :: "'time port_call \<Rightarrow> 'e + 'a \<Rightarrow> ('e, 'time, 'a) run" where
  "call_port c r = ([c], case r of Inl e \<Rightarrow> Inl (PortError e) | Inr a \<Rightarrow> Inr a)"

definition pure_step :: "'a py_result \<Rightarrow> ('e, 'time, 'a) run" where
  "pure_step r = ([], case r of Inl e \<Rightarrow> Inl (PythonError e) | Inr a \<Rightarrow> Inr a)"

lemma run_bind_simps [simp]:
  "run_bind (calls, Inl e) f = (calls, Inl e)"
  "run_bind (calls, Inr a) f = (calls @ fst (f a), snd (f a))"
  by (simp_all add: run_bind_def case_prod_unfold)

lemma call_port_simps [simp]:
  "call_port c (Inl e) = ([c], Inl (PortError e))"
  "call_port c (Inr a) = ([c], Inr a)"
  by (simp_all add: call_port_def)

lemma pure_step_simps [simp]:
  "pure_step (Inl e) = ([], Inl (PythonError e))"
  "pure_step (Inr a) = ([], Inr a)"
  by (simp_all add: pure_step_def)

section \<open>The use case\<close>

definition tokenize :: "raw_event list list \<Rightarrow> token list list" where
  "tokenize raw = map (map (\<lambda>(e0, e1, e2, e3). tau e0 e1 e2 e3)) raw"

definition content_digest :: "('e, 'time) ports \<Rightarrow> nat list \<Rightarrow> string" where
  "content_digest ports content = ''sha256:'' @ sha256_hex ports content"

definition execute ::
    "('e, 'time) ports \<Rightarrow> 'time generate_command \<Rightarrow> ('e, 'time, 'time generate_result) run" where
  "execute ports cmd =
     run_bind
       (call_port (FetchSequences (cmd_image_digest cmd) (cmd_purl cmd) (window_start cmd) (window_end cmd))
          (fetch_port ports (cmd_image_digest cmd) (cmd_purl cmd) (window_start cmd) (window_end cmd)))
       (\<lambda>raw.
         let sequences = tokenize raw;
             total_tokens = sum_list (map length sequences)
         in if int total_tokens < minimum_training_tokens cmd then
              ([], Inl (InsufficientTrainingData (cmd_image_digest cmd) (cmd_purl cmd) total_tokens
                          (minimum_training_tokens cmd)))
            else
              run_bind (pure_step (train sequences (k_max cmd) None 100)) (\<lambda>model.
              run_bind (pure_step (serialize model)) (\<lambda>model_json.
                let model_bytes = json_bytes ports model_json;
                    model_digest = content_digest ports model_bytes
                in run_bind (call_port (Sign model_bytes model_digest) (sign_port ports model_bytes model_digest))
                     (\<lambda>(bundle_uri, signing_identity).
                       let contract =
                             \<lparr>rec_contract_id = fresh_uuid ports,
                              rec_image_digest = cmd_image_digest cmd,
                              rec_purl = cmd_purl cmd,
                              rec_model_json = model_json,
                              rec_model_digest = model_digest,
                              rec_bundle_uri = bundle_uri,
                              rec_signing_identity = signing_identity,
                              rec_created_at = clock_now ports,
                              rec_k_star = k_star model,
                              rec_bic_score = bic_score model,
                              rec_training_n = total_n model\<rparr>
                       in run_bind (call_port (SaveContract contract) (save_port ports contract))
                            (\<lambda>_. ([], Inr
                              \<lparr>gen_contract_id = fresh_uuid ports,
                               gen_image_digest = cmd_image_digest cmd,
                               gen_purl = cmd_purl cmd,
                               gen_model_digest = model_digest,
                               gen_bundle_uri = bundle_uri,
                               gen_k_star = k_star model,
                               gen_bic_score = bic_score model,
                               gen_training_n = total_n model,
                               gen_created_at = clock_now ports\<rparr>))))))"

section \<open>Tokens\<close>

text \<open>
  tokenisation normalises. The operation and privilege classes of a token are always among the
  valid ones, the resource class is never empty, valid values pass through unchanged, and the event
  type is never changed.
\<close>

theorem tau_normalises:
  "\<exists>op res priv. tau e0 e1 e2 e3 = (e0, op, res, priv) \<and>
     op \<in> set VALID_OPERATION_CLASSES \<and> priv \<in> set VALID_PRIVILEGE_CLASSES \<and> res \<noteq> [] \<and>
     tau e0 op res priv = tau e0 e1 e2 e3 \<and>
     (op = e1 \<or> op = ''exec'' \<and> e1 \<notin> set VALID_OPERATION_CLASSES) \<and>
     (res = e2 \<or> res = OTHER_RESOURCE_TOKEN \<and> e2 = []) \<and>
     (priv = e3 \<or> priv = ''unknown'' \<and> e3 \<notin> set VALID_PRIVILEGE_CLASSES)"
  by (auto simp: tau_def VALID_OPERATION_CLASSES_def VALID_PRIVILEGE_CLASSES_def OTHER_RESOURCE_TOKEN_def
      Let_def)

section \<open>Runs\<close>

lemma execute_small:
  assumes "fetch_port ports (cmd_image_digest cmd) (cmd_purl cmd) (window_start cmd) (window_end cmd) = Inr raw"
    and "int (sum_list (map length (tokenize raw))) < minimum_training_tokens cmd"
  shows "execute ports cmd =
    ([FetchSequences (cmd_image_digest cmd) (cmd_purl cmd) (window_start cmd) (window_end cmd)],
     Inl (InsufficientTrainingData (cmd_image_digest cmd) (cmd_purl cmd)
       (sum_list (map length (tokenize raw))) (minimum_training_tokens cmd)))"
  using assms by (simp add: execute_def Let_def)

lemma execute_enough:
  assumes "fetch_port ports (cmd_image_digest cmd) (cmd_purl cmd) (window_start cmd) (window_end cmd) = Inr raw"
    and "\<not> int (sum_list (map length (tokenize raw))) < minimum_training_tokens cmd"
    and "train (tokenize raw) (k_max cmd) None 100 = Inr M" and "serialize M = Inr doc"
    and "digest = content_digest ports (json_bytes ports doc)"
  obtains e where "sign_port ports (json_bytes ports doc) digest = Inl e"
      "execute ports cmd =
        ([FetchSequences (cmd_image_digest cmd) (cmd_purl cmd) (window_start cmd) (window_end cmd),
          Sign (json_bytes ports doc) digest], Inl (PortError e))"
  | uri ident contract where "sign_port ports (json_bytes ports doc) digest = Inr (uri, ident)"
      "contract =
        \<lparr>rec_contract_id = fresh_uuid ports, rec_image_digest = cmd_image_digest cmd, rec_purl = cmd_purl cmd,
         rec_model_json = doc, rec_model_digest = digest, rec_bundle_uri = uri, rec_signing_identity = ident,
         rec_created_at = clock_now ports, rec_k_star = k_star M, rec_bic_score = bic_score M,
         rec_training_n = total_n M\<rparr>"
      "fst (execute ports cmd) =
        [FetchSequences (cmd_image_digest cmd) (cmd_purl cmd) (window_start cmd) (window_end cmd),
         Sign (json_bytes ports doc) digest, SaveContract contract]"
      "snd (execute ports cmd) =
        (case save_port ports contract of
           Inl e \<Rightarrow> Inl (PortError e)
         | Inr _ \<Rightarrow> Inr \<lparr>gen_contract_id = fresh_uuid ports, gen_image_digest = cmd_image_digest cmd,
             gen_purl = cmd_purl cmd, gen_model_digest = digest, gen_bundle_uri = uri, gen_k_star = k_star M,
             gen_bic_score = bic_score M, gen_training_n = total_n M, gen_created_at = clock_now ports\<rparr>)"
proof (cases "sign_port ports (json_bytes ports doc) digest")
  case (Inl e)
  with assms show thesis by (intro that(1) [of e]) (simp_all add: execute_def Let_def)
next
  case (Inr p)
  obtain uri ident where "p = (uri, ident)" by (cases p)
  with Inr have sign: "sign_port ports (json_bytes ports doc) digest = Inr (uri, ident)" by simp
  obtain contract where c: "contract =
        \<lparr>rec_contract_id = fresh_uuid ports, rec_image_digest = cmd_image_digest cmd, rec_purl = cmd_purl cmd,
         rec_model_json = doc, rec_model_digest = digest, rec_bundle_uri = uri, rec_signing_identity = ident,
         rec_created_at = clock_now ports, rec_k_star = k_star M, rec_bic_score = bic_score M,
         rec_training_n = total_n M\<rparr>" by blast
  show thesis
    using assms sign
    by (intro that(2) [OF sign c]; cases "save_port ports contract")
       (simp_all add: execute_def Let_def c)
qed

lemma execute_stops:
  assumes "fetch_port ports (cmd_image_digest cmd) (cmd_purl cmd) (window_start cmd) (window_end cmd) = Inr raw"
    and "\<not> int (sum_list (map length (tokenize raw))) < minimum_training_tokens cmd"
    and "py_bind (train (tokenize raw) (k_max cmd) None 100) serialize = Inl e"
  shows "execute ports cmd =
    ([FetchSequences (cmd_image_digest cmd) (cmd_purl cmd) (window_start cmd) (window_end cmd)], Inl (PythonError e))"
  using assms by (cases "train (tokenize raw) (k_max cmd) None 100") (auto simp: execute_def Let_def)

lemma train_serialize_ok:
  assumes "1 \<le> sum_list (map length seqs)" and "0 \<le> k"
  obtains M doc where "train seqs k None 100 = Inr M" "serialize M = Inr doc" "concat seqs \<noteq> []"
proof -
  have ne: "concat seqs \<noteq> []"
  proof
    assume "concat seqs = []"
    then have "length (concat seqs) = 0" by simp
    with assms(1) show False unfolding length_concat by linarith
  qed
  have "0 \<le> k_limit seqs k"
    using assms(2) by (auto simp: k_limit_def Let_def)
  then have "candidate_orders seqs k None \<noteq> []" by (simp add: candidate_orders_def)
  moreover have "seqs \<noteq> []" using ne by auto
  ultimately obtain M where M: "train seqs k None 100 = Inr M" using train_returns by blast
  then have "is_finite (bic_score M)" using trained_bic_finite ne by blast
  then have "\<exists>doc. serialize M = Inr doc" by (simp add: serialize_def json_dumps_def)
  with M ne that show thesis by blast
qed

text \<open>
  a run is refused exactly when there is too little data. When the sequences can be fetched, the
  run raises \<open>InsufficientTrainingDataError\<close> with the available and required counts exactly when the
  token count is below the minimum, and then only the fetch has happened. With a positive minimum
  and a non-negative maximal order no other error of the code itself is possible.
\<close>

theorem execute_refuses_exactly:
  assumes "fetch_port ports (cmd_image_digest cmd) (cmd_purl cmd) (window_start cmd) (window_end cmd) = Inr raw"
    and "1 \<le> minimum_training_tokens cmd" and "0 \<le> k_max cmd"
    and "n = sum_list (map length raw)"
  shows "(if int n < minimum_training_tokens cmd
          then execute ports cmd =
            ([FetchSequences (cmd_image_digest cmd) (cmd_purl cmd) (window_start cmd) (window_end cmd)],
             Inl (InsufficientTrainingData (cmd_image_digest cmd) (cmd_purl cmd) n (minimum_training_tokens cmd)))
          else (\<exists>e. snd (execute ports cmd) = Inl (PortError e)) \<or> (\<exists>res. snd (execute ports cmd) = Inr res))"
proof -
  have n: "sum_list (map length (tokenize raw)) = n" by (simp add: tokenize_def assms(4) comp_def)
  show ?thesis
  proof (cases "int n < minimum_training_tokens cmd")
    case True
    with execute_small [OF assms(1)] n show ?thesis by simp
  next
    case False
    with assms(2) have "1 \<le> sum_list (map length (tokenize raw))" by (simp add: n)
    then obtain M doc where "train (tokenize raw) (k_max cmd) None 100 = Inr M" "serialize M = Inr doc"
      using train_serialize_ok assms(3) by metis
    note M = this
    have "\<not> int (sum_list (map length (tokenize raw))) < minimum_training_tokens cmd" using False n by simp
    note enough = execute_enough [OF assms(1) this M refl]
    show ?thesis
    proof (cases rule: enough)
      case (1 e)
      with False show ?thesis by simp
    next
      case (2 uri ident contract)
      with False show ?thesis by (cases "save_port ports contract") simp_all
    qed
  qed
qed

lemma saved_contract:
  assumes "SaveContract c \<in> set (fst (execute ports cmd))"
  shows "\<exists>raw M.
    fetch_port ports (cmd_image_digest cmd) (cmd_purl cmd) (window_start cmd) (window_end cmd) = Inr raw \<and>
    minimum_training_tokens cmd \<le> int (sum_list (map length raw)) \<and>
    train (tokenize raw) (k_max cmd) None 100 = Inr M \<and> serialize M = Inr (rec_model_json c) \<and>
    rec_model_digest c = ''sha256:'' @ sha256_hex ports (json_bytes ports (rec_model_json c)) \<and>
    sign_port ports (json_bytes ports (rec_model_json c)) (rec_model_digest c) =
      Inr (rec_bundle_uri c, rec_signing_identity c) \<and>
    rec_image_digest c = cmd_image_digest cmd \<and> rec_purl c = cmd_purl cmd \<and> rec_training_n c = total_n M \<and>
    fst (execute ports cmd) =
      [FetchSequences (cmd_image_digest cmd) (cmd_purl cmd) (window_start cmd) (window_end cmd),
       Sign (json_bytes ports (rec_model_json c)) (rec_model_digest c), SaveContract c]"
proof (cases "fetch_port ports (cmd_image_digest cmd) (cmd_purl cmd) (window_start cmd) (window_end cmd)")
  case (Inl e)
  with assms show ?thesis by (simp add: execute_def)
next
  case (Inr raw)
  have n: "sum_list (map length (tokenize raw)) = sum_list (map length raw)" by (simp add: tokenize_def comp_def)
  have enough: "\<not> int (sum_list (map length (tokenize raw))) < minimum_training_tokens cmd"
    using execute_small [OF Inr] assms by fastforce
  show ?thesis
  proof (cases "py_bind (train (tokenize raw) (k_max cmd) None 100) serialize")
    case (Inl e)
    with execute_stops [OF Inr enough Inl] assms show ?thesis by simp
  next
    case doc: (Inr doc)
    then obtain M where M: "train (tokenize raw) (k_max cmd) None 100 = Inr M" "serialize M = Inr doc"
      by (auto simp: py_bind_Inr_iff)
    show ?thesis
    proof (cases rule: execute_enough [OF Inr enough M refl])
      case (1 e)
      with assms show ?thesis by simp
    next
      case (2 uri ident contract)
      with assms have "c = contract" by simp
      with 2 M Inr enough n show ?thesis by (auto simp: content_digest_def)
    qed
  qed
qed

text \<open>
  nothing is persisted unsigned. If a run saves a contract, the calls were exactly fetch, sign
  and save; the contract holds the serialized form of the model trained on the fetched sequences, of
  which there were enough; its digest is the SHA-256 of that form's bytes; and its bundle and identity
  are what the signer returned for those bytes and that digest.
\<close>

theorem execute_saves_only_signed:
  assumes "SaveContract c \<in> set (fst (execute ports cmd))"
  shows "\<exists>raw M.
    fetch_port ports (cmd_image_digest cmd) (cmd_purl cmd) (window_start cmd) (window_end cmd) = Inr raw \<and>
    minimum_training_tokens cmd \<le> int (sum_list (map length raw)) \<and>
    train (tokenize raw) (k_max cmd) None 100 = Inr M \<and> serialize M = Inr (rec_model_json c) \<and>
    rec_model_digest c = ''sha256:'' @ sha256_hex ports (json_bytes ports (rec_model_json c)) \<and>
    sign_port ports (json_bytes ports (rec_model_json c)) (rec_model_digest c) =
      Inr (rec_bundle_uri c, rec_signing_identity c) \<and>
    rec_image_digest c = cmd_image_digest cmd \<and> rec_purl c = cmd_purl cmd \<and> rec_training_n c = total_n M \<and>
    fst (execute ports cmd) =
      [FetchSequences (cmd_image_digest cmd) (cmd_purl cmd) (window_start cmd) (window_end cmd),
       Sign (json_bytes ports (rec_model_json c)) (rec_model_digest c), SaveContract c]"
  using assms by (rule saved_contract)

text \<open>Ports that always succeed, and a command that can be satisfied.\<close>

definition example_ports :: "(unit, nat) ports" where
  "example_ports =
     \<lparr>fetch_port = (\<lambda>_ _ _ _. Inr [[(''exec'', ''exec'', ''sh'', ''none''), (''open'', ''read'', [], ''elevated'')]]),
      sign_port = (\<lambda>_ _. Inr (''bundle'', ''signer'')),
      save_port = (\<lambda>_. Inr ()),
      sha256_hex = (\<lambda>_. ''ab''),
      json_bytes = (\<lambda>_. [1, 2]),
      fresh_uuid = 7,
      clock_now = 9\<rparr>"

definition example_command :: "nat generate_command" where
  "example_command =
     \<lparr>cmd_image_digest = ''sha256:d'', cmd_purl = ''pkg:a'', cmd_tenant_id = 3, window_start = 0,
      window_end = 5, k_max = 5, minimum_training_tokens = 2\<rparr>"

lemma example_fetch:
  "fetch_port example_ports d p a b =
     Inr [[(''exec'', ''exec'', ''sh'', ''none''), (''open'', ''read'', [], ''elevated'')]]"
  by (simp add: example_ports_def)

lemma example_saves: "\<exists>c. SaveContract c \<in> set (fst (execute example_ports example_command))"
proof -
  let ?raw = "[[(''exec'', ''exec'', ''sh'', ''none''), (''open'', ''read'', [], ''elevated'')]]"
  have enough: "\<not> int (sum_list (map length (tokenize ?raw))) < minimum_training_tokens example_command"
    by (simp add: tokenize_def example_command_def)
  have "1 \<le> sum_list (map length (tokenize ?raw))" "0 \<le> k_max example_command"
    by (simp_all add: tokenize_def example_command_def)
  then obtain M doc where M: "train (tokenize ?raw) (k_max example_command) None 100 = Inr M" "serialize M = Inr doc"
    by (rule train_serialize_ok)
  show ?thesis
    by (cases rule: execute_enough [OF example_fetch enough M refl]) (auto simp: example_ports_def)
qed

theorem execute_refuses_exactly_witness:
  "execute example_ports (example_command \<lparr>minimum_training_tokens := 50\<rparr>) =
     ([FetchSequences ''sha256:d'' ''pkg:a'' 0 5], Inl (InsufficientTrainingData ''sha256:d'' ''pkg:a'' 2 50))"
  using execute_refuses_exactly [of example_ports "example_command \<lparr>minimum_training_tokens := 50\<rparr>", OF example_fetch _ _ refl]
  by (simp add: example_command_def)

theorem execute_saves_only_signed_witness:
  "\<exists>c. SaveContract c \<in> set (fst (execute example_ports example_command)) \<and> rec_bundle_uri c = ''bundle''"
proof -
  obtain c where c: "SaveContract c \<in> set (fst (execute example_ports example_command))"
    using example_saves by blast
  from execute_saves_only_signed [OF c] c show ?thesis by (auto simp: example_ports_def)
qed

text \<open>
  the tenant of a command has no effect. The port calls and the result of a run are the same for
  every tenant identifier: neither the sequences fetched nor the contract saved are scoped by it.
\<close>

theorem execute_ignores_tenant:
  "execute ports (cmd \<lparr>cmd_tenant_id := t\<rparr>) = execute ports cmd"
  by (simp add: execute_def Let_def cong: if_cong)

text \<open>
  a generated contract is usable. If the fetched events carry no separator in their type and
  resource class, every contract a run saves is read back by \<open>deserialize\<close> as a model with the
  predictions of the model that was trained; against it every context has a probability distribution.
\<close>

theorem execute_contract_usable:
  assumes "SaveContract c \<in> set (fst (execute ports cmd))"
    and "fetch_port ports (cmd_image_digest cmd) (cmd_purl cmd) (window_start cmd) (window_end cmd) = Inr raw"
    and "1 \<le> minimum_training_tokens cmd"
    and "list_all (list_all (\<lambda>(e0, e1, e2, e3).
           CHR '';'' \<notin> set e0 \<and> CHR ''|'' \<notin> set e0 \<and> CHR '';'' \<notin> set e2 \<and> CHR ''|'' \<notin> set e2)) raw"
  shows "\<exists>M M'. train (tokenize raw) (k_max cmd) None 100 = Inr M \<and>
    deserialize (rec_model_json c) = Inr M' \<and> (\<forall>ctx t. predict M' ctx t = predict M ctx t) \<and>
    (\<forall>ctx. (\<Sum>t \<in> sigma M'. projr (predict M' ctx t)) = 1)"
proof -
  obtain M where M: "train (tokenize raw) (k_max cmd) None 100 = Inr M" "serialize M = Inr (rec_model_json c)"
      "minimum_training_tokens cmd \<le> int (sum_list (map length raw))"
    using saved_contract [OF assms(1)] assms(2) by auto
  have "clean_token (tau e0 e1 e2 e3)"
    if "CHR '';'' \<notin> set e0 \<and> CHR ''|'' \<notin> set e0 \<and> CHR '';'' \<notin> set e2 \<and> CHR ''|'' \<notin> set e2" for e0 e1 e2 e3
    using that by (auto simp: tau_def clean_token_def VALID_OPERATION_CLASSES_def VALID_PRIVILEGE_CLASSES_def
        OTHER_RESOURCE_TOKEN_def Let_def)
  with assms(4) have "\<forall>t \<in> set (concat (tokenize raw)). clean_token t"
    by (fastforce simp: tokenize_def list_all_iff)
  moreover have "sigma M = \<Union> (set ` set (tokenize raw)) \<union> {unk_token_4, other_token_4}"
    using train_InrE [OF M(1)] sigma_list_facts(2) by metis
  ultimately have "\<forall>t \<in> sigma M. clean_token t" by auto
  then have "storable M" by (rule trained_storable [OF M(1)])
  moreover have "is_finite (bic_score M)"
    using M(2) by (auto simp: serialize_def json_dumps_def split: if_splits)
  ultimately obtain M' where M': "deserialize (rec_model_json c) = Inr M'" "same_model M M'"
    using storable_roundtrip [of M] M(2) by auto
  have p: "predict M' ctx t = predict M ctx t" for ctx t using same_model_predict [OF M'(2)] by simp
  have "sigma M' = sigma M" using M'(2) by (simp add: same_model_def)
  with p predict_wf_positive(2) [OF trained_model_wf [OF M(1)]]
  have "(\<Sum>t \<in> sigma M'. projr (predict M' ctx t)) = 1" for ctx by simp
  with M(1) M'(1) p show ?thesis by blast
qed

theorem execute_contract_usable_witness:
  "\<exists>c M'. SaveContract c \<in> set (fst (execute example_ports example_command)) \<and>
     deserialize (rec_model_json c) = Inr M'"
proof -
  obtain c where c: "SaveContract c \<in> set (fst (execute example_ports example_command))"
    using example_saves by blast
  have "1 \<le> minimum_training_tokens example_command" by (simp add: example_command_def)
  from execute_contract_usable [OF c example_fetch this] c show ?thesis by auto
qed

end
