(* ===== verification/Drift_Config.thy ===== *)
theory Drift_Config
  imports Prelude
begin

text \<open>
  The configuration of the drift detector, \<open>domain/drift/config.py\<close>: its fields, their defaults and
  the validation that runs when a configuration is constructed.
\<close>

definition UNRESOLVED_IDENTITY :: string where
  "UNRESOLVED_IDENTITY = ''UNRESOLVED''"

record drift_config =
  threshold :: pyfloat
  threshold_version :: string
  min_observation_tokens :: int
  min_training_tokens :: int
  loss_penalty_factor :: pyfloat
  require_identity :: bool
  novelty_weight :: pyfloat
  min_calibration_windows :: int
  calibration_quantile :: pyfloat

definition default_config :: drift_config where
  "default_config =
     \<lparr>threshold = PInf,
      threshold_version = ''uncalibrated'',
      min_observation_tokens = 20,
      min_training_tokens = 100,
      loss_penalty_factor = Fin (3 / 2),
      require_identity = True,
      novelty_weight = Fin 0,
      min_calibration_windows = 30,
      calibration_quantile = Fin (99 / 100)\<rparr>"

text \<open>\<open>__post_init__\<close>: the comparisons are Python's, so a NaN passes every \<open><\<close> check.\<close>

definition post_init :: "drift_config \<Rightarrow> drift_config py_result" where
  "post_init c =
     (if loss_penalty_factor c < Fin 1 then Inl ValueError
      else if min_observation_tokens c < 1 then Inl ValueError
      else if min_training_tokens c < 1 then Inl ValueError
      else if \<not> (Fin 0 < calibration_quantile c \<and> calibration_quantile c \<le> Fin 1) then Inl ValueError
      else if novelty_weight c < Fin 0 then Inl ValueError
      else if min_calibration_windows c < 2 then Inl ValueError
      else Inr c)"

lemma post_init_Inr:
  "post_init c = Inr c' \<longleftrightarrow> c' = c \<and> \<not> loss_penalty_factor c < Fin 1 \<and> 1 \<le> min_observation_tokens c \<and>
     1 \<le> min_training_tokens c \<and> Fin 0 < calibration_quantile c \<and> calibration_quantile c \<le> Fin 1 \<and>
     \<not> novelty_weight c < Fin 0 \<and> 2 \<le> min_calibration_windows c"
  by (auto simp: post_init_def)

lemma default_config_valid: "post_init default_config = Inr default_config"
  by (simp add: post_init_def default_config_def)

end
