(* ===== verification/Kl_Scorer.thy ===== *)
theory Kl_Scorer
  imports Markov_Chain
begin

text \<open>
  The drift score, \<open>domain/drift/kl_scorer.py\<close>: the observed tokens are counted per effective
  context, the empirical distribution of each context is compared with the contract's by its
  Kullback-Leibler divergence, and the weighted total is multiplied by the loss penalty.

  What the scorer needs of a contract is stated as a locale and proved of the Markov model. The
  lemmas show that scoring a well-formed model never raises, that the score is the mean
  log-likelihood ratio per observed token, that it is not negative as long as every observed token
  belongs to the alphabet, and what it is when none does.
\<close>

section \<open>The contract interface\<close>

lemma gibbs_term:
  fixes q p :: real
  assumes "0 < q" and "0 < p"
  shows "q - p \<le> q * ln (q / p)"
proof -
  have "ln (p / q) \<le> p / q - 1" using assms by (intro ln_le_minus_one) simp
  then have "q * (1 - p / q) \<le> q * ln (q / p)"
    using assms by (intro mult_left_mono) (simp_all add: ln_div)
  with assms show ?thesis by (simp add: right_diff_distrib)
qed

text \<open>A conditional distribution over a finite alphabet that is positive on every token.\<close>

locale contract =
  fixes wf :: "'m \<Rightarrow> bool"
    and alphabet :: "'m \<Rightarrow> token set"
    and prob :: "'m \<Rightarrow> mcontext \<Rightarrow> token \<Rightarrow> real py_result"
  assumes alphabet_finite: "wf M \<Longrightarrow> finite (alphabet M)"
    and prob_positive: "wf M \<Longrightarrow> \<exists>p. prob M c t = Inr p \<and> 0 < p"
    and prob_sum: "wf M \<Longrightarrow> (\<Sum>t \<in> alphabet M. projr (prob M c t)) = 1"
begin

definition divergence :: "'m \<Rightarrow> mcontext \<Rightarrow> row \<Rightarrow> real" where
  "divergence M c r = dict_sum (\<lambda>t n. real n / real (row_total r) *
     ln (real n / real (row_total r) / projr (prob M c t))) r"

lemma prob_sum_le:
  assumes "wf M" and "A \<subseteq> alphabet M"
  shows "(\<Sum>t \<in> A. projr (prob M c t)) \<le> 1"
proof -
  have "(\<Sum>t \<in> A. projr (prob M c t)) \<le> (\<Sum>t \<in> alphabet M. projr (prob M c t))"
    using assms alphabet_finite prob_positive by (intro sum_mono2) (auto, metis less_imp_le sum.sel(2))
  with prob_sum [OF assms(1)] show ?thesis by simp
qed

text \<open>
  Gibbs' inequality, from \<open>ln x \<le> x - 1\<close>, with the mass the observed tokens have.\<close>

lemma divergence_ge:
  assumes "wf M" and "row_wf r" and "r \<noteq> []"
  shows "1 - (\<Sum>t \<in> set (dict_keys r). projr (prob M c t)) \<le> divergence M c r"
proof -
  let ?n = "real (row_total r)" and ?K = "set (dict_keys r)" and ?p = "\<lambda>t. projr (prob M c t)"
  have n: "0 < ?n" using assms row_total_pos_iff by simp
  have sums: "dict_sum (\<lambda>t k. f t (real k)) r = (\<Sum>t \<in> ?K. f t (real (count_in r t)))" for f :: "token \<Rightarrow> real \<Rightarrow> real"
    using assms(2) by (simp add: row_wf_def dict_sum_eq) (intro sum.cong; auto simp: count_in_def pydict.keys_get)
  have total: "(\<Sum>t \<in> ?K. real (count_in r t)) = ?n"
    using row_total_over [OF assms(2), of ?K] by simp
  have "real (count_in r t) / ?n - ?p t \<le> real (count_in r t) / ?n * ln (real (count_in r t) / ?n / ?p t)"
    if "t \<in> ?K" for t
  proof -
    let ?q = "real (count_in r t) / ?n"
    have q: "0 < ?q" using that n assms(2) by (simp add: row_wf_keys)
    have p: "0 < ?p t" using prob_positive [OF assms(1), of c t] by auto
    from gibbs_term [OF q p] show ?thesis .
  qed
  then have "(\<Sum>t \<in> ?K. real (count_in r t) / ?n - ?p t)
      \<le> (\<Sum>t \<in> ?K. real (count_in r t) / ?n * ln (real (count_in r t) / ?n / ?p t))"
    by (rule sum_mono)
  moreover have "(\<Sum>t \<in> ?K. real (count_in r t) / ?n - ?p t) = 1 - (\<Sum>t \<in> ?K. ?p t)"
    using n total by (simp add: sum_subtractf sum_divide_distrib [symmetric])
  ultimately show ?thesis
    unfolding divergence_def sums [of "\<lambda>t k. k / ?n * ln (k / ?n / ?p t)"] by simp
qed

lemma divergence_nonneg:
  assumes "wf M" and "row_wf r" and "r \<noteq> []" and "set (dict_keys r) \<subseteq> alphabet M"
  shows "0 \<le> divergence M c r"
  using divergence_ge [OF assms(1-3)] prob_sum_le [OF assms(1,4)] by (smt (verit))

end

interpretation markov: contract model_wf sigma predict
proof
  show "finite (sigma M)" if "model_wf M" for M using that by (simp add: model_wf_def)
  show "\<exists>p. predict M c t = Inr p \<and> 0 < p" if "model_wf M" for M c t
    using predict_wf_positive(1) [OF that] by blast
  show "(\<Sum>t \<in> sigma M. projr (predict M c t)) = 1" if "model_wf M" for M c
    using that by (rule predict_wf_positive)
qed

section \<open>The scorer\<close>

record context_kl_result =
  kl_context :: mcontext
  kl_divergence :: real
  obs_count :: nat
  tokens_observed :: nat
  novel_tokens :: nat

record kl_score_result =
  total_kl :: real
  per_context :: "context_kl_result list"
  observation_count :: nat
  contexts_evaluated :: nat
  novel_token_fraction :: real
  loss_was_observed :: bool
  loss_penalty :: pyfloat
  final_score :: pyfloat

record kl_drift_scorer =
  scorer_model :: markov_model
  scorer_penalty :: pyfloat

definition new_scorer :: "markov_model \<Rightarrow> pyfloat \<Rightarrow> kl_drift_scorer py_result" where
  "new_scorer model loss_penalty_factor =
     (if loss_penalty_factor < Fin 1 then Inl ValueError
      else Inr \<lparr>scorer_model = model, scorer_penalty = loss_penalty_factor\<rparr>)"

text \<open>Step 1: the counts per effective context.\<close>

definition observe :: "markov_model \<Rightarrow> token list \<Rightarrow> count_map" where
  "observe model seq =
     fold (\<lambda>i obs. count_one (effective_context model (context_at (k_star model) seq i)) (seq ! i) obs)
       [0..<length seq] []"

definition novel_count :: "markov_model \<Rightarrow> token list \<Rightarrow> nat" where
  "novel_count model seq = length (filter (\<lambda>t. t \<notin> sigma model) seq)"

text \<open>One token's contribution: the division and the logarithm raise outside their domain.\<close>

definition kl_term :: "markov_model \<Rightarrow> mcontext \<Rightarrow> nat \<Rightarrow> token \<Rightarrow> nat \<Rightarrow> real py_result" where
  "kl_term model ctx n_h tok n_hx =
     (if n_h = 0 then Inl ZeroDivisionError
      else
       (let p_obs = real n_hx / real n_h in
        py_bind (predict model ctx tok) (\<lambda>p.
          let p_contract =
            (if p \<le> 0 then (case dict_get (epsilon model) ctx of Some e \<Rightarrow> e | None \<Rightarrow> 1 / 10 ^ 10) else p)
          in if p_obs > 0 then
               (if p_contract = 0 then Inl ZeroDivisionError
                else if p_obs / p_contract \<le> 0 then Inl ValueError
                else Inr (p_obs * ln (p_obs / p_contract)))
             else Inr 0)))"

definition context_kl :: "markov_model \<Rightarrow> mcontext \<Rightarrow> row \<Rightarrow> context_kl_result py_result" where
  "context_kl model ctx tok_counts =
     (let n_h = row_total tok_counts in
      py_bind (py_mapM (\<lambda>(tok, n_hx). kl_term model ctx n_h tok n_hx) tok_counts) (\<lambda>ts.
        Inr \<lparr>kl_context = ctx,
             kl_divergence = sum_list ts,
             obs_count = n_h,
             tokens_observed = length tok_counts,
             novel_tokens = length (filter (\<lambda>t. t \<notin> sigma model) (dict_keys tok_counts))\<rparr>))"

definition score :: "kl_drift_scorer \<Rightarrow> token list \<Rightarrow> bool \<Rightarrow> kl_score_result py_result" where
  "score scorer observed_sequence loss =
     (let model = scorer_model scorer;
          penalty = (if loss then scorer_penalty scorer else Fin 1)
      in if observed_sequence = [] then
           Inr \<lparr>total_kl = 0, per_context = [], observation_count = 0, contexts_evaluated = 0,
                novel_token_fraction = 0, loss_was_observed = loss, loss_penalty = penalty,
                final_score = Fin 0\<rparr>
         else
           (let N = length observed_sequence;
                obs_counts = observe model observed_sequence
            in py_bind (py_mapM (\<lambda>(ctx, tok_counts). context_kl model ctx tok_counts) obs_counts) (\<lambda>results.
                 let total = (\<Sum>res \<leftarrow> results. real (obs_count res) / real N * kl_divergence res) in
                 Inr \<lparr>total_kl = total,
                      per_context = results,
                      observation_count = N,
                      contexts_evaluated = length obs_counts,
                      novel_token_fraction = real (novel_count model observed_sequence) / real N,
                      loss_was_observed = loss,
                      loss_penalty = penalty,
                      final_score = Fin total * penalty\<rparr>)))"

definition epsilon_for_context :: "kl_drift_scorer \<Rightarrow> mcontext \<Rightarrow> real py_result" where
  "epsilon_for_context scorer ctx =
     epsilon_or_default (scorer_model scorer) (effective_context (scorer_model scorer) ctx)"

section \<open>What scoring computes\<close>

definition observed_pairs :: "markov_model \<Rightarrow> token list \<Rightarrow> (mcontext \<times> token) list" where
  "observed_pairs model seq =
     map (\<lambda>i. (effective_context model (context_at (k_star model) seq i), seq ! i)) [0..<length seq]"

lemma observe_eq: "observe model seq = count_pairs (observed_pairs model seq)"
  by (simp add: observe_def count_pairs_def observed_pairs_def fold_map comp_def)

lemma observe_wf: "dict_wf (observe model seq)" "(c, r) \<in> set (observe model seq) \<Longrightarrow> row_wf r \<and> r \<noteq> []"
proof -
  show wf: "dict_wf (observe model seq)" by (simp add: observe_eq count_pairs_wf)
  assume "(c, r) \<in> set (observe model seq)"
  with wf have "dict_get (observe model seq) c = Some r" by (simp add: dict_get_in)
  then have "row_of (observe model seq) c = r" "r \<noteq> []"
    using row_of_count_pairs_nonempty by (auto simp: row_of_def observe_eq)
  then show "row_wf r \<and> r \<noteq> []" using count_pairs_wf(2) unfolding observe_eq by metis
qed

lemma observe_row: "(c, r) \<in> set (observe model seq) \<Longrightarrow> r = row_of (observe model seq) c"
  using observe_wf(1) by (simp add: dict_get_in row_of_def)

lemma observe_row_keys:
  assumes "(c, r) \<in> set (observe model seq)"
  shows "set (dict_keys r) \<subseteq> set seq"
proof -
  have "0 < count_list (observed_pairs model seq) (c, t)" if "t \<in> set (dict_keys r)" for t
    using that observe_wf(2) [OF assms] observe_row [OF assms] unfolding observe_eq
    by (metis count_in_count_pairs mem_Collect_eq row_wf_keys)
  then have "(c, t) \<in> set (observed_pairs model seq)" if "t \<in> set (dict_keys r)" for t
    using that by (metis count_notin less_numeral_extra(3))
  then show ?thesis by (fastforce simp: observed_pairs_def)
qed

text \<open>
  A well-formed model never makes a term raise.\<close>

lemma kl_term_wf:
  assumes "model_wf M" and "0 < n" and "0 < n_h"
  shows "kl_term M c n_h t n =
    Inr (real n / real n_h * ln (real n / real n_h / projr (predict M c t)))"
proof -
  obtain p where p: "predict M c t = Inr p" "0 < p" using markov.prob_positive [OF assms(1)] by blast
  then have "0 < real n / real n_h / p" using assms by simp
  with p assms show ?thesis by (simp add: kl_term_def Let_def not_le)
qed

lemma row_wf_positive: "row_wf r \<Longrightarrow> (t, n) \<in> set r \<Longrightarrow> 0 < n"
proof -
  assume "row_wf r" and "(t, n) \<in> set r"
  then have "dict_get r t = Some n" by (simp add: row_wf_def dict_get_in)
  with \<open>row_wf r\<close> show "0 < n" by (simp only: row_wf_def)
qed

lemma context_kl_wf:
  assumes "model_wf M" and "row_wf r" and "r \<noteq> []"
  shows "context_kl M c r = Inr \<lparr>kl_context = c, kl_divergence = markov.divergence M c r,
    obs_count = row_total r, tokens_observed = length r,
    novel_tokens = length (filter (\<lambda>t. t \<notin> sigma M) (dict_keys r))\<rparr>"
proof -
  have "0 < row_total r" using assms row_total_pos_iff by blast
  then have "py_mapM (\<lambda>(tok, n_hx). kl_term M c (row_total r) tok n_hx) r =
      Inr (map (\<lambda>(t, n). real n / real (row_total r) * ln (real n / real (row_total r) / projr (predict M c t))) r)"
    using kl_term_wf [OF assms(1)] row_wf_positive [OF assms(2)] by (intro py_mapM_Inr) auto
  then show ?thesis
    by (simp add: context_kl_def Let_def markov.divergence_def dict_sum_def)
qed

definition context_result :: "markov_model \<Rightarrow> mcontext \<times> row \<Rightarrow> context_kl_result" where
  "context_result M p = \<lparr>kl_context = fst p, kl_divergence = markov.divergence M (fst p) (snd p),
    obs_count = row_total (snd p), tokens_observed = length (snd p),
    novel_tokens = length (filter (\<lambda>t. t \<notin> sigma M) (dict_keys (snd p)))\<rparr>"

lemma score_wf:
  assumes "model_wf (scorer_model s)"
  shows "\<exists>res. score s seq loss = Inr res \<and>
    per_context res = map (context_result (scorer_model s)) (observe (scorer_model s) seq) \<and>
    observation_count res = length seq \<and> contexts_evaluated res = length (observe (scorer_model s) seq) \<and>
    total_kl res = (\<Sum>p \<leftarrow> observe (scorer_model s) seq.
      real (row_total (snd p)) / real (length seq) * markov.divergence (scorer_model s) (fst p) (snd p)) \<and>
    novel_token_fraction res = real (novel_count (scorer_model s) seq) / real (length seq) \<and>
    loss_was_observed res = loss \<and> loss_penalty res = (if loss then scorer_penalty s else Fin 1) \<and>
    final_score res = (if seq = [] then Fin 0 else Fin (total_kl res) * loss_penalty res)"
proof (cases "seq = []")
  case True
  then show ?thesis by (simp add: score_def observe_def novel_count_def)
next
  case False
  have "py_mapM (\<lambda>(ctx, tok_counts). context_kl (scorer_model s) ctx tok_counts) (observe (scorer_model s) seq) =
      Inr (map (context_result (scorer_model s)) (observe (scorer_model s) seq))"
  proof (rule py_mapM_Inr)
    fix p assume p: "p \<in> set (observe (scorer_model s) seq)"
    obtain c r where "p = (c, r)" by (cases p)
    with p show "(case p of (ctx, tok_counts) \<Rightarrow> context_kl (scorer_model s) ctx tok_counts) =
        Inr (context_result (scorer_model s) p)"
      using observe_wf(2) [of c r] context_kl_wf [OF assms, of r c] by (simp add: context_result_def)
  qed
  with False show ?thesis
    by (simp add: score_def Let_def context_result_def comp_def)
qed

text \<open>
  Summing over contexts and their tokens is summing over the observations.\<close>

lemma real_sum_list: "real (\<Sum>x \<leftarrow> xs. f x) = (\<Sum>x \<leftarrow> xs. real (f x))"
  by (induction xs) simp_all

lemma sum_list_counts:
  assumes "finite A" and "set xs \<subseteq> A"
  shows "(\<Sum>x \<leftarrow> xs. f x) = (\<Sum>x \<in> A. real (count_list xs x) * f x)"
  using assms(2)
proof (induction xs)
  case (Cons y ys)
  have "(\<Sum>x \<in> A. real (count_list (y # ys) x) * f x) =
      (\<Sum>x \<in> A. real (count_list ys x) * f x) + (\<Sum>x \<in> A. if x = y then f x else 0)"
    unfolding sum.distrib [symmetric] by (intro sum.cong) (auto simp: distrib_right)
  with Cons assms(1) show ?case by (simp add: sum.delta)
qed simp

lemma sum_rows_observations:
  "(\<Sum>(c, r) \<leftarrow> count_pairs ps. dict_sum (\<lambda>t n. real n * f c t) r) = (\<Sum>(c, t) \<leftarrow> ps. f c t)"
proof -
  let ?C = "fst ` set ps" and ?T = "snd ` set ps"
  have keys: "set (dict_keys (row_of (count_pairs ps) c)) \<subseteq> ?T" for c
  proof
    fix t assume "t \<in> set (dict_keys (row_of (count_pairs ps) c))"
    then have "0 < count_list ps (c, t)"
      by (simp add: row_wf_keys [OF count_pairs_wf(2)] count_in_count_pairs)
    then show "t \<in> ?T" by (metis count_notin image_eqI less_numeral_extra(3) snd_conv)
  qed
  have "(\<Sum>(c, r) \<leftarrow> count_pairs ps. dict_sum (\<lambda>t n. real n * f c t) r) =
      (\<Sum>c \<in> ?C. dict_sum (\<lambda>t n. real n * f c t) (row_of (count_pairs ps) c))"
    using dict_sum_eq [OF count_pairs_wf(1), of "\<lambda>c r. dict_sum (\<lambda>t n. real n * f c t) r" ps]
    by (simp add: dict_sum_def [of _ "count_pairs ps"] count_pairs_keys)
       (intro sum.cong refl arg_cong2 [where f = dict_sum], auto simp: row_of_def pydict.keys_get
         count_pairs_keys [symmetric])
  also have "\<dots> = (\<Sum>c \<in> ?C. \<Sum>t \<in> ?T. real (count_list ps (c, t)) * f c t)"
    using row_sum_over [OF count_pairs_wf(2) _ keys] by (intro sum.cong refl) (simp add: count_in_count_pairs)
  also have "\<dots> = (\<Sum>p \<in> ?C \<times> ?T. real (count_list ps p) * f (fst p) (snd p))"
    by (simp add: sum.cartesian_product case_prod_unfold)
  also have "\<dots> = (\<Sum>p \<leftarrow> ps. f (fst p) (snd p))"
    by (rule sum_list_counts [symmetric]) force+
  finally show ?thesis by (simp add: case_prod_unfold)
qed

lemma longest_retained_idem: "longest_retained R (longest_retained R c) = longest_retained R c"
  by (induction c) auto

lemma effective_context_idem: "effective_context M (effective_context M c) = effective_context M c"
proof (cases "k_star M > 0")
  case True
  let ?c = "drop (length c - nat (k_star M)) c"
  have "length (longest_retained (retained_contexts M) ?c) \<le> length ?c"
    using longest_retained_suffix suffix_length_le by blast
  with True show ?thesis by (simp add: effective_context_def longest_retained_idem)
qed (simp add: effective_context_def)

lemma effective_context_take:
  "i \<le> length s \<Longrightarrow> effective_context M (context_at (k_star M) s i) = effective_context M (take i s)"
proof -
  assume "i \<le> length s"
  moreover have "nat (int i - k_star M) = i - nat (k_star M)" if "k_star M > 0" using that by linarith
  ultimately show ?thesis by (auto simp: effective_context_def context_at_def min_def)
qed

lemma predict_effective: "predict M (effective_context M c) t = predict M c t"
  by (simp add: predict_def effective_context_idem)

lemma observed_pairs_eq: "observed_pairs M s = map (\<lambda>i. (effective_context M (take i s), s ! i)) [0..<length s]"
  by (simp add: observed_pairs_def effective_context_take)

lemma length_filter_upt: "length (filter P [0..<n]) = card {i. i < n \<and> P i}"
  using length_filter_conv_card [of P "[0..<n]"] by (simp add: conj_commute cong: conj_cong)

lemma total_kl_observations:
  assumes "model_wf (scorer_model s)" and "score s seq loss = Inr res" and "M = scorer_model s"
  shows "total_kl res = (\<Sum>(c, t) \<leftarrow> observed_pairs M seq.
    ln (real (count_in (row_of (observe M seq) c) t) / real (row_total (row_of (observe M seq) c)) /
      projr (predict M c t))) / real (length seq)"
proof -
  let ?g = "\<lambda>c t. ln (real (count_in (row_of (observe M seq) c) t) /
    real (row_total (row_of (observe M seq) c)) / projr (predict M c t))"
  have row: "real (row_total r) * markov.divergence M c r = dict_sum (\<lambda>t n. real n * ?g c t) r"
    if "(c, r) \<in> set (observe M seq)" for c r
  proof -
    have "0 < row_total r" and wf: "row_wf r" using observe_wf(2) [OF that] row_total_pos_iff by auto
    have "n = count_in r t" if "(t, n) \<in> set r" for t n
      using that wf by (simp add: row_wf_def dict_get_in count_in_def)
    with \<open>0 < row_total r\<close> show ?thesis
      unfolding markov.divergence_def dict_sum_def sum_list_const_mult [symmetric] observe_row [OF that, symmetric]
      by (intro arg_cong [of _ _ sum_list] map_cong refl) auto
  qed
  have "total_kl res = (\<Sum>p \<leftarrow> observe M seq.
      real (row_total (snd p)) / real (length seq) * markov.divergence M (fst p) (snd p))"
    using score_wf [OF assms(1), of seq loss] assms(2,3) by auto
  also have "\<dots> = (\<Sum>p \<leftarrow> observe M seq. real (row_total (snd p)) * markov.divergence M (fst p) (snd p)) / real (length seq)"
    by (simp add: divide_inverse sum_list_const_mult [symmetric] ac_simps)
  also have "(\<Sum>p \<leftarrow> observe M seq. real (row_total (snd p)) * markov.divergence M (fst p) (snd p)) =
      (\<Sum>(c, r) \<leftarrow> observe M seq. dict_sum (\<lambda>t n. real n * ?g c t) r)"
    using row by (intro arg_cong [of _ _ sum_list] map_cong refl) auto
  also have "\<dots> = (\<Sum>(c, t) \<leftarrow> observed_pairs M seq. ?g c t)"
    by (subst (1) observe_eq) (rule sum_rows_observations)
  finally show ?thesis .
qed

lemma observed_counts:
  "count_in (row_of (observe M s) c) t = card {j. j < length s \<and> effective_context M (take j s) = c \<and> s ! j = t}"
  "row_total (row_of (observe M s) c) = card {j. j < length s \<and> effective_context M (take j s) = c}"
proof -
  show "count_in (row_of (observe M s) c) t = card {j. j < length s \<and> effective_context M (take j s) = c \<and> s ! j = t}"
    by (simp add: observe_eq count_in_count_pairs observed_pairs_eq count_list_upt)
  show "row_total (row_of (observe M s) c) = card {j. j < length s \<and> effective_context M (take j s) = c}"
    by (simp add: observe_eq row_total_count_pairs observed_pairs_eq filter_map comp_def length_filter_upt)
qed

section \<open>Properties\<close>

text \<open>
  C5: the drift score is the mean log-likelihood ratio per observed token. Against a well-formed
  model, \<open>score\<close> returns without an error, and the total is the average over the positions of the
  window of the logarithm of the empirical frequency of the token in its effective context divided
  by the probability \<open>predict\<close> gives it after the tokens before it.
\<close>

theorem score_mean_log_ratio:
  assumes "model_wf (scorer_model s)" and "M = scorer_model s"
    and "h = (\<lambda>i. effective_context M (take i seq))"
  shows "\<exists>res. score s seq loss = Inr res \<and>
    total_kl res = (\<Sum>i \<leftarrow> [0..<length seq].
      ln (real (card {j. j < length seq \<and> h j = h i \<and> seq ! j = seq ! i}) /
          real (card {j. j < length seq \<and> h j = h i}) / projr (predict M (take i seq) (seq ! i)))) /
      real (length seq)"
proof -
  obtain res where res: "score s seq loss = Inr res" using score_wf [OF assms(1)] by blast
  with total_kl_observations [OF assms(1) res assms(2)] show ?thesis
    unfolding observed_counts observed_pairs_eq assms(3) by (auto simp: comp_def predict_effective)
qed

text \<open>
  no drift score is negative while every token is known. If all observed tokens belong to the
  alphabet of a well-formed model, the total and every per-context divergence are at least zero, and
  event loss never lowers the final score.
\<close>

theorem score_nonnegative:
  assumes "model_wf (scorer_model s)" and "set seq \<subseteq> sigma (scorer_model s)"
    and "new_scorer (scorer_model s) (Fin f) = Inr s"
  shows "\<exists>res res'. score s seq False = Inr res \<and> score s seq True = Inr res' \<and>
    0 \<le> total_kl res \<and> list_all (\<lambda>k. 0 \<le> kl_divergence k) (per_context res) \<and>
    total_kl res' = total_kl res \<and> final_score res \<le> final_score res'"
proof -
  let ?M = "scorer_model s"
  have div: "0 \<le> markov.divergence ?M c r" if "(c, r) \<in> set (observe ?M seq)" for c r
    using that observe_wf(2) [OF that] observe_row_keys [OF that] assms(2)
    by (intro markov.divergence_nonneg [OF assms(1)]) auto
  have pen: "scorer_penalty s = Fin f" "1 \<le> f"
    using assms(3) by (cases s; auto simp: new_scorer_def split: if_splits)+
  obtain res res' where res: "score s seq False = Inr res" "score s seq True = Inr res'"
    "per_context res = map (context_result ?M) (observe ?M seq)" "total_kl res' = total_kl res"
    and total: "total_kl res = (\<Sum>p \<leftarrow> observe ?M seq.
      real (row_total (snd p)) / real (length seq) * markov.divergence ?M (fst p) (snd p))"
    and final: "final_score res = (if seq = [] then Fin 0 else Fin (total_kl res))"
      "final_score res' = (if seq = [] then Fin 0 else Fin (total_kl res * f))"
    using score_wf [OF assms(1), of seq False] score_wf [OF assms(1), of seq True] pen(1) by auto
  have "0 \<le> total_kl res"
    unfolding total using div by (intro sum_list_nonneg) auto
  moreover from this have "total_kl res \<le> total_kl res * f"
    using pen(2) mult_left_mono [of 1 f "total_kl res"] by simp
  ultimately show ?thesis
    using res final div by (auto simp: list_all_iff context_result_def)
qed

definition tok_odd2 :: token where
  "tok_odd2 = (''connect'', ''connect'', ''10.0.0.7'', ''elevated'')"

text \<open>
  A scorer over a trained model, for concrete instances.\<close>

lemma scorer_example:
  "\<exists>s. new_scorer (scorer_model s) (Fin 2) = Inr s \<and> model_wf (scorer_model s) \<and>
    sigma (scorer_model s) = {tok_exec, tok_open, unk_token_4, other_token_4}"
proof -
  obtain M where M: "train [[tok_exec, tok_open, tok_exec]] 1 None 100 = Inr M" using train_example by blast
  moreover have "sigma M = set (sigma_list [[tok_exec, tok_open, tok_exec]])" using M by (rule train_InrE)
  ultimately show ?thesis
    using trained_model_wf [OF M]
    by (intro exI [of _ "\<lparr>scorer_model = M, scorer_penalty = Fin 2\<rparr>"])
       (auto simp: new_scorer_def sigma_list_facts)
qed

theorem score_mean_log_ratio_witness:
  "\<exists>s res. model_wf (scorer_model s) \<and> score s [tok_exec, tok_exec, tok_open] False = Inr res"
proof -
  obtain s :: kl_drift_scorer where "model_wf (scorer_model s)" using scorer_example by blast
  with score_mean_log_ratio [OF this refl refl, of "[tok_exec, tok_exec, tok_open]" False]
  show ?thesis by blast
qed

theorem score_nonnegative_witness:
  "\<exists>s res. model_wf (scorer_model s) \<and> score s [tok_exec, tok_exec, tok_open] True = Inr res \<and> 0 \<le> total_kl res"
proof -
  obtain s :: kl_drift_scorer where s: "model_wf (scorer_model s)" "new_scorer (scorer_model s) (Fin 2) = Inr s"
      "sigma (scorer_model s) = {tok_exec, tok_open, unk_token_4, other_token_4}"
    using scorer_example by blast
  then have "set [tok_exec, tok_exec, tok_open] \<subseteq> sigma (scorer_model s)" by simp
  from score_nonnegative [OF s(1) this s(2)] s(1) show ?thesis by metis
qed

text \<open>
  scoring accounts for every observation. The per-context counts add up to the length of the
  window, the contexts are distinct and retained ones, and the novel-token fraction is the share of
  tokens outside the alphabet, between zero and one.
\<close>

theorem score_accounts:
  assumes "model_wf (scorer_model s)"
  shows "\<exists>res. score s seq loss = Inr res \<and> observation_count res = length seq \<and>
    sum_list (map obs_count (per_context res)) = length seq \<and>
    contexts_evaluated res = length (per_context res) \<and>
    distinct (map kl_context (per_context res)) \<and>
    set (map kl_context (per_context res)) \<subseteq> retained_contexts (scorer_model s) \<and>
    0 \<le> novel_token_fraction res \<and> novel_token_fraction res \<le> 1 \<and>
    novel_token_fraction res * real (length seq) =
      real (length (filter (\<lambda>t. t \<notin> sigma (scorer_model s)) seq))"
proof -
  let ?M = "scorer_model s" and ?obs = "observe (scorer_model s) seq"
  obtain res where res: "score s seq loss = Inr res"
      "per_context res = map (context_result ?M) ?obs"
      "observation_count res = length seq" "contexts_evaluated res = length ?obs"
      "novel_token_fraction res = real (novel_count ?M seq) / real (length seq)"
    using score_wf [OF assms, of seq loss] by blast
  have "real (\<Sum>p \<leftarrow> ?obs. row_total (snd p)) = (\<Sum>(c, r) \<leftarrow> ?obs. dict_sum (\<lambda>t n. real n * 1) r)"
    by (simp add: real_sum_list real_row_total case_prod_unfold)
  also have "\<dots> = real (length seq)"
    unfolding observe_eq sum_rows_observations by (simp add: observed_pairs_def sum_list_triv case_prod_unfold comp_def)
  finally have "(\<Sum>p \<leftarrow> ?obs. row_total (snd p)) = length seq" by linarith
  moreover have ctxs: "map kl_context (per_context res) = dict_keys ?obs"
    by (simp add: res(2) context_result_def dict_keys_def comp_def)
  moreover have "set (dict_keys ?obs) \<subseteq> retained_contexts ?M"
    using assms effective_context_facts(1) [of ?M]
    by (auto simp: observe_eq count_pairs_keys observed_pairs_def model_wf_def)
  moreover have "novel_count ?M seq \<le> length seq" by (simp add: novel_count_def)
  ultimately show ?thesis
    using res observe_wf(1) [of ?M seq]
    by (intro exI [of _ res])
       (auto simp: pydict.keys_distinct novel_count_def comp_def context_result_def divide_le_eq_1)
qed

theorem score_accounts_witness:
  "\<exists>s res. model_wf (scorer_model s) \<and> score s [tok_exec, tok_odd2] True = Inr res \<and>
     sum_list (map obs_count (per_context res)) = 2"
proof -
  obtain s :: kl_drift_scorer where s: "model_wf (scorer_model s)" using scorer_example by blast
  from score_accounts [OF this, of "[tok_exec, tok_odd2]" True] s show ?thesis by auto
qed

text \<open>
  a window of nothing but novel tokens can score below zero. Against a well-formed model of
  order 0, a window of distinct tokens none of which is in the alphabet scores
  \<open>- ln (N * epsilon)\<close> with a novel-token fraction of one: negative as soon as the window is longer
  than \<open>1 / epsilon\<close>.
\<close>

theorem score_all_novel:
  assumes "model_wf (scorer_model s)" and "k_star (scorer_model s) \<le> 0"
    and "dict_get (epsilon (scorer_model s)) [] = Some e"
    and "distinct seq" and "seq \<noteq> []" and "set seq \<inter> sigma (scorer_model s) = {}"
  shows "\<exists>res. score s seq loss = Inr res \<and> novel_token_fraction res = 1 \<and>
    total_kl res = - ln (real (length seq) * e)"
proof -
  let ?M = "scorer_model s"
  have ctx: "effective_context ?M c = []" for c using assms(2) by (simp add: effective_context_def)
  obtain res where res: "score s seq loss = Inr res"
      "novel_token_fraction res = real (novel_count ?M seq) / real (length seq)"
    using score_wf [OF assms(1), of seq loss] by blast
  have p: "predict ?M c t = Inr e" "0 < e" if "t \<in> set seq" for c t
  proof -
    have "t \<notin> sigma ?M" using that assms(6) by auto
    obtain e' probs where *: "distribution_over (sigma ?M) e' probs"
        "dict_get (transition ?M) [] = Some probs"
      using predict_wf [OF assms(1), of "[]"] ctx by metis
    then have "dict_get probs t = None" using \<open>t \<notin> sigma ?M\<close> distribution_overD(2) [OF *(1), of t] by fastforce
    moreover have "1 + alphabet_m ?M \<noteq> 0" using assms(1) by (simp add: model_wf_def)
    ultimately show "predict ?M c t = Inr e"
      by (simp add: predict_def ctx *(2) epsilon_or_default_def assms(3))
    with predict_wf_positive(1) [OF assms(1), of c t] show "0 < e" by auto
  qed
  have "filter (\<lambda>t. t \<notin> sigma ?M) seq = seq" using assms(6) by (intro filter_True) auto
  then have novel: "novel_count ?M seq = length seq" by (simp add: novel_count_def)
  have one: "{j. j < length seq \<and> seq ! j = seq ! i} = {i}" if "i < length seq" for i
    using that assms(4) by (auto simp: nth_eq_iff_index_eq)
  have N: "0 < real (length seq)" using assms(5) by simp
  have e: "0 < e" using p(2) assms(5) by (metis last_in_set)
  have "(\<Sum>i \<leftarrow> [0..<length seq]. ln (1 / real (length seq) / e)) = real (length seq) * ln (1 / real (length seq) / e)"
    by (simp add: sum_list_triv)
  moreover have "(\<Sum>(c, t) \<leftarrow> observed_pairs ?M seq. ln (real (count_in (row_of (observe ?M seq) c) t) /
        real (row_total (row_of (observe ?M seq) c)) / projr (predict ?M c t))) =
      (\<Sum>i \<leftarrow> [0..<length seq]. ln (1 / real (length seq) / e))"
    unfolding observed_pairs_eq ctx map_map
    by (rule arg_cong [of _ _ sum_list], rule map_cong [OF refl])
       (use p(1) one in \<open>simp add: observed_counts ctx\<close>)
  ultimately have "total_kl res = ln (1 / real (length seq) / e)"
    using total_kl_observations [OF assms(1) res(1) refl] N by simp
  also have "\<dots> = - ln (real (length seq) * e)"
    using N e by (simp add: ln_div ln_mult)
  finally show ?thesis using res novel N by auto
qed

theorem score_all_novel_witness:
  "\<exists>s res. train [[]] 5 None 100 = Inr (scorer_model s) \<and>
     score s [tok_exec, tok_open, tok_odd2] False = Inr res \<and> total_kl res < 0"
proof -
  obtain M where M: "train [[]] 5 None 100 = Inr M"
    using train_returns [of "[[]]" 5 None 100] by (auto simp: candidate_orders_def k_limit_def)
  have k: "k_star M = 0" using trained_order [OF M] by (simp add: candidate_orders_def k_limit_def)
  have wf: "model_wf M" using M by (rule trained_model_wf)
  have sig: "sigma M = set (sigma_list [[]])" using M by (rule train_InrE)
  obtain cm where cm: "row_of cm [] = row_of (build_count_map [[]] 0) []"
      "dict_get (epsilon M) [] = Some (context_epsilon cm (sigma_list [[]]) [])"
  proof (rule trained_contexts [OF M])
    fix cm
    assume rows: "\<And>c. row_of cm c = row_of (build_count_map [[]] (if c = [] then 0 else k_star M)) c"
      and eps: "\<And>c. c \<in> retained_contexts M \<Longrightarrow> dict_get (epsilon M) c = Some (context_epsilon cm (sigma_list [[]]) c)"
    have "[] \<in> retained_contexts M" using wf by (simp add: model_wf_def)
    from that [of cm] rows [of "[]"] eps [OF this] show thesis by simp
  qed
  have "length (sigma_list [[]]) = 2"
    by (simp add: sigma_list_def unk_token_4_def other_token_4_def UNK_TOKEN_def OTHER_RESOURCE_TOKEN_def)
  then have e: "dict_get (epsilon M) [] = Some (1 / 2)"
    using cm by (simp add: context_epsilon_def build_count_map_def row_of_def row_total_def dict_sum_def)
  define s where "s = \<lparr>scorer_model = M, scorer_penalty = Fin 2\<rparr>"
  have d: "distinct [tok_exec, tok_open, tok_odd2]" "set [tok_exec, tok_open, tok_odd2] \<inter> sigma M = {}"
    by (simp_all add: sig sigma_list_facts tok_exec_def tok_open_def tok_odd2_def unk_token_4_def
        other_token_4_def UNK_TOKEN_def OTHER_RESOURCE_TOKEN_def)
  obtain res where "score s [tok_exec, tok_open, tok_odd2] False = Inr res"
      "total_kl res = - ln (real (length [tok_exec, tok_open, tok_odd2]) * (1 / 2))"
    using score_all_novel [of s "1 / 2" "[tok_exec, tok_open, tok_odd2]" False] wf k e d
    by (auto simp: s_def)
  moreover have "0 < ln (3 / 2 :: real)" by simp
  ultimately show ?thesis using M by (intro exI [of _ s] exI [of _ res]) (simp add: s_def)
qed

text \<open>
  the detection floor of a context. \<open>epsilon_for_context\<close> returns a positive number that no
  prediction after the context is below, and that is what a token outside the alphabet gets.
\<close>

theorem epsilon_for_context_floor:
  assumes "model_wf (scorer_model s)"
  shows "\<exists>e. epsilon_for_context s c = Inr e \<and> 0 < e \<and>
    (\<forall>t. \<exists>p. predict (scorer_model s) c t = Inr p \<and> e \<le> p \<and>
      (t \<notin> sigma (scorer_model s) \<longrightarrow> p = e))"
proof -
  let ?M = "scorer_model s"
  have "context_wf ?M (effective_context ?M c)"
    using assms effective_context_facts(1) [of ?M c] by (simp add: model_wf_def)
  then obtain e probs where *: "dict_get (transition ?M) (effective_context ?M c) = Some probs"
      "dict_get (epsilon ?M) (effective_context ?M c) = Some e" "distribution_over (sigma ?M) e probs"
    by (auto simp: context_wf_def split: option.splits)
  have eps: "epsilon_for_context s c = Inr e"
    using assms *(2) by (simp add: epsilon_for_context_def epsilon_or_default_def model_wf_def)
  have "\<exists>p. predict ?M c t = Inr p \<and> e \<le> p \<and> (t \<notin> sigma ?M \<longrightarrow> p = e)" for t
  proof (cases "dict_get probs t")
    case None
    with * eps show ?thesis by (simp add: predict_def epsilon_for_context_def)
  next
    case (Some p)
    have t: "t \<in> sigma ?M" by (rule distribution_overD(2) [OF *(3) Some])
    from distribution_overD(1) [OF *(3) t] Some have "e \<le> p" by simp
    with *(1) Some t show ?thesis by (simp add: predict_def)
  qed
  with eps *(3) show ?thesis by (auto simp: distribution_over_def)
qed

theorem epsilon_for_context_floor_witness:
  "\<exists>s e. model_wf (scorer_model s) \<and> epsilon_for_context s [tok_exec] = Inr e \<and> 0 < e"
proof -
  obtain s :: kl_drift_scorer where s: "model_wf (scorer_model s)" using scorer_example by blast
  from epsilon_for_context_floor [OF this, of "[tok_exec]"] s show ?thesis by blast
qed

end
