(* ===== verification/Drift_Calibrator.thy ===== *)
theory Drift_Calibrator
  imports Drift_Config Kl_Scorer "HOL-Library.Multiset"
begin

text \<open>
  Threshold calibration, \<open>domain/drift/calibrator.py\<close>: scoring benign windows, the empirical upper
  quantile by linear interpolation, and the calibration result. SHA-256, the rendering of the quantile
  in the version string and the clock are parameters.

  The lemmas show that the quantile of finite scores exists and lies between the scores around its
  index, how many scores can exceed it, and when a calibration is valid.
\<close>

section \<open>Sorting and summing floats\<close>

fun insort_float :: "pyfloat \<Rightarrow> pyfloat list \<Rightarrow> pyfloat list" where
  "insort_float x [] = [x]"
| "insort_float x (y # ys) = (if y < x then y # insort_float x ys else x # y # ys)"

definition sort_floats :: "pyfloat list \<Rightarrow> pyfloat list" where
  "sort_floats xs = foldr insort_float xs []"

definition sum_floats :: "pyfloat list \<Rightarrow> pyfloat" where
  "sum_floats xs = foldl (+) (Fin 0) xs"

section \<open>The quantile\<close>

definition quantile :: "pyfloat list \<Rightarrow> pyfloat \<Rightarrow> pyfloat py_result" where
  "quantile sorted_values q =
     (if sorted_values = [] then Inl ValueError
      else case q of
        Fin r \<Rightarrow>
          (if \<not> (0 \<le> r \<and> r \<le> 1) then Inl ValueError
           else
             (let n = length sorted_values in
              if n = 1 then Inr (sorted_values ! 0)
              else
                (let idx = r * real (n - 1);
                     lo = nat \<lfloor>idx\<rfloor>;
                     hi = nat \<lceil>idx\<rceil>
                 in if lo = hi then Inr (sorted_values ! lo)
                    else
                      (let frac = idx - real lo in
                       Inr (sorted_values ! lo * Fin (1 - frac) + sorted_values ! hi * Fin frac)))))
      | _ \<Rightarrow> Inl ValueError)"

section \<open>Calibration\<close>

record 'time calibration_result =
  is_valid :: bool
  cal_threshold :: pyfloat
  cal_threshold_version :: string
  n_windows :: nat
  cal_quantile :: pyfloat
  score_min :: pyfloat
  score_max :: pyfloat
  score_mean :: pyfloat
  calibrated_at :: "'time option"
  reason_invalid :: string

record threshold_calibrator =
  cal_model :: markov_model
  cal_cfg :: drift_config
  cal_scorer :: kl_drift_scorer

definition new_calibrator :: "markov_model \<Rightarrow> drift_config \<Rightarrow> threshold_calibrator py_result" where
  "new_calibrator model config =
     py_bind (new_scorer model (loss_penalty_factor config)) (\<lambda>s.
       Inr \<lparr>cal_model = model, cal_cfg = config, cal_scorer = s\<rparr>)"

definition score_window :: "threshold_calibrator \<Rightarrow> token list \<times> bool \<Rightarrow> pyfloat py_result" where
  "score_window cal wl =
     (case wl of (window, loss) \<Rightarrow>
        if int (length window) < min_observation_tokens (cal_cfg cal) then Inr NaN
        else py_bind (score (cal_scorer cal) window loss) (\<lambda>result.
          Inr (final_score result + novelty_weight (cal_cfg cal) * Fin (novel_token_fraction result))))"

definition score_windows ::
    "threshold_calibrator \<Rightarrow> token list list \<Rightarrow> bool list option \<Rightarrow> pyfloat list py_result" where
  "score_windows cal windows loss_flags =
     (let flags = (case loss_flags of None \<Rightarrow> replicate (length windows) False | Some fs \<Rightarrow> fs) in
      if length flags \<noteq> length windows then Inl ValueError
      else py_mapM (score_window cal) (zip windows flags))"

definition calibrate ::
    "(pyfloat list \<Rightarrow> string) \<Rightarrow> (pyfloat \<Rightarrow> string) \<Rightarrow> 'time \<Rightarrow> threshold_calibrator \<Rightarrow> pyfloat list \<Rightarrow>
     'time calibration_result py_result" where
  "calibrate digest fmt now cal scores =
     (let cfg = cal_cfg cal;
          valid_scores = sort_floats (filter (\<lambda>s. \<not> is_nan s) scores);
          n = length valid_scores
      in if int n < min_calibration_windows cfg then
           Inr \<lparr>is_valid = False, cal_threshold = PInf, cal_threshold_version = ''uncalibrated'',
                n_windows = n, cal_quantile = calibration_quantile cfg,
                score_min = NaN, score_max = NaN, score_mean = NaN, calibrated_at = None,
                reason_invalid =
                  ''Only '' @ show_nat n @ '' valid calibration windows provided; minimum required is ''
                  @ show_int (min_calibration_windows cfg)
                  @ ''.  Threshold cannot be set.  No real benign calibration dataset is currently available in this repository.  Run benign baseline scenarios and collect scored windows before attempting calibration.''\<rparr>
         else
           py_bind (quantile valid_scores (calibration_quantile cfg)) (\<lambda>thr.
             Inr \<lparr>is_valid = True, cal_threshold = thr,
                  cal_threshold_version =
                    ''empirical-q'' @ fmt (calibration_quantile cfg) @ ''-'' @ take 16 (digest valid_scores),
                  n_windows = n, cal_quantile = calibration_quantile cfg,
                  score_min = hd valid_scores, score_max = last valid_scores,
                  score_mean = sum_floats valid_scores * Fin (1 / real n),
                  calibrated_at = Some now, reason_invalid = []\<rparr>))"

section \<open>Sorting\<close>

lemma mset_insort_float: "mset (insort_float x xs) = add_mset x (mset xs)"
  by (induction xs) simp_all

lemma mset_sort_floats [simp]: "mset (sort_floats xs) = mset xs"
  by (induction xs) (simp_all add: sort_floats_def mset_insort_float)

lemma length_sort_floats [simp]: "length (sort_floats xs) = length xs"
  by (metis mset_sort_floats size_mset)

lemma set_sort_floats [simp]: "set (sort_floats xs) = set xs"
  by (metis mset_sort_floats set_mset_mset)

lemma pyfloat_le_less: "x \<noteq> NaN \<Longrightarrow> y \<noteq> NaN \<Longrightarrow> \<not> y < x \<Longrightarrow> (x :: pyfloat) \<le> y"
  by (cases x; cases y) simp_all

lemma pyfloat_less_imp_le: "(x :: pyfloat) < y \<Longrightarrow> x \<le> y"
  by (cases x; cases y) simp_all

lemma pyfloat_le_trans: "(x :: pyfloat) \<le> y \<Longrightarrow> y \<le> z \<Longrightarrow> x \<le> z"
  by (cases x; cases y; cases z) simp_all

lemma set_insort_float: "set (insort_float x xs) = insert x (set xs)"
  by (induction xs) auto

lemma sorted_insort_float:
  "x \<noteq> NaN \<Longrightarrow> NaN \<notin> set xs \<Longrightarrow> sorted_wrt (\<le>) xs \<Longrightarrow> sorted_wrt (\<le>) (insort_float x xs)"
proof (induction xs)
  case (Cons y ys)
  then show ?case
    by (auto simp: set_insort_float intro: pyfloat_less_imp_le pyfloat_le_trans
        dest!: pyfloat_le_less [rotated 2])
qed simp

lemma sorted_sort_floats: "NaN \<notin> set xs \<Longrightarrow> sorted_wrt (\<le>) (sort_floats xs)"
proof (induction xs)
  case (Cons x xs)
  then have "sorted_wrt (\<le>) (insort_float x (sort_floats xs))"
    by (intro sorted_insort_float) auto
  then show ?case by (simp add: sort_floats_def)
qed (simp add: sort_floats_def)

section \<open>The quantile lies between the scores around its index\<close>

lemma interpolate_between:
  fixes a b f :: real
  assumes "a \<le> b" and "0 \<le> f" and "f \<le> 1"
  shows "a \<le> a * (1 - f) + b * f" and "a * (1 - f) + b * f \<le> b"
proof -
  have e: "a * (1 - f) + b * f = a + (b - a) * f" "a * (1 - f) + b * f = b - (b - a) * (1 - f)"
    by (simp_all add: algebra_simps)
  show "a \<le> a * (1 - f) + b * f" unfolding e(1) using assms by simp
  show "a * (1 - f) + b * f \<le> b" unfolding e(2) using assms by simp
qed

lemma quantile_Fin:
  assumes "xs \<noteq> []" and "length xs \<noteq> 1" and "0 \<le> r" and "r \<le> 1"
    and idx: "idx = r * real (length xs - 1)" and lo: "lo = nat \<lfloor>idx\<rfloor>" and hi: "hi = nat \<lceil>idx\<rceil>"
    and "hi < length xs" and "lo \<le> hi"
  shows "quantile (map Fin xs) (Fin r) =
    Inr (Fin (if lo = hi then xs ! lo else xs ! lo * (1 - (idx - real lo)) + xs ! hi * (idx - real lo)))"
proof -
  have nth: "map Fin xs ! lo = Fin (xs ! lo)" "map Fin xs ! hi = Fin (xs ! hi)"
    using assms(8,9) by (simp_all only: nth_map order.strict_trans1)
  have "quantile (map Fin xs) (Fin r) =
      (if lo = hi then Inr (map Fin xs ! lo)
       else Inr (map Fin xs ! lo * Fin (1 - (idx - real lo)) + map Fin xs ! hi * Fin (idx - real lo)))"
    using assms(1-4) by (simp only: quantile_def Let_def idx lo hi length_map map_is_Nil_conv pyfloat.case
      simp_thms if_True if_False)
  then show ?thesis by (simp only: nth times_pyfloat_Fin plus_pyfloat.simps if_distrib [of Fin] if_distrib [of Inr])
qed

lemma quantile_finite:
  fixes xs :: "real list"
  assumes "sorted xs" and "xs \<noteq> []" and "0 \<le> r" and "r \<le> 1"
  obtains v where "quantile (map Fin xs) (Fin r) = Inr (Fin v)"
    "xs ! nat \<lfloor>r * real (length xs - 1)\<rfloor> \<le> v" "v \<le> last xs"
proof (cases "length xs = 1")
  case True
  then obtain x where "xs = [x]" by (auto simp: length_Suc_conv)
  with assms show thesis by (intro that [of x]) (simp_all add: quantile_def)
next
  case False
  let ?n = "length xs"
  let ?idx = "r * real (?n - 1)"
  let ?lo = "nat \<lfloor>?idx\<rfloor>" and ?hi = "nat \<lceil>?idx\<rceil>"
  have n: "0 < ?n" using assms(2) by simp
  have "?idx \<le> real (?n - 1)" using assms by (simp add: mult_left_le_one_le)
  then have hi: "?hi \<le> ?n - 1" by linarith
  have idx: "0 \<le> ?idx" using assms by simp
  then have lohi: "?lo \<le> ?hi" "real ?lo \<le> ?idx" "?idx - real ?lo \<le> 1" by linarith+
  from hi n have "?hi < ?n" by linarith
  then have le: "xs ! ?lo \<le> xs ! ?hi" using assms(1) lohi(1) by (intro sorted_nth_mono)
  have last: "xs ! ?hi \<le> last xs"
    unfolding last_conv_nth [OF assms(2)] using hi n by (intro sorted_nth_mono [OF assms(1)]) linarith+
  define v where "v = (if ?lo = ?hi then xs ! ?lo
    else xs ! ?lo * (1 - (?idx - real ?lo)) + xs ! ?hi * (?idx - real ?lo))"
  have q: "quantile (map Fin xs) (Fin r) = Inr (Fin v)"
    unfolding v_def by (rule quantile_Fin [OF assms(2) False assms(3,4) refl refl refl \<open>?hi < ?n\<close> lohi(1)])
  have "0 \<le> ?idx - real ?lo" using lohi(2) by linarith
  from interpolate_between [OF le this lohi(3)] le have "xs ! ?lo \<le> v" "v \<le> xs ! ?hi"
    unfolding v_def by (simp_all only: order_refl split: if_split) blast+
  with q last show thesis by (intro that [of v]) (simp_all only: order_trans)
qed

lemma quantile_exceedance:
  fixes xs :: "real list"
  assumes "sorted xs" and "0 \<le> r" and "r \<le> 1" and "xs ! nat \<lfloor>r * real (length xs - 1)\<rfloor> \<le> v"
  shows "length (filter (\<lambda>x. v < x) xs) \<le> nat \<lceil>(1 - r) * real (length xs - 1)\<rceil>"
proof (cases "xs = []")
  case False
  let ?n = "length xs"
  let ?lo = "nat \<lfloor>r * real (?n - 1)\<rfloor>"
  have "?lo < i" if "i < ?n" "v < xs ! i" for i
  proof (rule ccontr)
    assume "\<not> ?lo < i"
    then have "i \<le> ?lo" by simp
    moreover have "r * real (?n - 1) \<le> real (?n - 1)" using assms(2,3) by (simp add: mult_left_le_one_le)
    then have "?lo < ?n" using False by (cases xs) (simp_all, linarith)
    ultimately have "xs ! i \<le> xs ! ?lo" using assms(1) by (intro sorted_nth_mono)
    with assms(4) that(2) show False by simp
  qed
  then have "{i. i < ?n \<and> v < xs ! i} \<subseteq> {?lo<..<?n}" by auto
  then have "card {i. i < ?n \<and> v < xs ! i} \<le> card {?lo<..<?n}" by (intro card_mono) auto
  then have "length (filter (\<lambda>x. v < x) xs) \<le> ?n - 1 - ?lo"
    by (simp add: length_filter_conv_card)
  also have "\<dots> \<le> nat \<lceil>(1 - r) * real (?n - 1)\<rceil>"
  proof -
    have "(1 - r) * real (?n - 1) = real (?n - 1) - r * real (?n - 1)" by (simp add: left_diff_distrib)
    moreover have "0 \<le> r * real (?n - 1)" using assms(2) by simp
    ultimately show ?thesis by linarith
  qed
  finally show ?thesis .
qed simp

section \<open>Properties of calibration\<close>

lemma finite_floats: "(\<And>s. s \<in> set xs \<Longrightarrow> is_finite s) \<Longrightarrow> \<exists>rs. xs = map Fin rs"
proof (induction xs)
  case (Cons x xs)
  then obtain rs where "xs = map Fin rs" by auto
  moreover have "is_finite x" using Cons.prems by simp
  then obtain r where "x = Fin r" by (auto simp: is_finite_def)
  ultimately show ?case by (intro exI [of _ "r # rs"]) simp
qed simp

lemma sorted_map_Fin: "sorted_wrt (\<le>) (map Fin rs) \<longleftrightarrow> sorted rs"
  by (simp add: sorted_wrt_map)

lemma sorted_valid_scores:
  assumes "list_all (\<lambda>s. is_nan s \<or> is_finite s) scores"
  obtains rs where "sort_floats (filter (\<lambda>s. \<not> is_nan s) scores) = map Fin rs" "sorted rs"
proof -
  have "\<exists>rs. sort_floats (filter (\<lambda>s. \<not> is_nan s) scores) = map Fin rs"
    using assms by (intro finite_floats) (auto simp: list_all_iff)
  moreover have "sorted_wrt (\<le>) (sort_floats (filter (\<lambda>s. \<not> is_nan s) scores))"
    by (intro sorted_sort_floats) (auto simp: is_nan_def)
  ultimately show thesis using that sorted_map_Fin by metis
qed

lemma score_windows_wf:
  assumes "model_wf M" and "new_calibrator M cfg = Inr cal" and "loss_penalty_factor cfg = Fin f"
    and "novelty_weight cfg = Fin w"
  obtains g where "\<And>p. score_window cal p = Inr (g p)"
    "\<And>p. if int (length (fst p)) < min_observation_tokens cfg then g p = NaN else is_finite (g p)"
    "\<And>windows flags. length flags = length windows \<Longrightarrow>
       score_windows cal windows (Some flags) = Inr (map g (zip windows flags))"
proof -
  have s: "cal_cfg cal = cfg" "scorer_model (cal_scorer cal) = M" "scorer_penalty (cal_scorer cal) = Fin f"
    using assms(2,3) by (auto simp: new_calibrator_def new_scorer_def split: if_splits)
  have fin: "\<exists>sr x. score (cal_scorer cal) win loss = Inr sr \<and>
      final_score sr + Fin w * Fin (novel_token_fraction sr) = Fin x" for win loss
  proof -
    have "model_wf (scorer_model (cal_scorer cal))" using assms(1) s(2) by simp
    from score_wf [OF this, of win loss] obtain sr where sr: "score (cal_scorer cal) win loss = Inr sr"
        "loss_penalty sr = (if loss then scorer_penalty (cal_scorer cal) else Fin 1)"
        "final_score sr = (if win = [] then Fin 0 else Fin (total_kl sr) * loss_penalty sr)"
      by blast
    from sr(2) s(3) have "loss_penalty sr = Fin (if loss then f else 1)" by simp
    with sr(3) have "\<exists>x. final_score sr = Fin x" by simp
    with sr(1) show ?thesis by auto
  qed
  have "\<exists>v. score_window cal p = Inr v \<and>
      (if int (length (fst p)) < min_observation_tokens cfg then v = NaN else is_finite v)" for p
  proof -
    obtain win loss where p: "p = (win, loss)" by (cases p)
    obtain sr x where "score (cal_scorer cal) win loss = Inr sr"
        "final_score sr + Fin w * Fin (novel_token_fraction sr) = Fin x"
      using fin by blast
    then show ?thesis by (simp add: score_window_def p s(1) assms(4))
  qed
  then obtain g where g: "\<And>p. score_window cal p = Inr (g p)"
    "\<And>p. if int (length (fst p)) < min_observation_tokens cfg then g p = NaN else is_finite (g p)"
    by metis
  moreover have "score_windows cal windows (Some flags) = Inr (map g (zip windows flags))"
    if "length flags = length windows" for windows flags
  proof -
    have "py_mapM (score_window cal) (zip windows flags) = Inr (map g (zip windows flags))"
      by (rule py_mapM_Inr) (rule g(1))
    with that show ?thesis by (simp add: score_windows_def)
  qed
  ultimately show thesis using that by blast
qed

lemma calibrated_valid:
  assumes "post_init (cal_cfg cal) = Inr (cal_cfg cal)"
    and "list_all (\<lambda>s. is_nan s \<or> is_finite s) scores"
  shows "\<exists>res. calibrate digest fmt now cal scores = Inr res \<and>
    n_windows res = length (filter (\<lambda>s. \<not> is_nan s) scores) \<and>
    is_valid res = (min_calibration_windows (cal_cfg cal) \<le> int (n_windows res)) \<and>
    is_finite (cal_threshold res) = is_valid res \<and>
    (is_valid res \<or> cal_threshold res = PInf \<and> cal_threshold_version res = ''uncalibrated'')"
proof -
  obtain rs where rs: "sort_floats (filter (\<lambda>s. \<not> is_nan s) scores) = map Fin rs" "sorted rs"
    using sorted_valid_scores [OF assms(2)] .
  then have n: "length (filter (\<lambda>s. \<not> is_nan s) scores) = length rs" by (metis length_map length_sort_floats)
  obtain r where r: "calibration_quantile (cal_cfg cal) = Fin r" "0 \<le> r" "r \<le> 1"
    using assms(1) by (cases "calibration_quantile (cal_cfg cal)") (auto simp: post_init_Inr)
  show ?thesis
  proof (cases "int (length rs) < min_calibration_windows (cal_cfg cal)")
    case True
    then show ?thesis by (simp add: calibrate_def Let_def n)
  next
    case False
    with assms(1) have "rs \<noteq> []" by (auto simp: post_init_Inr)
    then obtain v where "quantile (map Fin rs) (Fin r) = Inr (Fin v)"
      using quantile_finite [OF rs(2) _ r(2,3)] by metis
    with False show ?thesis by (simp add: calibrate_def Let_def n rs(1) r(1))
  qed
qed

text \<open>
  a calibration is valid exactly when enough windows were scored. With a validated
  configuration and scores that are finite or NaN, \<open>calibrate\<close> does not raise; it counts the scores
  that are not NaN, is valid when there are at least \<open>min_calibration_windows\<close> of them, and otherwise
  returns an infinite threshold with the version \<open>uncalibrated\<close>.
\<close>

theorem calibrate_valid_exactly:
  assumes "post_init (cal_cfg cal) = Inr (cal_cfg cal)"
    and "list_all (\<lambda>s. is_nan s \<or> is_finite s) scores"
  shows "\<exists>res. calibrate digest fmt now cal scores = Inr res \<and>
    n_windows res = length (filter (\<lambda>s. \<not> is_nan s) scores) \<and>
    is_valid res = (min_calibration_windows (cal_cfg cal) \<le> int (n_windows res)) \<and>
    is_finite (cal_threshold res) = is_valid res \<and>
    (is_valid res \<or> cal_threshold res = PInf \<and> cal_threshold_version res = ''uncalibrated'')"
  using assms by (rule calibrated_valid)

lemma calibrated_exceedance:
  assumes "post_init (cal_cfg cal) = Inr (cal_cfg cal)"
    and "list_all (\<lambda>s. is_nan s \<or> is_finite s) scores"
    and "calibrate digest fmt now cal scores = Inr res" and "is_valid res"
    and "calibration_quantile (cal_cfg cal) = Fin q"
  shows "score_min res \<le> cal_threshold res \<and> cal_threshold res \<le> score_max res \<and>
    length (filter (\<lambda>s. cal_threshold res < s) scores) \<le> nat \<lceil>(1 - q) * real (n_windows res - 1)\<rceil>"
proof -
  obtain rs where rs: "sort_floats (filter (\<lambda>s. \<not> is_nan s) scores) = map Fin rs" "sorted rs"
    using sorted_valid_scores [OF assms(2)] .
  have q: "0 \<le> q" "q \<le> 1" and two: "2 \<le> min_calibration_windows (cal_cfg cal)"
    using assms(1,5) by (auto simp: post_init_Inr)
  have n: "length (filter (\<lambda>s. \<not> is_nan s) scores) = length rs" by (metis rs(1) length_map length_sort_floats)
  have valid: "\<not> int (length rs) < min_calibration_windows (cal_cfg cal)"
    using assms(3,4) by (auto simp: calibrate_def Let_def n)
  with two have ne: "rs \<noteq> []" by auto
  obtain v where v: "quantile (map Fin rs) (Fin q) = Inr (Fin v)"
      "rs ! nat \<lfloor>q * real (length rs - 1)\<rfloor> \<le> v" "v \<le> last rs"
    using quantile_finite [OF rs(2) ne q] .
  have res: "cal_threshold res = Fin v" "n_windows res = length rs" "score_min res = Fin (hd rs)"
      "score_max res = Fin (last rs)"
    using assms(3) valid v(1) ne by (auto simp: calibrate_def Let_def n rs(1) assms(5) hd_map last_map)
  have "nat \<lfloor>q * real (length rs - 1)\<rfloor> < length rs"
  proof -
    have "q * real (length rs - 1) \<le> real (length rs - 1)" using q by (simp add: mult_left_le_one_le)
    with ne show ?thesis by (cases rs) (simp_all, linarith)
  qed
  then have "hd rs \<le> v"
    using v(2) rs(2) ne by (metis hd_conv_nth le0 order_trans sorted_nth_mono)
  moreover have "filter (\<lambda>s. Fin v < s) scores = filter (\<lambda>s. Fin v < s) (filter (\<lambda>s. \<not> is_nan s) scores)"
    by (auto simp: is_nan_def intro!: filter_cong)
  then have "length (filter (\<lambda>s. Fin v < s) scores) = size (filter_mset (\<lambda>s. Fin v < s) (mset (map Fin rs)))"
    by (metis mset_filter mset_sort_floats rs(1) size_mset)
  then have "length (filter (\<lambda>s. Fin v < s) scores) = length (filter (\<lambda>x. v < x) rs)"
    by (simp add: mset_filter [symmetric] filter_map comp_def del: mset_map mset_filter)
  ultimately show ?thesis
    using quantile_exceedance [OF rs(2) q v(2)] v(3) by (simp add: res)
qed

text \<open>
  how many calibration windows the threshold flags. When a calibration is valid, its threshold
  lies between the smallest and the largest score, and at most \<open>\<lceil>(1 - q) * (n - 1)\<rceil>\<close> of the \<open>n\<close>
  scores are above it, \<open>q\<close> being the configured quantile.
\<close>

theorem calibrate_exceedance:
  assumes "post_init (cal_cfg cal) = Inr (cal_cfg cal)"
    and "list_all (\<lambda>s. is_nan s \<or> is_finite s) scores"
    and "calibrate digest fmt now cal scores = Inr res" and "is_valid res"
    and "calibration_quantile (cal_cfg cal) = Fin q"
  shows "score_min res \<le> cal_threshold res \<and> cal_threshold res \<le> score_max res \<and>
    length (filter (\<lambda>s. cal_threshold res < s) scores) \<le> nat \<lceil>(1 - q) * real (n_windows res - 1)\<rceil>"
  using assms by (rule calibrated_exceedance)

definition small_config :: drift_config where
  "small_config = default_config \<lparr>min_calibration_windows := 2\<rparr>"

lemma small_config_facts:
  "post_init small_config = Inr small_config" "calibration_quantile small_config = Fin (99 / 100)"
  "min_calibration_windows small_config = 2"
  by (simp_all add: small_config_def default_config_def post_init_def)

theorem calibrate_valid_exactly_witness:
  "\<forall>M s. \<exists>res. calibrate (\<lambda>_. ''d'') (\<lambda>_. ''0.990'') (0 :: nat)
       \<lparr>cal_model = M, cal_cfg = small_config, cal_scorer = s\<rparr> [Fin 2, NaN, Fin 1] = Inr res \<and>
     is_valid res \<and> n_windows res = 2"
proof (intro allI)
  fix M s
  let ?cal = "\<lparr>cal_model = M, cal_cfg = small_config, cal_scorer = s\<rparr>"
  have "post_init (cal_cfg ?cal) = Inr (cal_cfg ?cal)" by (simp add: small_config_facts)
  from calibrate_valid_exactly [OF this, of "[Fin 2, NaN, Fin 1]" "\<lambda>_. ''d''" "\<lambda>_. ''0.990''" "0 :: nat"]
  show "\<exists>res. calibrate (\<lambda>_. ''d'') (\<lambda>_. ''0.990'') (0 :: nat) ?cal [Fin 2, NaN, Fin 1] = Inr res \<and>
     is_valid res \<and> n_windows res = 2"
    by (auto simp: small_config_facts)
qed

lemma calibrate_example:
  "calibrate (\<lambda>_. ''d'') (\<lambda>_. ''0.990'') (0 :: nat)
     \<lparr>cal_model = M, cal_cfg = small_config, cal_scorer = s\<rparr> [Fin 2, NaN, Fin 1] =
   Inr \<lparr>is_valid = True, cal_threshold = Fin (199 / 100), cal_threshold_version = ''empirical-q0.990-d'',
     n_windows = 2, cal_quantile = Fin (99 / 100), score_min = Fin 1, score_max = Fin 2,
     score_mean = Fin (3 / 2), calibrated_at = Some 0, reason_invalid = []\<rparr>"
  by (simp add: calibrate_def Let_def small_config_facts sort_floats_def quantile_def sum_floats_def)

theorem calibrate_exceedance_witness:
  "length (filter (\<lambda>s. Fin (199 / 100) < s) [Fin 2, NaN, Fin 1]) \<le> 1"
proof -
  have "post_init (cal_cfg \<lparr>cal_model = undefined, cal_cfg = small_config, cal_scorer = undefined\<rparr>) =
      Inr (cal_cfg \<lparr>cal_model = undefined, cal_cfg = small_config, cal_scorer = undefined\<rparr>)"
    by (simp add: small_config_facts)
  from calibrate_exceedance [OF this _ calibrate_example, of "99 / 100"]
  show ?thesis by (simp add: small_config_facts)
qed

end
