(* ===== verification/Drift_Decider.thy ===== *)
theory Drift_Decider
  imports Drift_Calibrator
begin

text \<open>
  The three-state drift decision, \<open>domain/drift/decider.py\<close>: the evidence checks in their order, the
  adjusted score, the threshold comparison, and the provenance record every branch returns.

  The lemmas give the outcome on every branch, the provenance it carries, and the bound calibration
  puts on the benign windows that are flagged. Timestamps are an uninterpreted type, and the
  rendering of a context in the explanation is a parameter (its separator lies outside the modelled
  character range).
\<close>

section \<open>Fixed-point formatting\<close>

text \<open>\<open>f"{x:.4f}"\<close> and the like: round half to even at \<open>d\<close> decimals.\<close>

definition round_half_even :: "real \<Rightarrow> int" where
  "round_half_even x =
     (let f = \<lfloor>x\<rfloor>; r = x - real_of_int f in
      if r < 1 / 2 then f else if 1 / 2 < r then f + 1 else if even f then f else f + 1)"

definition pad_zeros :: "nat \<Rightarrow> string \<Rightarrow> string" where
  "pad_zeros d s = replicate (d - length s) CHR ''0'' @ s"

fun fmt_fixed :: "nat \<Rightarrow> pyfloat \<Rightarrow> string" where
  "fmt_fixed d PInf = ''inf''"
| "fmt_fixed d NInf = ''-inf''"
| "fmt_fixed d NaN = ''nan''"
| "fmt_fixed d (Fin x) =
     (let n = nat (round_half_even (\<bar>x\<bar> * 10 ^ d)) in
      (if x < 0 then ''-'' else []) @ show_nat (n div 10 ^ d) @ ''.'' @
      pad_zeros d (show_nat (n mod 10 ^ d)))"

section \<open>Results\<close>

datatype drift_outcome = DRIFT | NO_DRIFT | INSUFFICIENT_EVIDENCE

record 'time drift_result =
  outcome :: drift_outcome
  res_final_score :: pyfloat
  adjusted_score :: pyfloat
  res_threshold :: pyfloat
  res_threshold_version :: string
  contract_id :: string
  contract_version :: string
  res_image_digest :: string
  res_purl :: string
  observation_window_start :: "'time option"
  observation_window_end :: "'time option"
  res_observation_count :: nat
  res_contexts_evaluated :: nat
  res_novel_fraction :: pyfloat
  res_loss_observed :: bool
  res_loss_penalty :: pyfloat
  missing_data_flags :: "string list"
  explanation :: string
  insufficient_evidence_reason :: string
  per_context_kl :: "context_kl_result list"
  model_n :: int
  model_m :: int
  model_k_star :: int

definition is_drift :: "'time drift_result \<Rightarrow> bool" where
  "is_drift r \<longleftrightarrow> outcome r = DRIFT"

definition is_actionable :: "'time drift_result \<Rightarrow> bool" where
  "is_actionable r \<longleftrightarrow> outcome r \<in> {DRIFT, NO_DRIFT}"

section \<open>The decider\<close>

record drift_decider =
  dec_model :: markov_model
  dec_cfg :: drift_config
  dec_contract_id :: string
  dec_image_digest :: string
  dec_purl :: string
  dec_scorer :: kl_drift_scorer

definition CONTRACT_VERSION :: string where
  "CONTRACT_VERSION = ''v1''"

definition new_decider ::
    "markov_model \<Rightarrow> drift_config \<Rightarrow> string \<Rightarrow> string \<Rightarrow> string \<Rightarrow> drift_decider py_result" where
  "new_decider model config cid digest purl =
     py_bind (new_scorer model (loss_penalty_factor config)) (\<lambda>s.
       Inr \<lparr>dec_model = model, dec_cfg = config, dec_contract_id = cid, dec_image_digest = digest,
            dec_purl = purl, dec_scorer = s\<rparr>)"

definition ie_result ::
    "drift_decider \<Rightarrow> string \<Rightarrow> nat \<Rightarrow> bool \<Rightarrow> string list \<Rightarrow> 'time option \<Rightarrow> 'time option \<Rightarrow>
     'time drift_result" where
  "ie_result dec reason n loss flags win_start win_end =
     \<lparr>outcome = INSUFFICIENT_EVIDENCE,
      res_final_score = NaN,
      adjusted_score = NaN,
      res_threshold = threshold (dec_cfg dec),
      res_threshold_version = threshold_version (dec_cfg dec),
      contract_id = dec_contract_id dec,
      contract_version = CONTRACT_VERSION,
      res_image_digest = dec_image_digest dec,
      res_purl = dec_purl dec,
      observation_window_start = win_start,
      observation_window_end = win_end,
      res_observation_count = n,
      res_contexts_evaluated = 0,
      res_novel_fraction = NaN,
      res_loss_observed = loss,
      res_loss_penalty = (if loss then loss_penalty_factor (dec_cfg dec) else Fin 1),
      missing_data_flags = flags,
      explanation = ''Decision not possible: '' @ reason,
      insufficient_evidence_reason = reason,
      per_context_kl = [],
      model_n = total_n (dec_model dec),
      model_m = alphabet_m (dec_model dec),
      model_k_star = k_star (dec_model dec)\<rparr>"

text \<open>\<open>max(per_context, key=...)\<close>: the first of the largest.\<close>

fun max_kl :: "context_kl_result \<Rightarrow> context_kl_result list \<Rightarrow> context_kl_result" where
  "max_kl best [] = best"
| "max_kl best (r # rs) = max_kl (if kl_divergence best < kl_divergence r then r else best) rs"

definition build_explanation ::
    "(mcontext \<Rightarrow> string) \<Rightarrow> drift_outcome \<Rightarrow> kl_score_result \<Rightarrow> pyfloat \<Rightarrow> bool \<Rightarrow> string" where
  "build_explanation render oc sr adjusted loss =
     (let part1 =
            (if oc = DRIFT
             then ''Drift detected: adjusted KL score '' @ fmt_fixed 4 adjusted @ '' exceeds threshold.''
             else ''No drift: adjusted KL score '' @ fmt_fixed 4 adjusted @ '' is at or below threshold.'');
          nf = novel_token_fraction sr;
          part2 =
            (if nf > 0
             then [fmt_fixed 1 (Fin (nf * 100)) @
                   ''% of observed tokens were absent from the contract alphabet (novel events).'']
             else []);
          part3 =
            (if loss
             then [''Event loss was reported; score was multiplied by '' @ fmt_fixed 2 (loss_penalty sr) @
                   '' (loss penalty).'']
             else []);
          part4 =
            (case per_context sr of
               [] \<Rightarrow> []
             | r # rs \<Rightarrow>
                 (let top = max_kl r rs in
                  if kl_divergence top > 0
                  then [''Highest per-context KL '' @ fmt_fixed 4 (Fin (kl_divergence top)) @
                        '' at context ['' @
                        (if kl_context top \<noteq> [] then render (kl_context top) else ''<empty context>'') @
                        ''] ('' @ show_nat (obs_count top) @ '' observations, '' @
                        show_nat (novel_tokens top) @ '' novel token(s)).'']
                  else []))
      in join_str ''  '' (part1 # part2 @ part3 @ part4))"

definition decide ::
    "(mcontext \<Rightarrow> string) \<Rightarrow> drift_decider \<Rightarrow> token list \<Rightarrow> bool \<Rightarrow> 'time option \<Rightarrow> 'time option \<Rightarrow>
     'time drift_result py_result" where
  "decide render dec observed_sequence loss win_start win_end =
     (let cfg = dec_cfg dec;
          model = dec_model dec;
          n = length observed_sequence;
          flags0 =
            (if dec_image_digest dec = UNRESOLVED_IDENTITY then [''image_digest_unresolved''] else []) @
            (if dec_purl dec = UNRESOLVED_IDENTITY then [''purl_unresolved''] else [])
      in if require_identity cfg \<and>
            (dec_image_digest dec = UNRESOLVED_IDENTITY \<or> dec_purl dec = UNRESOLVED_IDENTITY) then
           Inr (ie_result dec
             ''Component identity (image_digest or purl) is unresolved and require_identity=True''
             n loss flags0 win_start win_end)
         else if total_n model < min_training_tokens cfg then
           Inr (ie_result dec
             (''Contract was trained on only '' @ show_int (total_n model) @
              '' tokens (minimum required: '' @ show_int (min_training_tokens cfg) @ '')'')
             n loss
             (flags0 @ [''model_training_tokens='' @ show_int (total_n model) @
                        ''_below_minimum='' @ show_int (min_training_tokens cfg)])
             win_start win_end)
         else if int n < min_observation_tokens cfg then
           Inr (ie_result dec
             (''Observation window has only '' @ show_nat n @
              '' tokens (minimum required: '' @ show_int (min_observation_tokens cfg) @ '')'')
             n loss
             (flags0 @ [''observation_tokens='' @ show_nat n @
                        ''_below_minimum='' @ show_int (min_observation_tokens cfg)])
             win_start win_end)
         else
           py_bind (score (dec_scorer dec) observed_sequence loss) (\<lambda>sr.
             let adjusted = final_score sr + novelty_weight cfg * Fin (novel_token_fraction sr);
                 oc = (if is_finite (threshold cfg)
                       then (if threshold cfg < adjusted then DRIFT else NO_DRIFT)
                       else NO_DRIFT);
                 flags1 = (if is_finite (threshold cfg) then flags0 else flags0 @ [''threshold_uncalibrated''])
             in Inr \<lparr>outcome = oc,
                     res_final_score = final_score sr,
                     adjusted_score = adjusted,
                     res_threshold = threshold cfg,
                     res_threshold_version = threshold_version cfg,
                     contract_id = dec_contract_id dec,
                     contract_version = CONTRACT_VERSION,
                     res_image_digest = dec_image_digest dec,
                     res_purl = dec_purl dec,
                     observation_window_start = win_start,
                     observation_window_end = win_end,
                     res_observation_count = observation_count sr,
                     res_contexts_evaluated = contexts_evaluated sr,
                     res_novel_fraction = Fin (novel_token_fraction sr),
                     res_loss_observed = loss_was_observed sr,
                     res_loss_penalty = loss_penalty sr,
                     missing_data_flags = flags1,
                     explanation = build_explanation render oc sr adjusted loss,
                     insufficient_evidence_reason = [],
                     per_context_kl = per_context sr,
                     model_n = total_n model,
                     model_m = alphabet_m model,
                     model_k_star = k_star model\<rparr>))"

section \<open>Properties\<close>

definition identity_missing :: "drift_config \<Rightarrow> string \<Rightarrow> string \<Rightarrow> bool" where
  "identity_missing cfg digest purl \<longleftrightarrow>
     require_identity cfg \<and> (digest = UNRESOLVED_IDENTITY \<or> purl = UNRESOLVED_IDENTITY)"

definition evidence_missing :: "drift_config \<Rightarrow> markov_model \<Rightarrow> string \<Rightarrow> string \<Rightarrow> token list \<Rightarrow> bool" where
  "evidence_missing cfg M digest purl seq \<longleftrightarrow>
     identity_missing cfg digest purl \<or> total_n M < min_training_tokens cfg \<or>
     int (length seq) < min_observation_tokens cfg"

lemma new_decider_Inr:
  assumes "new_decider M cfg cid digest purl = Inr dec"
  shows "dec_model dec = M" "dec_cfg dec = cfg" "dec_contract_id dec = cid" "dec_image_digest dec = digest"
    "dec_purl dec = purl" "scorer_model (dec_scorer dec) = M"
    "scorer_penalty (dec_scorer dec) = loss_penalty_factor cfg"
  using assms by (auto simp: new_decider_def new_scorer_def split: if_splits)

lemma ie_result_fields [simp]:
  "outcome (ie_result dec rs n loss flags a b) = INSUFFICIENT_EVIDENCE"
  "insufficient_evidence_reason (ie_result dec rs n loss flags a b) = rs"
  "contract_id (ie_result dec rs n loss flags a b) = dec_contract_id dec"
  "res_image_digest (ie_result dec rs n loss flags a b) = dec_image_digest dec"
  "res_purl (ie_result dec rs n loss flags a b) = dec_purl dec"
  "res_threshold (ie_result dec rs n loss flags a b) = threshold (dec_cfg dec)"
  "res_threshold_version (ie_result dec rs n loss flags a b) = threshold_version (dec_cfg dec)"
  "observation_window_start (ie_result dec rs n loss flags a b) = a"
  "observation_window_end (ie_result dec rs n loss flags a b) = b"
  "res_observation_count (ie_result dec rs n loss flags a b) = n"
  "res_loss_observed (ie_result dec rs n loss flags a b) = loss"
  "missing_data_flags (ie_result dec rs n loss flags a b) = flags"
  by (simp_all add: ie_result_def)

text \<open>
  What a decision is when the evidence suffices.\<close>

lemma decide_sufficient:
  assumes "new_decider M cfg cid digest purl = Inr dec" and "\<not> evidence_missing cfg M digest purl seq"
    and "score (dec_scorer dec) seq loss = Inr sr"
  shows "\<exists>res. decide render dec seq loss a b = Inr res \<and>
    adjusted_score res = final_score sr + novelty_weight cfg * Fin (novel_token_fraction sr) \<and>
    outcome res = (if is_finite (threshold cfg) \<and> threshold cfg < adjusted_score res then DRIFT else NO_DRIFT) \<and>
    insufficient_evidence_reason res = [] \<and> contract_id res = cid \<and> res_image_digest res = digest \<and>
    res_purl res = purl \<and> res_threshold res = threshold cfg \<and>
    res_threshold_version res = threshold_version cfg \<and> observation_window_start res = a \<and>
    observation_window_end res = b \<and> res_observation_count res = observation_count sr \<and>
    res_loss_observed res = loss_was_observed sr \<and>
    missing_data_flags res =
      (if digest = UNRESOLVED_IDENTITY then [''image_digest_unresolved''] else []) @
      (if purl = UNRESOLVED_IDENTITY then [''purl_unresolved''] else []) @
      (if is_finite (threshold cfg) then [] else [''threshold_uncalibrated''])"
  using assms(2,3) new_decider_Inr [OF assms(1)]
  by (simp add: decide_def Let_def evidence_missing_def identity_missing_def)

lemma decide_insufficient:
  assumes "new_decider M cfg cid digest purl = Inr dec" and "evidence_missing cfg M digest purl seq"
  shows "\<exists>res. decide render dec seq loss a b = Inr res \<and> outcome res = INSUFFICIENT_EVIDENCE \<and>
    insufficient_evidence_reason res \<noteq> [] \<and> contract_id res = cid \<and> res_image_digest res = digest \<and>
    res_purl res = purl \<and> res_threshold res = threshold cfg \<and>
    res_threshold_version res = threshold_version cfg \<and> observation_window_start res = a \<and>
    observation_window_end res = b \<and> res_observation_count res = length seq \<and>
    res_loss_observed res = loss \<and>
    (''image_digest_unresolved'' \<in> set (missing_data_flags res)) = (digest = UNRESOLVED_IDENTITY) \<and>
    (''purl_unresolved'' \<in> set (missing_data_flags res)) = (purl = UNRESOLVED_IDENTITY)"
proof -
  note dec = new_decider_Inr [OF assms(1)]
  consider "identity_missing cfg digest purl"
    | "\<not> identity_missing cfg digest purl" "total_n M < min_training_tokens cfg"
    | "\<not> identity_missing cfg digest purl" "\<not> total_n M < min_training_tokens cfg"
      "int (length seq) < min_observation_tokens cfg"
    using assms(2) by (auto simp: evidence_missing_def)
  then show ?thesis
    by cases (simp_all add: decide_def Let_def dec identity_missing_def)
qed

lemma scorer_returns:
  assumes "new_decider M cfg cid digest purl = Inr dec" and "model_wf M"
  shows "\<exists>sr. score (dec_scorer dec) seq loss = Inr sr \<and> observation_count sr = length seq \<and>
    loss_was_observed sr = loss"
  using score_wf [of "dec_scorer dec" seq loss] assms(2) new_decider_Inr(6) [OF assms(1)] by auto

text \<open>
  C4: the decision on every branch. Against a well-formed model, \<open>decide\<close> never raises. The outcome
  is \<open>INSUFFICIENT_EVIDENCE\<close> exactly when the identity is required and unresolved, the model was
  trained on too few tokens, or the window is too short; it is \<open>DRIFT\<close> exactly when the evidence
  suffices, the threshold is finite and the adjusted score is above it; otherwise it is \<open>NO_DRIFT\<close>.
\<close>

theorem decide_outcome_exactly:
  assumes "new_decider M cfg cid digest purl = Inr dec" and "model_wf M"
  shows "\<exists>res. decide render dec seq loss a b = Inr res \<and>
    (outcome res = INSUFFICIENT_EVIDENCE) =
      (require_identity cfg \<and> (digest = UNRESOLVED_IDENTITY \<or> purl = UNRESOLVED_IDENTITY) \<or>
       total_n M < min_training_tokens cfg \<or> int (length seq) < min_observation_tokens cfg) \<and>
    (outcome res = DRIFT) =
      (outcome res \<noteq> INSUFFICIENT_EVIDENCE \<and> is_finite (threshold cfg) \<and> threshold cfg < adjusted_score res)"
proof (cases "evidence_missing cfg M digest purl seq")
  case True
  with decide_insufficient [OF assms(1) True, of render loss a b] show ?thesis
    by (auto simp: evidence_missing_def identity_missing_def)
next
  case False
  obtain sr where "score (dec_scorer dec) seq loss = Inr sr" using scorer_returns [OF assms] by blast
  from decide_sufficient [OF assms(1) False this, of render a b] False show ?thesis
    by (fastforce simp: evidence_missing_def identity_missing_def)
qed

text \<open>
  every decision carries its provenance. Whatever the outcome, the result names the contract,
  the digest, the PURL, the threshold and its version, the window bounds, the number of observed
  tokens and the loss flag it was called with; an unresolved digest or PURL is flagged exactly when it
  is unresolved; and a reason is given exactly when the evidence is insufficient.
\<close>

theorem decide_provenance:
  assumes "new_decider M cfg cid digest purl = Inr dec" and "model_wf M"
  shows "\<exists>res. decide render dec seq loss a b = Inr res \<and>
    contract_id res = cid \<and> res_image_digest res = digest \<and> res_purl res = purl \<and>
    res_threshold res = threshold cfg \<and> res_threshold_version res = threshold_version cfg \<and>
    observation_window_start res = a \<and> observation_window_end res = b \<and>
    res_observation_count res = length seq \<and> res_loss_observed res = loss \<and>
    (''image_digest_unresolved'' \<in> set (missing_data_flags res)) = (digest = UNRESOLVED_IDENTITY) \<and>
    (''purl_unresolved'' \<in> set (missing_data_flags res)) = (purl = UNRESOLVED_IDENTITY) \<and>
    (insufficient_evidence_reason res \<noteq> []) = (outcome res = INSUFFICIENT_EVIDENCE)"
proof (cases "evidence_missing cfg M digest purl seq")
  case True
  from decide_insufficient [OF assms(1) True, of render loss a b] show ?thesis by metis
next
  case False
  obtain sr where sr: "score (dec_scorer dec) seq loss = Inr sr" "observation_count sr = length seq"
      "loss_was_observed sr = loss"
    using scorer_returns [OF assms] by blast
  obtain res where "decide render dec seq loss a b = Inr res" "outcome res \<noteq> INSUFFICIENT_EVIDENCE"
    "insufficient_evidence_reason res = []" "contract_id res = cid" "res_image_digest res = digest"
    "res_purl res = purl" "res_threshold res = threshold cfg" "res_threshold_version res = threshold_version cfg"
    "observation_window_start res = a" "observation_window_end res = b"
    "res_observation_count res = length seq" "res_loss_observed res = loss"
    "missing_data_flags res =
      (if digest = UNRESOLVED_IDENTITY then [''image_digest_unresolved''] else []) @
      (if purl = UNRESOLVED_IDENTITY then [''purl_unresolved''] else []) @
      (if is_finite (threshold cfg) then [] else [''threshold_uncalibrated''])"
    using decide_sufficient [OF assms(1) False sr(1), of render a b] sr(2,3)
    by (metis drift_outcome.distinct(3,5))
  then show ?thesis by auto
qed

lemma decider_example:
  obtains M dec where "model_wf M" "new_decider M default_config ''c1'' ''sha256:d'' ''pkg:a'' = Inr dec"
proof -
  obtain M where "train [[tok_exec, tok_open, tok_exec]] 1 None 100 = Inr M" using train_example by blast
  then have "model_wf M" by (rule trained_model_wf)
  moreover have "\<exists>dec. new_decider M default_config ''c1'' ''sha256:d'' ''pkg:a'' = Inr dec"
    by (simp add: new_decider_def new_scorer_def default_config_def)
  ultimately show thesis using that by blast
qed

theorem decide_outcome_exactly_witness:
  "\<exists>M dec res. model_wf M \<and> new_decider M default_config ''c1'' ''sha256:d'' ''pkg:a'' = Inr dec \<and>
     decide (\<lambda>_. []) dec [] False (None :: nat option) None = Inr res \<and> outcome res = INSUFFICIENT_EVIDENCE"
proof -
  obtain M dec where md: "model_wf M" "new_decider M default_config ''c1'' ''sha256:d'' ''pkg:a'' = Inr dec"
    using decider_example .
  from decide_outcome_exactly [OF md(2,1), of "\<lambda>_. []" "[]" False "None :: nat option" None] md
  show ?thesis by (simp add: default_config_def) blast
qed

theorem decide_provenance_witness:
  "\<exists>M dec res. model_wf M \<and> new_decider M default_config ''c1'' ''sha256:d'' ''pkg:a'' = Inr dec \<and>
     decide (\<lambda>_. []) dec [tok_exec] True (Some (7 :: nat)) None = Inr res \<and>
     contract_id res = ''c1'' \<and> observation_window_start res = Some 7"
proof -
  obtain M dec where md: "model_wf M" "new_decider M default_config ''c1'' ''sha256:d'' ''pkg:a'' = Inr dec"
    using decider_example .
  from decide_provenance [OF md(2,1), of "\<lambda>_. []" "[tok_exec]" True "Some (7 :: nat)" None] md
  show ?thesis by blast
qed

text \<open>
  C9: calibration bounds the benign alerts. Score benign windows, calibrate on the scores, put the
  calibrated threshold into the configuration and run the decider on the same windows: at most
  \<open>\<lceil>(1 - q) * (n - 1)\<rceil>\<close> of them are reported as drift, \<open>n\<close> being the number of windows long enough
  to be scored.
\<close>

theorem calibrated_alert_bound:
  assumes "post_init cfg = Inr cfg" and "model_wf M"
    and "loss_penalty_factor cfg = Fin f" and "novelty_weight cfg = Fin w" and "calibration_quantile cfg = Fin q"
    and "new_calibrator M cfg = Inr cal" and "score_windows cal windows (Some flags) = Inr scores"
    and "calibrate digest fmt now cal scores = Inr cr" and "is_valid cr"
    and "new_decider M (cfg \<lparr>threshold := cal_threshold cr, threshold_version := cal_threshold_version cr\<rparr>)
           cid dg purl = Inr dec"
  shows "length (filter (\<lambda>(window, loss). \<exists>r. decide render dec window loss a b = Inr r \<and> outcome r = DRIFT)
           (zip windows flags))
         \<le> nat \<lceil>(1 - q) * real (n_windows cr - 1)\<rceil>"
proof -
  let ?cfg = "cfg \<lparr>threshold := cal_threshold cr, threshold_version := cal_threshold_version cr\<rparr>"
  have s: "new_scorer M (Fin f) = Inr (cal_scorer cal)" "cal_cfg cal = cfg" "dec_scorer dec = cal_scorer cal"
      "scorer_model (cal_scorer cal) = M" "scorer_penalty (cal_scorer cal) = Fin f"
    using assms(3,6,10) by (auto simp: new_calibrator_def new_decider_def new_scorer_def split: if_splits)
  obtain g where g: "\<And>p. score_window cal p = Inr (g p)"
      "\<And>p. if int (length (fst p)) < min_observation_tokens cfg then g p = NaN else is_finite (g p)"
      "length flags = length windows \<Longrightarrow> score_windows cal windows (Some flags) = Inr (map g (zip windows flags))"
    using score_windows_wf [OF assms(2,6,3,4)] by metis
  have "length flags = length windows" using assms(7) by (simp add: score_windows_def split: if_split_asm)
  with g(3) assms(7) have scores: "scores = map g (zip windows flags)" by simp
  have "is_nan (g p) \<or> is_finite (g p)" for p using g(2) [of p] by (auto split: if_splits)
  then have "list_all (\<lambda>s. is_nan s \<or> is_finite s) scores" by (simp add: scores list_all_iff)
  then have bound: "length (filter (\<lambda>s. cal_threshold cr < s) scores) \<le> nat \<lceil>(1 - q) * real (n_windows cr - 1)\<rceil>"
    using calibrated_exceedance [of cal scores digest fmt now cr q] assms(1,5,8,9) s(2) by simp
  have "cal_threshold cr < g (win, loss)"
    if d: "decide render dec win loss a b = Inr r" "outcome r = DRIFT" for win loss r
  proof -
    have ev: "\<not> evidence_missing ?cfg M dg purl win"
      using decide_insufficient [OF assms(10), of win render loss a b] d by auto
    obtain sr where sr: "score (dec_scorer dec) win loss = Inr sr"
      using scorer_returns [OF assms(10,2)] by blast
    have "cal_threshold cr < final_score sr + novelty_weight cfg * Fin (novel_token_fraction sr)"
      using decide_sufficient [OF assms(10) ev sr, of render a b] d by (auto split: if_splits)
    moreover have "g (win, loss) = final_score sr + novelty_weight cfg * Fin (novel_token_fraction sr)"
      using g(1) [of "(win, loss)"] sr ev s by (simp add: score_window_def evidence_missing_def)
    ultimately show ?thesis by simp
  qed
  then have imp: "\<And>p. p \<in> set (zip windows flags) \<Longrightarrow>
      (case p of (win, loss) \<Rightarrow> \<exists>r. decide render dec win loss a b = Inr r \<and> outcome r = DRIFT) \<Longrightarrow>
      cal_threshold cr < g p" by auto
  have "length (filter (\<lambda>(win, loss). \<exists>r. decide render dec win loss a b = Inr r \<and> outcome r = DRIFT)
      (zip windows flags)) \<le> length (filter (\<lambda>p. cal_threshold cr < g p) (zip windows flags))"
    by (rule length_filter_mono) (rule imp)
  also have "\<dots> = length (filter (\<lambda>s. cal_threshold cr < s) scores)"
    by (simp add: scores filter_map comp_def)
  finally show ?thesis using bound by linarith
qed

theorem calibrated_alert_bound_witness:
  "\<exists>M cal dec scores (cr :: nat calibration_result).
     new_calibrator M (small_config \<lparr>min_observation_tokens := 1\<rparr>) = Inr cal \<and>
     score_windows cal [[tok_exec], [tok_open]] (Some [False, False]) = Inr scores \<and>
     calibrate (\<lambda>_. ''d'') (\<lambda>_. ''0.990'') 0 cal scores = Inr cr \<and> is_valid cr \<and>
     length (filter (\<lambda>(window, loss). \<exists>r. decide (\<lambda>_. []) dec window loss (None :: nat option) None = Inr r \<and>
       outcome r = DRIFT) [([tok_exec], False), ([tok_open], False)]) \<le> 1"
proof -
  let ?cfg = "small_config \<lparr>min_observation_tokens := 1\<rparr>"
  have cfg: "post_init ?cfg = Inr ?cfg" "loss_penalty_factor ?cfg = Fin (3 / 2)" "novelty_weight ?cfg = Fin 0"
      "calibration_quantile ?cfg = Fin (99 / 100)" "min_calibration_windows ?cfg = 2"
    by (simp_all add: small_config_def default_config_def post_init_def)
  obtain M where "train [[tok_exec, tok_open, tok_exec]] 1 None 100 = Inr M" using train_example by blast
  then have M: "model_wf M" by (rule trained_model_wf)
  obtain cal where cal: "new_calibrator M ?cfg = Inr cal"
    using cfg(2) by (simp add: new_calibrator_def new_scorer_def)
  have cc: "cal_cfg cal = ?cfg" using cal by (auto simp: new_calibrator_def new_scorer_def cfg(2))
  obtain g where g: "\<And>p. if int (length (fst p)) < min_observation_tokens ?cfg then g p = NaN else is_finite (g p)"
      "score_windows cal [[tok_exec], [tok_open]] (Some [False, False]) =
         Inr [g ([tok_exec], False), g ([tok_open], False)]"
  proof (rule score_windows_wf [OF M cal cfg(2,3)])
    fix g
    assume h: "\<And>p. if int (length (fst p)) < min_observation_tokens ?cfg then g p = NaN else is_finite (g p)"
      and w: "\<And>windows flags. length flags = length windows \<Longrightarrow>
        score_windows cal windows (Some flags) = Inr (map g (zip windows flags))"
    show thesis
    proof (rule that [of g])
      show "if int (length (fst p)) < min_observation_tokens ?cfg then g p = NaN else is_finite (g p)" for p
        by (rule h)
      show "score_windows cal [[tok_exec], [tok_open]] (Some [False, False]) =
          Inr [g ([tok_exec], False), g ([tok_open], False)]"
        using w [of "[False, False]" "[[tok_exec], [tok_open]]"] by simp
    qed
  qed
  have "is_finite (g ([tok_exec], False))" "is_finite (g ([tok_open], False))"
    using g(1) [of "([tok_exec], False)"] g(1) [of "([tok_open], False)"] by simp_all
  then obtain x y where xy: "g ([tok_exec], False) = Fin x" "g ([tok_open], False) = Fin y"
    by (auto simp: is_finite_def)
  have "post_init (cal_cfg cal) = Inr (cal_cfg cal)" by (simp only: cc cfg)
  from calibrated_valid [OF this, of "[Fin x, Fin y]" "\<lambda>_. ''d''" "\<lambda>_. ''0.990''" "0 :: nat"]
  obtain cr where cr: "calibrate (\<lambda>_. ''d'') (\<lambda>_. ''0.990'') (0 :: nat) cal [Fin x, Fin y] = Inr cr" "is_valid cr"
      "n_windows cr = 2"
    by (auto simp: cc cfg(5))
  obtain dec where dec: "new_decider M (?cfg \<lparr>threshold := cal_threshold cr, threshold_version := cal_threshold_version cr\<rparr>)
      ''c'' ''d'' ''p'' = Inr dec"
    by (simp add: new_decider_def new_scorer_def small_config_def default_config_def)
  have one: "\<lceil>1 / 100 :: real\<rceil> = 1" by (simp add: ceiling_eq_iff)
  note bound = calibrated_alert_bound [OF cfg(1) M cfg(2,3,4) cal g(2) [unfolded xy] cr(1,2) dec,
    of "\<lambda>_. []" "None :: nat option" None]
  show ?thesis
    using cal g(2) cr bound by (intro exI [of _ M] exI [of _ cal] exI [of _ dec] exI [of _ "[Fin x, Fin y]"] exI [of _ cr])
      (simp add: xy one)
qed

end
