(* ===== verification/Cgroup_Attributor.thy ===== *)
theory Cgroup_Attributor
  imports Prelude
begin

text \<open>
  From a cgroup to a pod, \<open>infrastructure/k8s/attributor.py\<close>: the identity text parsing, the index of
  container directories, the cache, and \<open>attribute\<close> with its Kubernetes query.

  Redis, the Kubernetes client, the directory walk and \<open>uuid.UUID\<close> are arguments of the model; the
  attributor's own state is the cgroup index with its expiry, next to the state of Redis. Exceptions
  of Redis are values the code swallows; of the Kubernetes client only \<open>ApiException\<close> is modelled.
  The JSON text of a cache entry is represented by the document it denotes. Logging is left out.
\<close>

section \<open>Constants and identity text\<close>

definition CACHE_KEY_PREFIX :: string where
  "CACHE_KEY_PREFIX = ''phantom:attr:cgroup:''"

definition CACHE_TTL_SECONDS :: int where
  "CACHE_TTL_SECONDS = 60"

definition MAX_PODS_PER_CGROUP :: nat where
  "MAX_PODS_PER_CGROUP = 1"

definition CGROUP_INDEX_TTL_SECONDS :: real where
  "CGROUP_INDEX_TTL_SECONDS = 5"

definition is_hex :: "char \<Rightarrow> bool" where
  "is_hex c \<longleftrightarrow> c \<in> set ''0123456789abcdef''"

text \<open>A regular-expression search: the first suffix of the text at which a match starts.\<close>

fun search_first :: "('a list \<Rightarrow> 'b option) \<Rightarrow> 'a list \<Rightarrow> 'b option" where
  "search_first f [] = f []"
| "search_first f (x # xs) = (case f (x # xs) of Some r \<Rightarrow> Some r | None \<Rightarrow> search_first f xs)"

text \<open>\<open>(?:cri-containerd|docker|crio)-([0-9a-f]{64})(?:\.scope)?$\<close>, with the group it captures; the
  dollar also matches before one final newline.\<close>

fun scope_with :: "string list \<Rightarrow> string \<Rightarrow> string option" where
  "scope_with [] s = None"
| "scope_with (p # ps) s =
     (if starts_with s p \<and> length (take 64 (drop (length p) s)) = 64 \<and>
         list_all is_hex (take 64 (drop (length p) s)) \<and>
         drop (length p + 64) s \<in> {[], ''.scope'', [char_of (10::nat)], ''.scope'' @ [char_of (10::nat)]}
      then Some (take 64 (drop (length p) s)) else scope_with ps s)"

definition container_scope :: "string \<Rightarrow> string option" where
  "container_scope name = search_first (scope_with [''cri-containerd-'', ''docker-'', ''crio-'']) name"

text \<open>\<open>sha256:[0-9a-f]{64}(?:$|[^0-9a-f])\<close>, cut to 71 characters.\<close>

definition digest_at :: "string \<Rightarrow> string option" where
  "digest_at s =
     (if starts_with s ''sha256:'' \<and> length (take 64 (drop 7 s)) = 64 \<and> list_all is_hex (take 64 (drop 7 s)) \<and>
         (drop 71 s = [] \<or> \<not> is_hex (hd (drop 71 s)))
      then Some (take 71 s) else None)"

definition immutable_image_digest :: "string option \<Rightarrow> string option" where
  "immutable_image_digest image_id =
     (case image_id of
        None \<Rightarrow> None
      | Some s \<Rightarrow> (if s = [] then None else search_first digest_at s))"

section \<open>Results, pods and the environment\<close>

datatype attribution_status = RESOLVED | AMBIGUOUS | MISSING | STALE

fun status_value :: "attribution_status \<Rightarrow> string" where
  "status_value RESOLVED = ''resolved''"
| "status_value AMBIGUOUS = ''ambiguous''"
| "status_value MISSING = ''missing''"
| "status_value STALE = ''stale''"

definition status_of :: "string \<Rightarrow> attribution_status py_result" where
  "status_of s =
     (if s = ''resolved'' then Inr RESOLVED
      else if s = ''ambiguous'' then Inr AMBIGUOUS
      else if s = ''missing'' then Inr MISSING
      else if s = ''stale'' then Inr STALE
      else Inl ValueError)"

record candidate =
  cand_pod_uid :: string
  cand_pod_name :: string
  cand_namespace :: string
  cand_container_name :: string
  cand_container_id :: string
  cand_image_digest :: "string option"

record 'u attribution_result =
  cgroup_id :: int
  status :: attribution_status
  pod_uid :: "'u option"
  pod_name :: "string option"
  namespace :: "string option"
  container_name :: "string option"
  image_digest :: "string option"
  purl :: "string option"
  binding_confidence :: real
  candidates :: "candidate list option"
  container_id :: "string option"

text \<open>The payload of a cache entry.\<close>

record cache_doc =
  c_cgroup_id :: int
  c_status :: string
  c_pod_uid :: "string option"
  c_pod_name :: "string option"
  c_namespace :: "string option"
  c_container_name :: "string option"
  c_image_digest :: "string option"
  c_purl :: "string option"
  c_confidence :: real
  c_candidates :: "candidate list option"
  c_container_id :: "string option"

text \<open>The parts of a pod the code reads; \<open>cs_running\<close> is \<open>cs.state and cs.state.running\<close>.\<close>

record container_status =
  cs_container_id :: "string option"
  cs_running :: bool
  cs_name :: string
  cs_image_id :: "string option"

record pod =
  p_uid :: string
  p_name :: string
  p_namespace :: string
  p_statuses :: "container_status list option option"

text \<open>A Redis client: every operation may raise.\<close>

record 'r redis_client =
  r_get :: "'r \<Rightarrow> string \<Rightarrow> unit + cache_doc option"
  r_setex :: "'r \<Rightarrow> string \<Rightarrow> int \<Rightarrow> cache_doc \<Rightarrow> unit + 'r"
  r_scan :: "'r \<Rightarrow> string \<Rightarrow> unit + string list"
  r_delete :: "'r \<Rightarrow> string list \<Rightarrow> unit + 'r"

record ('r, 'u) attributor =
  redis :: "'r redis_client option"
  node_name :: string
  ns_filter :: "string option"
  cache_ttl :: int
  list_pods_in :: "string \<Rightarrow> string \<Rightarrow> unit + pod list"
  list_pods_all :: "string \<Rightarrow> unit + pod list"
  cgroup_dirs :: "(string \<times> int option) list"
  parse_uuid :: "string \<Rightarrow> 'u py_result"
  print_uuid :: "'u \<Rightarrow> string"

record 'r attributor_state =
  redis_state :: 'r
  cgroup_index :: "(int, string) dict"
  cgroup_index_expires :: real

definition truthy :: "'a list option \<Rightarrow> bool" where
  "truthy x \<longleftrightarrow> x \<noteq> None \<and> x \<noteq> Some []"

section \<open>The cache\<close>

definition cache_key :: "int \<Rightarrow> string option \<Rightarrow> string" where
  "cache_key cg cid =
     CACHE_KEY_PREFIX @ show_int cg @ '':'' @
     (if truthy cid then ''container:'' @ the cid else ''unattributed'')"

definition result_of_doc :: "(string \<Rightarrow> 'u py_result) \<Rightarrow> cache_doc \<Rightarrow> 'u attribution_result py_result" where
  "result_of_doc parse d =
     py_bind (status_of (c_status d)) (\<lambda>st.
     py_bind (if truthy (c_pod_uid d) then py_bind (parse (the (c_pod_uid d))) (\<lambda>u. Inr (Some u)) else Inr None)
       (\<lambda>uid.
         Inr \<lparr>cgroup_id = c_cgroup_id d, status = st, pod_uid = uid, pod_name = c_pod_name d,
              namespace = c_namespace d, container_name = c_container_name d,
              image_digest = c_image_digest d, purl = c_purl d, binding_confidence = c_confidence d,
              candidates = c_candidates d, container_id = c_container_id d\<rparr>))"

definition doc_of_result :: "('u \<Rightarrow> string) \<Rightarrow> 'u attribution_result \<Rightarrow> cache_doc" where
  "doc_of_result print_u r =
     \<lparr>c_cgroup_id = cgroup_id r, c_status = status_value (status r),
      c_pod_uid = map_option print_u (pod_uid r), c_pod_name = pod_name r, c_namespace = namespace r,
      c_container_name = container_name r, c_image_digest = image_digest r, c_purl = purl r,
      c_confidence = binding_confidence r, c_candidates = candidates r, c_container_id = container_id r\<rparr>"

definition get_cached ::
    "('r, 'u) attributor \<Rightarrow> 'r attributor_state \<Rightarrow> int \<Rightarrow> string option \<Rightarrow> 'u attribution_result option" where
  "get_cached a st cg cid =
     (case redis a of
        None \<Rightarrow> None
      | Some client \<Rightarrow>
          (case r_get client (redis_state st) (cache_key cg cid) of
             Inl _ \<Rightarrow> None
           | Inr None \<Rightarrow> None
           | Inr (Some d) \<Rightarrow>
               (case result_of_doc (parse_uuid a) d of Inl _ \<Rightarrow> None | Inr r \<Rightarrow> Some r)))"

definition set_cached ::
    "('r, 'u) attributor \<Rightarrow> 'u attribution_result \<Rightarrow> string option \<Rightarrow> 'r attributor_state \<Rightarrow>
     'r attributor_state" where
  "set_cached a r cid st =
     (case redis a of
        None \<Rightarrow> st
      | Some client \<Rightarrow>
          (case r_setex client (redis_state st) (cache_key (cgroup_id r) cid) (cache_ttl a)
                  (doc_of_result (print_uuid a) r) of
             Inl _ \<Rightarrow> st
           | Inr rs \<Rightarrow> st \<lparr>redis_state := rs\<rparr>))"

definition invalidate ::
    "('r, 'u) attributor \<Rightarrow> int \<Rightarrow> string option \<Rightarrow> 'r attributor_state \<Rightarrow> 'r attributor_state" where
  "invalidate a cg cid st =
     (case redis a of
        None \<Rightarrow> st
      | Some client \<Rightarrow>
          (case cid of
             Some _ \<Rightarrow>
               (case r_delete client (redis_state st) [cache_key cg cid] of
                  Inl _ \<Rightarrow> st | Inr rs \<Rightarrow> st \<lparr>redis_state := rs\<rparr>)
           | None \<Rightarrow>
               (case r_scan client (redis_state st) (CACHE_KEY_PREFIX @ show_int cg @ '':*'') of
                  Inl _ \<Rightarrow> st
                | Inr keys \<Rightarrow>
                    (if keys = [] then st
                     else (case r_delete client (redis_state st) keys of
                             Inl _ \<Rightarrow> st | Inr rs \<Rightarrow> st \<lparr>redis_state := rs\<rparr>)))))"

section \<open>The directory index\<close>

definition build_index :: "(string \<times> int option) list \<Rightarrow> (int, string) dict" where
  "build_index dirs =
     fold (\<lambda>(name, stat) index.
       case container_scope name of
         None \<Rightarrow> index
       | Some cid \<Rightarrow> (case stat of None \<Rightarrow> index | Some inode \<Rightarrow> dict_set index inode cid)) dirs []"

definition container_id_for_cgroup ::
    "('r, 'u) attributor \<Rightarrow> real \<Rightarrow> int \<Rightarrow> 'r attributor_state \<Rightarrow> string option \<times> 'r attributor_state" where
  "container_id_for_cgroup a now cg st =
     (let st' =
            (if cgroup_index_expires st \<le> now
             then st \<lparr>cgroup_index := build_index (cgroup_dirs a),
                     cgroup_index_expires := now + CGROUP_INDEX_TTL_SECONDS\<rparr>
             else st)
      in (dict_get (cgroup_index st') cg, st'))"

section \<open>Attribution\<close>

definition bare_result :: "int \<Rightarrow> attribution_status \<Rightarrow> 'u attribution_result" where
  "bare_result cg s =
     \<lparr>cgroup_id = cg, status = s, pod_uid = None, pod_name = None, namespace = None, container_name = None,
      image_digest = None, purl = None, binding_confidence = 0, candidates = None, container_id = None\<rparr>"

definition pod_matches :: "string \<Rightarrow> pod \<Rightarrow> candidate list" where
  "pod_matches cid p =
     (case p_statuses p of
        None \<Rightarrow> []
      | Some statuses \<Rightarrow>
          concat (map (\<lambda>cs.
            if truthy (cs_container_id cs) \<and> cs_running cs \<and>
               after_last CHR ''/'' (the (cs_container_id cs)) = after_last CHR ''/'' cid
            then [\<lparr>cand_pod_uid = p_uid p, cand_pod_name = p_name p, cand_namespace = p_namespace p,
                   cand_container_name = cs_name cs, cand_container_id = the (cs_container_id cs),
                   cand_image_digest = immutable_image_digest (cs_image_id cs)\<rparr>]
            else []) (case statuses of None \<Rightarrow> [] | Some l \<Rightarrow> l)))"

definition list_pods :: "('r, 'u) attributor \<Rightarrow> unit + pod list" where
  "list_pods a =
     (if truthy (ns_filter a) then list_pods_in a (the (ns_filter a)) (''spec.nodeName='' @ node_name a)
      else list_pods_all a (''spec.nodeName='' @ node_name a))"

definition match_pods :: "('r, 'u) attributor \<Rightarrow> int \<Rightarrow> string \<Rightarrow> 'u attribution_result py_result" where
  "match_pods a cg cid =
     (case list_pods a of
        Inl _ \<Rightarrow> Inr (bare_result cg MISSING)
      | Inr pods \<Rightarrow>
          (let matches = concat (map (pod_matches cid) pods) in
           if matches = [] then Inr (bare_result cg MISSING)
           else if length matches > MAX_PODS_PER_CGROUP then
             Inr ((bare_result cg AMBIGUOUS) \<lparr>candidates := Some (take 8 matches)\<rparr>)
           else
             (let m = hd matches in
              py_bind (if cand_pod_uid m \<noteq> [] then py_bind (parse_uuid a (cand_pod_uid m)) (\<lambda>u. Inr (Some u))
                       else Inr None)
                (\<lambda>uid.
                  Inr \<lparr>cgroup_id = cg, status = RESOLVED, pod_uid = uid, pod_name = Some (cand_pod_name m),
                       namespace = Some (cand_namespace m), container_name = Some (cand_container_name m),
                       image_digest = cand_image_digest m, purl = None, binding_confidence = 7 / 10,
                       candidates = None, container_id = Some (cand_container_id m)\<rparr>))))"

definition query_k8s ::
    "('r, 'u) attributor \<Rightarrow> real \<Rightarrow> int \<Rightarrow> string option \<Rightarrow> bool \<Rightarrow> 'r attributor_state \<Rightarrow>
     'u attribution_result py_result \<times> 'r attributor_state" where
  "query_k8s a now cg cid validated st =
     (if \<not> truthy cid then
        (if \<not> validated then (Inr (bare_result cg MISSING), st)
         else
           (case container_id_for_cgroup a now cg st of
              (found, st') \<Rightarrow>
                (if \<not> truthy found then (Inr (bare_result cg MISSING), st')
                 else (match_pods a cg (the found), st'))))
      else (match_pods a cg (the cid), st))"

definition attribute ::
    "('r, 'u) attributor \<Rightarrow> real \<Rightarrow> int \<Rightarrow> string option \<Rightarrow> bool \<Rightarrow> 'r attributor_state \<Rightarrow>
     'u attribution_result py_result \<times> 'r attributor_state" where
  "attribute a now cg cid0 validated st =
     (let cid = (if cid0 \<noteq> None \<and> \<not> validated then None else cid0);
          cached = (if truthy cid then get_cached a st cg cid else None)
      in case cached of
           Some r \<Rightarrow> (Inr r, st)
         | None \<Rightarrow>
             (case query_k8s a now cg cid validated st of
                (Inl e, st') \<Rightarrow> (Inl e, st')
              | (Inr r, st') \<Rightarrow> (Inr r, if truthy cid then set_cached a r cid st' else st')))"

section \<open>Searching\<close>

lemma search_first_Some: "search_first f s = Some r \<Longrightarrow> \<exists>pre post. s = pre @ post \<and> f post = Some r"
proof (induction s)
  case (Cons x xs)
  show ?case
  proof (cases "f (x # xs)")
    case None
    with Cons obtain pre post where "xs = pre @ post" "f post = Some r" by auto
    then show ?thesis by (intro exI [of _ "x # pre"] exI [of _ post]) simp
  next
    case (Some r')
    with Cons.prems show ?thesis by (intro exI [of _ "[]"] exI [of _ "x # xs"]) simp
  qed
qed simp

lemma search_first_finds: "f post = Some r \<Longrightarrow> \<exists>r'. search_first f (pre @ post) = Some r'"
proof (induction pre)
  case Nil
  then show ?case by (cases post) (auto split: option.splits)
qed (auto split: option.splits)

lemma digest_at_iff:
  "digest_at s = Some d \<longleftrightarrow>
     (\<exists>h post. s = ''sha256:'' @ h @ post \<and> d = ''sha256:'' @ h \<and> length h = 64 \<and> list_all is_hex h \<and>
        (post = [] \<or> \<not> is_hex (hd post)))" (is "_ \<longleftrightarrow> ?R")
proof
  assume d: "digest_at s = Some d"
  then obtain r where s: "s = ''sha256:'' @ r" by (auto simp: digest_at_def starts_with_iff split: if_splits)
  with d have "length (take 64 r) = 64" "list_all is_hex (take 64 r)" "drop 64 r = [] \<or> \<not> is_hex (hd (drop 64 r))"
      "d = ''sha256:'' @ take 64 r"
    by (auto simp: digest_at_def split: if_splits)
  with s show ?R by (intro exI [of _ "take 64 r"] exI [of _ "drop 64 r"]) simp
next
  assume ?R
  then show "digest_at s = Some d" by (auto simp: digest_at_def starts_with_def)
qed

lemma scope_with_Some: "scope_with ps s = Some c \<Longrightarrow> length c = 64 \<and> list_all is_hex c"
  by (induction ps) (auto split: if_splits)

lemma container_scope_hex: "container_scope name = Some c \<Longrightarrow> length c = 64 \<and> list_all is_hex c"
  unfolding container_scope_def by (blast dest: search_first_Some scope_with_Some)

lemma build_index_get:
  "dict_get (build_index dirs) cg = Some c \<Longrightarrow> \<exists>name. (name, Some cg) \<in> set dirs \<and> container_scope name = Some c"
proof (induction dirs rule: rev_induct)
  case (snoc d dirs)
  obtain name stat where d: "d = (name, stat)" by (cases d)
  have step: "build_index (dirs @ [d]) =
      (case container_scope name of None \<Rightarrow> build_index dirs
       | Some cid \<Rightarrow> (case stat of None \<Rightarrow> build_index dirs | Some inode \<Rightarrow> dict_set (build_index dirs) inode cid))"
    by (simp add: build_index_def d split: option.splits)
  show ?case
    using snoc step by (auto simp: d split: option.splits if_splits)
qed (simp add: build_index_def)

section \<open>Containers and matches\<close>

definition running_containers :: "pod list \<Rightarrow> (pod \<times> container_status) list" where
  "running_containers pods =
     concat (map (\<lambda>p. case p_statuses p of
         Some (Some l) \<Rightarrow> map (Pair p) (filter (\<lambda>cs. truthy (cs_container_id cs) \<and> cs_running cs) l)
       | _ \<Rightarrow> []) pods)"

definition same_container :: "string \<Rightarrow> pod \<times> container_status \<Rightarrow> bool" where
  "same_container cid pc \<longleftrightarrow> after_last CHR ''/'' (the (cs_container_id (snd pc))) = after_last CHR ''/'' cid"

definition candidate_of :: "pod \<times> container_status \<Rightarrow> candidate" where
  "candidate_of pc =
     \<lparr>cand_pod_uid = p_uid (fst pc), cand_pod_name = p_name (fst pc), cand_namespace = p_namespace (fst pc),
      cand_container_name = cs_name (snd pc), cand_container_id = the (cs_container_id (snd pc)),
      cand_image_digest = immutable_image_digest (cs_image_id (snd pc))\<rparr>"

lemma concat_map_singleton: "concat (map (\<lambda>x. if P x then [f x] else []) xs) = map f (filter P xs)"
  by (induction xs) simp_all

lemma matches_eq:
  "concat (map (pod_matches cid) pods) = map candidate_of (filter (same_container cid) (running_containers pods))"
proof (induction pods)
  case (Cons p pods)
  have "pod_matches cid p = map candidate_of (filter (same_container cid)
      (case p_statuses p of
         Some (Some l) \<Rightarrow> map (Pair p) (filter (\<lambda>cs. truthy (cs_container_id cs) \<and> cs_running cs) l)
       | _ \<Rightarrow> []))"
    by (auto simp: pod_matches_def concat_map_singleton filter_map candidate_of_def same_container_def comp_def
        conj_commute split: option.splits intro!: arg_cong [of _ _ "map _"] filter_cong)
  with Cons show ?case by (simp add: running_containers_def)
qed (simp add: running_containers_def)

lemma bare_result_fields [simp]:
  "cgroup_id (bare_result cg s) = cg" "status (bare_result cg s) = s" "pod_uid (bare_result cg s) = None"
  "pod_name (bare_result cg s) = None" "namespace (bare_result cg s) = None"
  "container_name (bare_result cg s) = None" "image_digest (bare_result cg s) = None"
  "purl (bare_result cg s) = None" "candidates (bare_result cg s) = None"
  "container_id (bare_result cg s) = None" "binding_confidence (bare_result cg s) = 0"
  by (simp_all add: bare_result_def)

lemma attribute_miss:
  assumes "cid \<noteq> []" and "get_cached a st cg (Some cid) = None"
  shows "attribute a now cg (Some cid) True st =
    (match_pods a cg cid, case match_pods a cg cid of Inl _ \<Rightarrow> st | Inr r \<Rightarrow> set_cached a r (Some cid) st)"
  using assms by (simp add: attribute_def query_k8s_def truthy_def split: sum.splits)

lemma match_pods_cgroup: "match_pods a cg cid = Inr r \<Longrightarrow> cgroup_id r = cg"
  by (auto simp: match_pods_def Let_def py_bind_Inr_iff split: sum.splits if_splits)

lemma match_pods_status: "match_pods a cg cid = Inr r \<Longrightarrow> status r \<noteq> STALE"
  by (auto simp: match_pods_def Let_def py_bind_Inr_iff split: sum.splits if_splits)

section \<open>Properties\<close>

text \<open>
  an unvalidated event is never attributed. Without event-time cgroup validation, \<open>attribute\<close>
  answers \<open>MISSING\<close> with no identity for every cgroup and whatever container ID it is given, and it
  leaves the cache and the directory index untouched.
\<close>

theorem attribute_unvalidated:
  "attribute a now cg cid False st =
     (Inr \<lparr>cgroup_id = cg, status = MISSING, pod_uid = None, pod_name = None, namespace = None,
           container_name = None, image_digest = None, purl = None, binding_confidence = 0,
           candidates = None, container_id = None\<rparr>, st)"
  by (auto simp: attribute_def query_k8s_def truthy_def bare_result_def)

text \<open>
  C11: attribution is decided by the number of matching running containers. On a cache miss with a
  validated container ID, if the API answers, the result is \<open>MISSING\<close> for no match, \<open>AMBIGUOUS\<close> for two
  or more, with at most eight candidates, and \<open>RESOLVED\<close> for exactly one, with the fields of that pod
  and container; only a resolved result carries an identity, and no result is \<open>STALE\<close>.
\<close>

theorem attribute_by_matches:
  assumes "cid \<noteq> []" and "get_cached a st cg (Some cid) = None" and "list_pods a = Inr pods"
    and "ms = filter (same_container cid) (running_containers pods)"
    and "fst (attribute a now cg (Some cid) True st) = Inr r"
  shows "status r = (if ms = [] then MISSING else if length ms = 1 then RESOLVED else AMBIGUOUS) \<and>
    (if length ms = 1
     then pod_name r = Some (p_name (fst (hd ms))) \<and> namespace r = Some (p_namespace (fst (hd ms))) \<and>
          container_name r = Some (cs_name (snd (hd ms))) \<and> container_id r = cs_container_id (snd (hd ms)) \<and>
          image_digest r = immutable_image_digest (cs_image_id (snd (hd ms))) \<and> candidates r = None
     else pod_uid r = None \<and> pod_name r = None \<and> namespace r = None \<and> container_name r = None \<and>
          container_id r = None \<and> image_digest r = None \<and> binding_confidence r = 0 \<and>
          candidates r = (if ms = [] then None else Some (take 8 (map candidate_of ms))))"
proof -
  have r: "match_pods a cg cid = Inr r" using attribute_miss [OF assms(1,2)] assms(5) by simp
  have m: "concat (map (pod_matches cid) pods) = map candidate_of ms" by (simp add: matches_eq assms(4))
  consider "ms = []" | x where "ms = [x]" | x y zs where "ms = x # y # zs"
    by (cases ms rule: list.exhaust; cases "tl ms" rule: list.exhaust) auto
  then show ?thesis
  proof cases
    case (2 x)
    have "x \<in> set (running_containers pods)" using 2 assms(4) by (metis filter_is_subset list.set_intros(1) subsetD)
    then have "cs_container_id (snd x) = Some (the (cs_container_id (snd x)))"
      by (auto simp: running_containers_def truthy_def split: option.splits)
    with 2 r show ?thesis
      by (auto simp: match_pods_def assms(3) m Let_def MAX_PODS_PER_CGROUP_def candidate_of_def py_bind_Inr_iff
          split: if_splits)
  qed (use r in \<open>auto simp: match_pods_def assms(3) m Let_def MAX_PODS_PER_CGROUP_def\<close>)
qed

text \<open>
  only immutable digests are reported. \<open>immutable_image_digest\<close> returns a value exactly when the
  image ID contains \<open>sha256:\<close> followed by 64 lower-case hexadecimal digits that no further such digit
  extends, and the value is always such a digest.
\<close>

theorem immutable_digest_exactly:
  "(case immutable_image_digest image_id of
      None \<Rightarrow> \<not> (\<exists>pre h post. image_id = Some (pre @ ''sha256:'' @ h @ post) \<and> length h = 64 \<and>
                list_all is_hex h \<and> (post = [] \<or> \<not> is_hex (hd post)))
    | Some d \<Rightarrow> (\<exists>pre h post. image_id = Some (pre @ ''sha256:'' @ h @ post) \<and> d = ''sha256:'' @ h \<and>
                length h = 64 \<and> list_all is_hex h \<and> (post = [] \<or> \<not> is_hex (hd post))))"
proof (cases "immutable_image_digest image_id")
  case None
  have False if "image_id = Some (pre @ ''sha256:'' @ h @ post)" "length h = 64" "list_all is_hex h"
    "post = [] \<or> \<not> is_hex (hd post)" for pre h post
  proof -
    have "digest_at (''sha256:'' @ h @ post) = Some (''sha256:'' @ h)"
      by (rule iffD2 [OF digest_at_iff], intro exI [of _ h] exI [of _ post] conjI refl) (rule that)+
    from search_first_finds [of digest_at, OF this, of pre]
    obtain r where "search_first digest_at (pre @ ''sha256:'' @ h @ post) = Some r" by (elim exE)
    with None that(1) show False by (simp add: immutable_image_digest_def)
  qed
  then show ?thesis unfolding None option.case by blast
next
  case (Some d)
  then obtain s where "image_id = Some s" "search_first digest_at s = Some d"
    by (auto simp: immutable_image_digest_def split: option.splits if_splits)
  then obtain pre t where "image_id = Some (pre @ t)" "digest_at t = Some d"
    by (auto dest: search_first_Some)
  then show ?thesis unfolding Some digest_at_iff option.case by blast
qed

theorem immutable_digest_exactly_witness:
  "\<exists>d. immutable_image_digest (Some (''web@sha256:'' @ replicate 64 CHR ''a'')) = Some d \<and> length d = 71"
proof -
  let ?s = "Some (''web@sha256:'' @ replicate 64 CHR ''a'')"
  have ex: "\<exists>pre h post. ?s = Some (pre @ ''sha256:'' @ h @ post) \<and> length h = 64 \<and> list_all is_hex h \<and>
      (post = [] \<or> \<not> is_hex (hd post))"
    by (rule exI [of _ "''web@''"], rule exI [of _ "replicate 64 CHR ''a''"], rule exI [of _ "[]"])
       (simp add: is_hex_def list_all_iff)
  note spec = immutable_digest_exactly [of ?s]
  have "immutable_image_digest ?s \<noteq> None"
  proof
    assume none: "immutable_image_digest ?s = None"
    from spec ex show False unfolding none option.case by blast
  qed
  then obtain d where d: "immutable_image_digest ?s = Some d" by blast
  from spec obtain h where "d = ''sha256:'' @ h" "length h = 64" unfolding d option.case by blast
  with d show ?thesis by simp
qed

section \<open>Cache properties\<close>

lemma colon_cancel:
  assumes "c \<notin> set xs" and "c \<notin> set ys"
  shows "xs @ c # us = ys @ c # vs \<longleftrightarrow> xs = ys \<and> us = vs"
proof
  assume e: "xs @ c # us = ys @ c # vs"
  have "takeWhile (\<lambda>x. x \<noteq> c) (xs @ c # us) = xs" "takeWhile (\<lambda>x. x \<noteq> c) (ys @ c # vs) = ys"
    using assms by (subst takeWhile_append2; auto)+
  with e show "xs = ys \<and> us = vs" by auto
qed simp

text \<open>
  cache keys separate identities. Two keys are equal only for the same cgroup and the same
  container ID (all missing IDs count as one), and the scan pattern that \<open>invalidate\<close> uses for a
  cgroup is a prefix of exactly the keys of that cgroup.
\<close>

theorem cache_keys_separate:
  "(cache_key cg cid = cache_key cg' cid') =
     (cg = cg' \<and> (if truthy cid then cid' = cid else \<not> truthy cid')) \<and>
   starts_with (cache_key cg' cid') (CACHE_KEY_PREFIX @ show_int cg @ '':'') = (cg = cg')"
proof -
  have key: "cache_key cg cid = CACHE_KEY_PREFIX @ show_int cg @ CHR '':'' #
      (if truthy cid then ''container:'' @ the cid else ''unattributed'')" for cg cid
    by (simp add: cache_key_def)
  have "(cache_key cg cid = cache_key cg' cid') =
     (cg = cg' \<and> (if truthy cid then cid' = cid else \<not> truthy cid'))"
    unfolding key same_append_eq colon_cancel [OF show_int_no_colon show_int_no_colon] show_int_inject
    by (auto simp: truthy_def)
  moreover have "starts_with (cache_key cg' cid') (CACHE_KEY_PREFIX @ show_int cg @ '':'') = (cg = cg')"
    unfolding key starts_with_iff append_assoc same_append_eq append_Cons append_Nil
      colon_cancel [OF show_int_no_colon show_int_no_colon] show_int_inject
    by auto
  ultimately show ?thesis by blast
qed

lemma status_of_value [simp]: "status_of (status_value s) = Inr s"
  by (cases s) (simp_all add: status_of_def)

lemma result_doc_roundtrip:
  assumes "\<And>u. parse (print_u u) = Inr u \<and> print_u u \<noteq> []"
  shows "result_of_doc parse (doc_of_result print_u r) = Inr r"
  using assms by (cases "pod_uid r") (simp_all add: result_of_doc_def doc_of_result_def truthy_def)

text \<open>What the cache relies on: a value just written is read back, and UUIDs print and parse.\<close>

definition cache_laws :: "('r, 'u) attributor \<Rightarrow> bool" where
  "cache_laws a \<longleftrightarrow>
     (\<forall>u. parse_uuid a (print_uuid a u) = Inr u \<and> print_uuid a u \<noteq> []) \<and>
     (\<exists>client. redis a = Some client \<and>
       (\<forall>rs k ttl d. \<exists>rs'. r_setex client rs k ttl d = Inr rs' \<and> r_get client rs' k = Inr (Some d)))"

lemma get_cached_env:
  "redis b = redis a \<Longrightarrow> parse_uuid b = parse_uuid a \<Longrightarrow> get_cached b st cg cid = get_cached a st cg cid"
  by (simp add: get_cached_def split: option.splits sum.splits)

lemma get_set_cached:
  assumes "cache_laws a"
  shows "get_cached a (set_cached a r cid st) (cgroup_id r) cid = Some r"
proof -
  obtain client where c: "redis a = Some client"
      "\<forall>rs k ttl d. \<exists>rs'. r_setex client rs k ttl d = Inr rs' \<and> r_get client rs' k = Inr (Some d)"
    using assms by (auto simp: cache_laws_def)
  let ?d = "doc_of_result (print_uuid a) r"
  obtain rs' where "r_setex client (redis_state st) (cache_key (cgroup_id r) cid) (cache_ttl a) ?d = Inr rs'"
      "r_get client rs' (cache_key (cgroup_id r) cid) = Inr (Some ?d)"
    using c(2) by blast
  moreover have "result_of_doc (parse_uuid a) ?d = Inr r"
    using assms by (intro result_doc_roundtrip) (simp add: cache_laws_def)
  ultimately show ?thesis by (simp add: get_cached_def set_cached_def c(1))
qed

text \<open>
  a cached answer is repeated. If \<open>attribute\<close> answers for a validated container ID, asking again
  in the state it leaves gives the same answer and changes nothing, whatever the Kubernetes API and
  the directory tree say by then.
\<close>

theorem attribute_repeats:
  assumes "cache_laws a" and "cid \<noteq> []"
    and "attribute a now cg (Some cid) True st = (Inr r, st')"
  shows "attribute (a \<lparr>list_pods_in := f, list_pods_all := g, cgroup_dirs := d\<rparr>) now' cg (Some cid) True st' =
    (Inr r, st')"
proof -
  let ?a = "a \<lparr>list_pods_in := f, list_pods_all := g, cgroup_dirs := d\<rparr>"
  have "get_cached a st' cg (Some cid) = Some r"
  proof (cases "get_cached a st cg (Some cid)")
    case None
    from attribute_miss [OF assms(2) None, of now] assms(3)
    have r: "match_pods a cg cid = Inr r" by auto
    with attribute_miss [OF assms(2) None, of now] assms(3) have "st' = set_cached a r (Some cid) st" by simp
    with r get_set_cached [OF assms(1)] match_pods_cgroup show ?thesis by metis
  next
    case (Some r')
    with assms(2,3) show ?thesis by (simp add: attribute_def truthy_def)
  qed
  moreover have "get_cached ?a st' cg (Some cid) = get_cached a st' cg (Some cid)"
    by (rule get_cached_env) simp_all
  ultimately show ?thesis using assms(2) by (simp add: attribute_def truthy_def)
qed

text \<open>
  an API failure is cached as \<open>MISSING\<close>. If the Kubernetes query of a cache miss fails, the
  answer is \<open>MISSING\<close>, and until the entry expires the same container is still reported \<open>MISSING\<close> when
  the API answers again and lists it as running.
\<close>

theorem api_failure_masks:
  assumes "cache_laws a" and "cid \<noteq> []" and "get_cached a st cg (Some cid) = None"
    and "list_pods a = Inl e"
  shows "\<exists>st'. attribute a now cg (Some cid) True st = (Inr (bare_result cg MISSING), st') \<and>
    attribute (a \<lparr>list_pods_in := (\<lambda>_ _. Inr pods), list_pods_all := (\<lambda>_. Inr pods)\<rparr>) now' cg (Some cid) True st' =
      (Inr (bare_result cg MISSING), st')"
proof -
  let ?st' = "set_cached a (bare_result cg MISSING) (Some cid) st"
  let ?a = "a \<lparr>list_pods_in := (\<lambda>_ _. Inr pods), list_pods_all := (\<lambda>_. Inr pods)\<rparr>"
  have "attribute a now cg (Some cid) True st = (Inr (bare_result cg MISSING), ?st')"
    using attribute_miss [OF assms(2,3), of now] assms(4) by (simp add: match_pods_def)
  moreover have "get_cached ?a ?st' cg (Some cid) = Some (bare_result cg MISSING)"
    using get_set_cached [OF assms(1), of "bare_result cg MISSING" "Some cid" st]
      get_cached_env [of ?a a ?st' cg "Some cid"] by simp
  then have "attribute ?a now' cg (Some cid) True ?st' = (Inr (bare_result cg MISSING), ?st')"
    using assms(2) by (simp add: attribute_def truthy_def)
  ultimately show ?thesis by blast
qed

section \<open>Concrete instances\<close>

text \<open>A Redis that never expires and a node with one running container.\<close>

definition memory_redis :: "(string, cache_doc) dict redis_client" where
  "memory_redis =
     \<lparr>r_get = (\<lambda>rs k. Inr (dict_get rs k)),
      r_setex = (\<lambda>rs k ttl d. Inr (dict_set rs k d)),
      r_scan = (\<lambda>rs p. Inr (filter (\<lambda>k. starts_with k (butlast p)) (dict_keys rs))),
      r_delete = (\<lambda>rs ks. Inr (filter (\<lambda>(k, d). k \<notin> set ks) rs))\<rparr>"

definition example_pod :: pod where
  "example_pod =
     \<lparr>p_uid = ''u1'', p_name = ''web'', p_namespace = ''prod'',
      p_statuses = Some (Some
        [\<lparr>cs_container_id = Some ''containerd://abc'', cs_running = True, cs_name = ''app'', cs_image_id = None\<rparr>,
         \<lparr>cs_container_id = Some ''containerd://def'', cs_running = False, cs_name = ''old'', cs_image_id = None\<rparr>])\<rparr>"

definition example_attributor :: "((string, cache_doc) dict, string) attributor" where
  "example_attributor =
     \<lparr>redis = Some memory_redis, node_name = ''n1'', ns_filter = None, cache_ttl = 60,
      list_pods_in = (\<lambda>_ _. Inr []), list_pods_all = (\<lambda>_. Inr [example_pod]), cgroup_dirs = [],
      parse_uuid = (\<lambda>s. case s of [] \<Rightarrow> Inl ValueError | _ # t \<Rightarrow> Inr t), print_uuid = (\<lambda>u. CHR ''u'' # u)\<rparr>"

definition empty_state :: "(string, cache_doc) dict attributor_state" where
  "empty_state = \<lparr>redis_state = [], cgroup_index = [], cgroup_index_expires = 0\<rparr>"

lemma example_facts:
  "cache_laws example_attributor" "get_cached example_attributor empty_state cg cid = None"
  "list_pods example_attributor = Inr [example_pod]"
  by (simp_all add: cache_laws_def example_attributor_def memory_redis_def get_cached_def empty_state_def
      list_pods_def truthy_def)

lemma example_matches:
  "filter (same_container ''abc'') (running_containers [example_pod]) =
     [(example_pod, \<lparr>cs_container_id = Some ''containerd://abc'', cs_running = True, cs_name = ''app'', cs_image_id = None\<rparr>)]"
  by (simp add: running_containers_def example_pod_def truthy_def same_container_def after_last_def)

lemma example_attribute:
  "\<exists>r st'. attribute example_attributor 1 5 (Some ''abc'') True empty_state = (Inr r, st')"
proof -
  have "\<exists>r. match_pods example_attributor 5 ''abc'' = Inr r"
    unfolding match_pods_def example_facts(3) sum.case matches_eq example_matches
    by (simp add: MAX_PODS_PER_CGROUP_def Let_def candidate_of_def example_pod_def example_attributor_def)
  then show ?thesis using attribute_miss [OF _ example_facts(2), of "''abc''" 1 5] by auto
qed

theorem attribute_by_matches_witness:
  "\<exists>r. fst (attribute example_attributor 1 5 (Some ''abc'') True empty_state) = Inr r \<and>
     status r = RESOLVED \<and> pod_name r = Some ''web''"
proof -
  obtain r where r: "fst (attribute example_attributor 1 5 (Some ''abc'') True empty_state) = Inr r"
    using example_attribute by auto
  from attribute_by_matches [OF _ example_facts(2) example_facts(3) example_matches [symmetric] r] r
  show ?thesis by (simp add: example_pod_def)
qed

theorem attribute_repeats_witness:
  "\<exists>r st'. attribute example_attributor 1 5 (Some ''abc'') True empty_state = (Inr r, st') \<and>
     attribute (example_attributor \<lparr>list_pods_in := (\<lambda>_ _. Inl ()), list_pods_all := (\<lambda>_. Inl ()), cgroup_dirs := []\<rparr>)
       9 5 (Some ''abc'') True st' = (Inr r, st')"
proof -
  obtain r st' where r: "attribute example_attributor 1 5 (Some ''abc'') True empty_state = (Inr r, st')"
    using example_attribute by blast
  from attribute_repeats [OF example_facts(1) _ r] r show ?thesis by blast
qed

theorem api_failure_masks_witness:
  "\<exists>st'. attribute (example_attributor \<lparr>list_pods_all := (\<lambda>_. Inl ())\<rparr>) 1 5 (Some ''abc'') True empty_state =
       (Inr (bare_result 5 MISSING), st')"
proof -
  let ?a = "example_attributor \<lparr>list_pods_all := (\<lambda>_. Inl ())\<rparr>"
  have "cache_laws ?a" using example_facts(1) by (simp add: cache_laws_def)
  moreover have "get_cached ?a empty_state 5 (Some ''abc'') = None"
    by (simp add: get_cached_def example_attributor_def memory_redis_def empty_state_def)
  moreover have "list_pods ?a = Inl ()" by (simp add: list_pods_def example_attributor_def truthy_def)
  ultimately show ?thesis
    using api_failure_masks [of ?a "''abc''" empty_state 5 "()" 1 "[]" 2] by auto
qed

end
