(* ===== verification/Sbom_Evidence.thy ===== *)
theory Sbom_Evidence
  imports Prelude
begin

text \<open>
  What a mapping decision starts from, \<open>domain/mapping/evidence.py\<close> of the SBOM service: the kinds of
  evidence, an evidence source with its validation, the identities of process and container, and the
  runtime event record. Also \<open>repr\<close> of a string, which evidence descriptions embed.
\<close>

section \<open>Evidence\<close>

datatype evidence_kind =
    IMAGE_DIGEST
  | CONTAINER_ID
  | WORKLOAD_SBOM
  | EXECUTABLE_PATH
  | EXECUTABLE_HASH
  | PURL_DIRECT
  | FILE_INVENTORY
  | PROCESS_LINEAGE
  | SBOM_DEPENDENCY
  | HEURISTIC_PATH_PREFIX

fun kind_value :: "evidence_kind \<Rightarrow> string" where
  "kind_value IMAGE_DIGEST = ''image_digest''"
| "kind_value CONTAINER_ID = ''container_id''"
| "kind_value WORKLOAD_SBOM = ''workload_sbom''"
| "kind_value EXECUTABLE_PATH = ''executable_path''"
| "kind_value EXECUTABLE_HASH = ''executable_hash''"
| "kind_value PURL_DIRECT = ''purl_direct''"
| "kind_value FILE_INVENTORY = ''file_inventory''"
| "kind_value PROCESS_LINEAGE = ''process_lineage''"
| "kind_value SBOM_DEPENDENCY = ''sbom_dependency''"
| "kind_value HEURISTIC_PATH_PREFIX = ''heuristic_path_prefix''"

record evidence_source =
  ev_kind :: evidence_kind
  ev_value :: string
  ev_description :: string
  confidence_contribution :: real

text \<open>\<open>EvidenceSource(...)\<close> with its \<open>__post_init__\<close>.\<close>

definition new_evidence :: "evidence_kind \<Rightarrow> string \<Rightarrow> string \<Rightarrow> real \<Rightarrow> evidence_source py_result" where
  "new_evidence kind val description confidence =
     (if \<not> (0 \<le> confidence \<and> confidence \<le> 1) then Inl ValueError
      else Inr \<lparr>ev_kind = kind, ev_value = val, ev_description = description,
                confidence_contribution = confidence\<rparr>)"

section \<open>Identities and events\<close>

record process_identity =
  tgid :: int
  pid_start_time_ns :: int
  proc_container_id :: string
  ppid :: "int option"
  executable_path :: "string option"
  executable_hash :: "string option"
  comm :: "string option"
  uid :: "int option"

definition stable_key :: "process_identity \<Rightarrow> string \<times> int \<times> int" where
  "stable_key p = (proc_container_id p, tgid p, pid_start_time_ns p)"

definition INTERPRETERS :: "string list" where
  "INTERPRETERS =
     [''python'', ''python3'', ''python2'', ''java'', ''javac'', ''node'', ''nodejs'', ''ruby'', ''perl'',
      ''php'', ''dotnet'', ''mono'']"

definition is_interpreter :: "process_identity \<Rightarrow> bool" where
  "is_interpreter p \<longleftrightarrow>
     truthy_text (executable_path p) \<and>
     (let basename = lower (last (split_on CHR ''/'' (rstrip CHR ''/'' (the (executable_path p)))))
      in list_ex (starts_with basename) INTERPRETERS)"

record container_identity =
  cont_container_id :: string
  cont_image_digest :: "string option"
  cont_pod_uid :: "string option"
  cont_namespace :: "string option"
  workload_name :: "string option"
  cont_node_name :: "string option"

definition has_image_digest :: "container_identity \<Rightarrow> bool" where
  "has_image_digest c \<longleftrightarrow> truthy_text (cont_image_digest c)"

record 'time runtime_event =
  event_id :: string
  event_type :: string
  event_time :: 'time
  process :: process_identity
  container :: "container_identity option"
  resource_path :: "string option"
  resource_hash :: "string option"
  tenant_id :: string
  run_id :: string

section \<open>\<open>repr\<close> of a string\<close>

definition hex_digit :: "nat \<Rightarrow> char" where
  "hex_digit n = ''0123456789abcdef'' ! n"

definition repr_char :: "char \<Rightarrow> char \<Rightarrow> string" where
  "repr_char quote c =
     (let n = of_char c :: nat in
      if c = quote \<or> n = 92 then [char_of (92 :: nat), c]
      else if n = 10 then [char_of (92 :: nat), CHR ''n'']
      else if n = 13 then [char_of (92 :: nat), CHR ''r'']
      else if n = 9 then [char_of (92 :: nat), CHR ''t'']
      else if n < 32 \<or> 127 \<le> n \<and> n \<le> 160 \<or> n = 173
      then [char_of (92 :: nat), CHR ''x'', hex_digit (n div 16), hex_digit (n mod 16)]
      else [c])"

definition py_repr :: "string \<Rightarrow> string" where
  "py_repr s =
     (let single = char_of (39 :: nat); double = char_of (34 :: nat);
          quote = (if single \<in> set s \<and> double \<notin> set s then double else single)
      in quote # concat (map (repr_char quote) s) @ [quote])"

end
