(* ===== verification/Sbom_Entities.thy ===== *)
theory Sbom_Entities
  imports Prelude "HOL-Library.Char_ord" "HOL-Library.List_Lexorder" "HOL-Library.Multiset"
begin

text \<open>
  The entities of the SBOM service, \<open>domain/entities.py\<close>: digests, package URLs, components, SBOMs with
  their verification status, verification jobs, and the checks on a CycloneDX document. A document is
  the JSON value it denotes. UUIDs are text, a datetime is tagged with whether it carries a time zone,
  and SHA-256 and \<open>str\<close> of a number or container are arguments.

  The lemmas show which entities are accepted, that every update of an SBOM keeps it valid, and that
  its digest does not depend on the order of fields.
\<close>

section \<open>JSON values and datetimes\<close>

datatype json =
    JNull
  | JBool bool
  | JNum real
  | JStr string
  | JArr "json list"
  | JObj "(string \<times> json) list"

definition json_truthy :: "json \<Rightarrow> bool" where
  "json_truthy j =
     (case j of
        JNull \<Rightarrow> False
      | JBool b \<Rightarrow> b
      | JNum r \<Rightarrow> r \<noteq> 0
      | JStr s \<Rightarrow> s \<noteq> []
      | JArr xs \<Rightarrow> xs \<noteq> []
      | JObj fs \<Rightarrow> fs \<noteq> [])"

definition json_field :: "(string \<times> json) list \<Rightarrow> string \<Rightarrow> json \<Rightarrow> json" where
  "json_field fs k d = (case dict_get fs k of None \<Rightarrow> d | Some v \<Rightarrow> v)"

text \<open>\<open>str\<close> of a JSON value; \<open>show\<close> is \<open>str\<close> on numbers and containers.\<close>

definition py_str :: "(json \<Rightarrow> string) \<Rightarrow> json \<Rightarrow> string" where
  "py_str show j =
     (case j of
        JStr s \<Rightarrow> s
      | JNull \<Rightarrow> ''None''
      | JBool b \<Rightarrow> (if b then ''True'' else ''False'')
      | _ \<Rightarrow> show j)"

datatype 'time stamp = Aware 'time | Naive 'time

definition is_aware :: "'time stamp \<Rightarrow> bool" where
  "is_aware t = (case t of Aware _ \<Rightarrow> True | Naive _ \<Rightarrow> False)"

section \<open>Digests\<close>

definition is_hex64 :: "string \<Rightarrow> bool" where
  "is_hex64 s \<longleftrightarrow> length s = 64 \<and> list_all (\<lambda>c. c \<in> set ''0123456789abcdef'') s"

text \<open>\<open>re.match\<close> with the pattern anchored by \<open>$\<close>, which also matches before a final newline.\<close>

definition digest_match :: "string \<Rightarrow> bool" where
  "digest_match v \<longleftrightarrow>
     starts_with v ''sha256:'' \<and>
     (is_hex64 (drop 7 v) \<or>
      length v = 72 \<and> is_hex64 (take 64 (drop 7 v)) \<and> last v = char_of (10 :: nat))"

definition new_image_digest :: "string \<Rightarrow> string py_result" where
  "new_image_digest v = (if \<not> digest_match v then Inl ValueError else Inr v)"

definition new_sbom_digest :: "string \<Rightarrow> string py_result" where
  "new_sbom_digest v = (if \<not> digest_match v then Inl ValueError else Inr v)"

text \<open>\<open>sort_keys=True\<close>: the fields of every object in the order of their keys.\<close>

fun canonical :: "json \<Rightarrow> json" where
  "canonical (JArr xs) = JArr (map canonical xs)"
| "canonical (JObj fs) = JObj (sort_key fst (map (\<lambda>f. (fst f, canonical (snd f))) fs))"
| "canonical JNull = JNull"
| "canonical (JBool b) = JBool b"
| "canonical (JNum r) = JNum r"
| "canonical (JStr s) = JStr s"

text \<open>\<open>SbomDigest.compute\<close>; \<open>sha256_hex\<close> is the hex digest of the text of a canonical document.\<close>

definition compute_digest :: "(json \<Rightarrow> string) \<Rightarrow> (string \<times> json) list \<Rightarrow> string py_result" where
  "compute_digest sha256_hex document = new_sbom_digest (''sha256:'' @ sha256_hex (canonical (JObj document)))"

section \<open>Package URLs and components\<close>

datatype verification_status = VS_PENDING | VS_VERIFIED | VS_FAILED

datatype sbom_source = SYFT | EXTERNAL

datatype binding_status = BIND_RESOLVED | BIND_AMBIGUOUS | BIND_MISSING

text \<open>\<open>Purl(value)\<close>: the value is whatever the document holds; \<open>len\<close> raises on a number or a truth value.\<close>

definition new_purl :: "json \<Rightarrow> json py_result" where
  "new_purl v =
     (if \<not> json_truthy v then Inl ValueError
      else case v of
        JStr s \<Rightarrow> (if length s > 2048 then Inl ValueError else Inr v)
      | JArr xs \<Rightarrow> (if length xs > 2048 then Inl ValueError else Inr v)
      | JObj fs \<Rightarrow> (if length fs > 2048 then Inl ValueError else Inr v)
      | _ \<Rightarrow> Inl TypeError)"

text \<open>\<open>purl_str[:2048]\<close>.\<close>

definition purl_slice :: "json \<Rightarrow> json py_result" where
  "purl_slice v =
     (case v of JStr s \<Rightarrow> Inr (JStr (take 2048 s)) | JArr xs \<Rightarrow> Inr (JArr (take 2048 xs)) | _ \<Rightarrow> Inl TypeError)"

record 'time component =
  component_id :: string
  comp_sbom_id :: string
  comp_purl :: json
  comp_name :: json
  comp_version :: json
  component_type :: json
  comp_binding_status :: binding_status
  binding_confidence :: real
  comp_created_at :: "'time stamp"

text \<open>\<open>Component.__post_init__\<close>.\<close>

definition new_component :: "'time component \<Rightarrow> 'time component py_result" where
  "new_component c =
     (if \<not> json_truthy (comp_name c) then Inl ValueError
      else if \<not> (0 \<le> binding_confidence c \<and> binding_confidence c \<le> 1) then Inl ValueError
      else if \<not> is_aware (comp_created_at c) then Inl ValueError
      else Inr c)"

definition from_cyclonedx_component ::
    "(json \<Rightarrow> string) \<Rightarrow> string \<Rightarrow> 'time \<Rightarrow> (string \<times> json) list \<Rightarrow> string \<Rightarrow> 'time component py_result" where
  "from_cyclonedx_component show cid now raw sid =
     (let (purl_str, binding) =
            (if \<not> json_truthy (json_field raw ''purl'' (JStr []))
             then (JStr (''pkg:generic/'' @ py_str show (json_field raw ''name'' (JStr ''unknown'')) @ ''@unknown''),
                   BIND_MISSING)
             else (json_field raw ''purl'' (JStr []), BIND_AMBIGUOUS))
      in py_bind (purl_slice purl_str) (\<lambda>cut.
         py_bind (new_purl cut) (\<lambda>purl.
           new_component
             \<lparr>component_id = cid, comp_sbom_id = sid, comp_purl = purl,
              comp_name = json_field raw ''name'' (JStr []),
              comp_version = json_field raw ''version'' (JStr []),
              component_type = json_field raw ''type'' (JStr ''library''),
              comp_binding_status = binding, binding_confidence = 0, comp_created_at = Aware now\<rparr>)))"

section \<open>SBOMs\<close>

record 'time sbom =
  sb_sbom_id :: string
  sb_tenant_id :: string
  sb_image_digest :: string
  sb_sbom_digest :: string
  cyclonedx_document :: "(string \<times> json) list"
  spec_version :: string
  sb_source :: sbom_source
  artifact_uri :: string
  signature_bundle_uri :: "string option"
  verification_status :: verification_status
  generated_at :: "'time stamp"
  sb_created_at :: "'time stamp"
  purl_count :: int
  signing_identity :: "json option"
  sb_issuer :: "json option"
  rekor_entry_uuid :: "string option"
  verification_error :: "string option"
  verified_at :: "'time stamp option"
  image_reference :: "string option"

text \<open>
  The pattern of an immutable reference: authority with an optional port, a path, and the digest. The
  authority cannot hold a slash and the path no at sign, so the parts are found by their first separator.
\<close>

definition is_alnum :: "char \<Rightarrow> bool" where
  "is_alnum c \<longleftrightarrow>
     c \<in> set ''ABCDEFGHIJKLMNOPQRSTUVWXYZabcdefghijklmnopqrstuvwxyz0123456789''"

definition authority_match :: "string \<Rightarrow> bool" where
  "authority_match a \<longleftrightarrow>
     (let host = takeWhile (\<lambda>c. c \<noteq> CHR '':'') a;
          port = drop (length host) a
      in host \<noteq> [] \<and> list_all (\<lambda>c. is_alnum c \<or> c \<in> set ''.-'') host \<and>
         (port = [] \<or> tl port \<noteq> [] \<and> list_all (\<lambda>c. c \<in> set ''0123456789'') (tl port)))"

definition reference_match :: "string \<Rightarrow> bool" where
  "reference_match s \<longleftrightarrow>
     (let authority = takeWhile (\<lambda>c. c \<noteq> CHR ''/'') s;
          rest = drop (length authority) s;
          path = takeWhile (\<lambda>c. c \<noteq> CHR ''@'') (tl rest);
          digest = drop (length path) (tl rest)
      in rest \<noteq> [] \<and> authority_match authority \<and> path \<noteq> [] \<and>
         list_all (\<lambda>c. is_alnum c \<or> c \<in> set ''._/-'') path \<and>
         starts_with digest ''@sha256:'' \<and> is_hex64 (drop 8 digest))"

definition ends_with :: "string \<Rightarrow> string \<Rightarrow> bool" where
  "ends_with s p \<longleftrightarrow> starts_with (rev s) (rev p)"

text \<open>\<open>Sbom.__post_init__\<close>.\<close>

definition new_sbom :: "'time sbom \<Rightarrow> 'time sbom py_result" where
  "new_sbom s =
     (if spec_version s = [] then Inl ValueError
      else if (case image_reference s of
                 None \<Rightarrow> False
               | Some ref \<Rightarrow> \<not> reference_match ref \<or> \<not> ends_with ref (CHR ''@'' # sb_image_digest s))
      then Inl ValueError
      else if purl_count s < 0 then Inl ValueError
      else if sb_source s = EXTERNAL \<and> \<not> truthy_text (signature_bundle_uri s) then Inl ValueError
      else if \<not> is_aware (sb_created_at s) then Inl ValueError
      else if \<not> is_aware (generated_at s) then Inl ValueError
      else if (case verified_at s of None \<Rightarrow> False | Some t \<Rightarrow> \<not> is_aware t) then Inl ValueError
      else Inr s)"

definition component_count :: "'time sbom \<Rightarrow> nat" where
  "component_count s =
     (case json_field (cyclonedx_document s) ''components'' (JArr []) of JArr xs \<Rightarrow> length xs | _ \<Rightarrow> 0)"

text \<open>\<open>dataclasses.replace\<close> runs the checks of the constructor again.\<close>

definition mark_verified ::
    "json option \<Rightarrow> json option \<Rightarrow> 'time stamp \<Rightarrow> string option \<Rightarrow> 'time sbom \<Rightarrow> 'time sbom py_result" where
  "mark_verified identity issuer moment rekor s =
     (if \<not> is_aware moment then Inl ValueError
      else new_sbom
        (s\<lparr>verification_status := VS_VERIFIED, signing_identity := identity, sb_issuer := issuer,
           verified_at := Some moment, rekor_entry_uuid := rekor, verification_error := None\<rparr>))"

definition mark_verification_failed :: "string \<Rightarrow> 'time sbom \<Rightarrow> 'time sbom py_result" where
  "mark_verification_failed reason s =
     new_sbom
       (s\<lparr>verification_status := VS_FAILED, verification_error := Some reason, signing_identity := None,
          sb_issuer := None, verified_at := None\<rparr>)"

section \<open>Verification jobs\<close>

datatype job_status = JOB_QUEUED | JOB_RUNNING | JOB_VERIFIED | JOB_FAILED

fun job_status_value :: "job_status \<Rightarrow> string" where
  "job_status_value JOB_QUEUED = ''queued''"
| "job_status_value JOB_RUNNING = ''running''"
| "job_status_value JOB_VERIFIED = ''verified''"
| "job_status_value JOB_FAILED = ''failed''"

record 'time verification_job =
  verification_job_id :: string
  job_sbom_id :: string
  job_tenant_id :: string
  expected_identity :: string
  expected_issuer :: string
  rekor_required :: bool
  job_status :: job_status
  submitted_at :: "'time stamp"
  completed_at :: "'time stamp option"
  job_signing_identity :: "json option"
  job_issuer :: "json option"
  job_rekor_entry_uuid :: "string option"
  failure_reason :: "string option"

text \<open>\<open>VerificationJob.__post_init__\<close>.\<close>

definition new_job :: "'time verification_job \<Rightarrow> 'time verification_job py_result" where
  "new_job j =
     (if expected_identity j = [] \<or> length (expected_identity j) > 512 then Inl ValueError
      else if expected_issuer j = [] then Inl ValueError
      else if \<not> is_aware (submitted_at j) then Inl ValueError
      else Inr j)"

section \<open>Documents\<close>

definition validate_cyclonedx_document :: "(string \<times> json) list \<Rightarrow> unit py_result" where
  "validate_cyclonedx_document document =
     (if document = [] then Inl ValueError
      else case dict_get document ''bomFormat'' of
        None \<Rightarrow> Inl ValueError
      | Some JNull \<Rightarrow> Inl ValueError
      | Some bom_format \<Rightarrow> (if bom_format \<noteq> JStr ''CycloneDX'' then Inl ValueError else Inr ()))"

definition extract_spec_version :: "(json \<Rightarrow> string) \<Rightarrow> (string \<times> json) list \<Rightarrow> string" where
  "extract_spec_version show document = py_str show (json_field document ''specVersion'' (JStr ''unknown''))"

definition count_purls_in_document :: "(string \<times> json) list \<Rightarrow> nat" where
  "count_purls_in_document document =
     (case json_field document ''components'' (JArr []) of
        JArr xs \<Rightarrow>
          length (filter (\<lambda>c. case c of JObj fs \<Rightarrow> json_truthy (json_field fs ''purl'' JNull) | _ \<Rightarrow> False) xs)
      | _ \<Rightarrow> 0)"

section \<open>Which values are accepted\<close>

text \<open>
  An image digest is \<open>sha256:\<close> and 64 hexadecimal digits, or the same followed by one newline: the
  pattern is anchored by \<open>$\<close> and applied with \<open>re.match\<close>.
\<close>

theorem image_digest_exactly:
  "new_image_digest v = Inr w \<longleftrightarrow>
     w = v \<and> (\<exists>h. is_hex64 h \<and> (v = ''sha256:'' @ h \<or> v = ''sha256:'' @ h @ [char_of (10 :: nat)]))"
proof -
  have "digest_match v \<longleftrightarrow> (\<exists>h. is_hex64 h \<and> (v = ''sha256:'' @ h \<or> v = ''sha256:'' @ h @ [char_of (10 :: nat)]))"
  proof
    assume m: "digest_match v"
    then obtain r where v: "v = ''sha256:'' @ r" by (auto simp: digest_match_def starts_with_iff)
    from m consider "is_hex64 r" | "length r = 65" "is_hex64 (take 64 r)" "last v = char_of (10 :: nat)"
      by (auto simp: digest_match_def v)
    then show "\<exists>h. is_hex64 h \<and> (v = ''sha256:'' @ h \<or> v = ''sha256:'' @ h @ [char_of (10 :: nat)])"
    proof cases
      case 1
      then show ?thesis using v by blast
    next
      case 2
      from 2(1) obtain h c where r: "r = h @ [c]" by (cases r rule: rev_cases) auto
      then have "length h = 64" using 2(1) by simp
      then have "is_hex64 h" "c = char_of (10 :: nat)" using 2(2, 3) by (simp_all add: r v)
      then show ?thesis using v r by blast
    qed
  next
    assume "\<exists>h. is_hex64 h \<and> (v = ''sha256:'' @ h \<or> v = ''sha256:'' @ h @ [char_of (10 :: nat)])"
    then show "digest_match v"
      by (auto simp: digest_match_def starts_with_def is_hex64_def)
  qed
  then show ?thesis by (auto simp: new_image_digest_def)
qed

section \<open>The digest of a document\<close>

lemma canonical_perm:
  assumes "mset fs = mset gs" "distinct (map fst fs)"
  shows "canonical (JObj fs) = canonical (JObj gs)"
proof -
  let ?c = "map (\<lambda>f. (fst f, canonical (snd f)))"
  have "map fst (?c fs) = map fst fs" by simp
  then have inj: "inj_on fst (set (?c fs))" using assms(2) by (metis distinct_map)
  have "sort_key fst (?c fs) = sort_key fst (?c gs)"
    using assms(1) by (intro sort_key_inj_key_eq inj sorted_sort_key) (simp add: mset_map [symmetric] del: mset_map, simp)
  then show ?thesis by simp
qed

text \<open>
  The digest of a document does not depend on the order of its fields.\<close>

theorem digest_field_order:
  assumes "mset fs = mset gs" "distinct (map fst fs)"
  shows "compute_digest sha256_hex fs = compute_digest sha256_hex gs"
  by (simp only: compute_digest_def canonical_perm [OF assms])

section \<open>Updates of an SBOM\<close>

definition sbom_valid :: "'time sbom \<Rightarrow> bool" where
  "sbom_valid s \<longleftrightarrow> new_sbom s = Inr s"

lemma sbom_valid_iff:
  "sbom_valid s \<longleftrightarrow>
     spec_version s \<noteq> [] \<and>
     (\<forall>ref. image_reference s = Some ref \<longrightarrow> reference_match ref \<and> ends_with ref (CHR ''@'' # sb_image_digest s)) \<and>
     0 \<le> purl_count s \<and> (sb_source s = EXTERNAL \<longrightarrow> truthy_text (signature_bundle_uri s)) \<and>
     is_aware (sb_created_at s) \<and> is_aware (generated_at s) \<and> (\<forall>t. verified_at s = Some t \<longrightarrow> is_aware t)"
  by (auto simp: sbom_valid_def new_sbom_def split: option.split)

lemma new_sbom_Inr: "new_sbom s = Inr t \<longleftrightarrow> t = s \<and> sbom_valid s"
  by (auto simp: sbom_valid_def new_sbom_def split: if_split_asm)

lemma mark_verified_aware:
  assumes "sbom_valid s"
  shows "mark_verified identity issuer (Aware t) rekor s =
    Inr (s\<lparr>verification_status := VS_VERIFIED, signing_identity := identity, sb_issuer := issuer,
           verified_at := Some (Aware t), rekor_entry_uuid := rekor, verification_error := None\<rparr>)"
  using assms by (simp add: mark_verified_def new_sbom_Inr sbom_valid_iff) (simp add: is_aware_def)

lemma mark_failed_Inr:
  assumes "sbom_valid s"
  shows "mark_verification_failed reason s =
    Inr (s\<lparr>verification_status := VS_FAILED, verification_error := Some reason, signing_identity := None,
           sb_issuer := None, verified_at := None\<rparr>)"
  using assms by (simp add: mark_verification_failed_def new_sbom_Inr sbom_valid_iff)

end
