(* ===== verification/Sbom_Resolver.thy ===== *)
theory Sbom_Resolver
  imports Sbom_Evidence Sbom_Entities
begin

text \<open>
  From a runtime event to an SBOM component, \<open>domain/mapping/resolver.py\<close>: the lookup index built from
  an SBOM, the tiers of evidence, the decision, and the payload for the causal engine. UUIDs are
  text, and the fresh UUID and the clock are arguments.

  What the mapper needs of an index is stated as a locale and proved of every index that
  \<open>SbomIndex.build\<close> returns. The lemmas show what the index contains, when a mapping is verified, that
  no PURL is ever made up, and what is handed to the causal engine.
\<close>

section \<open>Results\<close>

definition RESOLVER_VERSION :: string where
  "RESOLVER_VERSION = ''v1''"

definition UNRESOLVED_PURL :: string where
  "UNRESOLVED_PURL = ''UNRESOLVED''"

datatype mapping_status = VERIFIED | INFERRED | AMBIGUOUS | UNRESOLVED | INVALID

record 'time mapping_result =
  mapping_id :: string
  res_event_id :: string
  res_run_id :: string
  mapped_at :: 'time
  res_process :: process_identity
  res_container :: "container_identity option"
  image_digest :: "string option"
  sbom_id :: "string option"
  candidate_purls :: "string list"
  selected_purl :: string
  status :: mapping_status
  evidence :: "evidence_source list"
  mapping_method :: string
  ambiguity_reason :: string
  unresolved_reason :: string
  invalid_reason :: string
  resolver_version :: string

definition is_resolved :: "'time mapping_result \<Rightarrow> bool" where
  "is_resolved r \<longleftrightarrow> status r \<in> {VERIFIED, INFERRED}"

definition binding_status_of :: "'time mapping_result \<Rightarrow> binding_status" where
  "binding_status_of r =
     (if status r \<in> {VERIFIED, INFERRED} then BIND_RESOLVED
      else if status r = AMBIGUOUS then BIND_AMBIGUOUS
      else BIND_MISSING)"

text \<open>The payload of \<open>to_causal_binding_payload\<close>; the evidence entries keep their fields.\<close>

record causal_payload =
  pl_binding_status :: string
  pl_image_digest :: string
  pl_sbom_id :: "string option"
  pl_purl :: "string option"
  pl_confidence :: "real option"
  pl_resolver_version :: string
  pl_method :: string
  pl_reason :: "string option"
  pl_candidate_purls :: "string list"
  pl_evidence :: "(string \<times> string \<times> string \<times> real) list"

definition first_text :: "string list \<Rightarrow> string option \<Rightarrow> string option" where
  "first_text xs d = (case filter (\<lambda>s. s \<noteq> []) xs of [] \<Rightarrow> d | s # _ \<Rightarrow> Some s)"

definition to_causal_binding_payload :: "'time mapping_result \<Rightarrow> causal_payload py_result" where
  "to_causal_binding_payload r =
     (if \<not> truthy_text (image_digest r) then Inl ValueError
      else if status r = VERIFIED \<and> (\<not> truthy_text (sbom_id r) \<or> selected_purl r = [] \<or> evidence r = [])
      then Inl ValueError
      else
        (let (st, purl) =
               (if status r = VERIFIED then (''bound'', Some (selected_purl r))
                else if status r = INFERRED then (''insufficient_evidence'', None)
                else if status r = AMBIGUOUS then (''ambiguous'', None)
                else if sbom_id r = None then (''unbound'', None)
                else (''insufficient_evidence'', None))
         in Inr \<lparr>pl_binding_status = st,
                 pl_image_digest = the (image_digest r),
                 pl_sbom_id = (if truthy_text (sbom_id r) then sbom_id r else None),
                 pl_purl = purl,
                 pl_confidence =
                   (if st = ''bound'' then Some (Max (set (map confidence_contribution (evidence r)))) else None),
                 pl_resolver_version = resolver_version r,
                 pl_method = mapping_method r,
                 pl_reason = first_text [ambiguity_reason r, unresolved_reason r, invalid_reason r]
                   (if status r = INFERRED
                    then Some ''mapping relies on inferred path evidence, not a verified component identity''
                    else None),
                 pl_candidate_purls = (if st = ''ambiguous'' then candidate_purls r else []),
                 pl_evidence = map (\<lambda>e. (kind_value (ev_kind e), ev_value e, ev_description e,
                   confidence_contribution e)) (evidence r)\<rparr>))"

section \<open>The index\<close>

record sbom_index =
  ix_sbom_id :: string
  ix_image_digest :: string
  purls :: "string list"
  path_to_purls :: "(string, string set) dict"
  prefix_to_purls :: "(string, string set) dict"
  hash_to_purls :: "(string, string set) dict"

text \<open>\<open>d.setdefault(k, set()).add(v)\<close> and \<open>d.get(k, set())\<close>.\<close>

definition set_at :: "(string, string set) dict \<Rightarrow> string \<Rightarrow> string set" where
  "set_at d k = (case dict_get d k of None \<Rightarrow> {} | Some s \<Rightarrow> s)"

definition add_at :: "string \<Rightarrow> string \<Rightarrow> (string, string set) dict \<Rightarrow> (string, string set) dict" where
  "add_at k v d = dict_set d k (insert v (set_at d k))"

definition path_parts :: "string \<Rightarrow> string list" where
  "path_parts path = split_on CHR ''/'' (rstrip CHR ''/'' path)"

text \<open>The prefixes of depth 5 to 7 of one inventory path.\<close>

definition path_prefixes :: "string \<Rightarrow> string list" where
  "path_prefixes fpath =
     (let parts = path_parts fpath
      in map (\<lambda>depth. join_with CHR ''/'' (take depth parts)) [5..<min (length parts + 1) 8])"

definition inventory_of :: "(string, string list) dict option \<Rightarrow> string \<Rightarrow> string list" where
  "inventory_of inventory purl =
     (case inventory of
        None \<Rightarrow> []
      | Some files \<Rightarrow> (case dict_get files purl of None \<Rightarrow> [] | Some paths \<Rightarrow> paths))"

text \<open>One entry of \<open>hashes\<close>: its key in the index, if it is a SHA-256. The text of an \<open>alg\<close> that is
  not a string is never \<open>sha256\<close>.\<close>

definition hash_key :: "json \<Rightarrow> string option" where
  "hash_key entry =
     (case entry of
        JObj fs \<Rightarrow>
          (case (dict_get fs ''alg'', dict_get fs ''content'') of
             (Some (JStr alg), Some (JStr content)) \<Rightarrow>
               (if lower (filter (\<lambda>c. c \<noteq> CHR ''-'') alg) = ''sha256'' \<and> length content = 64 \<and>
                   list_all (\<lambda>c. c \<in> set ''0123456789abcdef'') (lower content)
                then Some (''sha256:'' @ lower content) else None)
           | _ \<Rightarrow> None)
      | _ \<Rightarrow> None)"

definition item_hashes :: "string list \<Rightarrow> json \<Rightarrow> (string \<times> string) list" where
  "item_hashes known item =
     (case item of
        JObj fs \<Rightarrow>
          (case dict_get fs ''purl'' of
             Some (JStr purl) \<Rightarrow>
               (if purl \<notin> set known then []
                else (case dict_get fs ''hashes'' of
                        Some (JArr hs) \<Rightarrow> map (\<lambda>k. (k, purl)) (List.map_filter hash_key hs)
                      | _ \<Rightarrow> []))
           | _ \<Rightarrow> [])
      | _ \<Rightarrow> [])"

definition document_hashes :: "string list \<Rightarrow> (string \<times> json) list \<Rightarrow> (string \<times> string) list" where
  "document_hashes known doc =
     (case dict_get doc ''components'' of
        Some (JArr items) \<Rightarrow> concat (map (item_hashes known) items)
      | _ \<Rightarrow> [])"

definition build :: "'time sbom \<Rightarrow> string list \<Rightarrow> (string, string list) dict option \<Rightarrow> sbom_index" where
  "build sb components file_inventory =
     \<lparr>ix_sbom_id = sb_sbom_id sb,
      ix_image_digest = sb_image_digest sb,
      purls = components,
      path_to_purls =
        fold (\<lambda>purl d. fold (\<lambda>fpath d. add_at fpath purl d) (inventory_of file_inventory purl) d) components [],
      prefix_to_purls =
        fold (\<lambda>purl d. fold (\<lambda>fpath d. fold (\<lambda>prefix d. add_at prefix purl d) (path_prefixes fpath) d)
          (inventory_of file_inventory purl) d) components [],
      hash_to_purls =
        fold (\<lambda>(key, purl) d. add_at key purl d)
          (document_hashes components (cyclonedx_document sb)) []\<rparr>"

section \<open>The mapper\<close>

definition mk_evidence :: "evidence_kind \<Rightarrow> string \<Rightarrow> string \<Rightarrow> real \<Rightarrow> evidence_source" where
  "mk_evidence kind val description confidence =
     \<lparr>ev_kind = kind, ev_value = val, ev_description = description, confidence_contribution = confidence\<rparr>"

definition invalid_result :: "string \<Rightarrow> 'time \<Rightarrow> 'time runtime_event \<Rightarrow> string \<Rightarrow> 'time mapping_result" where
  "invalid_result mid now event reason =
     \<lparr>mapping_id = mid, res_event_id = event_id event, res_run_id = run_id event, mapped_at = now,
      res_process = process event, res_container = container event, image_digest = None, sbom_id = None,
      candidate_purls = [], selected_purl = UNRESOLVED_PURL, status = INVALID, evidence = [],
      mapping_method = ''validation_failed'', ambiguity_reason = [], unresolved_reason = [],
      invalid_reason = reason, resolver_version = RESOLVER_VERSION\<rparr>"

definition unresolved_result ::
    "string \<Rightarrow> 'time \<Rightarrow> 'time runtime_event \<Rightarrow> string option \<Rightarrow> string option \<Rightarrow> string \<Rightarrow>
     evidence_source list \<Rightarrow> 'time mapping_result" where
  "unresolved_result mid now event digest sid reason evs =
     \<lparr>mapping_id = mid, res_event_id = event_id event, res_run_id = run_id event, mapped_at = now,
      res_process = process event, res_container = container event, image_digest = digest, sbom_id = sid,
      candidate_purls = [], selected_purl = UNRESOLVED_PURL, status = UNRESOLVED, evidence = evs,
      mapping_method = ''unresolved'', ambiguity_reason = [], unresolved_reason = reason,
      invalid_reason = [], resolver_version = RESOLVER_VERSION\<rparr>"

definition ambiguous_result ::
    "string \<Rightarrow> 'time \<Rightarrow> 'time runtime_event \<Rightarrow> string \<Rightarrow> string \<Rightarrow> string list \<Rightarrow> evidence_source list \<Rightarrow>
     string \<Rightarrow> 'time mapping_result" where
  "ambiguous_result mid now event digest sid cands evs reason =
     \<lparr>mapping_id = mid, res_event_id = event_id event, res_run_id = run_id event, mapped_at = now,
      res_process = process event, res_container = container event, image_digest = Some digest,
      sbom_id = Some sid, candidate_purls = cands, selected_purl = UNRESOLVED_PURL, status = AMBIGUOUS,
      evidence = evs, mapping_method = ''ambiguous_candidates'', ambiguity_reason = reason,
      unresolved_reason = [], invalid_reason = [], resolver_version = RESOLVER_VERSION\<rparr>"

text \<open>A tier: its candidates and the evidence it records, if any.\<close>

type_synonym tier = "string list \<times> evidence_source list"

definition sorted_purls :: "string set \<Rightarrow> string list" where
  "sorted_purls s = sorted_list_of_set s"

definition normalized_hash :: "string \<Rightarrow> string" where
  "normalized_hash h = (let l = lower h in if starts_with l ''sha256:'' then l else ''sha256:'' @ l)"

definition hash_tier :: "sbom_index \<Rightarrow> process_identity \<Rightarrow> tier" where
  "hash_tier idx p =
     (if \<not> truthy_text (executable_hash p) then ([], [])
      else
        (let key = normalized_hash (the (executable_hash p));
             cands = sorted_purls (set_at (hash_to_purls idx) key)
         in (cands,
             if cands \<noteq> []
             then [mk_evidence EXECUTABLE_HASH key
                     ''Runtime executable SHA-256 exactly matches an explicit CycloneDX component hash.'' 1]
             else [])))"

definition path_tier :: "sbom_index \<Rightarrow> process_identity \<Rightarrow> tier" where
  "path_tier idx p =
     (if \<not> truthy_text (executable_path p) then ([], [])
      else
        (let exec_path = the (executable_path p) in
         if is_interpreter p then
           ([], [mk_evidence EXECUTABLE_PATH exec_path
                   (''Executable '' @ py_repr exec_path @
                    '' is a known interpreter; it cannot identify the specific language package responsible for this event.'')
                   0])
         else
           (let cands = sorted_purls (set_at (path_to_purls idx) exec_path) in
            (cands,
             if cands \<noteq> []
             then [mk_evidence EXECUTABLE_PATH exec_path
                     (''Executable path '' @ py_repr exec_path @ '' found in SBOM file inventory for '' @
                      show_nat (length cands) @ '' component(s).'') (7 / 10)]
             else []))))"

definition resource_is_interpreter_binary :: "'time runtime_event \<Rightarrow> bool" where
  "resource_is_interpreter_binary event \<longleftrightarrow>
     is_interpreter (process event) \<and> resource_path event \<noteq> None \<and>
     resource_path event = executable_path (process event)"

definition file_tier :: "sbom_index \<Rightarrow> 'time runtime_event \<Rightarrow> string list \<Rightarrow> tier" where
  "file_tier idx event path_candidates =
     (if truthy_text (resource_path event) \<and> path_to_purls idx \<noteq> [] \<and> path_candidates = [] \<and>
         \<not> resource_is_interpreter_binary event
      then
        (let path = the (resource_path event);
             cands = sorted_purls (set_at (path_to_purls idx) path)
         in (cands,
             if cands \<noteq> []
             then [mk_evidence FILE_INVENTORY path
                     (''Accessed path '' @ py_repr path @ '' found in SBOM file inventory for '' @
                      show_nat (length cands) @ '' component(s).'') (1 / 2)]
             else []))
      else ([], []))"

text \<open>The descending loop over the depths, with its \<open>break\<close>.\<close>

fun prefix_search :: "sbom_index \<Rightarrow> string list \<Rightarrow> nat list \<Rightarrow> tier" where
  "prefix_search idx parts [] = ([], [])"
| "prefix_search idx parts (depth # depths) =
     (let prefix = join_with CHR ''/'' (take depth parts);
          cands = sorted_purls (set_at (prefix_to_purls idx) prefix)
      in if cands \<noteq> []
         then (cands,
               [mk_evidence HEURISTIC_PATH_PREFIX prefix
                  (''Path prefix '' @ py_repr prefix @ '' heuristically matches '' @ show_nat (length cands) @
                   '' component(s). This is the weakest evidence tier; treat with caution.'') (1 / 5)])
         else prefix_search idx parts depths)"

definition prefix_tier ::
    "sbom_index \<Rightarrow> 'time runtime_event \<Rightarrow> string list \<Rightarrow> string list \<Rightarrow> tier" where
  "prefix_tier idx event path_candidates file_candidates =
     (if path_candidates = [] \<and> file_candidates = [] \<and> truthy_text (resource_path event) \<and>
         \<not> resource_is_interpreter_binary event
      then
        (let parts = path_parts (the (resource_path event))
         in prefix_search idx parts (rev [5..<Suc (min (length parts) 7)]))
      else ([], []))"

definition or_list :: "'a list \<Rightarrow> 'a list \<Rightarrow> 'a list" where
  "or_list xs ys = (if xs \<noteq> [] then xs else ys)"

text \<open>Steps 2 to 7: the tiers in order, the candidates by priority and all the evidence.\<close>

definition collect :: "sbom_index \<Rightarrow> string \<Rightarrow> 'time runtime_event \<Rightarrow> tier" where
  "collect idx digest event =
     (let (hash_candidates, hash_evidence) = hash_tier idx (process event);
          (path_candidates, path_evidence) = path_tier idx (process event);
          (file_candidates, file_evidence) = file_tier idx event path_candidates;
          (prefix_candidates, prefix_evidence) = prefix_tier idx event path_candidates file_candidates
      in (or_list hash_candidates (or_list path_candidates (or_list file_candidates prefix_candidates)),
          hash_evidence @ path_evidence @ file_evidence @ prefix_evidence @
          [mk_evidence IMAGE_DIGEST digest
             (''Image digest '' @ take 20 digest @
              ''... identifies the image but does NOT identify which package caused this specific event.'')
             (1 / 10)]))"

text \<open>Step 8: the decision.\<close>

definition decide_mapping ::
    "string \<Rightarrow> 'time \<Rightarrow> sbom_index \<Rightarrow> string \<Rightarrow> 'time runtime_event \<Rightarrow> tier \<Rightarrow> 'time mapping_result" where
  "decide_mapping mid now idx digest event collected =
     (let (final_candidates, all_evidence) = collected
      in if final_candidates = [] then
           unresolved_result mid now event (Some digest) (Some (ix_sbom_id idx))
             ''No SBOM component matched the event's executable path, resource path, or path prefix. The event belongs to this image but cannot be attributed to a specific package.''
             all_evidence
         else if length final_candidates > 1 then
           ambiguous_result mid now event digest (ix_sbom_id idx) final_candidates all_evidence
             (show_nat (length final_candidates) @
              '' components are consistent with this event's evidence. Available evidence cannot distinguish them.'')
         else
           (let purl = hd final_candidates;
                strongest = hd all_evidence;
                verified = ev_kind strongest \<in> {EXECUTABLE_HASH, PURL_DIRECT}
            in \<lparr>mapping_id = mid, res_event_id = event_id event, res_run_id = run_id event,
                mapped_at = now, res_process = process event, res_container = container event,
                image_digest = Some digest, sbom_id = Some (ix_sbom_id idx),
                candidate_purls = final_candidates, selected_purl = purl,
                status = (if verified then VERIFIED else INFERRED),
                evidence = all_evidence,
                mapping_method =
                  (if verified then ''Exact '' @ kind_value (ev_kind strongest) @ '' match''
                   else kind_value (ev_kind strongest) @ '' match (inferred; not hash-verified)''),
                ambiguity_reason = [], unresolved_reason = [], invalid_reason = [],
                resolver_version = RESOLVER_VERSION\<rparr>))"

definition event_digest :: "'time runtime_event \<Rightarrow> string option" where
  "event_digest event =
     (case container event of
        None \<Rightarrow> None
      | Some c \<Rightarrow> (if truthy_text (cont_image_digest c) then cont_image_digest c else None))"

definition map_event ::
    "string \<Rightarrow> 'time \<Rightarrow> (string, sbom_index) dict \<Rightarrow> 'time runtime_event \<Rightarrow> 'time mapping_result" where
  "map_event mid now index event =
     (if proc_container_id (process event) = [] then
        invalid_result mid now event ''Process container_id is empty; cannot resolve image''
      else
        (case event_digest event of
           None \<Rightarrow>
             unresolved_result mid now event None None
               ''No image_digest available for this container; SBOM lookup is not possible without a digest'' []
         | Some digest \<Rightarrow>
             (case dict_get index digest of
                None \<Rightarrow>
                  unresolved_result mid now event (Some digest) None
                    (''No SBOM indexed for image_digest='' @ digest) []
              | Some idx \<Rightarrow> decide_mapping mid now idx digest event (collect idx digest event))))"

section \<open>What the index contains\<close>

text \<open>
  The lookups of an index as a mapper uses them: every answer is a finite set of PURLs of the SBOM.
\<close>

locale component_lookup =
  fixes wf :: "'i \<Rightarrow> bool"
    and known :: "'i \<Rightarrow> string set"
    and by_hash by_path by_prefix :: "'i \<Rightarrow> string \<Rightarrow> string set"
  assumes known_finite: "wf i \<Longrightarrow> finite (known i)"
    and by_hash_known: "wf i \<Longrightarrow> by_hash i k \<subseteq> known i"
    and by_path_known: "wf i \<Longrightarrow> by_path i k \<subseteq> known i"
    and by_prefix_known: "wf i \<Longrightarrow> by_prefix i k \<subseteq> known i"
begin

lemma lookup_finite: "wf i \<Longrightarrow> finite (by_hash i k)" "wf i \<Longrightarrow> finite (by_path i k)" "wf i \<Longrightarrow> finite (by_prefix i k)"
  using known_finite by_hash_known by_path_known by_prefix_known by (meson finite_subset)+

lemma set_sorted_lookup:
  "wf i \<Longrightarrow> set (sorted_list_of_set (by_hash i k)) = by_hash i k"
  "wf i \<Longrightarrow> set (sorted_list_of_set (by_path i k)) = by_path i k"
  "wf i \<Longrightarrow> set (sorted_list_of_set (by_prefix i k)) = by_prefix i k"
  using lookup_finite by simp_all

lemma sorted_lookup_known:
  "wf i \<Longrightarrow> set (sorted_list_of_set (by_hash i k)) \<subseteq> known i"
  "wf i \<Longrightarrow> set (sorted_list_of_set (by_path i k)) \<subseteq> known i"
  "wf i \<Longrightarrow> set (sorted_list_of_set (by_prefix i k)) \<subseteq> known i"
  using set_sorted_lookup by_hash_known by_path_known by_prefix_known by simp_all

end

definition index_wf :: "sbom_index \<Rightarrow> bool" where
  "index_wf idx \<longleftrightarrow>
     (\<forall>k. set_at (hash_to_purls idx) k \<subseteq> set (purls idx)) \<and>
     (\<forall>k. set_at (path_to_purls idx) k \<subseteq> set (purls idx)) \<and>
     (\<forall>k. set_at (prefix_to_purls idx) k \<subseteq> set (purls idx))"

interpretation lookups: component_lookup index_wf "\<lambda>idx. set (purls idx)"
    "\<lambda>idx. set_at (hash_to_purls idx)" "\<lambda>idx. set_at (path_to_purls idx)" "\<lambda>idx. set_at (prefix_to_purls idx)"
  by unfold_locales (simp_all add: index_wf_def)

lemma set_at_Nil [simp]: "set_at [] k = {}"
  by (simp add: set_at_def)

lemma set_at_add: "set_at (add_at k v d) j = (if j = k then insert v (set_at d j) else set_at d j)"
  by (simp add: set_at_def add_at_def)

text \<open>The nested loops of \<open>build\<close> as one loop over (key, PURL) pairs.\<close>

definition add_pairs :: "(string \<times> string) list \<Rightarrow> (string, string set) dict \<Rightarrow> (string, string set) dict" where
  "add_pairs ps d = fold (\<lambda>(k, v) d. add_at k v d) ps d"

lemma add_pairs_append: "add_pairs (ps @ qs) d = add_pairs qs (add_pairs ps d)"
  by (simp add: add_pairs_def)

lemma set_at_add_pairs: "set_at (add_pairs ps d) k = set_at d k \<union> {v. (k, v) \<in> set ps}"
proof (induction ps arbitrary: d)
  case (Cons p ps)
  obtain j v where p: "p = (j, v)" by (cases p)
  have step: "add_pairs (p # ps) d = add_pairs ps (add_at j v d)" by (simp add: add_pairs_def p)
  show ?case unfolding step Cons.IH by (auto simp: set_at_add p)
qed (simp add: add_pairs_def)

lemma fold_add_pairs: "fold (\<lambda>x d. add_pairs (f x) d) xs d = add_pairs (concat (map f xs)) d"
  by (induction xs arbitrary: d) (simp_all add: add_pairs_append add_pairs_def [of "[]"])

lemma fold_add_at: "fold (\<lambda>k d. add_at k v d) ks d = add_pairs (map (\<lambda>k. (k, v)) ks) d"
  by (simp add: add_pairs_def fold_map comp_def)

lemma build_indices:
  "path_to_purls (build sb cs files) =
     add_pairs (concat (map (\<lambda>p. map (\<lambda>f. (f, p)) (inventory_of files p)) cs)) []"
  "prefix_to_purls (build sb cs files) =
     add_pairs (concat (map (\<lambda>p. concat (map (\<lambda>f. map (\<lambda>x. (x, p)) (path_prefixes f)) (inventory_of files p))) cs)) []"
  "hash_to_purls (build sb cs files) = add_pairs (document_hashes cs (cyclonedx_document sb)) []"
proof -
  show "path_to_purls (build sb cs files) =
      add_pairs (concat (map (\<lambda>p. map (\<lambda>f. (f, p)) (inventory_of files p)) cs)) []"
    by (simp add: build_def fold_add_at fold_add_pairs)
  show "prefix_to_purls (build sb cs files) =
      add_pairs (concat (map (\<lambda>p. concat (map (\<lambda>f. map (\<lambda>x. (x, p)) (path_prefixes f)) (inventory_of files p))) cs)) []"
    by (simp add: build_def fold_add_at fold_add_pairs)
  show "hash_to_purls (build sb cs files) = add_pairs (document_hashes cs (cyclonedx_document sb)) []"
    by (simp add: build_def add_pairs_def)
qed

lemma item_hashes_known: "(k, p) \<in> set (item_hashes cs item) \<Longrightarrow> p \<in> set cs"
proof (cases item)
  case (JObj fs)
  assume k: "(k, p) \<in> set (item_hashes cs item)"
  then obtain q where "dict_get fs ''purl'' = Some (JStr q)" "q \<in> set cs"
    by (cases "dict_get fs ''purl''"; cases "the (dict_get fs ''purl'')")
      (simp_all add: item_hashes_def JObj split: if_split_asm)
  with k show ?thesis
    by (cases "dict_get fs ''hashes''"; cases "the (dict_get fs ''hashes'')")
      (simp_all add: item_hashes_def JObj, auto)
qed (simp_all add: item_hashes_def)

lemma document_hashes_known: "(k, p) \<in> set (document_hashes cs doc) \<Longrightarrow> p \<in> set cs"
  unfolding document_hashes_def
  by (auto split: option.split_asm json.split_asm dest: item_hashes_known)

lemma build_wf: "index_wf (build sb cs files)"
  unfolding index_wf_def build_indices set_at_add_pairs
  by (auto simp: build_def dest: document_hashes_known)

lemma set_at_some: "set_at d k \<noteq> {} \<Longrightarrow> d \<noteq> []"
  by auto

section \<open>The tiers\<close>

lemma tier_candidates:
  assumes "index_wf idx"
  shows "set (fst (hash_tier idx p)) \<subseteq> set (purls idx)" "set (fst (path_tier idx p)) \<subseteq> set (purls idx)"
    "set (fst (file_tier idx e pc)) \<subseteq> set (purls idx)" "set (fst (prefix_tier idx e pc fc)) \<subseteq> set (purls idx)"
proof -
  note known = lookups.sorted_lookup_known [OF assms]
  show "set (fst (hash_tier idx p)) \<subseteq> set (purls idx)" "set (fst (path_tier idx p)) \<subseteq> set (purls idx)"
    "set (fst (file_tier idx e pc)) \<subseteq> set (purls idx)"
    using known by (simp_all add: hash_tier_def path_tier_def file_tier_def sorted_purls_def Let_def)
  have "set (fst (prefix_search idx parts ds)) \<subseteq> set (purls idx)" for parts ds
    using known(3) by (induction ds) (simp_all add: sorted_purls_def Let_def)
  then show "set (fst (prefix_tier idx e pc fc)) \<subseteq> set (purls idx)"
    by (simp add: prefix_tier_def Let_def)
qed

text \<open>Only the hash tier yields evidence of a verifying kind, and it does exactly with candidates.\<close>

definition kinds_of :: "evidence_source list \<Rightarrow> evidence_kind set" where
  "kinds_of es = ev_kind ` set es"

lemma kinds_of_append: "kinds_of (es @ fs) = kinds_of es \<union> kinds_of fs"
  by (simp add: kinds_of_def image_Un)

lemma tier_kinds:
  "kinds_of (snd (hash_tier idx p)) = (if fst (hash_tier idx p) = [] then {} else {EXECUTABLE_HASH})"
  "kinds_of (snd (path_tier idx p)) \<subseteq> {EXECUTABLE_PATH}"
  "kinds_of (snd (file_tier idx e pc)) \<subseteq> {FILE_INVENTORY}"
  "kinds_of (snd (prefix_tier idx e pc fc)) \<subseteq> {HEURISTIC_PATH_PREFIX}"
proof -
  show "kinds_of (snd (hash_tier idx p)) = (if fst (hash_tier idx p) = [] then {} else {EXECUTABLE_HASH})"
    by (simp add: hash_tier_def kinds_of_def mk_evidence_def Let_def)
  show "kinds_of (snd (path_tier idx p)) \<subseteq> {EXECUTABLE_PATH}"
    by (auto simp: path_tier_def kinds_of_def mk_evidence_def Let_def)
  show "kinds_of (snd (file_tier idx e pc)) \<subseteq> {FILE_INVENTORY}"
    by (auto simp: file_tier_def kinds_of_def mk_evidence_def Let_def)
  have "kinds_of (snd (prefix_search idx parts ds)) \<subseteq> {HEURISTIC_PATH_PREFIX}" for parts ds
    by (induction ds) (auto simp: kinds_of_def mk_evidence_def Let_def)
  then show "kinds_of (snd (prefix_tier idx e pc fc)) \<subseteq> {HEURISTIC_PATH_PREFIX}"
    by (auto simp: prefix_tier_def kinds_of_def Let_def)
qed

text \<open>Everything a tier records passes the validation of \<open>EvidenceSource\<close>.\<close>

definition evidence_valid :: "evidence_source \<Rightarrow> bool" where
  "evidence_valid e \<longleftrightarrow>
     new_evidence (ev_kind e) (ev_value e) (ev_description e) (confidence_contribution e) = Inr e"

lemma mk_evidence_valid: "evidence_valid (mk_evidence k v d c) \<longleftrightarrow> 0 \<le> c \<and> c \<le> 1"
  by (simp add: evidence_valid_def mk_evidence_def new_evidence_def)

lemma tier_valid:
  "list_all evidence_valid (snd (hash_tier idx p))" "list_all evidence_valid (snd (path_tier idx p))"
  "list_all evidence_valid (snd (file_tier idx e pc))" "list_all evidence_valid (snd (prefix_tier idx e pc fc))"
proof -
  show "list_all evidence_valid (snd (hash_tier idx p))" "list_all evidence_valid (snd (path_tier idx p))"
    "list_all evidence_valid (snd (file_tier idx e pc))"
    by (simp_all add: hash_tier_def path_tier_def file_tier_def mk_evidence_valid Let_def)
  have "list_all evidence_valid (snd (prefix_search idx parts ds))" for parts ds
    by (induction ds) (simp_all add: mk_evidence_valid Let_def)
  then show "list_all evidence_valid (snd (prefix_tier idx e pc fc))" by (simp add: prefix_tier_def Let_def)
qed

section \<open>The decision\<close>

text \<open>The candidates of an event when the SBOM of its image is indexed.\<close>

definition indexed :: "(string, sbom_index) dict \<Rightarrow> 'time runtime_event \<Rightarrow> string \<Rightarrow> sbom_index \<Rightarrow> bool" where
  "indexed index e d idx \<longleftrightarrow>
     proc_container_id (process e) \<noteq> [] \<and> event_digest e = Some d \<and> dict_get index d = Some idx"

lemma indexed_unique: "indexed index e d idx \<Longrightarrow> indexed index e d' idx' \<longleftrightarrow> d' = d \<and> idx' = idx"
  by (auto simp: indexed_def)

lemma map_event_indexed:
  "indexed index e d idx \<Longrightarrow> map_event mid now index e = decide_mapping mid now idx d e (collect idx d e)"
  by (simp add: indexed_def map_event_def)

lemma map_event_unindexed:
  assumes "\<And>d idx. \<not> indexed index e d idx"
    and r: "r = map_event mid now index e"
  shows "status r \<in> {UNRESOLVED, INVALID}" "candidate_purls r = []" "selected_purl r = UNRESOLVED_PURL"
    "evidence r = []" "sbom_id r = None"
proof -
  consider "proc_container_id (process e) = []" | "proc_container_id (process e) \<noteq> []" "event_digest e = None"
    | d where "proc_container_id (process e) \<noteq> []" "event_digest e = Some d" "dict_get index d = None"
    using assms(1) unfolding indexed_def by (metis not_None_eq)
  then show "status r \<in> {UNRESOLVED, INVALID}" "candidate_purls r = []" "selected_purl r = UNRESOLVED_PURL"
    "evidence r = []" "sbom_id r = None"
    unfolding r map_event_def by (cases; simp add: invalid_result_def unresolved_result_def)+
qed

lemma decide_mapping_fields:
  assumes "r = decide_mapping mid now idx d e (cs, es)"
  shows "status r = (if cs = [] then UNRESOLVED else if length cs > 1 then AMBIGUOUS
                     else if ev_kind (hd es) \<in> {EXECUTABLE_HASH, PURL_DIRECT} then VERIFIED else INFERRED)"
    "candidate_purls r = cs" "selected_purl r = (if length cs = 1 then hd cs else UNRESOLVED_PURL)"
    "evidence r = es" "image_digest r = Some d" "sbom_id r = Some (ix_sbom_id idx)"
    "resolver_version r = RESOLVER_VERSION"
  unfolding assms decide_mapping_def
  by (simp_all add: unresolved_result_def ambiguous_result_def Let_def)
    (auto simp: neq_Nil_conv Suc_le_eq)

lemma collect_candidates:
  "fst (collect idx d e) =
     or_list (fst (hash_tier idx (process e)))
       (or_list (fst (path_tier idx (process e)))
         (or_list (fst (file_tier idx e (fst (path_tier idx (process e)))))
           (fst (prefix_tier idx e (fst (path_tier idx (process e)))
             (fst (file_tier idx e (fst (path_tier idx (process e)))))))))"
  by (simp add: collect_def Let_def split: prod.split)

lemma collect_evidence:
  "snd (collect idx d e) =
     snd (hash_tier idx (process e)) @ snd (path_tier idx (process e)) @
     snd (file_tier idx e (fst (path_tier idx (process e)))) @
     snd (prefix_tier idx e (fst (path_tier idx (process e)))
       (fst (file_tier idx e (fst (path_tier idx (process e)))))) @
     [mk_evidence IMAGE_DIGEST d
        (''Image digest '' @ take 20 d @
         ''... identifies the image but does NOT identify which package caused this specific event.'') (1 / 10)]"
  by (simp add: collect_def Let_def split: prod.split)

lemma collect_strongest:
  "ev_kind (hd (snd (collect idx d e))) \<in> {EXECUTABLE_HASH, PURL_DIRECT} \<longleftrightarrow> fst (hash_tier idx (process e)) \<noteq> []"
proof (cases "fst (hash_tier idx (process e)) = []")
  case True
  let ?pc = "fst (path_tier idx (process e))"
  have hash: "kinds_of (snd (hash_tier idx (process e))) = {}" using True by (simp add: tier_kinds)
  have "kinds_of (snd (collect idx d e)) \<subseteq> {EXECUTABLE_PATH, FILE_INVENTORY, HEURISTIC_PATH_PREFIX, IMAGE_DIGEST}"
    unfolding collect_evidence kinds_of_append hash
    using tier_kinds(2) [of idx "process e"] tier_kinds(3) [of idx e ?pc]
      tier_kinds(4) [of idx e ?pc "fst (file_tier idx e ?pc)"]
    by (simp add: kinds_of_def [of "[_]"] mk_evidence_def) blast
  moreover have "snd (collect idx d e) \<noteq> []" by (simp add: collect_evidence)
  then have "ev_kind (hd (snd (collect idx d e))) \<in> kinds_of (snd (collect idx d e))" by (simp add: kinds_of_def)
  ultimately show ?thesis using True by auto
next
  case False
  then have "kinds_of (snd (hash_tier idx (process e))) = {EXECUTABLE_HASH}" by (simp add: tier_kinds)
  then have "snd (hash_tier idx (process e)) \<noteq> []" "ev_kind (hd (snd (hash_tier idx (process e)))) = EXECUTABLE_HASH"
    by (cases "snd (hash_tier idx (process e))"; auto simp: kinds_of_def)+
  with False show ?thesis by (simp add: collect_evidence hd_append)
qed

lemma collect_known:
  assumes "index_wf idx"
  shows "set (fst (collect idx d e)) \<subseteq> set (purls idx)"
  by (simp add: collect_candidates or_list_def tier_candidates [OF assms])

lemma collect_valid: "list_all evidence_valid (snd (collect idx d e))"
  by (simp add: collect_evidence tier_valid mk_evidence_valid)

section \<open>What a mapping may claim\<close>

text \<open>
  The contents of the index.\<close>

lemma build_contents:
  "p \<in> set_at (path_to_purls (build sb cs files)) f \<longleftrightarrow> p \<in> set cs \<and> f \<in> set (inventory_of files p)"
  "p \<in> set_at (prefix_to_purls (build sb cs files)) x \<longleftrightarrow>
     p \<in> set cs \<and> (\<exists>g. g \<in> set (inventory_of files p) \<and> x \<in> set (path_prefixes g))"
  "p \<in> set_at (hash_to_purls (build sb cs files)) k \<longleftrightarrow> (k, p) \<in> set (document_hashes cs (cyclonedx_document sb))"
  unfolding build_indices set_at_add_pairs by auto

text \<open>
  Which hash entries a document lists for a PURL.\<close>

lemma set_map_filter: "set (List.map_filter g xs) = {y. \<exists>x. x \<in> set xs \<and> g x = Some y}"
  by (induction xs) (auto split: option.split)

lemma item_hashes_iff:
  "(k, p) \<in> set (item_hashes cs item) \<longleftrightarrow>
     p \<in> set cs \<and> (\<exists>fs hs entry. item = JObj fs \<and> dict_get fs ''purl'' = Some (JStr p) \<and>
       dict_get fs ''hashes'' = Some (JArr hs) \<and> entry \<in> set hs \<and> hash_key entry = Some k)"
proof (cases item)
  case (JObj fs)
  show ?thesis
    by (cases "dict_get fs ''purl''"; cases "the (dict_get fs ''purl'')"; cases "dict_get fs ''hashes''";
        cases "the (dict_get fs ''hashes'')")
      (simp_all add: item_hashes_def JObj, auto simp: set_map_filter)
qed (simp_all add: item_hashes_def)

lemma document_hashes_iff:
  "(k, p) \<in> set (document_hashes cs doc) \<longleftrightarrow>
     (\<exists>items item. dict_get doc ''components'' = Some (JArr items) \<and> item \<in> set items \<and>
       (k, p) \<in> set (item_hashes cs item))"
  unfolding document_hashes_def
  by (cases "dict_get doc ''components''"; cases "the (dict_get doc ''components'')") (simp_all, blast)

text \<open>
  The index of an SBOM answers exactly: a path yields the known components whose inventory lists it, a
  prefix those with a listed path below it, and a hash those for which the document lists it.
\<close>

theorem index_exactly:
  "set_at (path_to_purls (build sb cs files)) f = {p. p \<in> set cs \<and> f \<in> set (inventory_of files p)} \<and>
   set_at (prefix_to_purls (build sb cs files)) x =
     {p. p \<in> set cs \<and> (\<exists>g. g \<in> set (inventory_of files p) \<and> x \<in> set (path_prefixes g))} \<and>
   set_at (hash_to_purls (build sb cs files)) k =
     {p. p \<in> set cs \<and> (\<exists>items fs hs entry.
       dict_get (cyclonedx_document sb) ''components'' = Some (JArr items) \<and> JObj fs \<in> set items \<and>
       dict_get fs ''purl'' = Some (JStr p) \<and> dict_get fs ''hashes'' = Some (JArr hs) \<and>
       entry \<in> set hs \<and> hash_key entry = Some k)}"
  by (intro conjI set_eqI) (simp_all only: build_contents document_hashes_iff item_hashes_iff mem_Collect_eq, blast)

text \<open>A small SBOM and events of its image, for the witnesses.\<close>

definition demo_sbom :: "nat sbom" where
  "demo_sbom =
     \<lparr>sb_sbom_id = ''s1'', sb_tenant_id = ''t'', sb_image_digest = ''sha256:d'', sb_sbom_digest = ''sha256:b'',
      cyclonedx_document =
        [(''components'', JArr
           [JObj [(''purl'', JStr ''pkg:a''),
                  (''hashes'', JArr [JObj [(''alg'', JStr ''SHA-256''),
                     (''content'', JStr (replicate 64 (CHR ''a'')))]])]])],
      spec_version = ''1.5'', sb_source = SYFT, artifact_uri = ''s3:x'', signature_bundle_uri = None,
      verification_status = VS_VERIFIED, generated_at = Aware 0, sb_created_at = Aware 0, purl_count = 1,
      signing_identity = None, sb_issuer = None, rekor_entry_uuid = None, verification_error = None,
      verified_at = None, image_reference = None\<rparr>"

definition demo_index :: "(string, sbom_index) dict" where
  "demo_index =
     [(''sha256:d'',
       build demo_sbom [''pkg:a'', ''pkg:b'']
         (Some [(''pkg:a'', [''/opt/app/x/y/z/run'']), (''pkg:b'', [''/usr/lib/b.so'', ''/usr/bin/b''])]))]"

definition demo_event :: "string option \<Rightarrow> string option \<Rightarrow> string option \<Rightarrow> nat runtime_event" where
  "demo_event exe sha path =
     \<lparr>event_id = ''e'', event_type = ''file_open'', event_time = 0,
      process = \<lparr>tgid = 1, pid_start_time_ns = 2, proc_container_id = ''c'', ppid = None, executable_path = exe,
                 executable_hash = sha, comm = None, uid = None\<rparr>,
      container = Some \<lparr>cont_container_id = ''c'', cont_image_digest = Some ''sha256:d'', cont_pod_uid = None,
                        cont_namespace = None, workload_name = None, cont_node_name = None\<rparr>,
      resource_path = path, resource_hash = None, tenant_id = ''t'', run_id = []\<rparr>"

lemma demo_index_wf:
  "list_all (\<lambda>(d, idx). ix_sbom_id idx \<noteq> [] \<and> [] \<notin> set (purls idx) \<and> index_wf idx) demo_index"
  by (simp add: demo_index_def build_wf) (simp add: build_def demo_sbom_def)

lemma demo_index_get: "dict_get demo_index ''sha256:d'' = Some (snd (hd demo_index))"
  by (simp add: demo_index_def dict_get_def)

text \<open>
  A result selects a PURL exactly when one candidate is left, it is ambiguous exactly when several are,
  and in every other case it carries the sentinel instead of a guess.
\<close>

theorem map_event_selects_unique:
  "(is_resolved (map_event mid now index e) \<longleftrightarrow> length (candidate_purls (map_event mid now index e)) = 1) \<and>
   (status (map_event mid now index e) = AMBIGUOUS \<longleftrightarrow>
      length (candidate_purls (map_event mid now index e)) > 1) \<and>
   selected_purl (map_event mid now index e) =
     (if is_resolved (map_event mid now index e) then hd (candidate_purls (map_event mid now index e))
      else UNRESOLVED_PURL)"
proof (cases "\<exists>d idx. indexed index e d idx")
  case True
  then obtain d idx where i: "indexed index e d idx" by blast
  obtain cs es where c: "collect idx d e = (cs, es)" by (cases "collect idx d e")
  show ?thesis
    unfolding map_event_indexed [OF i] c is_resolved_def
    by (simp add: decide_mapping_fields [OF refl]) (cases cs; simp)
next
  case False
  then have n: "\<not> indexed index e d idx" for d idx by blast
  show ?thesis
    using map_event_unindexed [OF n refl, of mid now] by (auto simp: is_resolved_def)
qed

text \<open>
  The hash tier with one candidate, and what it means for the decision.\<close>

lemma hash_tier_single:
  assumes "index_wf idx"
  shows "fst (hash_tier idx p) = [q] \<longleftrightarrow>
    (\<exists>h. executable_hash p = Some h \<and> h \<noteq> [] \<and> set_at (hash_to_purls idx) (normalized_hash h) = {q})"
proof -
  have "sorted_purls (set_at (hash_to_purls idx) k) = [q] \<longleftrightarrow> set_at (hash_to_purls idx) k = {q}" for k
  proof
    assume "sorted_purls (set_at (hash_to_purls idx) k) = [q]"
    then show "set_at (hash_to_purls idx) k = {q}"
      using lookups.set_sorted_lookup(1) [OF assms, of k] unfolding sorted_purls_def by simp
  qed (simp add: sorted_purls_def)
  then show ?thesis
    by (cases "executable_hash p") (auto simp: hash_tier_def truthy_text_def Let_def)
qed

lemma verified_selects:
  assumes i: "indexed index e d idx"
  shows "status (map_event mid now index e) = VERIFIED \<and> selected_purl (map_event mid now index e) = q \<longleftrightarrow>
    fst (hash_tier idx (process e)) = [q]"
proof -
  obtain cs es where c: "collect idx d e = (cs, es)" by (cases "collect idx d e")
  have strongest: "ev_kind (hd es) \<in> {EXECUTABLE_HASH, PURL_DIRECT} \<longleftrightarrow> fst (hash_tier idx (process e)) \<noteq> []"
    using collect_strongest [of idx d e] c by simp
  have cs: "cs = fst (hash_tier idx (process e))" if "fst (hash_tier idx (process e)) \<noteq> []"
    using that collect_candidates [of idx d e] c by (simp add: or_list_def)
  show ?thesis
  proof
    assume v: "status (map_event mid now index e) = VERIFIED \<and> selected_purl (map_event mid now index e) = q"
    then have h: "cs \<noteq> []" "\<not> length cs > 1" "fst (hash_tier idx (process e)) \<noteq> []"
      using strongest unfolding map_event_indexed [OF i] c
      by (simp_all add: decide_mapping_fields [OF refl] split: if_split_asm)
    then obtain p where "cs = [p]" by (cases cs) auto
    then show "fst (hash_tier idx (process e)) = [q]"
      using v cs h(3) unfolding map_event_indexed [OF i] c by (simp add: decide_mapping_fields [OF refl])
  next
    assume q: "fst (hash_tier idx (process e)) = [q]"
    then have "cs = [q]" using cs by simp
    with q strongest show "status (map_event mid now index e) = VERIFIED \<and> selected_purl (map_event mid now index e) = q"
      unfolding map_event_indexed [OF i] c decide_mapping_fields(1,3) [OF refl] by simp
  qed
qed

lemma verified_indexed:
  "indexed index e d idx \<Longrightarrow> status (map_event mid now index e) = VERIFIED \<longleftrightarrow>
    (\<exists>q. fst (hash_tier idx (process e)) = [q] \<and> selected_purl (map_event mid now index e) = q)"
  by (metis verified_selects)

lemma verified_exactly:
  assumes "list_all (\<lambda>(d, idx). index_wf idx) index"
  shows "status (map_event mid now index e) = VERIFIED \<and> selected_purl (map_event mid now index e) = p \<longleftrightarrow>
    (\<exists>d idx h. proc_container_id (process e) \<noteq> [] \<and> event_digest e = Some d \<and> dict_get index d = Some idx \<and>
       executable_hash (process e) = Some h \<and> h \<noteq> [] \<and> set_at (hash_to_purls idx) (normalized_hash h) = {p})"
proof (cases "\<exists>d idx. indexed index e d idx")
  case True
  then obtain d idx where i: "indexed index e d idx" by blast
  then have "index_wf idx"
    using assms dict_get_SomeD [of index d idx] by (auto simp: indexed_def list_all_iff)
  then show ?thesis
    using i unfolding verified_selects [OF i] hash_tier_single [OF \<open>index_wf idx\<close>] indexed_def by auto
next
  case False
  then have n: "\<not> indexed index e d idx" for d idx by blast
  show ?thesis
    using map_event_unindexed(1) [OF n refl, of mid now] n unfolding indexed_def by auto
qed

text \<open>
  C12: A mapping is verified exactly when the index of the event's image lists the hash of the observed
  executable for one component and no other, and then that component is the selected one, whatever its path
  or its files suggest.
\<close>

theorem map_event_verified_exactly:
  assumes "list_all (\<lambda>(d, idx). index_wf idx) index"
  shows "(status (map_event mid now index e) = VERIFIED \<longleftrightarrow>
      (\<exists>d idx h p. proc_container_id (process e) \<noteq> [] \<and> event_digest e = Some d \<and> dict_get index d = Some idx \<and>
         executable_hash (process e) = Some h \<and> h \<noteq> [] \<and> set_at (hash_to_purls idx) (normalized_hash h) = {p})) \<and>
    (\<forall>p. status (map_event mid now index e) = VERIFIED \<and> selected_purl (map_event mid now index e) = p \<longleftrightarrow>
      (\<exists>d idx h. proc_container_id (process e) \<noteq> [] \<and> event_digest e = Some d \<and> dict_get index d = Some idx \<and>
         executable_hash (process e) = Some h \<and> h \<noteq> [] \<and> set_at (hash_to_purls idx) (normalized_hash h) = {p}))"
  (is "(?v \<longleftrightarrow> (\<exists>d idx h p. ?lists d idx h p)) \<and> (\<forall>p. ?v \<and> ?sel = p \<longleftrightarrow> (\<exists>d idx h. ?lists d idx h p))")
proof -
  have selects: "?v \<and> ?sel = p \<longleftrightarrow> (\<exists>d idx h. ?lists d idx h p)" for p
    by (rule verified_exactly [OF assms])
  have "?v \<longleftrightarrow> (\<exists>d idx h p. ?lists d idx h p)"
  proof
    assume ?v
    then show "\<exists>d idx h p. ?lists d idx h p" using selects [of ?sel] by fast
  next
    assume "\<exists>d idx h p. ?lists d idx h p"
    then obtain p where "\<exists>d idx h. ?lists d idx h p" by fast
    then show ?v unfolding selects [of p, symmetric] by (rule conjunct1)
  qed
  then show ?thesis using selects by simp
qed

theorem map_event_verified_exactly_witness:
  "status (map_event ''m'' 0 demo_index (demo_event None (Some (replicate 64 (CHR ''A''))) None)) = VERIFIED \<and>
   selected_purl (map_event ''m'' 0 demo_index (demo_event None (Some (replicate 64 (CHR ''A''))) None)) = ''pkg:a''"
proof -
  have wf: "list_all (\<lambda>(d, idx). index_wf idx) demo_index"
    using demo_index_wf by (simp add: list_all_iff split_def)
  have "set_at (hash_to_purls (snd (hd demo_index))) (normalized_hash (replicate 64 (CHR ''A''))) = {''pkg:a''}"
    by code_simp
  moreover have "event_digest (demo_event None (Some (replicate 64 (CHR ''A''))) None) = Some ''sha256:d''" by code_simp
  ultimately show ?thesis
    unfolding map_event_verified_exactly [OF wf, THEN conjunct2, rule_format] using demo_index_get
    by (intro exI conjI) (assumption | simp add: demo_event_def)+
qed

section \<open>Where a candidate comes from\<close>

lemma path_parts_prefix:
  assumes "join_with CHR ''/'' (take n (path_parts a)) = join_with CHR ''/'' (take m (path_parts b))"
    "0 < n" "0 < m"
  shows "take n (path_parts a) = take m (path_parts b)"
proof -
  have "split_on CHR ''/'' (join_with CHR ''/'' (take k (path_parts c))) = take k (path_parts c)" if "0 < k" for k c
    using that by (intro split_on_join) (auto simp: path_parts_def dest!: in_set_takeD split_on_parts)
  then show ?thesis using assms by metis
qed

lemma prefix_shared:
  assumes "join_with CHR ''/'' (take n (path_parts x)) \<in> set (path_prefixes g)" "5 \<le> n" "n \<le> length (path_parts x)"
  shows "n \<le> length (path_parts g) \<and> take n (path_parts x) = take n (path_parts g)"
proof -
  obtain m where "m \<in> set [5..<min (length (path_parts g) + 1) 8]"
      and eq_join: "join_with CHR ''/'' (take n (path_parts x)) = join_with CHR ''/'' (take m (path_parts g))"
    using assms(1) unfolding path_prefixes_def Let_def set_map by blast
  then have m: "5 \<le> m" "m \<le> length (path_parts g)" unfolding set_upt atLeastLessThan_iff by linarith+
  from m eq_join have eq: "take n (path_parts x) = take m (path_parts g)"
    using assms(2) by (intro path_parts_prefix) simp_all
  then have "length (take n (path_parts x)) = length (take m (path_parts g))" by simp
  then have "n = m" using assms(3) m(2) by simp
  with eq m show ?thesis by simp
qed

lemma prefix_search_member:
  assumes "index_wf idx" "p \<in> set (fst (prefix_search idx parts ds))"
  shows "\<exists>n. n \<in> set ds \<and> p \<in> set_at (prefix_to_purls idx) (join_with CHR ''/'' (take n parts))"
  using assms(2)
proof (induction ds)
  case (Cons d ds)
  show ?case
  proof (cases "sorted_purls (set_at (prefix_to_purls idx) (join_with CHR ''/'' (take d parts))) = []")
    case True
    then show ?thesis using Cons by (auto simp: Let_def)
  next
    case False
    then show ?thesis
      using Cons.prems lookups.set_sorted_lookup(3) [OF assms(1)] by (auto simp: Let_def sorted_purls_def)
  qed
qed simp

lemma or_list_member: "p \<in> set (or_list xs ys) \<Longrightarrow> p \<in> set xs \<or> p \<in> set ys"
  by (simp add: or_list_def split: if_split_asm)

text \<open>
  Why a component is a candidate of a tier.\<close>

lemma tier_member:
  assumes wf: "index_wf idx"
  shows "p \<in> set (fst (hash_tier idx q)) \<Longrightarrow>
      \<exists>h. executable_hash q = Some h \<and> p \<in> set_at (hash_to_purls idx) (normalized_hash h)"
    "p \<in> set (fst (path_tier idx q)) \<Longrightarrow>
      \<exists>x. executable_path q = Some x \<and> \<not> is_interpreter q \<and> p \<in> set_at (path_to_purls idx) x"
    "p \<in> set (fst (file_tier idx e pc)) \<Longrightarrow>
      \<exists>x. resource_path e = Some x \<and> \<not> resource_is_interpreter_binary e \<and> p \<in> set_at (path_to_purls idx) x"
    "p \<in> set (fst (prefix_tier idx e pc fc)) \<Longrightarrow>
      \<exists>x n. resource_path e = Some x \<and> \<not> resource_is_interpreter_binary e \<and> 5 \<le> n \<and>
        n \<le> length (path_parts x) \<and> p \<in> set_at (prefix_to_purls idx) (join_with CHR ''/'' (take n (path_parts x)))"
proof -
  note known = lookups.set_sorted_lookup [OF wf, folded sorted_purls_def]
  show "\<exists>h. executable_hash q = Some h \<and> p \<in> set_at (hash_to_purls idx) (normalized_hash h)"
    if "p \<in> set (fst (hash_tier idx q))"
    using that by (auto simp: hash_tier_def truthy_text_def Let_def known split: option.split_asm if_split_asm)
  show "\<exists>x. executable_path q = Some x \<and> \<not> is_interpreter q \<and> p \<in> set_at (path_to_purls idx) x"
    if "p \<in> set (fst (path_tier idx q))"
    using that by (auto simp: path_tier_def truthy_text_def Let_def known split: option.split_asm if_split_asm)
  show "\<exists>x. resource_path e = Some x \<and> \<not> resource_is_interpreter_binary e \<and> p \<in> set_at (path_to_purls idx) x"
    if "p \<in> set (fst (file_tier idx e pc))"
    using that by (auto simp: file_tier_def truthy_text_def Let_def known split: option.split_asm if_split_asm)
  show "\<exists>x n. resource_path e = Some x \<and> \<not> resource_is_interpreter_binary e \<and> 5 \<le> n \<and>
        n \<le> length (path_parts x) \<and> p \<in> set_at (prefix_to_purls idx) (join_with CHR ''/'' (take n (path_parts x)))"
    if "p \<in> set (fst (prefix_tier idx e pc fc))"
  proof (cases "resource_path e")
    case (Some x)
    then have "p \<in> set (fst (prefix_search idx (path_parts x) (rev [5..<Suc (min (length (path_parts x)) 7)])))"
        "\<not> resource_is_interpreter_binary e"
      using that by (simp_all add: prefix_tier_def Let_def split: if_split_asm)
    moreover obtain n where "n \<in> set (rev [5..<Suc (min (length (path_parts x)) 7)])"
        "p \<in> set_at (prefix_to_purls idx) (join_with CHR ''/'' (take n (path_parts x)))"
      using prefix_search_member [OF wf] calculation(1) by blast
    moreover from this(1) have "5 \<le> n" "n \<le> length (path_parts x)"
      unfolding set_rev set_upt atLeastLessThan_iff by linarith+
    ultimately show ?thesis using Some by blast
  qed (use that in \<open>simp add: prefix_tier_def truthy_text_def\<close>)
qed

text \<open>
  C13: A mapper never invents a component: every candidate is a component of the SBOM that was built for
  the event's image, and one of four facts ties it to the event: the SBOM lists the hash of the
  executable for it, lists the executable's path (of no interpreter), lists the accessed path, or lists
  a path that agrees with the accessed one in its first five or more parts.
\<close>

theorem map_event_never_invents:
  assumes i: "proc_container_id (process e) \<noteq> []" "event_digest e = Some d"
      "dict_get index d = Some (build sb cs files)"
    and p: "p \<in> set (candidate_purls (map_event mid now index e))"
  shows "p \<in> set cs \<and>
    ((\<exists>h. executable_hash (process e) = Some h \<and>
        (normalized_hash h, p) \<in> set (document_hashes cs (cyclonedx_document sb))) \<or>
     (\<exists>x. executable_path (process e) = Some x \<and> \<not> is_interpreter (process e) \<and> x \<in> set (inventory_of files p)) \<or>
     (\<exists>x. resource_path e = Some x \<and> \<not> resource_is_interpreter_binary e \<and>
        (x \<in> set (inventory_of files p) \<or>
         (\<exists>g n. g \<in> set (inventory_of files p) \<and> 5 \<le> n \<and> n \<le> length (path_parts x) \<and>
            n \<le> length (path_parts g) \<and> take n (path_parts x) = take n (path_parts g)))))"
proof
  let ?idx = "build sb cs files"
  have i: "indexed index e d ?idx" using i by (simp add: indexed_def)
  obtain c es where c: "collect ?idx d e = (c, es)" by (cases "collect ?idx d e")
  with p have pc: "p \<in> set (fst (collect ?idx d e))"
    unfolding map_event_indexed [OF i] c by (simp add: decide_mapping_fields [OF refl])
  then show "p \<in> set cs" using collect_known [OF build_wf, of sb cs files d e] by (auto simp: build_def)
  note member = tier_member [OF build_wf, of p sb cs files]
  let ?pc = "fst (path_tier ?idx (process e))"
  from pc consider "p \<in> set (fst (hash_tier ?idx (process e)))" | "p \<in> set ?pc"
    | "p \<in> set (fst (file_tier ?idx e ?pc))" | "p \<in> set (fst (prefix_tier ?idx e ?pc (fst (file_tier ?idx e ?pc))))"
    unfolding collect_candidates by (blast dest: or_list_member)
  then show "(\<exists>h. executable_hash (process e) = Some h \<and>
        (normalized_hash h, p) \<in> set (document_hashes cs (cyclonedx_document sb))) \<or>
     (\<exists>x. executable_path (process e) = Some x \<and> \<not> is_interpreter (process e) \<and> x \<in> set (inventory_of files p)) \<or>
     (\<exists>x. resource_path e = Some x \<and> \<not> resource_is_interpreter_binary e \<and>
        (x \<in> set (inventory_of files p) \<or>
         (\<exists>g n. g \<in> set (inventory_of files p) \<and> 5 \<le> n \<and> n \<le> length (path_parts x) \<and>
            n \<le> length (path_parts g) \<and> take n (path_parts x) = take n (path_parts g))))"
  proof cases
    case 1
    show ?thesis using member(1) [OF 1] unfolding build_contents by blast
  next
    case 2
    show ?thesis using member(2) [OF 2] unfolding build_contents by blast
  next
    case 3
    show ?thesis using member(3) [OF 3] unfolding build_contents by blast
  next
    case 4
    then obtain x n where x: "resource_path e = Some x" "\<not> resource_is_interpreter_binary e" "5 \<le> n"
        "n \<le> length (path_parts x)"
        "p \<in> set_at (prefix_to_purls ?idx) (join_with CHR ''/'' (take n (path_parts x)))"
      using member(4) by blast
    then obtain g where "g \<in> set (inventory_of files p)"
        "join_with CHR ''/'' (take n (path_parts x)) \<in> set (path_prefixes g)"
      by (auto simp: build_contents)
    with x prefix_shared [OF this(2)] show ?thesis by blast
  qed
qed

theorem map_event_never_invents_witness:
  "''pkg:a'' \<in> set (candidate_purls (map_event ''m'' 0 demo_index (demo_event None None (Some ''/opt/app/x/y/z/other'')))) \<and>
   ''pkg:a'' \<in> set [''pkg:a'', ''pkg:b'']"
proof
  show p: "''pkg:a'' \<in> set (candidate_purls
      (map_event ''m'' 0 demo_index (demo_event None None (Some ''/opt/app/x/y/z/other''))))"
    by code_simp
  obtain files where idx: "dict_get demo_index ''sha256:d'' = Some (build demo_sbom [''pkg:a'', ''pkg:b''] files)"
    by (simp add: demo_index_def dict_get_def)
  show "''pkg:a'' \<in> set [''pkg:a'', ''pkg:b'']"
    using map_event_never_invents [OF _ _ idx p] by (simp add: demo_event_def event_digest_def truthy_text_def)
qed

section \<open>Interpreters\<close>

lemma decide_mapping_method:
  "status (decide_mapping mid now idx d e (cs, es)) = INFERRED \<Longrightarrow>
   mapping_method (decide_mapping mid now idx d e (cs, es)) =
     kind_value (ev_kind (hd es)) @ '' match (inferred; not hash-verified)''"
  unfolding decide_mapping_def
  by (simp add: unresolved_result_def ambiguous_result_def Let_def split: if_split_asm)

lemma hash_tier_evidence:
  "fst (hash_tier idx p) = [] \<Longrightarrow> snd (hash_tier idx p) = []"
  "fst (hash_tier idx p) \<noteq> [] \<Longrightarrow> \<exists>ev. snd (hash_tier idx p) = [ev] \<and> confidence_contribution ev = 1"
  by (simp_all add: hash_tier_def Let_def mk_evidence_def split: if_split_asm)

lemma no_hash_if_inferred:
  assumes "indexed index e d idx" "status (map_event mid now index e) = INFERRED"
  shows "fst (hash_tier idx (process e)) = []" "fst (collect idx d e) \<noteq> []"
proof -
  obtain cs es where c: "collect idx d e = (cs, es)" by (cases "collect idx d e")
  have "cs \<noteq> []" "ev_kind (hd es) \<notin> {EXECUTABLE_HASH, PURL_DIRECT}"
    using assms(2) unfolding map_event_indexed [OF assms(1)] c decide_mapping_fields(1) [OF refl]
    by (simp_all split: if_split_asm)
  then show "fst (hash_tier idx (process e)) = []" "fst (collect idx d e) \<noteq> []"
    using collect_strongest [of idx d e] c by simp_all
qed

text \<open>
  An interpreter is never inferred from its own path. What is inferred for one rests on another file it
  accessed, but the result names the executable's path as its method, and the evidence it lists first
  has no weight at all.
\<close>

theorem interpreter_inferred_from_resource:
  assumes "is_interpreter (process e)" "status (map_event mid now index e) = INFERRED"
  shows "resource_path e \<noteq> None \<and> resource_path e \<noteq> executable_path (process e) \<and>
    mapping_method (map_event mid now index e) = ''executable_path match (inferred; not hash-verified)'' \<and>
    confidence_contribution (hd (evidence (map_event mid now index e))) = 0"
proof -
  have "\<exists>d idx. indexed index e d idx"
    using map_event_unindexed(1) [of index e, OF _ refl, of mid now] assms(2) by auto
  then obtain d idx where i: "indexed index e d idx" by blast
  note hash = no_hash_if_inferred [OF i assms(2)]
  obtain cs es where c: "collect idx d e = (cs, es)" by (cases "collect idx d e")
  have exec: "truthy_text (executable_path (process e))" using assms(1) by (simp add: is_interpreter_def)
  have path: "fst (path_tier idx (process e)) = []"
      "\<exists>ev. snd (path_tier idx (process e)) = [ev] \<and> ev_kind ev = EXECUTABLE_PATH \<and> confidence_contribution ev = 0"
    using assms(1) exec by (simp_all add: path_tier_def mk_evidence_def Let_def)
  have "fst (file_tier idx e []) \<noteq> [] \<or> fst (prefix_tier idx e [] []) \<noteq> []"
    using hash unfolding collect_candidates by (auto simp: or_list_def path)
  then have "resource_path e \<noteq> None" "\<not> resource_is_interpreter_binary e"
    by (cases "resource_path e"; auto simp: file_tier_def prefix_tier_def truthy_text_def split: if_split_asm)+
  moreover have "ev_kind (hd es) = EXECUTABLE_PATH" "confidence_contribution (hd es) = 0"
    using path(2) hash_tier_evidence(1) [OF hash(1)] collect_evidence [of idx d e] c by auto
  ultimately show ?thesis
    using assms decide_mapping_method [of mid now idx d e cs es]
    unfolding map_event_indexed [OF i] c
    by (auto simp: decide_mapping_fields(4) [OF refl] resource_is_interpreter_binary_def)
qed

theorem interpreter_inferred_from_resource_witness:
  "mapping_method (map_event ''m'' 0 demo_index
     (demo_event (Some ''/usr/bin/python3'') None (Some ''/opt/app/x/y/z/run''))) =
   ''executable_path match (inferred; not hash-verified)''"
proof -
  have int: "is_interpreter (process (demo_event (Some ''/usr/bin/python3'') None (Some ''/opt/app/x/y/z/run'')))"
    by code_simp
  have inferred: "status (map_event ''m'' 0 demo_index
      (demo_event (Some ''/usr/bin/python3'') None (Some ''/opt/app/x/y/z/run''))) = INFERRED"
    by code_simp
  show ?thesis using interpreter_inferred_from_resource [OF int inferred] by simp
qed

section \<open>The payload for the causal engine\<close>

lemma verified_confidence:
  assumes i: "indexed index e d idx" and v: "status (map_event mid now index e) = VERIFIED"
  shows "evidence (map_event mid now index e) \<noteq> []"
    "Max (set (map confidence_contribution (evidence (map_event mid now index e)))) = 1"
proof -
  obtain cs es where c: "collect idx d e = (cs, es)" by (cases "collect idx d e")
  have "fst (hash_tier idx (process e)) \<noteq> []" using v unfolding verified_indexed [OF i] by auto
  then obtain ev where "snd (hash_tier idx (process e)) = [ev]" and one: "confidence_contribution ev = 1"
    using hash_tier_evidence(2) by blast
  then have "ev \<in> set es" using collect_evidence [of idx d e] c by simp
  note one this
  moreover have "confidence_contribution x \<le> 1" if "x \<in> set es" for x
    using that collect_valid [of idx d e] c
    by (simp add: list_all_iff evidence_valid_def new_evidence_def split: if_split_asm)
  ultimately have "Max (set (map confidence_contribution es)) = 1" "es \<noteq> []"
    by (auto intro!: Max_eqI)
  then show "evidence (map_event mid now index e) \<noteq> []"
    "Max (set (map confidence_contribution (evidence (map_event mid now index e)))) = 1"
    unfolding map_event_indexed [OF i] c decide_mapping_fields(4) [OF refl] by simp_all
qed

lemma payload_cases:
  assumes wf: "list_all (\<lambda>(d, idx). ix_sbom_id idx \<noteq> [] \<and> [] \<notin> set (purls idx) \<and> index_wf idx) index"
    and r: "r = map_event mid now index e"
  shows "case to_causal_binding_payload r of
      Inl err \<Rightarrow> err = ValueError \<and> (proc_container_id (process e) = [] \<or> event_digest e = None)
    | Inr pl \<Rightarrow>
        proc_container_id (process e) \<noteq> [] \<and> event_digest e = Some (pl_image_digest pl) \<and>
        pl_purl pl = (if status r = VERIFIED then Some (selected_purl r) else None) \<and>
        pl_confidence pl = (if status r = VERIFIED then Some 1 else None) \<and>
        pl_candidate_purls pl = (if status r = AMBIGUOUS then candidate_purls r else []) \<and>
        pl_sbom_id pl = map_option ix_sbom_id (dict_get index (pl_image_digest pl)) \<and>
        pl_binding_status pl =
          (if status r = VERIFIED then ''bound'' else if status r = AMBIGUOUS then ''ambiguous''
           else if dict_get index (pl_image_digest pl) = None then ''unbound'' else ''insufficient_evidence'')"
proof (cases "\<exists>d idx. indexed index e d idx")
  case True
  then obtain d idx where i: "indexed index e d idx" by blast
  then have idx: "proc_container_id (process e) \<noteq> []" "event_digest e = Some d" "dict_get index d = Some idx"
    by (simp_all add: indexed_def)
  then have sid: "ix_sbom_id idx \<noteq> []" "[] \<notin> set (purls idx)" "index_wf idx"
    using wf dict_get_SomeD [of index d idx] by (auto simp: list_all_iff)
  have d: "d \<noteq> []" using idx(2) by (auto simp: event_digest_def truthy_text_def split: option.split_asm if_split_asm)
  obtain cs es where c: "collect idx d e = (cs, es)" by (cases "collect idx d e")
  have fields: "image_digest r = Some d" "sbom_id r = Some (ix_sbom_id idx)"
      "status r \<noteq> INVALID" "status r = VERIFIED \<Longrightarrow> selected_purl r \<in> set (purls idx)"
    using collect_known [OF sid(3), of d e] unfolding r map_event_indexed [OF i] c
    by (simp_all add: decide_mapping_fields [OF refl] split: if_split_asm) (cases cs; auto)
  have "evidence r \<noteq> []" "Max (set (map confidence_contribution (evidence r))) = 1" if "status r = VERIFIED"
    using verified_confidence [OF i] that unfolding r by blast+
  then show ?thesis
    using fields idx d sid
    by (cases "status r") (auto simp: to_causal_binding_payload_def truthy_text_def)
next
  case False
  then have n: "\<not> indexed index e d idx" for d idx by blast
  note fields = map_event_unindexed [OF n r]
  have digest: "image_digest r = (if proc_container_id (process e) = [] then None else event_digest e)"
    unfolding r map_event_def using n
    by (auto simp: indexed_def invalid_result_def unresolved_result_def split: option.split)
  have "truthy_text (event_digest e)" if "event_digest e = Some d" for d
    using that by (auto simp: event_digest_def truthy_text_def split: option.split_asm if_split_asm)
  then show ?thesis
    using fields digest n unfolding indexed_def
    by (cases "event_digest e"; cases "proc_container_id (process e) = []")
      (auto simp: to_causal_binding_payload_def truthy_text_def)
qed

text \<open>
  The causal engine is told of a component exactly for a verified mapping, with full confidence, and the
  sentinel never reaches it; there is no payload exactly without a digest to bind to.
\<close>

theorem causal_payload_exactly:
  assumes wf: "list_all (\<lambda>(d, idx). ix_sbom_id idx \<noteq> [] \<and> [] \<notin> set (purls idx) \<and> index_wf idx) index"
    and r: "r = map_event mid now index e"
  shows "case to_causal_binding_payload r of
      Inl err \<Rightarrow> err = ValueError \<and> (proc_container_id (process e) = [] \<or> event_digest e = None)
    | Inr pl \<Rightarrow>
        proc_container_id (process e) \<noteq> [] \<and> event_digest e = Some (pl_image_digest pl) \<and>
        pl_purl pl = (if status r = VERIFIED then Some (selected_purl r) else None) \<and>
        pl_confidence pl = (if status r = VERIFIED then Some 1 else None) \<and>
        pl_candidate_purls pl = (if status r = AMBIGUOUS then candidate_purls r else []) \<and>
        pl_sbom_id pl = map_option ix_sbom_id (dict_get index (pl_image_digest pl)) \<and>
        pl_binding_status pl =
          (if status r = VERIFIED then ''bound'' else if status r = AMBIGUOUS then ''ambiguous''
           else if dict_get index (pl_image_digest pl) = None then ''unbound'' else ''insufficient_evidence'')"
  by (rule payload_cases [OF assms])

theorem causal_payload_exactly_witness:
  "\<exists>pl. to_causal_binding_payload
       (map_event ''m'' 0 demo_index (demo_event None (Some (replicate 64 (CHR ''A''))) None)) = Inr pl \<and>
     pl_purl pl = Some ''pkg:a'' \<and> pl_confidence pl = Some 1 \<and> pl_binding_status pl = ''bound''"
proof -
  let ?e = "demo_event None (Some (replicate 64 (CHR ''A''))) None"
  let ?r = "map_event ''m'' 0 demo_index ?e"
  have v: "status ?r = VERIFIED" "selected_purl ?r = ''pkg:a''" by code_simp+
  have "proc_container_id (process ?e) \<noteq> []" "event_digest ?e \<noteq> None" by code_simp+
  then show ?thesis
    using causal_payload_exactly [where mid = "''m''" and now = 0 and e = ?e, OF demo_index_wf refl] v
    by (cases "to_causal_binding_payload ?r") simp_all
qed

end
