(* ===== verification/Sbom_Binding.thy ===== *)
theory Sbom_Binding
  imports Sbom_Resolver
begin

text \<open>
  The route \<open>POST /internal/v1/runtime-bindings\<close> of \<open>interface/routers.py\<close>: the file inventory read from a
  CycloneDX document, and the binding of one runtime event over the stored SBOMs of its image. What the
  two repositories return is an argument; a request is taken after its schema has accepted it.

  The lemmas show that only a single verified SBOM of the tenant can name a component, and which
  component that is.
\<close>

section \<open>Requests\<close>

record 'time binding_request =
  rq_event_id :: string
  rq_run_id :: string
  rq_tenant_id :: string
  rq_event_type :: string
  rq_observed_at :: 'time
  rq_container_id :: string
  rq_image_digest :: string
  rq_pod_uid :: "string option"
  rq_namespace :: "string option"
  rq_workload_name :: "string option"
  rq_tgid :: int
  rq_pid_start_time_ns :: int
  rq_executable_path :: "string option"
  rq_executable_hash :: "string option"
  rq_comm :: "string option"
  rq_uid :: "int option"
  rq_resource_path :: "string option"
  rq_resource_hash :: "string option"

section \<open>The file inventory of a document\<close>

text \<open>One occurrence: its path, if it is absolute and has no parent step.\<close>

definition occurrence_path :: "json \<Rightarrow> string option" where
  "occurrence_path occurrence =
     (case occurrence of
        JObj ofs \<Rightarrow>
          (case (case dict_get ofs ''location'' of
                   Some (JObj lfs) \<Rightarrow> dict_get lfs ''path''
                 | location \<Rightarrow> location) of
             Some (JStr path) \<Rightarrow>
               (if starts_with path ''/'' \<and> ''..'' \<notin> set (split_on CHR ''/'' path) then Some path else None)
           | _ \<Rightarrow> None)
      | _ \<Rightarrow> None)"

definition component_paths :: "json \<Rightarrow> (string \<times> string) list" where
  "component_paths item =
     (case item of
        JObj fs \<Rightarrow>
          (case (dict_get fs ''purl'', dict_get fs ''evidence'') of
             (Some (JStr purl), Some (JObj efs)) \<Rightarrow>
               (case dict_get efs ''occurrences'' of
                  Some (JArr occs) \<Rightarrow> map (\<lambda>path. (purl, path)) (List.map_filter occurrence_path occs)
                | _ \<Rightarrow> [])
           | _ \<Rightarrow> [])
      | _ \<Rightarrow> [])"

text \<open>\<open>result.setdefault(purl, []).append(path)\<close>.\<close>

definition append_at :: "string \<times> string \<Rightarrow> (string, string list) dict \<Rightarrow> (string, string list) dict" where
  "append_at entry d =
     (case entry of (purl, path) \<Rightarrow>
        dict_set d purl ((case dict_get d purl of None \<Rightarrow> [] | Some ps \<Rightarrow> ps) @ [path]))"

definition cyclonedx_file_inventory :: "(string \<times> json) list \<Rightarrow> (string, string list) dict" where
  "cyclonedx_file_inventory document =
     (case dict_get document ''components'' of
        Some (JArr items) \<Rightarrow> fold append_at (concat (map component_paths items)) []
      | _ \<Rightarrow> [])"

section \<open>The route\<close>

definition runtime_of :: "'time binding_request \<Rightarrow> 'time runtime_event" where
  "runtime_of body =
     \<lparr>event_id = rq_event_id body, event_type = rq_event_type body, event_time = rq_observed_at body,
      process = \<lparr>tgid = rq_tgid body, pid_start_time_ns = rq_pid_start_time_ns body,
                 proc_container_id = rq_container_id body, ppid = None,
                 executable_path = rq_executable_path body, executable_hash = rq_executable_hash body,
                 comm = rq_comm body, uid = rq_uid body\<rparr>,
      container = Some \<lparr>cont_container_id = rq_container_id body, cont_image_digest = Some (rq_image_digest body),
                        cont_pod_uid = rq_pod_uid body, cont_namespace = rq_namespace body,
                        workload_name = rq_workload_name body, cont_node_name = None\<rparr>,
      resource_path = rq_resource_path body, resource_hash = rq_resource_hash body,
      tenant_id = rq_tenant_id body, run_id = rq_run_id body\<rparr>"

definition binding_indices ::
    "(string \<Rightarrow> string \<Rightarrow> string list) \<Rightarrow> 'time binding_request \<Rightarrow> 'time sbom list \<Rightarrow> (string, sbom_index) dict" where
  "binding_indices get_components body verified =
     (case verified of
        [sb] \<Rightarrow>
          [(rq_image_digest body,
            build sb (get_components (sb_sbom_id sb) (rq_tenant_id body))
              (Some (cyclonedx_file_inventory (cyclonedx_document sb))))]
      | _ \<Rightarrow> [])"

definition map_runtime_binding ::
    "(string \<Rightarrow> string \<Rightarrow> 'time sbom list) \<Rightarrow> (string \<Rightarrow> string \<Rightarrow> string list) \<Rightarrow> string \<Rightarrow> 'time \<Rightarrow>
     'time binding_request \<Rightarrow> causal_payload py_result" where
  "map_runtime_binding get_by_image_digest get_components mid now body =
     (let records = get_by_image_digest (rq_image_digest body) (rq_tenant_id body);
          verified = filter (\<lambda>sb. verification_status sb = VS_VERIFIED) records
      in case to_causal_binding_payload
                (map_event mid now (binding_indices get_components body verified) (runtime_of body)) of
           Inl err \<Rightarrow> Inl err
         | Inr payload \<Rightarrow>
             Inr (if length verified > 1 then
                    payload\<lparr>pl_binding_status := ''insufficient_evidence'', pl_sbom_id := None, pl_purl := None,
                            pl_confidence := None, pl_candidate_purls := [],
                            pl_reason := Some ''multiple verified SBOM documents match the image digest''\<rparr>
                  else if records \<noteq> [] \<and> verified = [] then
                    payload\<lparr>pl_binding_status := ''insufficient_evidence'', pl_sbom_id := None, pl_purl := None,
                            pl_confidence := None,
                            pl_reason := Some ''matching SBOM exists but has not passed verification''\<rparr>
                  else payload))"

section \<open>What the inventory holds\<close>

lemma append_at_get:
  "dict_get (append_at (p, x) d) q = (if q = p then Some ((case dict_get d p of None \<Rightarrow> [] | Some ps \<Rightarrow> ps) @ [x]) else dict_get d q)"
  by (simp add: append_at_def)

lemma inventory_append_at:
  "inventory_of (Some (append_at (p, x) d)) q = inventory_of (Some d) q @ (if q = p then [x] else [])"
  by (simp add: inventory_of_def append_at_get split: option.split)

lemma inventory_fold:
  "inventory_of (Some (fold append_at ps d)) q = inventory_of (Some d) q @ map snd (filter (\<lambda>e. fst e = q) ps)"
proof (induction ps arbitrary: d)
  case (Cons e ps)
  show ?case
    by (cases e) (simp add: Cons inventory_append_at)
qed simp

lemma occurrence_path_safe:
  "occurrence_path occ = Some x \<Longrightarrow> starts_with x ''/'' \<and> ''..'' \<notin> set (split_on CHR ''/'' x)"
  unfolding occurrence_path_def by (auto split: json.split_asm option.split_asm if_split_asm)

lemma component_paths_iff:
  "(p, x) \<in> set (component_paths item) \<longleftrightarrow>
     (\<exists>fs efs occs occ. item = JObj fs \<and> dict_get fs ''purl'' = Some (JStr p) \<and>
       dict_get fs ''evidence'' = Some (JObj efs) \<and> dict_get efs ''occurrences'' = Some (JArr occs) \<and>
       occ \<in> set occs \<and> occurrence_path occ = Some x)"
proof (cases item)
  case (JObj fs)
  show ?thesis
  proof (cases "\<exists>efs. dict_get fs ''evidence'' = Some (JObj efs)")
    case True
    then obtain efs where efs: "dict_get fs ''evidence'' = Some (JObj efs)" by blast
    show ?thesis
      by (cases "dict_get fs ''purl''"; cases "the (dict_get fs ''purl'')"; cases "dict_get efs ''occurrences''";
          cases "the (dict_get efs ''occurrences'')")
        (simp_all add: component_paths_def JObj efs, auto simp: set_map_filter)
  next
    case False
    then show ?thesis
      by (cases "dict_get fs ''purl''"; cases "the (dict_get fs ''purl'')"; cases "dict_get fs ''evidence''";
          cases "the (dict_get fs ''evidence'')")
        (simp_all add: component_paths_def JObj)
  qed
qed (simp_all add: component_paths_def)

text \<open>
  The inventory lists a path for a PURL exactly when an occurrence of a component with that PURL names
  it, and every listed path is absolute and free of parent steps.
\<close>

theorem inventory_exactly:
  "x \<in> set (inventory_of (Some (cyclonedx_file_inventory doc)) p) \<longleftrightarrow>
     starts_with x ''/'' \<and> ''..'' \<notin> set (split_on CHR ''/'' x) \<and>
     (\<exists>items fs efs occs occ. dict_get doc ''components'' = Some (JArr items) \<and> JObj fs \<in> set items \<and>
       dict_get fs ''purl'' = Some (JStr p) \<and> dict_get fs ''evidence'' = Some (JObj efs) \<and>
       dict_get efs ''occurrences'' = Some (JArr occs) \<and> occ \<in> set occs \<and> occurrence_path occ = Some x)"
proof -
  have empty: "inventory_of (Some []) p = []" by (simp add: inventory_of_def dict_get_def)
  have "x \<in> set (inventory_of (Some (cyclonedx_file_inventory doc)) p) \<longleftrightarrow>
      (\<exists>items item. dict_get doc ''components'' = Some (JArr items) \<and> item \<in> set items \<and>
        (p, x) \<in> set (component_paths item))"
  proof (cases "\<exists>items. dict_get doc ''components'' = Some (JArr items)")
    case True
    then obtain items where "dict_get doc ''components'' = Some (JArr items)" by blast
    then show ?thesis by (force simp: cyclonedx_file_inventory_def inventory_fold empty)
  next
    case False
    then show ?thesis
      by (cases "dict_get doc ''components''"; cases "the (dict_get doc ''components'')")
        (simp_all add: cyclonedx_file_inventory_def empty)
  qed
  then show ?thesis unfolding component_paths_iff using occurrence_path_safe by blast
qed

section \<open>Which component a binding names\<close>

lemma runtime_of_fields [simp]:
  "proc_container_id (process (runtime_of body)) = rq_container_id body"
  "executable_hash (process (runtime_of body)) = rq_executable_hash body"
  "rq_image_digest body \<noteq> [] \<Longrightarrow> event_digest (runtime_of body) = Some (rq_image_digest body)"
  by (simp_all add: runtime_of_def event_digest_def truthy_text_def)

lemma build_fields [simp]:
  "ix_sbom_id (build sb cs files) = sb_sbom_id sb" "purls (build sb cs files) = cs"
  by (simp_all add: build_def)

lemma binding_indices_wf:
  assumes "\<And>sb. verified = [sb] \<Longrightarrow> sb_sbom_id sb \<noteq> [] \<and> [] \<notin> set (get_components (sb_sbom_id sb) (rq_tenant_id body))"
  shows "list_all (\<lambda>(d, idx). ix_sbom_id idx \<noteq> [] \<and> [] \<notin> set (purls idx) \<and> index_wf idx)
    (binding_indices get_components body verified)"
  using assms by (simp add: binding_indices_def build_wf split: list.split)

text \<open>
  The payload before the route adjusts it.\<close>

lemma binding_payload:
  fixes get_components verified
  assumes "rq_container_id body \<noteq> []" "rq_image_digest body \<noteq> []"
    and "\<And>sb. verified = [sb] \<Longrightarrow> sb_sbom_id sb \<noteq> [] \<and> [] \<notin> set (get_components (sb_sbom_id sb) (rq_tenant_id body))"
    and r: "r = map_event mid now (binding_indices get_components body verified) (runtime_of body)"
  obtains pl where "to_causal_binding_payload r = Inr pl"
    "pl_purl pl = (if status r = VERIFIED then Some (selected_purl r) else None)"
    "pl_confidence pl = (if status r = VERIFIED then Some 1 else None)"
    "pl_binding_status pl = ''bound'' \<longleftrightarrow> status r = VERIFIED"
    "pl_binding_status pl = ''unbound'' \<longleftrightarrow>
       status r \<noteq> VERIFIED \<and> status r \<noteq> AMBIGUOUS \<and> (\<nexists>sb. verified = [sb])"
proof -
  have get: "dict_get (binding_indices get_components body verified) (rq_image_digest body) = None \<longleftrightarrow> (\<nexists>sb. verified = [sb])"
    by (auto simp: binding_indices_def dict_get_def split: list.split)
  show thesis
    using payload_cases [OF binding_indices_wf [of verified get_components body, OF assms(3)] r] assms(1, 2) get
    by (cases "to_causal_binding_payload r") (auto intro!: that split: if_split_asm)
qed

lemma binding_unindexed:
  assumes "\<nexists>sb. verified = [sb]"
  shows "status (map_event mid now (binding_indices get_components body verified) (runtime_of body)) \<in> {UNRESOLVED, INVALID}"
proof -
  have "binding_indices get_components body verified = []"
    using assms by (auto simp: binding_indices_def split: list.split)
  then have "\<not> indexed (binding_indices get_components body verified) (runtime_of body) d idx" for d idx
    by (simp add: indexed_def)
  then show ?thesis by (rule map_event_unindexed(1) [OF _ refl])
qed

text \<open>
  A mapping over the index of the route is verified exactly by one hash entry of the one document.\<close>

lemma binding_verified:
  assumes "rq_container_id body \<noteq> []" "rq_image_digest body \<noteq> []"
    and r: "r = map_event mid now (binding_indices get_components body verified) (runtime_of body)"
  shows "status r = VERIFIED \<and> selected_purl r = p \<longleftrightarrow>
    (\<exists>sb h. verified = [sb] \<and> rq_executable_hash body = Some h \<and> h \<noteq> [] \<and>
       {q. (normalized_hash h, q) \<in>
           set (document_hashes (get_components (sb_sbom_id sb) (rq_tenant_id body)) (cyclonedx_document sb))} = {p})"
proof (cases "\<exists>sb. verified = [sb]")
  case True
  then obtain sb where sb: "verified = [sb]" by blast
  let ?cs = "get_components (sb_sbom_id sb) (rq_tenant_id body)"
  let ?idx = "build sb ?cs (Some (cyclonedx_file_inventory (cyclonedx_document sb)))"
  have i: "indexed (binding_indices get_components body verified) (runtime_of body) (rq_image_digest body) ?idx"
    using assms(1, 2) by (simp add: indexed_def binding_indices_def sb dict_get_def)
  have hashes: "set_at (hash_to_purls ?idx) k = {q. (k, q) \<in> set (document_hashes ?cs (cyclonedx_document sb))}" for k
    by (auto simp: build_contents)
  have "status r = VERIFIED \<and> selected_purl r = p \<longleftrightarrow> fst (hash_tier ?idx (process (runtime_of body))) = [p]"
    unfolding r by (rule verified_selects [OF i])
  then show ?thesis unfolding hash_tier_single [OF build_wf] hashes by (simp add: sb)
next
  case False
  have "status r \<in> {UNRESOLVED, INVALID}" unfolding r by (rule binding_unindexed [OF False])
  with False show ?thesis by auto
qed

text \<open>
  C14: A binding names a component exactly when the tenant has one verified SBOM for the digest and its
  document lists the executable's hash for that stored component alone. A named component comes with
  full confidence, and the binding is reported as unbound exactly when the tenant has no SBOM.
\<close>

theorem binding_names_component:
  assumes rq: "rq_container_id body \<noteq> []" "rq_image_digest body \<noteq> []"
    and records: "records = get_by_image_digest (rq_image_digest body) (rq_tenant_id body)"
    and verified: "verified = filter (\<lambda>sb. verification_status sb = VS_VERIFIED) records"
    and rows: "\<And>sb. sb \<in> set records \<Longrightarrow>
      sb_sbom_id sb \<noteq> [] \<and> [] \<notin> set (get_components (sb_sbom_id sb) (rq_tenant_id body))"
  shows "\<exists>pl. map_runtime_binding get_by_image_digest get_components mid now body = Inr pl \<and>
    (\<forall>p. pl_purl pl = Some p \<longleftrightarrow>
      (\<exists>sb h. verified = [sb] \<and> rq_executable_hash body = Some h \<and> h \<noteq> [] \<and>
         {q. (normalized_hash h, q) \<in>
           set (document_hashes (get_components (sb_sbom_id sb) (rq_tenant_id body)) (cyclonedx_document sb))} = {p})) \<and>
    pl_confidence pl = map_option (\<lambda>p. 1) (pl_purl pl) \<and>
    (pl_binding_status pl = ''bound'' \<longleftrightarrow> pl_purl pl \<noteq> None) \<and>
    (pl_binding_status pl = ''unbound'' \<longleftrightarrow> records = [])"
proof -
  define r where "r = map_event mid now (binding_indices get_components body verified) (runtime_of body)"
  have "sb \<in> set records" if "verified = [sb]" for sb
    using that verified filter_is_subset [of "\<lambda>sb. verification_status sb = VS_VERIFIED" records] by simp
  then have rows': "sb_sbom_id sb \<noteq> [] \<and> [] \<notin> set (get_components (sb_sbom_id sb) (rq_tenant_id body))"
    if "verified = [sb]" for sb using rows that by blast
  obtain pl where pl: "to_causal_binding_payload r = Inr pl"
      "pl_purl pl = (if status r = VERIFIED then Some (selected_purl r) else None)"
      "pl_confidence pl = (if status r = VERIFIED then Some 1 else None)"
      "pl_binding_status pl = ''bound'' \<longleftrightarrow> status r = VERIFIED"
      "pl_binding_status pl = ''unbound'' \<longleftrightarrow>
         status r \<noteq> VERIFIED \<and> status r \<noteq> AMBIGUOUS \<and> (\<nexists>sb. verified = [sb])"
    using binding_payload [OF rq rows' r_def] by blast
  have named: "pl_purl pl = Some p \<longleftrightarrow>
      (\<exists>sb h. verified = [sb] \<and> rq_executable_hash body = Some h \<and> h \<noteq> [] \<and>
         {q. (normalized_hash h, q) \<in>
           set (document_hashes (get_components (sb_sbom_id sb) (rq_tenant_id body)) (cyclonedx_document sb))} = {p})" for p
  proof -
    have "pl_purl pl = Some p \<longleftrightarrow> status r = VERIFIED \<and> selected_purl r = p" by (simp add: pl(2))
    then show ?thesis unfolding binding_verified [OF rq r_def] .
  qed
  have bound: "pl_confidence pl = map_option (\<lambda>p. 1) (pl_purl pl)" "pl_binding_status pl = ''bound'' \<longleftrightarrow> pl_purl pl \<noteq> None"
    by (simp_all add: pl)
  have eq: "map_runtime_binding get_by_image_digest get_components mid now body =
      Inr (if length verified > 1 then
             pl\<lparr>pl_binding_status := ''insufficient_evidence'', pl_sbom_id := None, pl_purl := None,
                pl_confidence := None, pl_candidate_purls := [],
                pl_reason := Some ''multiple verified SBOM documents match the image digest''\<rparr>
           else if records \<noteq> [] \<and> verified = [] then
             pl\<lparr>pl_binding_status := ''insufficient_evidence'', pl_sbom_id := None, pl_purl := None,
                pl_confidence := None, pl_reason := Some ''matching SBOM exists but has not passed verification''\<rparr>
           else pl)"
    unfolding map_runtime_binding_def Let_def records [symmetric] verified [symmetric] r_def [symmetric] pl(1)
    by simp
  have none_verified: "verified = []" if "records = []" using verified that by simp
  have "verified = [] \<or> (\<exists>sb. verified = [sb]) \<or> length verified > 1"
    by (cases verified rule: remdups_adj.cases) simp_all
  then consider (one) sb where "verified = [sb]" | (unnamed) "\<nexists>sb. verified = [sb]" "records \<noteq> []"
    | (none) "records = []" "verified = []"
    using none_verified by auto
  then show ?thesis
  proof cases
    case one
    then have "records \<noteq> []" using verified by auto
    with one eq have "map_runtime_binding get_by_image_digest get_components mid now body = Inr pl" by simp
    then show ?thesis
      using named bound pl(5) one \<open>records \<noteq> []\<close> by (intro exI [of _ pl] conjI allI) (assumption | simp)+
  next
    case unnamed
    then have "length verified > 1 \<or> verified = []" by (cases verified rule: remdups_adj.cases) simp_all
    with unnamed show ?thesis unfolding eq by (elim disjE) simp_all
  next
    case none
    have "status r \<in> {UNRESOLVED, INVALID}" unfolding r_def by (rule binding_unindexed) (simp add: none)
    then have "pl_binding_status pl = ''unbound'' \<longleftrightarrow> records = []" using pl(5) none by auto
    then show ?thesis using named bound eq none by (intro exI [of _ pl] conjI allI) (assumption | simp)+
  qed
qed

definition demo_body :: "nat binding_request" where
  "demo_body =
     \<lparr>rq_event_id = ''e'', rq_run_id = [], rq_tenant_id = ''t'', rq_event_type = ''exec'', rq_observed_at = 0,
      rq_container_id = ''c'', rq_image_digest = ''sha256:d'', rq_pod_uid = None, rq_namespace = None,
      rq_workload_name = None, rq_tgid = 1, rq_pid_start_time_ns = 2, rq_executable_path = None,
      rq_executable_hash = Some (replicate 64 (CHR ''A'')), rq_comm = None, rq_uid = None,
      rq_resource_path = None, rq_resource_hash = None\<rparr>"

theorem binding_names_component_witness:
  "\<exists>pl. map_runtime_binding (\<lambda>d t. [demo_sbom]) (\<lambda>s t. [''pkg:a'', ''pkg:b'']) ''m'' 0 demo_body = Inr pl \<and>
     pl_purl pl = Some ''pkg:a'' \<and> pl_confidence pl = Some 1"
proof -
  let ?h = "replicate 64 (CHR ''A'')"
  have hashes: "document_hashes [''pkg:a'', ''pkg:b''] (cyclonedx_document demo_sbom) = [(normalized_hash ?h, ''pkg:a'')]"
    by code_simp
  have verified: "filter (\<lambda>sb. verification_status sb = VS_VERIFIED) [demo_sbom] = [demo_sbom]"
    by (simp add: demo_sbom_def)
  have rq: "rq_container_id demo_body \<noteq> []" "rq_image_digest demo_body \<noteq> []" by (simp_all add: demo_body_def)
  have rows: "sb_sbom_id sb \<noteq> [] \<and> [] \<notin> set [''pkg:a'', ''pkg:b'']" if "sb \<in> set [demo_sbom]" for sb
    using that by (simp add: demo_sbom_def)
  define run where "run = map_runtime_binding (\<lambda>d t. [demo_sbom]) (\<lambda>s t. [''pkg:a'', ''pkg:b'']) ''m'' 0 demo_body"
  define names where "names p \<longleftrightarrow> (\<exists>sb h. [demo_sbom] = [sb] \<and> rq_executable_hash demo_body = Some h \<and> h \<noteq> [] \<and>
      {q. (normalized_hash h, q) \<in> set (document_hashes [''pkg:a'', ''pkg:b''] (cyclonedx_document sb))} = {p})" for p
  have "\<exists>pl. run = Inr pl \<and> (\<forall>p. pl_purl pl = Some p \<longleftrightarrow> names p) \<and>
    pl_confidence pl = map_option (\<lambda>p. 1) (pl_purl pl) \<and>
    (pl_binding_status pl = ''bound'' \<longleftrightarrow> pl_purl pl \<noteq> None) \<and>
    (pl_binding_status pl = ''unbound'' \<longleftrightarrow> [demo_sbom] = [])"
    unfolding run_def names_def by (rule binding_names_component [OF rq refl verified [symmetric] rows])
  then obtain pl where pl: "run = Inr pl" "pl_purl pl = Some ''pkg:a'' \<longleftrightarrow> names ''pkg:a''"
      "pl_confidence pl = map_option (\<lambda>p. 1) (pl_purl pl)"
    by blast
  have "rq_executable_hash demo_body = Some ?h" by (simp add: demo_body_def)
  moreover have "{q. (normalized_hash ?h, q) \<in> set (document_hashes [''pkg:a'', ''pkg:b''] (cyclonedx_document demo_sbom))} = {''pkg:a''}"
    unfolding hashes by simp
  moreover have "?h \<noteq> []" by simp
  ultimately have "pl_purl pl = Some ''pkg:a''" unfolding pl(2) names_def by blast
  with pl(1, 3) show ?thesis by (simp add: run_def)
qed

end
