(* ===== verification/Sbom_Metrics.thy ===== *)
theory Sbom_Metrics
  imports Sbom_Resolver
begin

text \<open>
  The quality report over a batch of mappings, \<open>domain/mapping/metrics.py\<close>: counts by status, rates, and
  precision, recall and accuracy against labels. Quotients are exact and a note is represented by what
  it says. The lemmas show the bounds of the ratios, and that recall is unbounded once an event is
  mapped more than once.
\<close>

section \<open>The report\<close>

datatype metric_note = NO_RESULTS | NO_GROUND_TRUTH | PRECISION_UNDEFINED | RECALL_UNDEFINED

record quality_report =
  n_total :: nat
  n_verified :: nat
  n_inferred :: nat
  n_ambiguous :: nat
  n_unresolved :: nat
  n_invalid :: nat
  unresolved_rate :: real
  ambiguous_rate :: real
  invalid_rate :: real
  precision :: "real option"
  recall :: "real option"
  exact_match_accuracy :: "real option"
  candidate_set_accuracy :: "real option"
  ground_truth_available :: bool
  report_notes :: "metric_note list"

definition empty_report :: "nat \<Rightarrow> quality_report" where
  "empty_report n =
     \<lparr>n_total = n, n_verified = 0, n_inferred = 0, n_ambiguous = 0, n_unresolved = 0, n_invalid = 0,
      unresolved_rate = 0, ambiguous_rate = 0, invalid_rate = 0, precision = None, recall = None,
      exact_match_accuracy = None, candidate_set_accuracy = None, ground_truth_available = False,
      report_notes = []\<rparr>"

text \<open>One round of the counting loop.\<close>

definition count_result :: "'time mapping_result \<Rightarrow> quality_report \<Rightarrow> quality_report" where
  "count_result r report =
     (case status r of
        VERIFIED \<Rightarrow> report\<lparr>n_verified := n_verified report + 1\<rparr>
      | INFERRED \<Rightarrow> report\<lparr>n_inferred := n_inferred report + 1\<rparr>
      | AMBIGUOUS \<Rightarrow> report\<lparr>n_ambiguous := n_ambiguous report + 1\<rparr>
      | UNRESOLVED \<Rightarrow> report\<lparr>n_unresolved := n_unresolved report + 1\<rparr>
      | INVALID \<Rightarrow> report\<lparr>n_invalid := n_invalid report + 1\<rparr>)"

definition status_counts :: "'time mapping_result list \<Rightarrow> quality_report" where
  "status_counts results =
     (let n = length results;
          report = fold count_result results (empty_report n)
      in report\<lparr>unresolved_rate := n_unresolved report / n,
                ambiguous_rate := n_ambiguous report / n,
                invalid_rate := n_invalid report / n\<rparr>)"

section \<open>Against labels\<close>

type_synonym labels = "(string, string) dict"

definition labelled :: "labels \<Rightarrow> 'time mapping_result \<Rightarrow> bool" where
  "labelled gt r \<longleftrightarrow> res_event_id r \<in> set (dict_keys gt)"

definition label_of :: "labels \<Rightarrow> 'time mapping_result \<Rightarrow> string" where
  "label_of gt r = the (dict_get gt (res_event_id r))"

definition exact_matches :: "labels \<Rightarrow> 'time mapping_result list \<Rightarrow> nat" where
  "exact_matches gt results =
     length (filter (\<lambda>r. truthy_text (dict_get gt (res_event_id r)) \<and>
       selected_purl r = the (dict_get gt (res_event_id r))) results)"

definition actionable :: "labels \<Rightarrow> 'time mapping_result list \<Rightarrow> 'time mapping_result list" where
  "actionable gt results = filter (\<lambda>r. status r \<in> {VERIFIED, INFERRED} \<and> labelled gt r) results"

definition correct :: "labels \<Rightarrow> 'time mapping_result list \<Rightarrow> nat" where
  "correct gt results = length (filter (\<lambda>r. selected_purl r = label_of gt r) results)"

definition gt_event_ids :: "labels \<Rightarrow> 'time mapping_result list \<Rightarrow> string set" where
  "gt_event_ids gt results = set (map res_event_id (filter (labelled gt) results))"

definition ambig_with_gt :: "labels \<Rightarrow> 'time mapping_result list \<Rightarrow> 'time mapping_result list" where
  "ambig_with_gt gt results = filter (\<lambda>r. status r = AMBIGUOUS \<and> labelled gt r) results"

text \<open>The calculator: \<open>MappingQualityMetrics(results, ground_truth).compute()\<close>.\<close>

definition compute :: "'time mapping_result list \<Rightarrow> labels option \<Rightarrow> quality_report" where
  "compute results ground_truth =
     (let gt = (case ground_truth of None \<Rightarrow> [] | Some g \<Rightarrow> g);
          n = length results
      in if n = 0 then
           (empty_report n)\<lparr>report_notes := [NO_RESULTS]\<rparr>
         else if gt = [] then
           (status_counts results)
             \<lparr>report_notes := [NO_GROUND_TRUTH]\<rparr>
         else
           (let act = actionable gt results;
                ids = gt_event_ids gt results;
                ambig = ambig_with_gt gt results
            in (status_counts results)
                 \<lparr>ground_truth_available := True,
                  exact_match_accuracy := Some (exact_matches gt results / n),
                  precision := (if act \<noteq> [] then Some (correct gt act / length act) else None),
                  recall :=
                    (if ids \<noteq> {} then Some (correct gt (filter (labelled gt) results) / card ids) else None),
                  candidate_set_accuracy :=
                    (if ambig \<noteq> []
                     then Some (length (filter (\<lambda>r. label_of gt r \<in> set (candidate_purls r)) ambig) / length ambig)
                     else None),
                  report_notes :=
                    (if act \<noteq> [] then []
                     else [PRECISION_UNDEFINED]) @
                    (if ids \<noteq> {} then []
                     else [RECALL_UNDEFINED])\<rparr>))"

section \<open>Bounds\<close>

lemma fold_count_result:
  "fold count_result results rep =
     rep\<lparr>n_verified := n_verified rep + length (filter (\<lambda>r. status r = VERIFIED) results),
         n_inferred := n_inferred rep + length (filter (\<lambda>r. status r = INFERRED) results),
         n_ambiguous := n_ambiguous rep + length (filter (\<lambda>r. status r = AMBIGUOUS) results),
         n_unresolved := n_unresolved rep + length (filter (\<lambda>r. status r = UNRESOLVED) results),
         n_invalid := n_invalid rep + length (filter (\<lambda>r. status r = INVALID) results)\<rparr>"
proof (induction results arbitrary: rep)
  case (Cons r results)
  then show ?case by (cases "status r") (simp_all add: count_result_def)
qed simp

lemma status_total:
  "length (filter (\<lambda>r. status r = VERIFIED) rs) + length (filter (\<lambda>r. status r = INFERRED) rs) +
   length (filter (\<lambda>r. status r = AMBIGUOUS) rs) + length (filter (\<lambda>r. status r = UNRESOLVED) rs) +
   length (filter (\<lambda>r. status r = INVALID) rs) = length rs"
proof (induction rs)
  case (Cons r rs)
  then show ?case by (cases "status r") simp_all
qed simp

lemma quotient_bounds: "m \<le> n \<Longrightarrow> 0 \<le> real m / real n \<and> real m / real n \<le> 1"
  by (cases "n = 0") (simp_all add: divide_le_eq_1)

lemma filter_quotient: "0 \<le> real (length (filter P xs)) / real (length xs) \<and> real (length (filter P xs)) / real (length xs) \<le> 1"
  by (intro quotient_bounds length_filter_le)

lemma distinct_ids_card:
  assumes "distinct (map res_event_id rs)"
  shows "card (gt_event_ids gt rs) = length (filter (labelled gt) rs)"
proof -
  have "distinct (map res_event_id (filter (labelled gt) rs))"
    using assms by (simp add: distinct_map_filter)
  then show ?thesis by (simp only: gt_event_ids_def distinct_card length_map)
qed

text \<open>Every defined ratio of a report.\<close>

definition ratios :: "quality_report \<Rightarrow> real list" where
  "ratios q = [unresolved_rate q, ambiguous_rate q, invalid_rate q] @
     concat (map (\<lambda>x. case x of None \<Rightarrow> [] | Some v \<Rightarrow> [v])
       [precision q, recall q, exact_match_accuracy q, candidate_set_accuracy q])"

lemma compute_fields:
  assumes "results \<noteq> []"
  shows "unresolved_rate (compute results gt) = length (filter (\<lambda>r. status r = UNRESOLVED) results) / length results"
    "ambiguous_rate (compute results gt) = length (filter (\<lambda>r. status r = AMBIGUOUS) results) / length results"
    "invalid_rate (compute results gt) = length (filter (\<lambda>r. status r = INVALID) results) / length results"
    "n_total (compute results gt) = length results"
    "n_verified (compute results gt) = length (filter (\<lambda>r. status r = VERIFIED) results)"
    "n_inferred (compute results gt) = length (filter (\<lambda>r. status r = INFERRED) results)"
    "n_ambiguous (compute results gt) = length (filter (\<lambda>r. status r = AMBIGUOUS) results)"
    "n_unresolved (compute results gt) = length (filter (\<lambda>r. status r = UNRESOLVED) results)"
    "n_invalid (compute results gt) = length (filter (\<lambda>r. status r = INVALID) results)"
  using assms by (simp_all add: compute_def status_counts_def Let_def fold_count_result empty_report_def)

lemma compute_labelled:
  assumes "results \<noteq> []" "gt \<noteq> []"
  shows "precision (compute results (Some gt)) =
      (if actionable gt results \<noteq> []
       then Some (correct gt (actionable gt results) / length (actionable gt results)) else None)"
    "recall (compute results (Some gt)) =
      (if gt_event_ids gt results \<noteq> {}
       then Some (correct gt (filter (labelled gt) results) / card (gt_event_ids gt results)) else None)"
    "exact_match_accuracy (compute results (Some gt)) = Some (exact_matches gt results / length results)"
    "candidate_set_accuracy (compute results (Some gt)) =
      (if ambig_with_gt gt results \<noteq> []
       then Some (length (filter (\<lambda>r. label_of gt r \<in> set (candidate_purls r)) (ambig_with_gt gt results)) /
         length (ambig_with_gt gt results)) else None)"
  using assms by (simp_all add: compute_def Let_def)

text \<open>
  The counts of a report add up to the number of mappings, and every ratio it defines lies between 0
  and 1, provided that no event was mapped twice.
\<close>

theorem compute_bounds:
  assumes "distinct (map res_event_id results)"
  shows "n_verified (compute results (Some gt)) + n_inferred (compute results (Some gt)) +
      n_ambiguous (compute results (Some gt)) + n_unresolved (compute results (Some gt)) +
      n_invalid (compute results (Some gt)) = length results \<and>
    list_all (\<lambda>x. 0 \<le> x \<and> x \<le> 1) (ratios (compute results (Some gt)))"
proof (cases "results = []")
  case True
  then show ?thesis by (simp add: compute_def empty_report_def ratios_def Let_def)
next
  case False
  have rates: "list_all (\<lambda>x. 0 \<le> x \<and> x \<le> 1)
      [unresolved_rate (compute results (Some gt)), ambiguous_rate (compute results (Some gt)),
       invalid_rate (compute results (Some gt))]"
    using filter_quotient [where xs = results] by (simp add: compute_fields [OF False])
  have "\<forall>v. x = Some v \<longrightarrow> 0 \<le> v \<and> v \<le> 1"
    if x: "x \<in> {precision (compute results (Some gt)), recall (compute results (Some gt)),
      exact_match_accuracy (compute results (Some gt)), candidate_set_accuracy (compute results (Some gt))}" for x
  proof (cases "gt = []")
    case True
    then show ?thesis
      using x False by (auto simp: compute_def status_counts_def Let_def fold_count_result empty_report_def)
  next
    case gt: False
    have "correct gt (filter (labelled gt) results) \<le> card (gt_event_ids gt results)"
      unfolding distinct_ids_card [OF assms] correct_def by (rule length_filter_le)
    then show ?thesis
      using x quotient_bounds filter_quotient
      unfolding compute_labelled [OF False gt] by (auto simp: correct_def exact_matches_def split: if_split_asm)
  qed
  then have "list_all (\<lambda>x. 0 \<le> x \<and> x \<le> 1) (ratios (compute results (Some gt)))"
    using rates by (auto simp: ratios_def list_all_iff split: option.split_asm)
  then show ?thesis by (simp add: compute_fields [OF False] status_total)
qed

definition demo_result :: "nat mapping_result" where
  "demo_result = map_event ''m'' 0 demo_index (demo_event None (Some (replicate 64 (CHR ''A''))) None)"

lemma demo_result_fields: "is_resolved demo_result" "selected_purl demo_result = ''pkg:a''" "res_event_id demo_result = ''e''"
  by code_simp+

theorem compute_bounds_witness:
  "list_all (\<lambda>x. 0 \<le> x \<and> x \<le> 1) (ratios (compute [demo_result] (Some [(''e'', ''pkg:a'')])))"
  using compute_bounds [of "[demo_result]" "[(''e'', ''pkg:a'')]"] by simp

text \<open>
  Recall counts every mapping of an event but each event once: \<open>n\<close> correct mappings of one labelled event
  have recall \<open>n\<close>, and precision and accuracy 1.
\<close>

theorem recall_counts_repeats:
  assumes "0 < n" "dict_get gt (res_event_id r) = Some (selected_purl r)" "is_resolved r" "selected_purl r \<noteq> []"
  shows "recall (compute (replicate n r) (Some gt)) = Some (real n) \<and>
    precision (compute (replicate n r) (Some gt)) = Some 1 \<and>
    exact_match_accuracy (compute (replicate n r) (Some gt)) = Some 1"
proof -
  have gt: "gt \<noteq> []" "labelled gt r" "label_of gt r = selected_purl r"
    using assms(2) by (auto simp: dict_get_def labelled_def label_of_def dict_keys_def dest: map_of_SomeD intro: rev_image_eqI)
  have rs: "replicate n r \<noteq> []" using assms(1) by simp
  have lists: "filter (labelled gt) (replicate n r) = replicate n r" "actionable gt (replicate n r) = replicate n r"
      "correct gt (replicate n r) = n" "exact_matches gt (replicate n r) = n"
    using gt assms(2-4)
    by (simp_all add: actionable_def correct_def exact_matches_def is_resolved_def truthy_text_def filter_replicate)
  have "gt_event_ids gt (replicate n r) = {res_event_id r}"
    using assms(1) unfolding gt_event_ids_def lists by simp
  then show ?thesis
    unfolding compute_labelled [OF rs gt(1)] lists using assms(1) by simp
qed

theorem recall_counts_repeats_witness:
  "recall (compute (replicate 3 demo_result) (Some [(''e'', ''pkg:a'')])) = Some (real 3)"
  using recall_counts_repeats [of 3 "[(''e'', ''pkg:a'')]" demo_result] demo_result_fields
  by (simp add: dict_get_def)

end
