(* ===== verification/Sbom_Cosign.thy ===== *)
theory Sbom_Cosign
  imports Sbom_Evidence Sbom_Entities
begin

text \<open>
  The cosign adapter, \<open>infrastructure/cosign/client.py\<close>: the trust policy, the command line, the
  classification of a failed run, the match of the attested document with the stored one, and the
  details read from the output. The run of the binary, the search of the path, JSON and base64 decoding
  and SHA-256 are arguments.

  The lemmas show exactly when an SBOM is marked verified, and which failures count as transient.
\<close>

section \<open>The client\<close>

record cosign_client =
  cosign_path :: string
  timeout_text :: string
  rekor_url :: string
  trusted_identity :: "string option"
  trusted_issuer :: "string option"

text \<open>What the binary did, with its output as decoded text.\<close>

datatype run_outcome =
    Completed int string string
  | TimeoutExpired
  | FileNotFound string

datatype verify_error =
    SignatureError string
  | ServiceUnavailable string
  | OtherError py_error

text \<open>The functions of the standard library and the operating system the adapter calls.\<close>

record runtime =
  which :: "string \<Rightarrow> string option"
  run_binary :: "string list \<Rightarrow> run_outcome"
  parse_json :: "string \<Rightarrow> json option"
  b64decode :: "string \<Rightarrow> string option"
  sha256_doc :: "json \<Rightarrow> string"

definition resolve_cosign_binary :: "runtime \<Rightarrow> cosign_client \<Rightarrow> verify_error + string" where
  "resolve_cosign_binary rt c =
     (case which rt (cosign_path c) of
        None \<Rightarrow>
          Inl (ServiceUnavailable
            (''cosign binary not found at '' @ py_repr (cosign_path c) @ ''; ensure cosign is installed and on PATH''))
      | Some resolved \<Rightarrow> Inr resolved)"

definition validate_trust_request :: "cosign_client \<Rightarrow> string \<Rightarrow> string \<Rightarrow> bool \<Rightarrow> verify_error + unit" where
  "validate_trust_request c identity issuer rekor =
     (if \<not> truthy_text (trusted_identity c) \<or> \<not> truthy_text (trusted_issuer c) then
        Inl (ServiceUnavailable ''server signer identity and issuer trust policy is not configured'')
      else if Some identity \<noteq> trusted_identity c \<or> Some issuer \<noteq> trusted_issuer c then
        Inl (SignatureError ''requested signer identity and issuer do not match server trust policy'')
      else if \<not> rekor then
        Inl (SignatureError ''keyless SBOM verification requires transparency-log verification'')
      else Inr ())"

section \<open>Failures\<close>

definition COSIGN_UNAVAILABLE_PHRASES :: "string list" where
  "COSIGN_UNAVAILABLE_PHRASES =
     [''connection refused'', ''connection reset'', ''timeout'', ''tls handshake'', ''dial tcp'', ''i/o timeout'',
      ''EOF'', ''network unreachable'']"

definition transient_failure :: "string \<Rightarrow> bool" where
  "transient_failure stderr_text \<longleftrightarrow> list_ex (contains (lower stderr_text)) COSIGN_UNAVAILABLE_PHRASES"

section \<open>The attested document\<close>

text \<open>Equality of JSON values in Python: fields in any order, and \<open>True\<close> equals 1.\<close>

fun eq_norm :: "json \<Rightarrow> json" where
  "eq_norm (JArr xs) = JArr (map eq_norm xs)"
| "eq_norm (JObj fs) = JObj (sort_key fst (map (\<lambda>f. (fst f, eq_norm (snd f))) fs))"
| "eq_norm JNull = JNull"
| "eq_norm (JBool b) = JNum (if b then 1 else 0)"
| "eq_norm (JNum r) = JNum r"
| "eq_norm (JStr s) = JStr s"

definition json_eq :: "json \<Rightarrow> json \<Rightarrow> bool" where
  "json_eq a b \<longleftrightarrow> eq_norm a = eq_norm b"

text \<open>\<open>str.splitlines\<close> on the code points below 256.\<close>

definition is_break :: "char \<Rightarrow> bool" where
  "is_break c \<longleftrightarrow> (of_char c :: nat) \<in> {10, 11, 12, 13, 28, 29, 30, 133}"

function splitlines_from :: "string \<Rightarrow> string \<Rightarrow> string list" where
  "splitlines_from acc [] = (if acc = [] then [] else [rev acc])"
| "splitlines_from acc (c # cs) =
     (if is_break c
      then rev acc # splitlines_from []
        (if (of_char c :: nat) = 13 \<and> cs \<noteq> [] \<and> (of_char (hd cs) :: nat) = 10 then tl cs else cs)
      else splitlines_from (c # acc) cs)"
  by pat_completeness auto
termination by (relation "measure (\<lambda>(acc, cs). length cs)") (auto simp: neq_Nil_conv)

definition splitlines :: "string \<Rightarrow> string list" where
  "splitlines text = splitlines_from [] text"

definition STATEMENT_TYPES :: "string list" where
  "STATEMENT_TYPES = [''https://in-toto.io/Statement/v0.1'', ''https://in-toto.io/Statement/v1'']"

text \<open>The single subject of a statement: its digest is the image's and nothing else.\<close>

definition subject_match :: "string \<Rightarrow> json option \<Rightarrow> bool" where
  "subject_match image_digest subjects =
     (case subjects of
        Some (JArr [JObj sfs]) \<Rightarrow>
          (case dict_get sfs ''digest'' of
             Some (JObj dfs) \<Rightarrow> json_eq (JObj dfs) (JObj [(''sha256'', JStr (drop 7 image_digest))])
           | _ \<Rightarrow> False)
      | _ \<Rightarrow> False)"

definition statement_match :: "(json \<Rightarrow> string) \<Rightarrow> 'time sbom \<Rightarrow> (string \<times> json) list \<Rightarrow> bool" where
  "statement_match sha sb statement \<longleftrightarrow>
     (case dict_get statement ''_type'' of Some (JStr t) \<Rightarrow> t \<in> set STATEMENT_TYPES | _ \<Rightarrow> False) \<and>
     dict_get statement ''predicateType'' = Some (JStr ''https://cyclonedx.org/bom'') \<and>
     (case dict_get statement ''predicate'' of
        Some (JObj predicate) \<Rightarrow>
          json_eq (JObj predicate) (JObj (cyclonedx_document sb)) \<and>
          subject_match (sb_image_digest sb) (dict_get statement ''subject'') \<and>
          compute_digest sha predicate = Inr (sb_sbom_digest sb)
      | _ \<Rightarrow> False)"

definition envelope_match :: "runtime \<Rightarrow> 'time sbom \<Rightarrow> string \<Rightarrow> bool" where
  "envelope_match rt sb line =
     (case parse_json rt line of
        Some (JObj envelope) \<Rightarrow>
          (case dict_get envelope ''payload'' of
             Some (JStr encoded) \<Rightarrow>
               (case b64decode rt encoded of
                  None \<Rightarrow> False
                | Some text \<Rightarrow>
                    (case parse_json rt text of
                       Some (JObj statement) \<Rightarrow> statement_match (sha256_doc rt) sb statement
                     | _ \<Rightarrow> False))
           | _ \<Rightarrow> False)
      | _ \<Rightarrow> False)"

definition matching_cyclonedx_attestation :: "runtime \<Rightarrow> string \<Rightarrow> 'time sbom \<Rightarrow> bool" where
  "matching_cyclonedx_attestation rt stdout sb = list_ex (envelope_match rt sb) (splitlines stdout)"

section \<open>Details of a successful run\<close>

definition is_hex_ci :: "char \<Rightarrow> bool" where
  "is_hex_ci c \<longleftrightarrow> c \<in> set ''0123456789abcdefABCDEF''"

text \<open>The first run of 64 hexadecimal digits.\<close>

fun find_hex64 :: "string \<Rightarrow> string option" where
  "find_hex64 [] = None"
| "find_hex64 (c # cs) =
     (if length (takeWhile is_hex_ci (c # cs)) \<ge> 64 then Some (take 64 (c # cs)) else find_hex64 cs)"

text \<open>\<open>d.get(k, v)\<close> on an optional object, as for \<open>cert\<close> and \<open>optional\<close>.\<close>

definition detail_of :: "(string \<times> json) list \<Rightarrow> string \<Rightarrow> string \<Rightarrow> json \<Rightarrow> json" where
  "detail_of first part k v =
     (case json_field first part (JObj []) of JObj fs \<Rightarrow> json_field fs k v | _ \<Rightarrow> v)"

definition extract_verification_details ::
    "runtime \<Rightarrow> string \<Rightarrow> string \<Rightarrow> verify_error + (json \<times> json \<times> string option)" where
  "extract_verification_details rt stdout stderr =
     (let rekor = map_option (\<lambda>h. lower (take 32 h)) (find_hex64 stderr)
      in case parse_json rt stdout of
           Some (JArr (JObj first # _)) \<Rightarrow>
             Inr (detail_of first ''optional'' ''Subject'' (detail_of first ''cert'' ''subject'' (JStr ''unknown'')),
                  detail_of first ''optional'' ''Issuer'' (detail_of first ''cert'' ''issuer'' (JStr ''unknown'')),
                  rekor)
         | Some (JArr (_ # _)) \<Rightarrow> Inl (OtherError AttributeError)
         | _ \<Rightarrow> Inr (JStr ''unknown'', JStr ''unknown'', rekor))"

section \<open>Verification\<close>

definition build_argv :: "cosign_client \<Rightarrow> string \<Rightarrow> string \<Rightarrow> string \<Rightarrow> bool \<Rightarrow> string \<Rightarrow> string list" where
  "build_argv c binary identity issuer rekor reference =
     [binary, ''verify-attestation'', ''--certificate-identity'', identity, ''--certificate-oidc-issuer'', issuer,
      ''--type'', ''cyclonedx'', ''--rekor-url'', rekor_url c, reference] @
     (if \<not> rekor then [''--insecure-ignore-tlog''] else [])"

definition lift_error :: "'a py_result \<Rightarrow> verify_error + 'a" where
  "lift_error x = (case x of Inl e \<Rightarrow> Inl (OtherError e) | Inr a \<Rightarrow> Inr a)"

text \<open>What follows a run that ended, by its exit code.\<close>

definition after_run ::
    "runtime \<Rightarrow> 'time \<Rightarrow> 'time sbom \<Rightarrow> string \<Rightarrow> string \<Rightarrow> int \<Rightarrow> string \<Rightarrow> string \<Rightarrow> verify_error + 'time sbom" where
  "after_run rt now sb identity issuer returncode stdout stderr =
     (if returncode \<noteq> 0 then
        (if transient_failure stderr then
           Inl (ServiceUnavailable (''cosign could not reach Sigstore services: '' @ take 256 stderr))
         else
           py_bind (lift_error (mark_verification_failed
               (if stderr \<noteq> [] then take 512 stderr else ''cosign exit code '' @ show_int returncode) sb))
             (\<lambda>_. Inl (SignatureError (take 512 stderr))))
      else if \<not> matching_cyclonedx_attestation rt stdout sb then
        Inl (SignatureError ''verified attestation does not bind the indexed CycloneDX SBOM and image digest'')
      else
        py_bind (extract_verification_details rt stdout stderr) (\<lambda>(found_identity, found_issuer, rekor).
          lift_error (mark_verified
            (Some (if found_identity = JStr ''unknown'' then JStr identity else found_identity))
            (Some (if found_issuer = JStr ''unknown'' then JStr issuer else found_issuer))
            (Aware now) rekor sb)))"

definition verify ::
    "runtime \<Rightarrow> cosign_client \<Rightarrow> 'time \<Rightarrow> 'time sbom \<Rightarrow> string \<Rightarrow> string \<Rightarrow> bool \<Rightarrow> verify_error + 'time sbom" where
  "verify rt c now sb identity issuer rekor =
     py_bind (validate_trust_request c identity issuer rekor) (\<lambda>_.
       if \<not> truthy_text (image_reference sb) then
         Inl (ServiceUnavailable
           ''immutable registry/repository@digest reference is required; a bare image digest cannot locate the attached attestation'')
       else if \<not> ends_with (the (image_reference sb)) (CHR ''@'' # sb_image_digest sb) then
         Inl (SignatureError ''stored immutable image reference does not match image digest'')
       else
         py_bind (resolve_cosign_binary rt c) (\<lambda>binary.
           case run_binary rt (build_argv c binary identity issuer rekor (the (image_reference sb))) of
             TimeoutExpired \<Rightarrow>
               Inl (ServiceUnavailable
                 (''cosign timed out after '' @ timeout_text c @ ''s; Sigstore services may be unreachable''))
           | FileNotFound exc \<Rightarrow> Inl (ServiceUnavailable (''cosign binary disappeared: '' @ exc))
           | Completed returncode stdout stderr \<Rightarrow> after_run rt now sb identity issuer returncode stdout stderr))"

section \<open>What verification establishes\<close>

lemma lift_error_Inr: "lift_error x = Inr a \<longleftrightarrow> x = Inr a"
  by (cases x) (simp_all add: lift_error_def)

lemma validate_trust_Inr:
  "validate_trust_request c identity issuer rekor = Inr u \<longleftrightarrow>
     trusted_identity c = Some identity \<and> identity \<noteq> [] \<and> trusted_issuer c = Some issuer \<and> issuer \<noteq> [] \<and> rekor"
  by (auto simp: validate_trust_request_def truthy_text_def split: option.split)

lemma after_run_Inr:
  assumes "sbom_valid sb"
  shows "after_run rt now sb identity issuer code out err = Inr t \<longleftrightarrow>
    code = 0 \<and> matching_cyclonedx_attestation rt out sb \<and>
    (\<exists>i iss rk. extract_verification_details rt out err = Inr (i, iss, rk) \<and>
       t = sb\<lparr>verification_status := VS_VERIFIED,
              signing_identity := Some (if i = JStr ''unknown'' then JStr identity else i),
              sb_issuer := Some (if iss = JStr ''unknown'' then JStr issuer else iss),
              verified_at := Some (Aware now), rekor_entry_uuid := rk, verification_error := None\<rparr>)"
  by (auto simp: after_run_def py_bind_Inr_iff lift_error_Inr mark_verified_aware [OF assms] mark_failed_Inr [OF assms])

lemma verify_Inr:
  assumes "sbom_valid sb"
  shows "verify rt c now sb identity issuer rekor = Inr t \<longleftrightarrow>
    trusted_identity c = Some identity \<and> identity \<noteq> [] \<and> trusted_issuer c = Some issuer \<and> issuer \<noteq> [] \<and> rekor \<and>
    (\<exists>ref binary out err. image_reference sb = Some ref \<and> ref \<noteq> [] \<and> ends_with ref (CHR ''@'' # sb_image_digest sb) \<and>
       which rt (cosign_path c) = Some binary \<and>
       run_binary rt (build_argv c binary identity issuer rekor ref) = Completed 0 out err \<and>
       after_run rt now sb identity issuer 0 out err = Inr t)"
proof -
  have run: "(case run_binary rt argv of
        TimeoutExpired \<Rightarrow> Inl e | FileNotFound exc \<Rightarrow> Inl (f exc)
      | Completed returncode stdout stderr \<Rightarrow> after_run rt now sb identity issuer returncode stdout stderr) = Inr t \<longleftrightarrow>
    (\<exists>out err. run_binary rt argv = Completed 0 out err \<and> after_run rt now sb identity issuer 0 out err = Inr t)"
    for argv e and f :: "string \<Rightarrow> verify_error"
    using after_run_Inr [OF assms] by (cases "run_binary rt argv") auto
  show ?thesis
    unfolding verify_def py_bind_Inr_iff validate_trust_Inr
    by (cases "image_reference sb"; cases "which rt (cosign_path c)")
      (auto simp: truthy_text_def resolve_cosign_binary_def run)
qed

text \<open>What a matching envelope attests.\<close>

definition attests :: "runtime \<Rightarrow> 'time sbom \<Rightarrow> (string \<times> json) list \<Rightarrow> bool" where
  "attests rt sb statement \<longleftrightarrow>
     dict_get statement ''predicateType'' = Some (JStr ''https://cyclonedx.org/bom'') \<and>
     (\<exists>predicate sfs dfs. dict_get statement ''predicate'' = Some (JObj predicate) \<and>
        json_eq (JObj predicate) (JObj (cyclonedx_document sb)) \<and>
        compute_digest (sha256_doc rt) predicate = Inr (sb_sbom_digest sb) \<and>
        dict_get statement ''subject'' = Some (JArr [JObj sfs]) \<and> dict_get sfs ''digest'' = Some (JObj dfs) \<and>
        json_eq (JObj dfs) (JObj [(''sha256'', JStr (drop 7 (sb_image_digest sb)))]))"

lemma subject_matchD:
  assumes m: "subject_match d subjects"
  shows "\<exists>sfs dfs. subjects = Some (JArr [JObj sfs]) \<and> dict_get sfs ''digest'' = Some (JObj dfs) \<and>
    json_eq (JObj dfs) (JObj [(''sha256'', JStr (drop 7 d))])"
proof -
  obtain v where v: "subjects = Some v" using m by (cases subjects) (simp_all add: subject_match_def)
  obtain xs where xs: "v = JArr xs" using m by (cases v) (simp_all add: subject_match_def v)
  obtain x where x: "xs = [x]"
    using m by (cases xs rule: remdups_adj.cases) (simp_all add: subject_match_def v xs split: json.split_asm)
  obtain sfs where sfs: "x = JObj sfs" using m by (cases x) (simp_all add: subject_match_def v xs x)
  obtain w where w: "dict_get sfs ''digest'' = Some w"
    using m by (cases "dict_get sfs ''digest''") (simp_all add: subject_match_def v xs x sfs)
  obtain dfs where "w = JObj dfs" using m by (cases w) (simp_all add: subject_match_def v xs x sfs w)
  then show ?thesis using m by (simp add: subject_match_def v xs x sfs w)
qed

lemma statement_match_attests:
  assumes "statement_match (sha256_doc rt) sb st"
  shows "attests rt sb st"
proof -
  obtain predicate where p: "dict_get st ''predicate'' = Some (JObj predicate)"
    using assms unfolding statement_match_def by (auto split: option.split_asm json.split_asm)
  show ?thesis
    using assms subject_matchD [of "sb_image_digest sb" "dict_get st ''subject''"]
    unfolding statement_match_def attests_def by (auto simp: p)
qed

lemma envelope_match_attests:
  assumes "envelope_match rt sb line"
  shows "\<exists>env encoded plain st. parse_json rt line = Some (JObj env) \<and> dict_get env ''payload'' = Some (JStr encoded) \<and>
    b64decode rt encoded = Some plain \<and> parse_json rt plain = Some (JObj st) \<and> attests rt sb st"
proof -
  note m = assms [unfolded envelope_match_def]
  obtain v where v: "parse_json rt line = Some v" using m by (cases "parse_json rt line") simp_all
  obtain env where env: "v = JObj env" using m v by (cases v) simp_all
  obtain w where w: "dict_get env ''payload'' = Some w" using m v env by (cases "dict_get env ''payload''") simp_all
  obtain encoded where encoded: "w = JStr encoded" using m v env w by (cases w) simp_all
  obtain plain where plain: "b64decode rt encoded = Some plain"
    using m v env w encoded by (cases "b64decode rt encoded") simp_all
  obtain u where u: "parse_json rt plain = Some u"
    using m v env w encoded plain by (cases "parse_json rt plain") simp_all
  obtain st where st: "u = JObj st" using m v env w encoded plain u by (cases u) simp_all
  have "statement_match (sha256_doc rt) sb st" using m v env w encoded plain u st by simp
  then show ?thesis using v env w encoded plain u st statement_match_attests by blast
qed

lemma verify_attested:
  assumes "sbom_valid sb" "verify rt c now sb identity issuer rekor = Inr t"
  shows "trusted_identity c = Some identity \<and> trusted_issuer c = Some issuer \<and> rekor \<and>
    (\<exists>argv out err line env encoded plain st.
       run_binary rt argv = Completed 0 out err \<and> image_reference sb = Some (last argv) \<and>
       ends_with (last argv) (CHR ''@'' # sb_image_digest sb) \<and>
       line \<in> set (splitlines out) \<and> parse_json rt line = Some (JObj env) \<and>
       dict_get env ''payload'' = Some (JStr encoded) \<and> b64decode rt encoded = Some plain \<and>
       parse_json rt plain = Some (JObj st) \<and> attests rt sb st) \<and>
    verification_status t = VS_VERIFIED \<and> sb_sbom_id t = sb_sbom_id sb \<and> sb_tenant_id t = sb_tenant_id sb \<and>
    cyclonedx_document t = cyclonedx_document sb \<and> sb_image_digest t = sb_image_digest sb"
proof -
  from assms obtain ref binary out err where v: "trusted_identity c = Some identity" "trusted_issuer c = Some issuer" rekor
      "image_reference sb = Some ref" "ends_with ref (CHR ''@'' # sb_image_digest sb)"
      "run_binary rt (build_argv c binary identity issuer rekor ref) = Completed 0 out err"
      "after_run rt now sb identity issuer 0 out err = Inr t"
    unfolding verify_Inr [OF assms(1)] by blast
  then have "matching_cyclonedx_attestation rt out sb" and t: "verification_status t = VS_VERIFIED"
      "sb_sbom_id t = sb_sbom_id sb" "sb_tenant_id t = sb_tenant_id sb"
      "cyclonedx_document t = cyclonedx_document sb" "sb_image_digest t = sb_image_digest sb"
    unfolding after_run_Inr [OF assms(1)] by auto
  then obtain line where "line \<in> set (splitlines out)" "envelope_match rt sb line"
    by (auto simp: matching_cyclonedx_attestation_def list_ex_iff)
  moreover have "last (build_argv c binary identity issuer rekor ref) = ref"
    using v(3) by (simp add: build_argv_def)
  ultimately show ?thesis using v t envelope_match_attests [of rt sb line] by metis
qed

text \<open>
  The adapter returns an SBOM only when the request names the configured identity and issuer, the
  transparency log is required, cosign accepted the stored image reference of exactly this digest, and
  its output holds a statement that attests this very document and image. What it returns is marked
  verified and is otherwise the same record.
\<close>

theorem verify_only_attested:
  assumes "sbom_valid sb" "verify rt c now sb identity issuer rekor = Inr t"
  shows "trusted_identity c = Some identity \<and> trusted_issuer c = Some issuer \<and> rekor \<and>
    (\<exists>argv out err line env encoded plain st.
       run_binary rt argv = Completed 0 out err \<and> image_reference sb = Some (last argv) \<and>
       ends_with (last argv) (CHR ''@'' # sb_image_digest sb) \<and>
       line \<in> set (splitlines out) \<and> parse_json rt line = Some (JObj env) \<and>
       dict_get env ''payload'' = Some (JStr encoded) \<and> b64decode rt encoded = Some plain \<and>
       parse_json rt plain = Some (JObj st) \<and> attests rt sb st) \<and>
    verification_status t = VS_VERIFIED \<and> sb_sbom_id t = sb_sbom_id sb \<and> sb_tenant_id t = sb_tenant_id sb \<and>
    cyclonedx_document t = cyclonedx_document sb \<and> sb_image_digest t = sb_image_digest sb"
  by (rule verify_attested [OF assms])

text \<open>A small record and a runtime that accepts it, for the witnesses.\<close>

definition pending_sbom :: "nat sbom" where
  "pending_sbom =
     \<lparr>sb_sbom_id = ''s1'', sb_tenant_id = ''t'', sb_image_digest = ''sha256:'' @ replicate 64 (CHR ''d''),
      sb_sbom_digest = ''sha256:'' @ replicate 64 (CHR ''b''), cyclonedx_document = [(''bomFormat'', JStr ''CycloneDX'')],
      spec_version = ''unknown'', sb_source = SYFT, artifact_uri = ''s3:x'', signature_bundle_uri = None,
      verification_status = VS_PENDING, generated_at = Aware 0, sb_created_at = Aware 0, purl_count = 0,
      signing_identity = None, sb_issuer = None, rekor_entry_uuid = None, verification_error = None,
      verified_at = None, image_reference = Some (''r/i@sha256:'' @ replicate 64 (CHR ''d''))\<rparr>"

definition accepting_runtime :: runtime where
  "accepting_runtime =
     \<lparr>which = (\<lambda>p. Some p), run_binary = (\<lambda>argv. Completed 0 ''A'' []),
      parse_json = (\<lambda>s. if s = ''A'' then Some (JObj [(''payload'', JStr ''B'')])
        else if s = ''C'' then Some (JObj
          [(''_type'', JStr ''https://in-toto.io/Statement/v1''), (''predicateType'', JStr ''https://cyclonedx.org/bom''),
           (''predicate'', JObj [(''bomFormat'', JStr ''CycloneDX'')]),
           (''subject'', JArr [JObj [(''digest'', JObj [(''sha256'', JStr (replicate 64 (CHR ''d'')))])]])])
        else None),
      b64decode = (\<lambda>s. Some ''C''), sha256_doc = (\<lambda>j. replicate 64 (CHR ''b''))\<rparr>"

definition trusting_client :: cosign_client where
  "trusting_client =
     \<lparr>cosign_path = ''cosign'', timeout_text = ''120.0'', rekor_url = ''https://rekor.sigstore.dev'',
      trusted_identity = Some ''me'', trusted_issuer = Some ''https://issuer''\<rparr>"

lemma pending_sbom_valid: "sbom_valid pending_sbom"
proof -
  have "reference_match (''r/i@sha256:'' @ replicate 64 (CHR ''d''))" by code_simp
  moreover have "ends_with (''r/i@sha256:'' @ replicate 64 (CHR ''d'')) (CHR ''@'' # ''sha256:'' @ replicate 64 (CHR ''d''))"
    by code_simp
  ultimately show ?thesis by (simp add: sbom_valid_iff pending_sbom_def is_aware_def)
qed

theorem verify_only_attested_witness:
  "\<exists>t. verify accepting_runtime trusting_client 0 pending_sbom ''me'' ''https://issuer'' True = Inr t \<and>
     verification_status t = VS_VERIFIED"
proof -
  have "case verify accepting_runtime trusting_client 0 pending_sbom ''me'' ''https://issuer'' True of
      Inl _ \<Rightarrow> False | Inr _ \<Rightarrow> True"
    by code_simp
  then obtain t where t: "verify accepting_runtime trusting_client 0 pending_sbom ''me'' ''https://issuer'' True = Inr t"
    by (cases "verify accepting_runtime trusting_client 0 pending_sbom ''me'' ''https://issuer'' True") simp_all
  then show ?thesis using verify_only_attested [OF pending_sbom_valid t] by blast
qed

section \<open>Which failures are transient\<close>

lemma contains_subset: "contains t p \<Longrightarrow> set p \<subseteq> set t"
proof (induction t)
  case (Cons c cs)
  then consider "starts_with (c # cs) p" | "contains cs p" by auto
  then show ?case
  proof cases
    case 1
    then obtain ys where "c # cs = p @ ys" by (auto simp: starts_with_iff)
    then have "set (c # cs) = set p \<union> set ys" by simp
    then show ?thesis by blast
  qed (use Cons.IH in auto)
qed simp

lemma lower_no_upper: "CHR ''E'' \<notin> set (lower s)"
proof -
  have "lower_char c \<noteq> CHR ''E''" for c
  proof -
    have "(of_char (lower_char c) :: nat) \<noteq> 69"
    proof (cases "65 \<le> (of_char c :: nat) \<and> (of_char c :: nat) \<le> 90 \<or>
        192 \<le> (of_char c :: nat) \<and> (of_char c :: nat) \<le> 222 \<and> (of_char c :: nat) \<noteq> 215")
      case True
      then have "(of_char (lower_char c) :: nat) = of_char c + 32"
        by (auto simp: lower_char_def Let_def of_char_of)
      with True show ?thesis by auto
    next
      case False
      then have "lower_char c = c" unfolding lower_char_def Let_def by (rule if_not_P)
      with False show ?thesis by auto
    qed
    then show ?thesis by auto
  qed
  then show ?thesis unfolding lower_def by (metis ex_map_conv)
qed

text \<open>
  One phrase of the list can never be found: the error text is lowered before the search, and \<open>EOF\<close> is
  written in capitals. A connection cut off with \<open>EOF\<close> is reported as an invalid signature, which
  marks the SBOM as failed, unless another phrase occurs as well.
\<close>

theorem eof_is_signature_failure:
  assumes "sbom_valid sb" "returncode \<noteq> 0"
    and "\<not> list_ex (contains (lower err))
      [''connection refused'', ''connection reset'', ''timeout'', ''tls handshake'', ''dial tcp'', ''network unreachable'']"
  shows "after_run rt now sb identity issuer returncode out err = Inl (SignatureError (take 512 err))"
proof -
  have "\<not> contains (lower err) ''EOF''" using contains_subset [of "lower err" "''EOF''"] lower_no_upper by auto
  moreover have "contains t ''timeout''" if "contains t ''i/o timeout''" for t
    using that
  proof (induction t)
    case (Cons c cs)
    then consider "starts_with (c # cs) ''i/o timeout''" | "contains cs ''i/o timeout''" by auto
    then show ?case
    proof cases
      case 1
      then obtain ys where "c # cs = ''i/o '' @ ''timeout'' @ ys" by (auto simp: starts_with_iff)
      then have "contains (c # cs) ''timeout'' \<longleftrightarrow> contains (''i/o '' @ ''timeout'' @ ys) ''timeout''" by simp
      then show ?thesis by (simp add: starts_with_def)
    qed (use Cons.IH in simp)
  qed simp
  ultimately have "\<not> transient_failure err" using assms(3) by (auto simp: transient_failure_def COSIGN_UNAVAILABLE_PHRASES_def)
  then show ?thesis using assms(2) by (simp add: after_run_def mark_failed_Inr [OF assms(1)] lift_error_def)
qed

theorem eof_is_signature_failure_witness:
  "after_run accepting_runtime 0 pending_sbom ''me'' ''https://issuer'' 1 [] ''unexpected EOF'' =
   Inl (SignatureError ''unexpected EOF'')"
proof -
  have "\<not> list_ex (contains (lower ''unexpected EOF''))
      [''connection refused'', ''connection reset'', ''timeout'', ''tls handshake'', ''dial tcp'', ''network unreachable'']"
    by code_simp
  from eof_is_signature_failure [OF pending_sbom_valid _ this] show ?thesis by simp
qed

end
