(* ===== verification/Sbom_Verification.thy ===== *)
theory Sbom_Verification
  imports Sbom_Cosign
begin

text \<open>
  Signature verification of an SBOM, \<open>application/use_cases/verify_sbom_signature.py\<close>, over the tables
  of \<open>infrastructure/postgres/repository.py\<close>: a job is enqueued, claimed by a background task, run, and
  its result stored. Every repository call is one atomic step and the tasks interleave in any order; a
  task may stop anywhere, as it does when the process dies. The time stamps order the jobs of an SBOM,
  UUIDs are fresh, and failures of the database itself are not modelled.

  What the use case relies on of a verifier is a locale, interpreted by the cosign adapter. The lemmas
  show that an SBOM is verified only by an attestation of its own document, in which order a job changes
  its status, and which promises interleaving and crashes break.
\<close>

section \<open>The tables\<close>

record 'time db =
  sboms :: "'time sbom list"
  jobs :: "'time verification_job list"

datatype use_case_error =
    SbomNotFound
  | JobNotFound
  | AlreadyInProgress
  | Refused py_error

definition sbom_by_id :: "'time db \<Rightarrow> string \<Rightarrow> string \<Rightarrow> 'time sbom option" where
  "sbom_by_id db sid tid = find (\<lambda>s. sb_sbom_id s = sid \<and> sb_tenant_id s = tid) (sboms db)"

definition job_by_id :: "'time db \<Rightarrow> string \<Rightarrow> string \<Rightarrow> 'time verification_job option" where
  "job_by_id db jid tid = find (\<lambda>j. verification_job_id j = jid \<and> job_tenant_id j = tid) (jobs db)"

text \<open>\<open>ORDER BY submitted_at DESC LIMIT 1\<close> returns one of the rows with the greatest time.\<close>

definition stamp_time :: "'time stamp \<Rightarrow> 'time" where
  "stamp_time t = (case t of Aware x \<Rightarrow> x | Naive x \<Rightarrow> x)"

definition jobs_of :: "'time db \<Rightarrow> string \<Rightarrow> string \<Rightarrow> 'time verification_job list" where
  "jobs_of db sid tid = filter (\<lambda>j. job_sbom_id j = sid \<and> job_tenant_id j = tid) (jobs db)"

definition latest_jobs :: "'time::linorder db \<Rightarrow> string \<Rightarrow> string \<Rightarrow> 'time verification_job list" where
  "latest_jobs db sid tid =
     filter (\<lambda>j. list_all (\<lambda>k. stamp_time (submitted_at k) \<le> stamp_time (submitted_at j)) (jobs_of db sid tid))
       (jobs_of db sid tid)"

definition save_job :: "'time verification_job \<Rightarrow> 'time db \<Rightarrow> 'time db" where
  "save_job j db = db\<lparr>jobs := jobs db @ [j]\<rparr>"

text \<open>The columns an \<open>UPDATE\<close> of a job and of an SBOM sets.\<close>

definition job_columns :: "'time verification_job \<Rightarrow> 'time verification_job \<Rightarrow> 'time verification_job" where
  "job_columns j row =
     row\<lparr>job_status := job_status j, completed_at := completed_at j, job_signing_identity := job_signing_identity j,
         job_issuer := job_issuer j, job_rekor_entry_uuid := job_rekor_entry_uuid j,
         failure_reason := failure_reason j\<rparr>"

definition update_job :: "'time verification_job \<Rightarrow> 'time db \<Rightarrow> 'time db" where
  "update_job j db =
     db\<lparr>jobs := map (\<lambda>row. if verification_job_id row = verification_job_id j then job_columns j row else row) (jobs db)\<rparr>"

definition sbom_columns :: "'time sbom \<Rightarrow> 'time sbom \<Rightarrow> 'time sbom" where
  "sbom_columns s row =
     row\<lparr>verification_status := verification_status s, signing_identity := signing_identity s, sb_issuer := sb_issuer s,
         rekor_entry_uuid := rekor_entry_uuid s, verification_error := verification_error s,
         verified_at := verified_at s\<rparr>"

definition same_sbom :: "'time sbom \<Rightarrow> 'time sbom \<Rightarrow> bool" where
  "same_sbom s row \<longleftrightarrow> sb_sbom_id row = sb_sbom_id s \<and> sb_tenant_id row = sb_tenant_id s"

definition update_verification :: "'time sbom \<Rightarrow> 'time db \<Rightarrow> use_case_error + 'time db" where
  "update_verification s db =
     (if list_ex (same_sbom s) (sboms db)
      then Inr (db\<lparr>sboms := map (\<lambda>row. if same_sbom s row then sbom_columns s row else row) (sboms db)\<rparr>)
      else Inl SbomNotFound)"

section \<open>Enqueueing\<close>

record enqueue_command =
  cmd_sbom_id :: string
  cmd_tenant_id :: string
  cmd_expected_identity :: string
  cmd_expected_issuer :: string
  cmd_rekor_required :: bool

definition active :: "job_status \<Rightarrow> bool" where
  "active st \<longleftrightarrow> st \<in> {JOB_QUEUED, JOB_RUNNING}"

definition queued_job :: "enqueue_command \<Rightarrow> string \<Rightarrow> 'time \<Rightarrow> 'time verification_job py_result" where
  "queued_job cmd jid now =
     new_job
       \<lparr>verification_job_id = jid, job_sbom_id = cmd_sbom_id cmd, job_tenant_id = cmd_tenant_id cmd,
        expected_identity = cmd_expected_identity cmd, expected_issuer = cmd_expected_issuer cmd,
        rekor_required = cmd_rekor_required cmd, job_status = JOB_QUEUED, submitted_at = Aware now,
        completed_at = None, job_signing_identity = None, job_issuer = None, job_rekor_entry_uuid = None,
        failure_reason = None\<rparr>"

text \<open>The use case without interleaving; \<open>latest\<close> is the job the query returned.\<close>

definition enqueue ::
    "'time verification_job option \<Rightarrow> string \<Rightarrow> 'time \<Rightarrow> enqueue_command \<Rightarrow> 'time db \<Rightarrow>
     use_case_error + ('time verification_job \<times> 'time db)" where
  "enqueue latest jid now cmd db =
     (case sbom_by_id db (cmd_sbom_id cmd) (cmd_tenant_id cmd) of
        None \<Rightarrow> Inl SbomNotFound
      | Some _ \<Rightarrow>
          (if (case latest of None \<Rightarrow> False | Some j \<Rightarrow> active (job_status j)) then Inl AlreadyInProgress
           else case queued_job cmd jid now of
             Inl e \<Rightarrow> Inl (Refused e)
           | Inr j \<Rightarrow> Inr (j, save_job j db)))"

section \<open>Results\<close>

record 'time verification_result =
  vr_job_id :: string
  vr_sbom_id :: string
  vr_status :: string
  vr_signing_identity :: "json option"
  vr_issuer :: "json option"
  vr_rekor_entry_uuid :: "string option"
  vr_verified_at :: "'time stamp option"
  vr_failure_reason :: "string option"

definition from_job :: "'time verification_job \<Rightarrow> 'time verification_result" where
  "from_job j =
     \<lparr>vr_job_id = verification_job_id j, vr_sbom_id = job_sbom_id j, vr_status = job_status_value (job_status j),
      vr_signing_identity = job_signing_identity j, vr_issuer = job_issuer j,
      vr_rekor_entry_uuid = job_rekor_entry_uuid j,
      vr_verified_at = (if job_status j = JOB_VERIFIED then completed_at j else None),
      vr_failure_reason = failure_reason j\<rparr>"

definition get_result ::
    "'time verification_job option \<Rightarrow> string \<Rightarrow> string \<Rightarrow> 'time db \<Rightarrow> use_case_error + 'time verification_result" where
  "get_result latest sid tid db =
     (case sbom_by_id db sid tid of
        None \<Rightarrow> Inl SbomNotFound
      | Some _ \<Rightarrow> (case latest of None \<Rightarrow> Inl JobNotFound | Some j \<Rightarrow> Inr (from_job j)))"

section \<open>Running a job\<close>

text \<open>\<open>str(exc)\<close>; \<open>exc_text\<close> is the message of an exception of the language.\<close>

definition error_text :: "(py_error \<Rightarrow> string) \<Rightarrow> verify_error \<Rightarrow> string" where
  "error_text exc_text e = (case e of SignatureError m \<Rightarrow> m | ServiceUnavailable m \<Rightarrow> m | OtherError x \<Rightarrow> exc_text x)"

text \<open>What follows the call of the verifier: the job and the SBOM to store.\<close>

definition settle ::
    "(py_error \<Rightarrow> string) \<Rightarrow> 'time \<Rightarrow> 'time verification_job \<Rightarrow> 'time sbom \<Rightarrow> verify_error + 'time sbom \<Rightarrow>
     ('time verification_job \<times> 'time sbom) py_result" where
  "settle exc_text now j s result =
     (case result of
        Inr updated \<Rightarrow>
          Inr (j\<lparr>job_status := JOB_VERIFIED, completed_at := Some (Aware now),
                 job_signing_identity := signing_identity updated, job_issuer := sb_issuer updated,
                 job_rekor_entry_uuid := rekor_entry_uuid updated, failure_reason := None\<rparr>, updated)
      | Inl (ServiceUnavailable m) \<Rightarrow>
          Inr (j\<lparr>job_status := JOB_FAILED, completed_at := Some (Aware now), failure_reason := Some m\<rparr>, s)
      | Inl e \<Rightarrow>
          py_bind (mark_verification_failed (error_text exc_text e) s) (\<lambda>updated.
            Inr (j\<lparr>job_status := JOB_FAILED, completed_at := Some (Aware now),
                   failure_reason := Some (error_text exc_text e)\<rparr>, updated)))"

text \<open>The use case without interleaving.\<close>

definition run_verification ::
    "(py_error \<Rightarrow> string) \<Rightarrow> ('time sbom \<Rightarrow> string \<Rightarrow> string \<Rightarrow> bool \<Rightarrow> verify_error + 'time sbom) \<Rightarrow> 'time \<Rightarrow>
     string \<Rightarrow> string \<Rightarrow> 'time db \<Rightarrow> use_case_error option \<times> 'time db" where
  "run_verification exc_text verifier now jid tid db =
     (case job_by_id db jid tid of
        None \<Rightarrow> (Some JobNotFound, db)
      | Some job \<Rightarrow>
          (if job_status job \<noteq> JOB_QUEUED then (None, db)
           else
             (let running = job\<lparr>job_status := JOB_RUNNING\<rparr>;
                  db1 = update_job running db
              in case sbom_by_id db1 (job_sbom_id running) tid of
                   None \<Rightarrow> (Some SbomNotFound, db1)
                 | Some s \<Rightarrow>
                     (case settle exc_text now running s
                             (verifier s (expected_identity running) (expected_issuer running) (rekor_required running)) of
                        Inl e \<Rightarrow> (Some (Refused e), db1)
                      | Inr (finished, updated) \<Rightarrow>
                          (let db2 = update_job finished db1 in
                           case update_verification updated db2 of
                             Inl e \<Rightarrow> (Some e, db2)
                           | Inr db3 \<Rightarrow> (None, db3))))))"

section \<open>Interleaving\<close>

text \<open>A task is named by the call it makes next.\<close>

datatype 'time task =
    EnqueueExists enqueue_command
  | EnqueueLatest enqueue_command
  | EnqueueSave enqueue_command
  | RunLoad string string
  | RunClaim "'time verification_job" string
  | RunFetch "'time verification_job" string
  | RunVerify "'time verification_job" "'time sbom"
  | RunStoreJob "'time verification_job" "'time sbom"
  | RunStoreSbom "'time sbom"

type_synonym 'time verifier = "'time sbom \<Rightarrow> string \<Rightarrow> string \<Rightarrow> bool \<Rightarrow> verify_error + 'time sbom \<Rightarrow> bool"

text \<open>
  One call of a task: the tables after it and what remains of the task. Saving a job schedules its run.
  Where an exception leaves the use case, nothing remains.
\<close>

inductive task_step ::
    "(py_error \<Rightarrow> string) \<Rightarrow> 'time::linorder verifier \<Rightarrow> 'time db \<Rightarrow> 'time task \<Rightarrow> 'time db \<Rightarrow> 'time task list \<Rightarrow> bool"
  for exc_text and V :: "'time verifier"
where
  exists_found:
    "sbom_by_id db (cmd_sbom_id cmd) (cmd_tenant_id cmd) = Some s \<Longrightarrow>
     task_step exc_text V db (EnqueueExists cmd) db [EnqueueLatest cmd]"
| exists_missing:
    "sbom_by_id db (cmd_sbom_id cmd) (cmd_tenant_id cmd) = None \<Longrightarrow>
     task_step exc_text V db (EnqueueExists cmd) db []"
| latest_none:
    "jobs_of db (cmd_sbom_id cmd) (cmd_tenant_id cmd) = [] \<Longrightarrow>
     task_step exc_text V db (EnqueueLatest cmd) db [EnqueueSave cmd]"
| latest_finished:
    "j \<in> set (latest_jobs db (cmd_sbom_id cmd) (cmd_tenant_id cmd)) \<Longrightarrow> \<not> active (job_status j) \<Longrightarrow>
     task_step exc_text V db (EnqueueLatest cmd) db [EnqueueSave cmd]"
| latest_active:
    "j \<in> set (latest_jobs db (cmd_sbom_id cmd) (cmd_tenant_id cmd)) \<Longrightarrow> active (job_status j) \<Longrightarrow>
     task_step exc_text V db (EnqueueLatest cmd) db []"
| save_new:
    "queued_job cmd jid now = Inr j \<Longrightarrow> jid \<notin> verification_job_id ` set (jobs db) \<Longrightarrow>
     task_step exc_text V db (EnqueueSave cmd) (save_job j db) [RunLoad jid (cmd_tenant_id cmd)]"
| save_refused:
    "queued_job cmd jid (now :: 'time) = Inl e \<Longrightarrow> task_step exc_text V db (EnqueueSave cmd) db []"
| load_missing:
    "job_by_id db jid tid = None \<Longrightarrow> task_step exc_text V db (RunLoad jid tid) db []"
| load_claimed:
    "job_by_id db jid tid = Some j \<Longrightarrow> job_status j \<noteq> JOB_QUEUED \<Longrightarrow>
     task_step exc_text V db (RunLoad jid tid) db []"
| load_queued:
    "job_by_id db jid tid = Some j \<Longrightarrow> job_status j = JOB_QUEUED \<Longrightarrow>
     task_step exc_text V db (RunLoad jid tid) db [RunClaim j tid]"
| claim:
    "running = j\<lparr>job_status := JOB_RUNNING\<rparr> \<Longrightarrow>
     task_step exc_text V db (RunClaim j tid) (update_job running db) [RunFetch running tid]"
| fetch_missing:
    "sbom_by_id db (job_sbom_id j) tid = None \<Longrightarrow> task_step exc_text V db (RunFetch j tid) db []"
| fetch_found:
    "sbom_by_id db (job_sbom_id j) tid = Some s \<Longrightarrow> task_step exc_text V db (RunFetch j tid) db [RunVerify j s]"
| verify_settled:
    "V s (expected_identity j) (expected_issuer j) (rekor_required j) r \<Longrightarrow>
     settle exc_text now j s r = Inr (finished, updated) \<Longrightarrow>
     task_step exc_text V db (RunVerify j s) db [RunStoreJob finished updated]"
| verify_raised:
    "V s (expected_identity j) (expected_issuer j) (rekor_required j) r \<Longrightarrow>
     settle exc_text now j s r = Inl e \<Longrightarrow> task_step exc_text V db (RunVerify j s) db []"
| store_job:
    "task_step exc_text V db (RunStoreJob j s) (update_job j db) [RunStoreSbom s]"
| store_sbom:
    "update_verification s db = Inr db' \<Longrightarrow> task_step exc_text V db (RunStoreSbom s) db' []"
| store_missing:
    "update_verification s db = Inl e \<Longrightarrow> task_step exc_text V db (RunStoreSbom s) db []"
| stopped: "task_step exc_text V db t db []"

inductive_cases task_stepE: "task_step exc_text V db t db' ts"

record 'time world =
  tables :: "'time db"
  pool :: "'time task list"

text \<open>A request arrives, or some task makes its next call.\<close>

inductive step :: "(py_error \<Rightarrow> string) \<Rightarrow> 'time::linorder verifier \<Rightarrow> 'time world \<Rightarrow> 'time world \<Rightarrow> bool"
  for exc_text V
where
  request: "step exc_text V \<lparr>tables = db, pool = ts\<rparr> \<lparr>tables = db, pool = ts @ [EnqueueExists cmd]\<rparr>"
| advance:
    "task_step exc_text V db t db' rest \<Longrightarrow>
     step exc_text V \<lparr>tables = db, pool = xs @ t # ys\<rparr> \<lparr>tables = db', pool = xs @ rest @ ys\<rparr>"

definition reachable ::
    "(py_error \<Rightarrow> string) \<Rightarrow> 'time::linorder verifier \<Rightarrow> 'time world \<Rightarrow> 'time world \<Rightarrow> bool" where
  "reachable exc_text V = (step exc_text V)\<^sup>*\<^sup>*"

lemma reachable_refl: "reachable exc_text V w w"
  by (simp add: reachable_def)

lemma reachable_step: "reachable exc_text V u v \<Longrightarrow> step exc_text V v w \<Longrightarrow> reachable exc_text V u w"
  unfolding reachable_def by (rule rtranclp.rtrancl_into_rtrancl)

lemma reachable_induct [consumes 1, case_names init request advance]:
  assumes "reachable exc_text V w0 w" and "P (tables w0) (pool w0)"
    and "\<And>db ts cmd. P db ts \<Longrightarrow> P db (ts @ [EnqueueExists cmd])"
    and "\<And>db t db' rest xs ys. P db (xs @ t # ys) \<Longrightarrow> task_step exc_text V db t db' rest \<Longrightarrow> P db' (xs @ rest @ ys)"
  shows "P (tables w) (pool w)"
  using assms(1) unfolding reachable_def
proof (induction rule: rtranclp_induct)
  case base
  then show ?case by (rule assms(2))
next
  case (step v w)
  from step.hyps(2) step.IH show ?case by cases (simp_all add: assms(3, 4))
qed

section \<open>Only the verifier verifies\<close>

text \<open>What an SBOM is, apart from its verification columns.\<close>

definition identity_of :: "'time sbom \<Rightarrow> string \<times> string \<times> string \<times> string \<times> (string \<times> json) list \<times> string option" where
  "identity_of s =
     (sb_sbom_id s, sb_tenant_id s, sb_image_digest s, sb_sbom_digest s, cyclonedx_document s, image_reference s)"

lemma identity_of_columns [simp]: "identity_of (sbom_columns s row) = identity_of row"
  by (simp add: identity_of_def sbom_columns_def)

text \<open>
  \<open>row\<close> is still the record \<open>s\<close> was read from: nothing but the verification columns changes, and an
  image reference may be bound where there was none.
\<close>

definition covers :: "'time sbom \<Rightarrow> 'time sbom \<Rightarrow> bool" where
  "covers s row \<longleftrightarrow>
     sb_sbom_id row = sb_sbom_id s \<and> sb_tenant_id row = sb_tenant_id s \<and> sb_image_digest row = sb_image_digest s \<and>
     sb_sbom_digest row = sb_sbom_digest s \<and> cyclonedx_document row = cyclonedx_document s \<and>
     (image_reference s = None \<or> image_reference s = image_reference row)"

lemma covers_identity: "identity_of s = identity_of row \<Longrightarrow> covers s row"
  by (simp add: covers_def identity_of_def)

lemma covers_refl [simp]: "covers s s"
  by (simp add: covers_def)

lemma covers_trans: "covers r s \<Longrightarrow> covers s t \<Longrightarrow> covers r t"
  by (auto simp: covers_def)

definition grows :: "'time sbom list \<Rightarrow> 'time sbom list \<Rightarrow> bool" where
  "grows ss ss' \<longleftrightarrow> (\<forall>row\<in>set ss. \<exists>row'\<in>set ss'. covers row row')"

lemma grows_identities:
  assumes "map identity_of ss' = map identity_of ss"
  shows "grows ss ss'"
  unfolding grows_def
proof
  fix row assume "row \<in> set ss"
  then have "identity_of row \<in> identity_of ` set ss'" using arg_cong [OF assms, of set] by auto
  then show "\<exists>row'\<in>set ss'. covers row row'" using covers_identity by auto
qed

definition keys_distinct :: "'time sbom list \<Rightarrow> bool" where
  "keys_distinct ss \<longleftrightarrow> distinct (map (\<lambda>s. (sb_sbom_id s, sb_tenant_id s)) ss)"

lemma covers_same:
  assumes "keys_distinct ss" "row \<in> set ss" "\<exists>r\<in>set ss. covers s r" "same_sbom s row"
  shows "covers s row"
proof -
  from assms(3) obtain r where r: "r \<in> set ss" "covers s r" by auto
  then have "(sb_sbom_id r, sb_tenant_id r) = (sb_sbom_id row, sb_tenant_id row)"
    using assms(4) by (simp add: covers_def same_sbom_def)
  then have "r = row" using assms(1, 2) r(1) unfolding keys_distinct_def distinct_map inj_on_def by blast
  then show ?thesis using r(2) by simp
qed

lemma keys_distinct_identities:
  fixes ss ss' :: "'time sbom list"
  assumes "map identity_of ss = map identity_of ss'"
  shows "keys_distinct ss \<longleftrightarrow> keys_distinct ss'"
proof -
  have keys: "map (\<lambda>s. (sb_sbom_id s, sb_tenant_id s)) us = map (\<lambda>x. (fst x, fst (snd x))) (map identity_of us)"
    for us :: "'time sbom list"
    by (simp add: identity_of_def)
  show ?thesis unfolding keys_distinct_def keys assms ..
qed

lemma update_verification_Inr:
  "update_verification s db = Inr db' \<Longrightarrow>
     db' = db\<lparr>sboms := map (\<lambda>row. if same_sbom s row then sbom_columns s row else row) (sboms db)\<rparr>"
  by (simp add: update_verification_def split: if_split_asm)

lemma update_verification_identities:
  assumes "update_verification s db = Inr db'"
  shows "map identity_of (sboms db') = map identity_of (sboms db)"
  by (subst update_verification_Inr [OF assms]) simp

lemma job_tables [simp]: "sboms (save_job j db) = sboms db" "sboms (update_job j db) = sboms db"
  by (simp_all add: save_job_def update_job_def)

lemma task_step_identities:
  "task_step exc_text V db t db' ts \<Longrightarrow> map identity_of (sboms db') = map identity_of (sboms db)"
  by (induction rule: task_step.induct) (simp_all add: update_verification_identities)

text \<open>
  The port of a verifier: an SBOM it returns is the valid one it was given, and it has a property \<open>C\<close>
  that its row keeps.
\<close>

locale sbom_verifier =
  fixes V :: "'time::linorder verifier" and C :: "'time sbom \<Rightarrow> bool"
  assumes returns_valid: "sbom_valid s \<Longrightarrow> V s i iss rk (Inr t) \<Longrightarrow> sbom_valid t"
    and returns_identity: "sbom_valid s \<Longrightarrow> V s i iss rk (Inr t) \<Longrightarrow> identity_of t = identity_of s"
    and returns_certified: "sbom_valid s \<Longrightarrow> V s i iss rk (Inr t) \<Longrightarrow> C t"
    and certified_covers: "covers s t \<Longrightarrow> C s \<Longrightarrow> C t"
begin

definition sbom_ok :: "'time sbom \<Rightarrow> bool" where
  "sbom_ok s \<longleftrightarrow> sbom_valid s \<and> (verification_status s = VS_VERIFIED \<longrightarrow> C s)"

definition known :: "'time db \<Rightarrow> 'time sbom \<Rightarrow> bool" where
  "known db s \<longleftrightarrow> sbom_ok s \<and> (\<exists>row\<in>set (sboms db). covers s row)"

definition task_ok :: "'time db \<Rightarrow> 'time task \<Rightarrow> bool" where
  "task_ok db t \<longleftrightarrow>
     (case t of RunVerify j s \<Rightarrow> known db s | RunStoreJob j s \<Rightarrow> known db s | RunStoreSbom s \<Rightarrow> known db s | _ \<Rightarrow> True)"

definition tables_ok :: "'time db \<Rightarrow> bool" where
  "tables_ok db \<longleftrightarrow> keys_distinct (sboms db) \<and> list_all sbom_ok (sboms db)"

lemma known_grows: "grows (sboms db) (sboms db') \<Longrightarrow> known db s \<Longrightarrow> known db' s"
  unfolding known_def grows_def using covers_trans by metis

lemma task_ok_grows: "grows (sboms db) (sboms db') \<Longrightarrow> task_ok db t \<Longrightarrow> task_ok db' t"
  using known_grows by (auto simp: task_ok_def split: task.split)

lemma known_identity: "known db s \<Longrightarrow> identity_of t = identity_of s \<Longrightarrow> sbom_ok t \<Longrightarrow> known db t"
  unfolding known_def using covers_trans [OF covers_identity] by metis

lemma settle_ok:
  assumes "known db s" "V s i iss rk r" "settle exc_text now j s r = Inr (j', s')"
  shows "known db s'"
proof (cases r)
  case (Inr t)
  have valid: "sbom_valid s" using assms(1) by (simp add: known_def sbom_ok_def)
  have "V s i iss rk (Inr t)" "s' = t" using assms(2, 3) Inr by (simp_all add: settle_def)
  with valid show ?thesis
    using known_identity [OF assms(1)] returns_valid returns_identity returns_certified by (simp add: sbom_ok_def)
next
  case (Inl e)
  have failed: "known db (s\<lparr>verification_status := VS_FAILED, verification_error := Some m, signing_identity := None,
      sb_issuer := None, verified_at := None\<rparr>)" for m
    using assms(1) by (intro known_identity [OF assms(1)])
      (simp_all add: known_def sbom_ok_def sbom_valid_iff identity_of_def)
  have "sbom_valid s" using assms(1) by (simp add: known_def sbom_ok_def)
  then show ?thesis
    using assms(1, 3) failed by (cases e) (auto simp: settle_def Inl mark_failed_Inr)
qed

lemma stored_ok:
  assumes "tables_ok db" "known db s" "update_verification s db = Inr db'"
  shows "tables_ok db'"
proof -
  have db': "sboms db' = map (\<lambda>row. if same_sbom s row then sbom_columns s row else row) (sboms db)"
    by (subst update_verification_Inr [OF assms(3)]) simp
  have "sbom_ok (sbom_columns s row)" if "row \<in> set (sboms db)" "same_sbom s row" for row
  proof -
    have row: "sbom_ok row" using assms(1) that(1) by (simp add: tables_ok_def list_all_iff)
    have "covers s row"
      using covers_same [of "sboms db" row s] assms(1, 2) that by (simp add: tables_ok_def known_def)
    then have "covers s (sbom_columns s row)" by (rule covers_trans) (simp add: covers_identity)
    then have "C s \<Longrightarrow> C (sbom_columns s row)" by (rule certified_covers)
    moreover have "sbom_valid (sbom_columns s row)"
      using row assms(2) by (simp add: sbom_ok_def known_def sbom_valid_iff sbom_columns_def)
    moreover have "verification_status (sbom_columns s row) = verification_status s" by (simp add: sbom_columns_def)
    ultimately show ?thesis using assms(2) by (simp add: sbom_ok_def known_def)
  qed
  moreover have "keys_distinct (sboms db')"
    using assms(1) keys_distinct_identities [OF update_verification_identities [OF assms(3)]] by (simp add: tables_ok_def)
  ultimately show ?thesis using assms(1) by (auto simp: tables_ok_def list_all_iff db')
qed

lemma task_step_ok:
  assumes "task_step exc_text V db t db' ts" "tables_ok db" "task_ok db t"
  shows "tables_ok db' \<and> list_all (task_ok db') ts"
  using assms
proof (induction rule: task_step.induct)
  case (fetch_found db j tid s)
  then have "s \<in> set (sboms db)" by (auto simp: sbom_by_id_def find_Some_iff)
  moreover from this have "sbom_ok s" using fetch_found.prems by (simp add: tables_ok_def list_all_iff)
  ultimately show ?case using fetch_found.prems(1) by (simp add: task_ok_def known_def bexI [of _ s])
next
  case (verify_settled s j r now finished updated db)
  then show ?case using settle_ok by (simp add: task_ok_def)
next
  case (store_sbom s db db')
  then show ?case using stored_ok by (simp add: task_ok_def)
qed (simp_all add: task_ok_def tables_ok_def known_def)

theorem verified_certified:
  assumes "reachable exc_text V w0 w" "tables_ok (tables w0)" "pool w0 = []"
    and "s \<in> set (sboms (tables w))" "verification_status s = VS_VERIFIED"
  shows "C s"
proof -
  have "tables_ok (tables w) \<and> list_all (task_ok (tables w)) (pool w)"
    using assms(1)
  proof (induction rule: reachable_induct)
    case init
    then show ?case using assms(2, 3) by simp
  next
    case (request db ts cmd)
    then show ?case by (simp add: task_ok_def)
  next
    case (advance db t db' rest xs ys)
    then have "tables_ok db' \<and> list_all (task_ok db') rest" by (intro task_step_ok [OF advance(2)]) simp_all
    moreover have "grows (sboms db) (sboms db')" by (rule grows_identities [OF task_step_identities [OF advance(2)]])
    ultimately show ?case using advance(1) task_ok_grows by (auto simp: list_all_iff)
  qed
  then show ?thesis using assms(4, 5) by (auto simp: tables_ok_def list_all_iff sbom_ok_def)
qed

end

text \<open>
  The calls of the cosign adapter: \<open>may\<close> is what the binary may do on a command line, and whether it is
  found on the path may change between calls.
\<close>

definition cosign_calls ::
    "runtime \<Rightarrow> (string list \<Rightarrow> run_outcome \<Rightarrow> bool) \<Rightarrow> cosign_client \<Rightarrow> 'time::linorder verifier" where
  "cosign_calls rt may c s identity issuer rekor r \<longleftrightarrow>
     (\<exists>w run now. (\<forall>argv. may argv (run argv)) \<and>
        r = verify (rt\<lparr>which := w, run_binary := run\<rparr>) c now s identity issuer rekor)"

text \<open>The binary accepted the image of an SBOM, and its output attests the document.\<close>

definition attested :: "runtime \<Rightarrow> (string list \<Rightarrow> run_outcome \<Rightarrow> bool) \<Rightarrow> cosign_client \<Rightarrow> 'time sbom \<Rightarrow> bool" where
  "attested rt may c s \<longleftrightarrow>
     trusted_identity c \<noteq> None \<and> trusted_issuer c \<noteq> None \<and>
     (\<exists>argv out err line env encoded plain st.
        may argv (Completed 0 out err) \<and> image_reference s = Some (last argv) \<and>
        ends_with (last argv) (CHR ''@'' # sb_image_digest s) \<and>
        line \<in> set (splitlines out) \<and> parse_json rt line = Some (JObj env) \<and>
        dict_get env ''payload'' = Some (JStr encoded) \<and> b64decode rt encoded = Some plain \<and>
        parse_json rt plain = Some (JObj st) \<and> attests rt s st)"

lemma attestedI:
  assumes "trusted_identity c = Some identity" "trusted_issuer c = Some issuer"
    "may argv (Completed 0 out err)" "image_reference s = Some (last argv)"
    "ends_with (last argv) (CHR ''@'' # sb_image_digest s)"
    "line \<in> set (splitlines out)" "parse_json rt line = Some (JObj env)"
    "dict_get env ''payload'' = Some (JStr encoded)" "b64decode rt encoded = Some plain"
    "parse_json rt plain = Some (JObj st)" "attests rt s st"
  shows "attested rt may c s"
  unfolding attested_def using assms(1, 2)
  by (intro conjI) (simp, simp, (rule exI)+, (intro conjI; rule assms))

lemma attests_runtime [simp]: "attests (rt\<lparr>which := w, run_binary := run\<rparr>) s st = attests rt s st"
  by (simp add: attests_def)

lemma attests_covers: "covers s t \<Longrightarrow> attests rt t st = attests rt s st"
  by (simp add: attests_def covers_def)

lemma attested_covers:
  assumes "covers s t" "attested rt may c s"
  shows "attested rt may c t"
proof -
  have "image_reference t = image_reference s" using assms by (auto simp: attested_def covers_def)
  moreover have "sb_image_digest t = sb_image_digest s" using assms(1) by (simp add: covers_def)
  ultimately show ?thesis using assms(2) unfolding attested_def attests_covers [OF assms(1)] by metis
qed

lemma cosign_attested:
  assumes "sbom_valid s" "cosign_calls rt may c s identity issuer rekor (Inr t)"
  shows "sbom_valid t" "identity_of t = identity_of s" "attested rt may c t"
proof -
  obtain w run now where o: "\<And>argv. may argv (run argv)"
      and v: "verify (rt\<lparr>which := w, run_binary := run\<rparr>) c now s identity issuer rekor = Inr t"
    using assms(2) unfolding cosign_calls_def by metis
  from v obtain out err where
      "after_run (rt\<lparr>which := w, run_binary := run\<rparr>) now s identity issuer 0 out err = Inr t"
    unfolding verify_Inr [OF assms(1)] by blast
  then obtain i iss rk where t: "t = s\<lparr>verification_status := VS_VERIFIED, signing_identity := i, sb_issuer := iss,
      verified_at := Some (Aware now), rekor_entry_uuid := rk, verification_error := None\<rparr>"
    unfolding after_run_Inr [OF assms(1)] by blast
  show "sbom_valid t" using assms(1) by (simp add: t sbom_valid_iff is_aware_def)
  show id: "identity_of t = identity_of s" by (simp add: t identity_of_def)
  obtain argv out err line env encoded plain st where
      trust: "trusted_identity c = Some identity" "trusted_issuer c = Some issuer"
      and ran: "run argv = Completed 0 out err" and rest: "image_reference s = Some (last argv)"
        "ends_with (last argv) (CHR ''@'' # sb_image_digest s)"
        "line \<in> set (splitlines out)" "parse_json rt line = Some (JObj env)"
        "dict_get env ''payload'' = Some (JStr encoded)" "b64decode rt encoded = Some plain"
        "parse_json rt plain = Some (JObj st)" "attests rt s st"
    using verify_attested [OF assms(1) v] by (elim conjE exE) (rule that; simp)
  have "may argv (Completed 0 out err)" using o [of argv] ran by simp
  then have "attested rt may c s" by (rule attestedI [OF trust _ rest])
  then show "attested rt may c t" by (rule attested_covers [OF covers_identity [OF id [symmetric]]])
qed

interpretation cosign: sbom_verifier "cosign_calls rt may c" "attested rt may c"
  for rt may c
proof unfold_locales
  fix s t i iss rk
  assume a: "sbom_valid s" "cosign_calls rt may c s i iss rk (Inr t)"
  show "sbom_valid t" by (rule cosign_attested(1) [OF a])
  show "identity_of t = identity_of s" by (rule cosign_attested(2) [OF a])
  show "attested rt may c t" by (rule cosign_attested(3) [OF a])
next
  show "covers s t \<Longrightarrow> attested rt may c s \<Longrightarrow> attested rt may c t" for s t
    by (rule attested_covers)
qed

lemma initial_ok:
  "keys_distinct (sboms db) \<Longrightarrow> list_all (\<lambda>s. sbom_valid s \<and> verification_status s \<noteq> VS_VERIFIED) (sboms db) \<Longrightarrow>
   cosign.tables_ok rt may c db"
  by (simp add: cosign.tables_ok_def cosign.sbom_ok_def list_all_iff)

section \<open>An undisturbed request\<close>

lemma advance_alone:
  assumes "reachable exc_text V w \<lparr>tables = db, pool = [t]\<rparr>" "task_step exc_text V db t db' ts"
  shows "reachable exc_text V w \<lparr>tables = db', pool = ts\<rparr>"
  using reachable_step [OF assms(1)] step.advance [OF assms(2), of "[]" "[]"] by simp

lemma request_alone:
  "reachable exc_text V w \<lparr>tables = db, pool = []\<rparr> \<Longrightarrow> reachable exc_text V w \<lparr>tables = db, pool = [EnqueueExists cmd]\<rparr>"
  using reachable_step step.request [of exc_text V db "[]" cmd] by fastforce

lemma enqueue_undisturbed:
  assumes "enqueue latest jid now cmd db = Inr (j, db')" "jid \<notin> verification_job_id ` set (jobs db)"
    and "case latest of None \<Rightarrow> jobs_of db (cmd_sbom_id cmd) (cmd_tenant_id cmd) = []
      | Some l \<Rightarrow> l \<in> set (latest_jobs db (cmd_sbom_id cmd) (cmd_tenant_id cmd))"
  shows "reachable exc_text V \<lparr>tables = db, pool = []\<rparr> \<lparr>tables = db', pool = [RunLoad jid (cmd_tenant_id cmd)]\<rparr>"
proof -
  obtain s where s: "sbom_by_id db (cmd_sbom_id cmd) (cmd_tenant_id cmd) = Some s"
    using assms(1) by (auto simp: enqueue_def split: option.split_asm)
  have j: "queued_job cmd jid now = Inr j" "db' = save_job j db"
    using assms(1) by (simp_all add: enqueue_def s split: if_split_asm sum.split_asm)
  have latest: "task_step exc_text V db (EnqueueLatest cmd) db [EnqueueSave cmd]"
  proof (cases latest)
    case None
    then show ?thesis using assms(3) by (intro task_step.latest_none) simp
  next
    case (Some l)
    then have "\<not> active (job_status l)" using assms(1) by (auto simp: enqueue_def s)
    with Some assms(3) show ?thesis by (intro task_step.latest_finished [of l]) simp_all
  qed
  note start = request_alone [OF reachable_refl, of exc_text V db cmd]
  note checked = advance_alone [OF advance_alone [OF start task_step.exists_found [OF s]] latest]
  show ?thesis unfolding j(2) by (rule advance_alone [OF checked task_step.save_new [OF j(1) assms(2)]])
qed

lemma run_undisturbed:
  assumes "run_verification exc_text verifier now jid tid db = (None, db')"
    and V: "\<And>s i iss rk. V s i iss rk (verifier s i iss rk)"
    and r: "reachable exc_text V w \<lparr>tables = db, pool = [RunLoad jid tid]\<rparr>"
  shows "reachable exc_text V w \<lparr>tables = db', pool = []\<rparr>"
proof -
  obtain j where j: "job_by_id db jid tid = Some j"
    using assms(1) by (cases "job_by_id db jid tid") (simp_all add: run_verification_def)
  show ?thesis
  proof (cases "job_status j = JOB_QUEUED")
    case False
    then have "db' = db" using assms(1) by (simp add: run_verification_def j)
    then show ?thesis using advance_alone [OF r task_step.load_claimed [OF j False]] by simp
  next
    case True
    let ?run = "j\<lparr>job_status := JOB_RUNNING\<rparr>"
    let ?db1 = "update_job ?run db"
    obtain s where s: "sbom_by_id ?db1 (job_sbom_id ?run) tid = Some s"
      using assms(1) True by (cases "sbom_by_id ?db1 (job_sbom_id ?run) tid") (simp_all add: run_verification_def j Let_def)
    let ?r = "verifier s (expected_identity ?run) (expected_issuer ?run) (rekor_required ?run)"
    obtain finished updated where f: "settle exc_text now ?run s ?r = Inr (finished, updated)"
      using assms(1) True s
      by (cases "settle exc_text now ?run s ?r") (auto simp: run_verification_def j Let_def)
    have u: "update_verification updated (update_job finished ?db1) = Inr db'"
      using assms(1) True s f
      by (cases "update_verification updated (update_job finished ?db1)") (simp_all add: run_verification_def j Let_def)
    note claimed = advance_alone [OF advance_alone [OF r task_step.load_queued [OF j True]] task_step.claim [OF refl]]
    note verified = advance_alone [OF advance_alone [OF claimed task_step.fetch_found [OF s]]
        task_step.verify_settled [of V, OF V f]]
    show ?thesis by (rule advance_alone [OF advance_alone [OF verified task_step.store_job] task_step.store_sbom [OF u]])
  qed
qed

lemma undisturbed:
  assumes "enqueue latest jid now cmd db = Inr (j, db1)" "jid \<notin> verification_job_id ` set (jobs db)"
    and "case latest of None \<Rightarrow> jobs_of db (cmd_sbom_id cmd) (cmd_tenant_id cmd) = []
      | Some l \<Rightarrow> l \<in> set (latest_jobs db (cmd_sbom_id cmd) (cmd_tenant_id cmd))"
    and V: "\<And>s i iss rk. V s i iss rk (verifier s i iss rk)"
    and run: "run_verification exc_text verifier now' jid (cmd_tenant_id cmd) db1 = (None, db2)"
  shows "reachable exc_text V \<lparr>tables = db, pool = []\<rparr> \<lparr>tables = db2, pool = []\<rparr>"
  using enqueue_undisturbed [OF assms(1-3)] by (intro run_undisturbed [OF run]) (rule V)

text \<open>
  The use cases refine the interleaving: enqueueing and then running the job, each without interruption,
  is one of the runs of the system.
\<close>

theorem undisturbed_refines:
  assumes "enqueue latest jid now cmd db = Inr (j, db1)" "jid \<notin> verification_job_id ` set (jobs db)"
    and "case latest of None \<Rightarrow> jobs_of db (cmd_sbom_id cmd) (cmd_tenant_id cmd) = []
      | Some l \<Rightarrow> l \<in> set (latest_jobs db (cmd_sbom_id cmd) (cmd_tenant_id cmd))"
    and "\<And>s i iss rk. V s i iss rk (verifier s i iss rk)"
    and "run_verification exc_text verifier now' jid (cmd_tenant_id cmd) db1 = (None, db2)"
  shows "reachable exc_text V \<lparr>tables = db, pool = []\<rparr> \<lparr>tables = db2, pool = []\<rparr>"
  by (rule undisturbed [where V = V and verifier = verifier, OF assms])

text \<open>A request for the small record, with a verifier that always accepts.\<close>

definition demo_db :: "nat db" where
  "demo_db = \<lparr>sboms = [pending_sbom], jobs = []\<rparr>"

definition demo_cmd :: enqueue_command where
  "demo_cmd = \<lparr>cmd_sbom_id = ''s1'', cmd_tenant_id = ''t'', cmd_expected_identity = ''me'',
     cmd_expected_issuer = ''https://issuer'', cmd_rekor_required = True\<rparr>"

definition demo_may :: "string list \<Rightarrow> run_outcome \<Rightarrow> bool" where
  "demo_may argv r \<longleftrightarrow> r = Completed 0 ''A'' []"

definition demo_verifier :: "nat sbom \<Rightarrow> string \<Rightarrow> string \<Rightarrow> bool \<Rightarrow> verify_error + nat sbom" where
  "demo_verifier = verify accepting_runtime trusting_client 0"

definition demo_queued :: "nat db" where
  "demo_queued = (case enqueue None ''j1'' 1 demo_cmd demo_db of Inr (j, db) \<Rightarrow> db | Inl _ \<Rightarrow> demo_db)"

definition demo_final :: "nat db" where
  "demo_final = snd (run_verification (\<lambda>e. []) demo_verifier 2 ''j1'' ''t'' demo_queued)"

lemma demo_enqueue: "\<exists>j. enqueue None ''j1'' 1 demo_cmd demo_db = Inr (j, demo_queued)"
proof -
  have "case enqueue None ''j1'' 1 demo_cmd demo_db of Inr _ \<Rightarrow> True | Inl _ \<Rightarrow> False" by code_simp
  then show ?thesis unfolding demo_queued_def by (auto split: sum.split_asm)
qed

lemma demo_run: "run_verification (\<lambda>e. []) demo_verifier 2 ''j1'' ''t'' demo_queued = (None, demo_final)"
proof -
  have "fst (run_verification (\<lambda>e. []) demo_verifier 2 ''j1'' ''t'' demo_queued) = None" by code_simp
  then show ?thesis unfolding demo_final_def by (metis prod.collapse)
qed

lemma demo_calls: "cosign_calls accepting_runtime demo_may trusting_client s i iss rk (demo_verifier s i iss rk)"
  unfolding cosign_calls_def demo_may_def demo_verifier_def
  by (intro exI [of _ "which accepting_runtime"] exI [of _ "run_binary accepting_runtime"] exI [of _ 0])
    (simp add: accepting_runtime_def)

lemma demo_fresh: "''j1'' \<notin> verification_job_id ` set (jobs demo_db)" "jobs_of demo_db x y = []"
  by (simp_all add: demo_db_def jobs_of_def)

lemma demo_reachable:
  "reachable (\<lambda>e. []) (cosign_calls accepting_runtime demo_may trusting_client)
     \<lparr>tables = demo_db, pool = []\<rparr> \<lparr>tables = demo_final, pool = []\<rparr>"
proof -
  obtain j where "enqueue None ''j1'' 1 demo_cmd demo_db = Inr (j, demo_queued)" using demo_enqueue by blast
  then show ?thesis
    by (rule undisturbed [where V = "cosign_calls accepting_runtime demo_may trusting_client" and verifier = demo_verifier and now' = 2,
          OF _ demo_fresh(1) _ demo_calls]) (simp_all add: demo_fresh(2) demo_cmd_def demo_run)
qed

theorem undisturbed_refines_witness:
  "reachable (\<lambda>e. []) (cosign_calls accepting_runtime demo_may trusting_client)
     \<lparr>tables = demo_db, pool = []\<rparr> \<lparr>tables = demo_final, pool = []\<rparr>"
proof -
  obtain j where "enqueue None ''j1'' 1 demo_cmd demo_db = Inr (j, demo_queued)" using demo_enqueue by blast
  then show ?thesis
    by (rule undisturbed_refines [where V = "cosign_calls accepting_runtime demo_may trusting_client" and verifier = demo_verifier and now' = 2,
          OF _ demo_fresh(1) _ demo_calls]) (simp_all add: demo_fresh(2) demo_cmd_def demo_run)
qed

section \<open>Only attested SBOMs are verified\<close>

text \<open>
  However requests, runs and crashes interleave, an SBOM whose row says verified has an attestation: on
  its stored reference to exactly its image, the binary ended successfully, and a line of its output
  decodes to a statement about this document and this image.
\<close>

theorem verified_only_attested:
  assumes "keys_distinct (sboms db)"
      "list_all (\<lambda>s. sbom_valid s \<and> verification_status s \<noteq> VS_VERIFIED) (sboms db)"
    and "reachable exc_text (cosign_calls rt may c) \<lparr>tables = db, pool = []\<rparr> w"
    and "s \<in> set (sboms (tables w))" "verification_status s = VS_VERIFIED"
  shows "\<exists>argv out err line env encoded plain st.
    may argv (Completed 0 out err) \<and> image_reference s = Some (last argv) \<and>
    ends_with (last argv) (CHR ''@'' # sb_image_digest s) \<and>
    line \<in> set (splitlines out) \<and> parse_json rt line = Some (JObj env) \<and>
    dict_get env ''payload'' = Some (JStr encoded) \<and> b64decode rt encoded = Some plain \<and>
    parse_json rt plain = Some (JObj st) \<and> attests rt s st"
proof -
  have "attested rt may c s"
    using cosign.verified_certified [OF assms(3) _ _ assms(4, 5)] initial_ok [OF assms(1, 2)] by simp
  then show ?thesis unfolding attested_def by (elim conjE)
qed

theorem verified_only_attested_witness:
  "list_ex (\<lambda>s. verification_status s = VS_VERIFIED) (sboms demo_final) \<and>
   (\<exists>argv s. image_reference s = Some (last argv) \<and> s \<in> set (sboms demo_final))"
proof
  show v: "list_ex (\<lambda>s. verification_status s = VS_VERIFIED) (sboms demo_final)" by code_simp
  then obtain s where s: "s \<in> set (sboms demo_final)" "verification_status s = VS_VERIFIED" by (auto simp: list_ex_iff)
  have "keys_distinct (sboms demo_db)" by (simp add: keys_distinct_def demo_db_def)
  moreover have "list_all (\<lambda>s. sbom_valid s \<and> verification_status s \<noteq> VS_VERIFIED) (sboms demo_db)"
    using pending_sbom_valid by (simp add: demo_db_def pending_sbom_def)
  ultimately obtain argv where "image_reference s = Some (last argv)"
    using verified_only_attested [OF _ _ demo_reachable] s by fastforce
  then show "\<exists>argv s. image_reference s = Some (last argv) \<and> s \<in> set (sboms demo_final)" using s(1) by blast
qed

section \<open>The life of a job\<close>

definition status_in :: "'time db \<Rightarrow> string \<Rightarrow> job_status option" where
  "status_in db jid = map_option job_status (find (\<lambda>j. verification_job_id j = jid) (jobs db))"

lemma status_in_None: "status_in db jid = None \<longleftrightarrow> jid \<notin> verification_job_id ` set (jobs db)"
  by (auto simp: status_in_def find_None_iff)

lemma find_map_columns:
  "find (\<lambda>r. verification_job_id r = jid)
     (map (\<lambda>row. if verification_job_id row = verification_job_id j then job_columns j row else row) rows) =
   map_option (\<lambda>row. if jid = verification_job_id j then job_columns j row else row)
     (find (\<lambda>r. verification_job_id r = jid) rows)"
  by (induction rows) (auto simp: job_columns_def)

lemma status_in_update:
  "status_in (update_job j db) jid =
     (if jid = verification_job_id j then map_option (\<lambda>_. job_status j) (status_in db jid) else status_in db jid)"
  by (simp add: status_in_def update_job_def find_map_columns option.map_comp comp_def) (simp add: job_columns_def)

lemma find_append: "find P (xs @ ys) = (case find P xs of None \<Rightarrow> find P ys | Some x \<Rightarrow> Some x)"
  by (induction xs) simp_all

lemma status_in_save:
  "status_in (save_job j db) jid =
     (case status_in db jid of None \<Rightarrow> if jid = verification_job_id j then Some (job_status j) else None | Some st \<Rightarrow> Some st)"
  by (simp add: status_in_def save_job_def find_append split: option.split)

lemma status_in_sboms [simp]: "status_in (db\<lparr>sboms := ss\<rparr>) jid = status_in db jid"
  by (simp add: status_in_def)

lemma job_by_id_Some: "job_by_id db jid tid = Some j \<Longrightarrow> verification_job_id j = jid"
  by (auto simp: job_by_id_def find_Some_iff)

lemma queued_job_Inr: "queued_job cmd jid now = Inr j \<Longrightarrow> verification_job_id j = jid \<and> job_status j = JOB_QUEUED"
  by (auto simp: queued_job_def new_job_def split: if_split_asm)

lemma settle_job:
  "settle exc_text now j s r = Inr (j', s') \<Longrightarrow>
     verification_job_id j' = verification_job_id j \<and> job_status j' \<in> {JOB_VERIFIED, JOB_FAILED}"
  by (auto simp: settle_def py_bind_Inr_iff split: sum.split_asm verify_error.split_asm)

text \<open>The job a task works on, with the status its row has meanwhile.\<close>

fun expects :: "'time task \<Rightarrow> (string \<times> job_status) option" where
  "expects (RunLoad jid tid) = Some (jid, JOB_QUEUED)"
| "expects (RunClaim j tid) = Some (verification_job_id j, JOB_QUEUED)"
| "expects (RunFetch j tid) = Some (verification_job_id j, JOB_RUNNING)"
| "expects (RunVerify j s) = Some (verification_job_id j, JOB_RUNNING)"
| "expects (RunStoreJob j s) = Some (verification_job_id j, JOB_RUNNING)"
| "expects _ = None"

fun settled :: "'time task \<Rightarrow> bool" where
  "settled (RunStoreJob j s) \<longleftrightarrow> job_status j \<in> {JOB_VERIFIED, JOB_FAILED}"
| "settled _ \<longleftrightarrow> True"

definition expected_in :: "'time db \<Rightarrow> 'time task \<Rightarrow> bool" where
  "expected_in db t \<longleftrightarrow> (case expects t of None \<Rightarrow> True | Some (jid, st) \<Rightarrow> status_in db jid = Some st)"

definition job_ids :: "'time task list \<Rightarrow> string list" where
  "job_ids ts = map fst (List.map_filter expects ts)"

lemma job_ids_simps [simp]:
  "job_ids [] = []" "job_ids (t # ts) = (case expects t of None \<Rightarrow> [] | Some p \<Rightarrow> [fst p]) @ job_ids ts"
  "job_ids (xs @ ys) = job_ids xs @ job_ids ys"
  by (simp_all add: job_ids_def map_filter_def split: option.split)

lemma job_ids_iff: "jid \<in> set (job_ids ts) \<longleftrightarrow> (\<exists>t st. t \<in> set ts \<and> expects t = Some (jid, st))"
proof (induction ts)
  case (Cons t ts)
  then show ?case by (cases "expects t") auto
qed simp

lemma expects_job_ids: "t \<in> set ts \<Longrightarrow> expects t = Some (jid, st) \<Longrightarrow> jid \<in> set (job_ids ts)"
  by (induction ts) auto

text \<open>The steps of a status.\<close>

definition next_status :: "job_status option \<Rightarrow> job_status option \<Rightarrow> bool" where
  "next_status a b \<longleftrightarrow>
     b = a \<or> (a, b) \<in> {(None, Some JOB_QUEUED), (Some JOB_QUEUED, Some JOB_RUNNING),
       (Some JOB_RUNNING, Some JOB_VERIFIED), (Some JOB_RUNNING, Some JOB_FAILED)}"

text \<open>
  A call moves only the status of its own job, and by one step.\<close>

lemma task_step_status:
  assumes "task_step exc_text V db t db' ts" "expected_in db t" "settled t"
  shows "(\<forall>jid. next_status (status_in db jid) (status_in db' jid) \<and>
      (status_in db' jid \<noteq> status_in db jid \<longrightarrow> status_in db jid = None \<or> (\<exists>st. expects t = Some (jid, st)))) \<and>
    list_all (expected_in db') ts \<and> list_all settled ts \<and> distinct (job_ids ts) \<and>
    (\<forall>jid. jid \<in> set (job_ids ts) \<longrightarrow> (\<exists>st. expects t = Some (jid, st)) \<or> status_in db jid = None)"
  using assms
proof (induction rule: task_step.induct)
  case (save_new cmd jid now j db)
  then have "status_in db jid = None" by (simp add: status_in_None)
  with queued_job_Inr [OF save_new(1)] show ?case
    by (auto simp: status_in_save expected_in_def next_status_def split: option.split)
next
  case (load_queued db jid tid j)
  then show ?case using job_by_id_Some [OF load_queued(1)] by (simp add: expected_in_def next_status_def)
next
  case (claim running j tid db)
  then show ?case by (auto simp: expected_in_def next_status_def status_in_update)
next
  case (verify_settled s j r now finished updated db)
  then show ?case using settle_job [OF verify_settled(2)] by (simp add: expected_in_def next_status_def)
next
  case (store_job db j s)
  then show ?case by (auto simp: expected_in_def next_status_def status_in_update)
next
  case (store_sbom s db db')
  then have "status_in db' jid = status_in db jid" for jid
    using update_verification_Inr [OF store_sbom(1)] by simp
  then show ?case by (simp add: next_status_def)
qed (simp_all add: expected_in_def next_status_def)

definition jobs_ok :: "'time db \<Rightarrow> 'time task list \<Rightarrow> bool" where
  "jobs_ok db ts \<longleftrightarrow> distinct (job_ids ts) \<and> list_all (expected_in db) ts \<and> list_all settled ts"

lemma jobs_ok_step:
  assumes ok: "jobs_ok db (xs @ t # ys)" and s: "task_step exc_text V db t db' rest"
  shows "jobs_ok db' (xs @ rest @ ys)" "next_status (status_in db jid) (status_in db' jid)"
proof -
  have t: "expected_in db t" "settled t" and others: "list_all (expected_in db) (xs @ ys)" "list_all settled (xs @ ys)"
    using ok by (simp_all add: jobs_ok_def)
  note step = task_step_status [OF s t]
  show "next_status (status_in db jid) (status_in db' jid)" using step by blast
  have own: "jid \<notin> set (job_ids (xs @ ys))" if "expects t = Some (jid, st)" for jid st
    using ok that by (auto simp: jobs_ok_def)
  have present: "status_in db jid \<noteq> None" if "jid \<in> set (job_ids (xs @ ys))" for jid
  proof -
    from that obtain u st where u: "u \<in> set (xs @ ys)" "expects u = Some (jid, st)"
      unfolding job_ids_iff by blast
    from others(1) u(1) have "expected_in db u" by (simp only: list_all_iff)
    then show ?thesis by (simp add: expected_in_def u(2))
  qed
  have "expected_in db' u" if u: "u \<in> set (xs @ ys)" for u
  proof (cases "expects u")
    case (Some p)
    obtain jid st where p: "p = (jid, st)" by (cases p)
    then have "jid \<in> set (job_ids (xs @ ys))" using expects_job_ids [OF u] Some by simp
    then have "status_in db' jid = status_in db jid" using step own present by blast
    moreover from others(1) u have "expected_in db u" by (simp only: list_all_iff)
    ultimately show ?thesis by (simp add: expected_in_def Some p)
  qed (simp add: expected_in_def)
  then have "list_all (expected_in db') (xs @ ys)" by (simp add: list_all_iff)
  moreover have "set (job_ids rest) \<inter> set (job_ids (xs @ ys)) = {}" using step own present by blast
  moreover have "distinct (job_ids (xs @ ys))" using ok by (auto simp: jobs_ok_def split: option.split_asm)
  ultimately show "jobs_ok db' (xs @ rest @ ys)" using step others(2) by (auto simp: jobs_ok_def)
qed

lemma reachable_jobs_ok:
  assumes "reachable exc_text V \<lparr>tables = db, pool = []\<rparr> w"
  shows "jobs_ok (tables w) (pool w)"
  using assms
proof (induction rule: reachable_induct)
  case (request db ts cmd)
  then show ?case by (simp add: jobs_ok_def expected_in_def)
next
  case (advance db t db' rest xs ys)
  then show ?case by (rule jobs_ok_step(1))
qed (simp add: jobs_ok_def)

text \<open>
  A job only moves forward: in every reachable world a step leaves the status of a job or takes it from
  queued to running, or from running to verified or failed, and no job disappears.
\<close>

theorem job_moves_forward:
  assumes "reachable exc_text V \<lparr>tables = db, pool = []\<rparr> w" "step exc_text V w w'"
    and "status_in (tables w) jid = Some a"
  shows "\<exists>b. status_in (tables w') jid = Some b \<and>
    (b = a \<or> (a = JOB_QUEUED \<and> b = JOB_RUNNING) \<or> (a = JOB_RUNNING \<and> b \<in> {JOB_VERIFIED, JOB_FAILED}))"
  using assms(2) reachable_jobs_ok [OF assms(1)] assms(3)
proof (cases rule: step.cases)
  case (request db ts cmd)
  then show ?thesis using assms(3) by simp
next
  case (advance db t db' rest xs ys)
  then have "next_status (status_in db jid) (status_in db' jid)"
    using reachable_jobs_ok [OF assms(1)] by (intro jobs_ok_step(2) [OF _ advance(3)]) simp
  then show ?thesis using assms(3) advance by (auto simp: next_status_def)
qed

theorem job_moves_forward_witness:
  "\<exists>b. status_in (tables \<lparr>tables = update_job (the (job_by_id demo_queued ''j1'' ''t'')\<lparr>job_status := JOB_RUNNING\<rparr>) demo_queued,
       pool = [RunFetch (the (job_by_id demo_queued ''j1'' ''t'')\<lparr>job_status := JOB_RUNNING\<rparr>) ''t'']\<rparr>) ''j1'' = Some b"
proof -
  let ?V = "cosign_calls accepting_runtime demo_may trusting_client"
  let ?j = "the (job_by_id demo_queued ''j1'' ''t'')"
  obtain j where j: "enqueue None ''j1'' 1 demo_cmd demo_db = Inr (j, demo_queued)" using demo_enqueue by blast
  have load: "reachable (\<lambda>e. []) ?V \<lparr>tables = demo_db, pool = []\<rparr> \<lparr>tables = demo_queued, pool = [RunLoad ''j1'' ''t'']\<rparr>"
    using enqueue_undisturbed [OF j demo_fresh(1), where V = ?V and exc_text = "\<lambda>e. []"]
    by (simp add: demo_fresh(2)) (simp add: demo_cmd_def)
  have q: "status_in demo_queued ''j1'' = Some JOB_QUEUED" "job_by_id demo_queued ''j1'' ''t'' \<noteq> None" "job_status ?j = JOB_QUEUED"
    by code_simp+
  then have "job_by_id demo_queued ''j1'' ''t'' = Some ?j" by simp
  then have claim: "reachable (\<lambda>e. []) ?V \<lparr>tables = demo_db, pool = []\<rparr> \<lparr>tables = demo_queued, pool = [RunClaim ?j ''t'']\<rparr>"
    using advance_alone [OF load task_step.load_queued [OF _ q(3)]] by simp
  have "step (\<lambda>e. []) ?V \<lparr>tables = demo_queued, pool = [RunClaim ?j ''t'']\<rparr>
      \<lparr>tables = update_job (?j\<lparr>job_status := JOB_RUNNING\<rparr>) demo_queued, pool = [RunFetch (?j\<lparr>job_status := JOB_RUNNING\<rparr>) ''t'']\<rparr>"
    using step.advance [OF task_step.claim [OF refl], of "\<lambda>e. []" ?V demo_queued "[]" ?j "''t''" "[]"] by simp
  from job_moves_forward [OF claim this] q(1) show ?thesis by force
qed

section \<open>What interleaving and crashes break\<close>

lemma jobs_of_save:
  "jobs_of (save_job j db) sid tid = jobs_of db sid tid @ (if job_sbom_id j = sid \<and> job_tenant_id j = tid then [j] else [])"
  by (simp add: jobs_of_def save_job_def)

lemma queued_job_owner: "queued_job cmd jid now = Inr j \<Longrightarrow> job_sbom_id j = cmd_sbom_id cmd \<and> job_tenant_id j = cmd_tenant_id cmd"
  by (auto simp: queued_job_def new_job_def split: if_split_asm)

lemma sbom_by_id_save [simp]: "sbom_by_id (save_job j db) sid tid = sbom_by_id db sid tid"
  by (simp add: sbom_by_id_def)

lemma advance_at:
  assumes "reachable exc_text V w \<lparr>tables = db, pool = xs @ t # ys\<rparr>" "task_step exc_text V db t db' ts"
  shows "reachable exc_text V w \<lparr>tables = db', pool = xs @ ts @ ys\<rparr>"
  using reachable_step [OF assms(1) step.advance [OF assms(2)]] .

text \<open>
  The check for a job in progress and the insertion of the new job are separate calls. Two requests that
  both check first leave two queued jobs for one SBOM, which the use case promises to refuse.
\<close>

theorem two_jobs_in_progress:
  assumes "sbom_by_id db (cmd_sbom_id cmd) (cmd_tenant_id cmd) = Some s"
    and "jobs_of db (cmd_sbom_id cmd) (cmd_tenant_id cmd) = []"
    and "queued_job cmd jid n = Inr a" "queued_job cmd jid' n' = Inr b" "jid \<noteq> jid'"
    and "jid \<notin> verification_job_id ` set (jobs db)" "jid' \<notin> verification_job_id ` set (jobs db)"
  shows "\<exists>w. reachable exc_text V \<lparr>tables = db, pool = []\<rparr> w \<and>
    jobs_of (tables w) (cmd_sbom_id cmd) (cmd_tenant_id cmd) = [a, b] \<and>
    active (job_status a) \<and> active (job_status b)"
proof -
  let ?E = "EnqueueExists cmd" let ?L = "EnqueueLatest cmd" let ?S = "EnqueueSave cmd"
  let ?w0 = "\<lparr>tables = db, pool = []\<rparr>"
  note ex = task_step.exists_found [OF assms(1), of exc_text V]
  note la = task_step.latest_none [OF assms(2), of exc_text V]
  have "reachable exc_text V ?w0 \<lparr>tables = db, pool = [?E] @ [?E]\<rparr>"
    by (rule reachable_step [OF request_alone [OF reachable_refl] step.request])
  then have "reachable exc_text V ?w0 \<lparr>tables = db, pool = [?L, ?E]\<rparr>"
    using advance_at [of exc_text V ?w0 db "[]", OF _ ex] by simp
  then have "reachable exc_text V ?w0 \<lparr>tables = db, pool = [?L, ?L]\<rparr>"
    using advance_at [of exc_text V ?w0 db "[?L]", OF _ ex, of "[]"] by simp
  then have "reachable exc_text V ?w0 \<lparr>tables = db, pool = [?S, ?L]\<rparr>"
    using advance_at [of exc_text V ?w0 db "[]", OF _ la] by simp
  then have "reachable exc_text V ?w0 \<lparr>tables = db, pool = [?S, ?S]\<rparr>"
    using advance_at [of exc_text V ?w0 db "[?S]", OF _ la, of "[]"] by simp
  then have one: "reachable exc_text V ?w0 \<lparr>tables = save_job a db, pool = [RunLoad jid (cmd_tenant_id cmd), ?S]\<rparr>"
    using advance_at [of exc_text V ?w0 db "[]", OF _ task_step.save_new [OF assms(3, 6)]] by simp
  have fresh: "jid' \<notin> verification_job_id ` set (jobs (save_job a db))"
    using assms(5, 7) queued_job_Inr [OF assms(3)] by (simp add: save_job_def)
  have "reachable exc_text V ?w0 \<lparr>tables = save_job b (save_job a db),
      pool = [RunLoad jid (cmd_tenant_id cmd), RunLoad jid' (cmd_tenant_id cmd)]\<rparr>"
    using one advance_at [of exc_text V ?w0 "save_job a db" "[RunLoad jid (cmd_tenant_id cmd)]",
        OF _ task_step.save_new [OF assms(4) fresh], of "[]"] by simp
  moreover have "jobs_of (save_job b (save_job a db)) (cmd_sbom_id cmd) (cmd_tenant_id cmd) = [a, b]"
    using queued_job_owner [OF assms(3)] queued_job_owner [OF assms(4)] by (simp add: jobs_of_save assms(2))
  moreover have "active (job_status a)" "active (job_status b)"
    using queued_job_Inr [OF assms(3)] queued_job_Inr [OF assms(4)] by (simp_all add: active_def)
  ultimately show ?thesis by (metis select_convs(1))
qed

text \<open>A job that is in progress in the table while no task works on it.\<close>

definition orphaned :: "string \<Rightarrow> string \<Rightarrow> 'time verification_job \<Rightarrow> 'time db \<Rightarrow> 'time task list \<Rightarrow> bool" where
  "orphaned sid tid j db ts \<longleftrightarrow>
     jobs_of db sid tid = [j] \<and> active (job_status j) \<and> verification_job_id j \<notin> set (job_ids ts) \<and>
     (\<forall>cmd. EnqueueSave cmd \<in> set ts \<longrightarrow> (cmd_sbom_id cmd, cmd_tenant_id cmd) \<noteq> (sid, tid))"

lemma jobs_of_update:
  "jobs_of (update_job k db) sid tid =
     map (\<lambda>row. if verification_job_id row = verification_job_id k then job_columns k row else row) (jobs_of db sid tid)"
  unfolding jobs_of_def update_job_def by (simp add: filter_map comp_def job_columns_def if_distrib [of job_sbom_id] if_distrib [of job_tenant_id] cong: if_cong)

lemma orphaned_task_step:
  assumes "task_step exc_text V db t db' rest" "orphaned sid tid j db [t]" "verification_job_id j \<in> verification_job_id ` set (jobs db)"
  shows "orphaned sid tid j db' rest"
  using assms
proof (induction rule: task_step.induct)
  case (latest_finished k db cmd)
  then show ?case by (auto simp: orphaned_def latest_jobs_def)
next
  case (save_new cmd jid now k db)
  then show ?case
    using queued_job_owner [OF save_new(1)] by (auto simp: orphaned_def jobs_of_save)
next
  case (load_queued db jid tid' k)
  then show ?case using job_by_id_Some [OF load_queued(1)] by (simp add: orphaned_def)
next
  case (verify_settled s k r now finished updated db)
  then show ?case using settle_job [OF verify_settled(2)] by (simp add: orphaned_def)
next
  case (store_sbom s db db')
  then have "jobs_of db' sid tid = jobs_of db sid tid"
    using update_verification_Inr [OF store_sbom(1)] by (simp add: jobs_of_def)
  with store_sbom show ?case by (simp add: orphaned_def)
qed (auto simp: orphaned_def jobs_of_update)

lemma orphaned_forever:
  assumes "reachable exc_text V w w'" "orphaned sid tid j (tables w) (pool w)"
  shows "orphaned sid tid j (tables w') (pool w')"
  using assms(1)
proof (induction rule: reachable_induct)
  case init
  then show ?case by (rule assms(2))
next
  case (request db ts cmd)
  then show ?case by (simp add: orphaned_def)
next
  case (advance db t db' rest xs ys)
  have "orphaned sid tid j db [t]" using advance(1) by (auto simp: orphaned_def)
  moreover have "j \<in> set (jobs_of db sid tid)" using advance(1) by (simp add: orphaned_def)
  then have "verification_job_id j \<in> verification_job_id ` set (jobs db)" by (auto simp: jobs_of_def)
  ultimately have "orphaned sid tid j db' rest" by (rule orphaned_task_step [OF advance(2)])
  then show ?case using advance(1) by (auto simp: orphaned_def)
qed

text \<open>
  C18: Nothing takes up a job whose task is gone. If the process stops after a job was queued, the SBOM keeps
  that one queued job in every further run: it is never verified, and no new job is ever accepted.
\<close>

theorem stop_blocks_forever:
  assumes "enqueue None jid now cmd db = Inr (j, db')" "jobs_of db (cmd_sbom_id cmd) (cmd_tenant_id cmd) = []"
    and "jid \<notin> verification_job_id ` set (jobs db)"
  shows "\<exists>w. reachable exc_text V \<lparr>tables = db, pool = []\<rparr> w \<and> pool w = [] \<and>
    (\<forall>w'. reachable exc_text V w w' \<longrightarrow>
       jobs_of (tables w') (cmd_sbom_id cmd) (cmd_tenant_id cmd) = [j] \<and> active (job_status j))"
proof -
  have j: "queued_job cmd jid now = Inr j" "db' = save_job j db"
    using assms(1) by (simp_all add: enqueue_def split: option.split_asm if_split_asm sum.split_asm)
  let ?w = "\<lparr>tables = db', pool = []\<rparr>"
  have "reachable exc_text V \<lparr>tables = db, pool = []\<rparr> \<lparr>tables = db', pool = [RunLoad jid (cmd_tenant_id cmd)]\<rparr>"
    using enqueue_undisturbed [OF assms(1, 3)] assms(2) by simp
  then have "reachable exc_text V \<lparr>tables = db, pool = []\<rparr> ?w"
    by (rule advance_alone [OF _ task_step.stopped])
  moreover have "orphaned (cmd_sbom_id cmd) (cmd_tenant_id cmd) j db' []"
    using queued_job_Inr [OF j(1)] queued_job_owner [OF j(1)]
    by (simp add: orphaned_def j(2) jobs_of_save assms(2) active_def)
  then have "jobs_of (tables w') (cmd_sbom_id cmd) (cmd_tenant_id cmd) = [j] \<and> active (job_status j)"
    if "reachable exc_text V ?w w'" for w'
    using orphaned_forever [OF that, of "cmd_sbom_id cmd" "cmd_tenant_id cmd" j] by (simp add: orphaned_def)
  ultimately show ?thesis by (intro exI [of _ ?w]) simp
qed

theorem stop_blocks_forever_witness:
  "\<exists>w j. reachable (\<lambda>e. []) (cosign_calls accepting_runtime demo_may trusting_client) \<lparr>tables = demo_db, pool = []\<rparr> w \<and>
     jobs_of (tables w) ''s1'' ''t'' = [j] \<and> active (job_status j)"
proof -
  obtain j where j: "enqueue None ''j1'' 1 demo_cmd demo_db = Inr (j, demo_queued)" using demo_enqueue by blast
  have none: "jobs_of demo_db (cmd_sbom_id demo_cmd) (cmd_tenant_id demo_cmd) = []" by (rule demo_fresh(2))
  obtain w where "reachable (\<lambda>e. []) (cosign_calls accepting_runtime demo_may trusting_client) \<lparr>tables = demo_db, pool = []\<rparr> w"
      "jobs_of (tables w) (cmd_sbom_id demo_cmd) (cmd_tenant_id demo_cmd) = [j] \<and> active (job_status j)"
    using stop_blocks_forever [OF j none demo_fresh(1)] reachable_refl by blast
  then show ?thesis by (intro exI [of _ w] exI [of _ j]) (simp add: demo_cmd_def)
qed

theorem two_jobs_in_progress_witness:
  "\<exists>w a b. reachable (\<lambda>e. []) (cosign_calls accepting_runtime demo_may trusting_client) \<lparr>tables = demo_db, pool = []\<rparr> w \<and>
     jobs_of (tables w) (cmd_sbom_id demo_cmd) (cmd_tenant_id demo_cmd) = [a, b]"
proof -
  have s: "sbom_by_id demo_db (cmd_sbom_id demo_cmd) (cmd_tenant_id demo_cmd) = Some pending_sbom"
    by (simp add: sbom_by_id_def demo_db_def demo_cmd_def pending_sbom_def)
  have q: "\<exists>j. queued_job demo_cmd jid n = Inr j" for jid and n :: nat
    by (simp add: queued_job_def new_job_def demo_cmd_def is_aware_def)
  obtain a where a: "queued_job demo_cmd ''j1'' (1::nat) = Inr a" using q by blast
  obtain b where b: "queued_job demo_cmd ''j2'' (2::nat) = Inr b" using q by blast
  have new: "''j1'' \<noteq> ''j2''" "''j1'' \<notin> verification_job_id ` set (jobs demo_db)"
      "''j2'' \<notin> verification_job_id ` set (jobs demo_db)" by (simp_all add: demo_db_def)
  show ?thesis using two_jobs_in_progress [OF s demo_fresh(2) a b new] by blast
qed

end
