(* ===== verification/Sbom_Ingest.thy ===== *)
theory Sbom_Ingest
  imports Sbom_Verification
begin

text \<open>
  Ingestion of an SBOM, \<open>application/use_cases/ingest_sbom.py\<close>, over the tables and constraints of
  \<open>infrastructure/postgres\<close>: the document is checked against its declared digest, its components are
  extracted, an identical request returns the record that exists, and a new record is uploaded and saved
  with its components in one transaction. UUIDs, times, SHA-256, \<open>str\<close> and \<open>json.dumps\<close> are arguments;
  the check of an external artifact is the answer of its store.

  The lemmas show that a request is accepted only with the digest of its document, that repeating a
  request changes nothing, and that the use case is one of the runs of the interleaved service.
\<close>

section \<open>Requests\<close>

record 'time ingest_command =
  ing_tenant_id :: string
  ing_image_digest :: string
  ing_artifact_uri :: string
  ing_document :: "(string \<times> json) list"
  declared_sbom_digest :: string
  ing_source :: string
  ing_generated_at :: "'time stamp"
  ing_signature_bundle_uri :: "string option"
  artifact_download_url :: "string option"
  artifact_version_id :: "string option"
  artifact_content_sha256 :: "string option"
  artifact_manifest_digest :: "string option"
  ing_image_reference :: "string option"

record 'time ingest_result =
  res_sbom_id :: string
  res_image_digest :: string
  res_sbom_digest :: string
  res_format :: string
  res_spec_version :: string
  res_component_count :: nat
  res_status :: verification_status
  res_created_at :: "'time stamp"
  res_image_reference :: "string option"

datatype ingest_error =
    InvalidSbom
  | DigestMismatch string string
  | Raised py_error
  | StorageError
  | DuplicateSbom
  | DriverError
  | ArtifactRejected

text \<open>The functions of the standard library the use case calls.\<close>

record lib =
  sha256_text :: "json \<Rightarrow> string"
  show_json :: "json \<Rightarrow> string"
  dumps :: "json \<Rightarrow> string"

definition artifact_fields :: "'time ingest_command \<Rightarrow> string option list" where
  "artifact_fields cmd =
     [artifact_download_url cmd, artifact_version_id cmd, artifact_content_sha256 cmd, artifact_manifest_digest cmd]"

definition artifact_given :: "'time ingest_command \<Rightarrow> bool" where
  "artifact_given cmd = list_ex truthy_text (artifact_fields cmd)"

section \<open>The record of a request\<close>

definition sbom_source_of :: "string \<Rightarrow> sbom_source py_result" where
  "sbom_source_of v =
     (if v = ''syft'' then Inr SYFT else if v = ''external'' then Inr EXTERNAL else Inl ValueError)"

definition build_sbom :: "lib \<Rightarrow> string \<Rightarrow> 'time \<Rightarrow> 'time ingest_command \<Rightarrow> string \<Rightarrow> 'time sbom py_result" where
  "build_sbom l sid now cmd computed =
     py_bind (new_image_digest (ing_image_digest cmd)) (\<lambda>img.
     py_bind (sbom_source_of (ing_source cmd)) (\<lambda>src.
       new_sbom
         \<lparr>sb_sbom_id = sid, sb_tenant_id = ing_tenant_id cmd, sb_image_digest = img, sb_sbom_digest = computed,
          cyclonedx_document = ing_document cmd, spec_version = extract_spec_version (show_json l) (ing_document cmd),
          sb_source = src, artifact_uri = ing_artifact_uri cmd, signature_bundle_uri = ing_signature_bundle_uri cmd,
          verification_status = VS_PENDING, generated_at = ing_generated_at cmd, sb_created_at = Aware now,
          purl_count = int (count_purls_in_document (ing_document cmd)), signing_identity = None, sb_issuer = None,
          rekor_entry_uuid = None, verification_error = None, verified_at = None,
          image_reference = ing_image_reference cmd\<rparr>))"

text \<open>The elements of \<open>components\<close> that are objects.\<close>

definition raw_components :: "(string \<times> json) list \<Rightarrow> (string \<times> json) list list" where
  "raw_components document =
     (case json_field document ''components'' (JArr []) of
        JArr xs \<Rightarrow> List.map_filter (\<lambda>j. case j of JObj fs \<Rightarrow> Some fs | _ \<Rightarrow> None) xs
      | _ \<Rightarrow> [])"

text \<open>Each component has its own UUID and time, \<open>fresh i\<close>.\<close>

definition extract_components ::
    "lib \<Rightarrow> (nat \<Rightarrow> string \<times> 'time) \<Rightarrow> string \<Rightarrow> (string \<times> json) list \<Rightarrow> 'time component list py_result" where
  "extract_components l fresh sid document =
     py_mapM (\<lambda>(i, raw). from_cyclonedx_component (show_json l) (fst (fresh i)) (snd (fresh i)) raw sid)
       (enumerate 0 (raw_components document))"

text \<open>Everything before the first call of a port.\<close>

definition prepare ::
    "lib \<Rightarrow> string \<Rightarrow> 'time \<Rightarrow> (nat \<Rightarrow> string \<times> 'time) \<Rightarrow> 'time ingest_command \<Rightarrow>
     ingest_error + ('time sbom \<times> 'time component list)" where
  "prepare l sid now fresh cmd =
     (case validate_cyclonedx_document (ing_document cmd) of
        Inl _ \<Rightarrow> Inl InvalidSbom
      | Inr _ \<Rightarrow>
          (case compute_digest (sha256_text l) (ing_document cmd) of
             Inl e \<Rightarrow> Inl (Raised e)
           | Inr computed \<Rightarrow>
               (if computed \<noteq> declared_sbom_digest cmd then Inl (DigestMismatch (declared_sbom_digest cmd) computed)
                else case build_sbom l sid now cmd computed of
                  Inl e \<Rightarrow> Inl (Raised e)
                | Inr s \<Rightarrow>
                    (case extract_components l fresh sid (ing_document cmd) of
                       Inl e \<Rightarrow> Inl (Raised e)
                     | Inr cs \<Rightarrow>
                         (if artifact_given cmd \<and> \<not> list_all truthy_text (artifact_fields cmd)
                          then Inl StorageError else Inr (s, cs))))))"

section \<open>The store\<close>

text \<open>A row of a component carries the tenant of its SBOM; an object is a content under an SBOM's UUID.\<close>

record 'time store =
  store_db :: "'time db"
  component_rows :: "(string \<times> 'time component) list"
  objects :: "(string \<times> string) list"

definition same_identity :: "string \<Rightarrow> string \<Rightarrow> string \<Rightarrow> 'time sbom \<Rightarrow> bool" where
  "same_identity img digest tenant row \<longleftrightarrow>
     sb_image_digest row = img \<and> sb_sbom_digest row = digest \<and> sb_tenant_id row = tenant"

definition find_by_image_and_digest :: "string \<Rightarrow> string \<Rightarrow> string \<Rightarrow> 'time db \<Rightarrow> 'time sbom option" where
  "find_by_image_and_digest img digest tenant db = find (same_identity img digest tenant) (sboms db)"

definition bindable :: "string \<Rightarrow> string \<Rightarrow> string \<Rightarrow> 'time sbom \<Rightarrow> bool" where
  "bindable sid tenant ref row \<longleftrightarrow>
     sb_sbom_id row = sid \<and> sb_tenant_id row = tenant \<and>
     (image_reference row = None \<or> image_reference row = Some ref)"

definition bind_image_reference :: "string \<Rightarrow> string \<Rightarrow> string \<Rightarrow> 'time db \<Rightarrow> ingest_error + 'time db" where
  "bind_image_reference sid tenant ref db =
     (if list_ex (bindable sid tenant ref) (sboms db)
      then Inr (db\<lparr>sboms := map (\<lambda>row. if bindable sid tenant ref row then row\<lparr>image_reference := Some ref\<rparr> else row)
                              (sboms db)\<rparr>)
      else Inl StorageError)"

definition upload_sbom :: "lib \<Rightarrow> 'time sbom \<Rightarrow> 'time store \<Rightarrow> 'time store" where
  "upload_sbom l s st = st\<lparr>objects := objects st @ [(sb_sbom_id s, dumps l (canonical (JObj (cyclonedx_document s))))]\<rparr>"

text \<open>The format a digest column is checked for; unlike the pattern of the entities it admits no newline.\<close>

definition digest_column :: "string \<Rightarrow> bool" where
  "digest_column d \<longleftrightarrow> starts_with d ''sha256:'' \<and> is_hex64 (drop 7 d)"

text \<open>The columns an \<open>INSERT\<close> of an SBOM names; the others are null.\<close>

definition new_row :: "'time sbom \<Rightarrow> 'time sbom" where
  "new_row s =
     s\<lparr>signing_identity := None, sb_issuer := None, rekor_entry_uuid := None, verification_error := None,
       verified_at := None\<rparr>"

text \<open>The driver accepts text for a text column.\<close>

definition text_columns :: "'time component \<Rightarrow> bool" where
  "text_columns c \<longleftrightarrow>
     (\<exists>p n v t. comp_purl c = JStr p \<and> comp_name c = JStr n \<and> comp_version c = JStr v \<and> component_type c = JStr t)"

lemma text_columns_code [code]:
  "text_columns c \<longleftrightarrow>
     list_all (\<lambda>j. case j of JStr _ \<Rightarrow> True | _ \<Rightarrow> False) [comp_purl c, comp_name c, comp_version c, component_type c]"
  by (auto simp: text_columns_def split: json.split)

definition save_with_components :: "'time sbom \<Rightarrow> 'time component list \<Rightarrow> 'time store \<Rightarrow> ingest_error + 'time store" where
  "save_with_components s cs st =
     (if \<not> digest_column (sb_image_digest s) \<or> \<not> digest_column (sb_sbom_digest s) then Inl StorageError
      else if list_ex (same_identity (sb_image_digest s) (sb_sbom_digest s) (sb_tenant_id s)) (sboms (store_db st)) \<or>
              list_ex (\<lambda>row. sb_sbom_id row = sb_sbom_id s) (sboms (store_db st))
      then Inl DuplicateSbom
      else if \<not> list_all text_columns cs then Inl DriverError
      else Inr (st\<lparr>store_db := (store_db st)\<lparr>sboms := sboms (store_db st) @ [new_row s]\<rparr>,
                   component_rows := component_rows st @ map (Pair (sb_tenant_id s)) cs\<rparr>))"

section \<open>The use case\<close>

definition retry_result :: "'time ingest_command \<Rightarrow> 'time sbom \<Rightarrow> 'time ingest_result" where
  "retry_result cmd s =
     \<lparr>res_sbom_id = sb_sbom_id s, res_image_digest = sb_image_digest s, res_sbom_digest = sb_sbom_digest s,
      res_format = ''CycloneDX'', res_spec_version = spec_version s, res_component_count = component_count s,
      res_status = verification_status s, res_created_at = sb_created_at s,
      res_image_reference = (if truthy_text (image_reference s) then image_reference s else ing_image_reference cmd)\<rparr>"

definition new_result :: "'time ingest_command \<Rightarrow> 'time sbom \<Rightarrow> 'time ingest_result" where
  "new_result cmd s =
     \<lparr>res_sbom_id = sb_sbom_id s, res_image_digest = ing_image_digest cmd, res_sbom_digest = sb_sbom_digest s,
      res_format = ''CycloneDX'', res_spec_version = spec_version s, res_component_count = component_count s,
      res_status = verification_status s, res_created_at = sb_created_at s,
      res_image_reference = ing_image_reference cmd\<rparr>"

text \<open>What an identical request does to the record that exists.\<close>

definition bind_existing :: "'time ingest_command \<Rightarrow> 'time sbom \<Rightarrow> 'time db \<Rightarrow> ingest_error + 'time db" where
  "bind_existing cmd existing db =
     (case ing_image_reference cmd of
        None \<Rightarrow> Inr db
      | Some ref \<Rightarrow>
          (if image_reference existing \<noteq> None \<and> image_reference existing \<noteq> Some ref then Inl StorageError
           else if image_reference existing = None
           then bind_image_reference (sb_sbom_id existing) (sb_tenant_id existing) ref db
           else Inr db))"

text \<open>\<open>accepted\<close> is the answer of the artifact store on an external artifact.\<close>

definition ingest ::
    "lib \<Rightarrow> ('time ingest_command \<Rightarrow> bool) \<Rightarrow> string \<Rightarrow> 'time \<Rightarrow> (nat \<Rightarrow> string \<times> 'time) \<Rightarrow> 'time ingest_command \<Rightarrow>
     'time store \<Rightarrow> (ingest_error + 'time ingest_result) \<times> 'time store" where
  "ingest l accepted sid now fresh cmd st =
     (case prepare l sid now fresh cmd of
        Inl e \<Rightarrow> (Inl e, st)
      | Inr (s, cs) \<Rightarrow>
          (if artifact_given cmd \<and> \<not> accepted cmd then (Inl ArtifactRejected, st)
           else case find_by_image_and_digest (ing_image_digest cmd) (sb_sbom_digest s) (ing_tenant_id cmd) (store_db st) of
             Some existing \<Rightarrow>
               (case bind_existing cmd existing (store_db st) of
                  Inl e \<Rightarrow> (Inl e, st)
                | Inr db' \<Rightarrow> (Inr (retry_result cmd existing), st\<lparr>store_db := db'\<rparr>))
           | None \<Rightarrow>
               (let st1 = (if artifact_given cmd then st else upload_sbom l s st) in
                case save_with_components s cs st1 of
                  Inl e \<Rightarrow> (Inl e, st1)
                | Inr st2 \<Rightarrow> (Inr (new_result cmd s), st2))))"

section \<open>Reading a record\<close>

text \<open>\<open>application/use_cases/get_sbom.py\<close>.\<close>

record 'time sbom_view =
  view_sbom_id :: string
  view_image_digest :: string
  view_sbom_digest :: string
  view_format :: string
  view_spec_version :: string
  view_component_count :: nat
  view_status :: verification_status
  view_created_at :: "'time stamp"
  view_document :: "(string \<times> json) list"
  view_purl_count :: int
  view_bundle_uri :: "string option"
  view_verified_at :: "'time stamp option"
  view_error :: "string option"
  view_image_reference :: "string option"

definition from_entity :: "'time sbom \<Rightarrow> 'time sbom_view" where
  "from_entity s =
     \<lparr>view_sbom_id = sb_sbom_id s, view_image_digest = sb_image_digest s, view_sbom_digest = sb_sbom_digest s,
      view_format = ''CycloneDX'', view_spec_version = spec_version s, view_component_count = component_count s,
      view_status = verification_status s, view_created_at = sb_created_at s, view_document = cyclonedx_document s,
      view_purl_count = purl_count s, view_bundle_uri = signature_bundle_uri s, view_verified_at = verified_at s,
      view_error = verification_error s, view_image_reference = image_reference s\<rparr>"

definition get_sbom :: "string \<Rightarrow> string \<Rightarrow> 'time db \<Rightarrow> use_case_error + 'time sbom_view" where
  "get_sbom sid tid db = (case sbom_by_id db sid tid of None \<Rightarrow> Inl SbomNotFound | Some s \<Rightarrow> Inr (from_entity s))"

section \<open>What is prepared\<close>

lemma prepare_Inr:
  "prepare l sid now fresh cmd = Inr (s, cs) \<longleftrightarrow>
     validate_cyclonedx_document (ing_document cmd) = Inr () \<and>
     compute_digest (sha256_text l) (ing_document cmd) = Inr (declared_sbom_digest cmd) \<and>
     build_sbom l sid now cmd (declared_sbom_digest cmd) = Inr s \<and>
     extract_components l fresh sid (ing_document cmd) = Inr cs \<and>
     (artifact_given cmd \<longrightarrow> list_all truthy_text (artifact_fields cmd))"
  by (auto simp: prepare_def split: sum.split)

lemma build_sbom_Inr:
  "build_sbom l sid now cmd d = Inr s \<longleftrightarrow>
     (\<exists>src. new_image_digest (ing_image_digest cmd) = Inr (ing_image_digest cmd) \<and> sbom_source_of (ing_source cmd) = Inr src \<and>
       s = \<lparr>sb_sbom_id = sid, sb_tenant_id = ing_tenant_id cmd, sb_image_digest = ing_image_digest cmd, sb_sbom_digest = d,
          cyclonedx_document = ing_document cmd, spec_version = extract_spec_version (show_json l) (ing_document cmd),
          sb_source = src, artifact_uri = ing_artifact_uri cmd, signature_bundle_uri = ing_signature_bundle_uri cmd,
          verification_status = VS_PENDING, generated_at = ing_generated_at cmd, sb_created_at = Aware now,
          purl_count = int (count_purls_in_document (ing_document cmd)), signing_identity = None, sb_issuer = None,
          rekor_entry_uuid = None, verification_error = None, verified_at = None,
          image_reference = ing_image_reference cmd\<rparr> \<and> sbom_valid s)"
  by (auto simp: build_sbom_def py_bind_Inr_iff new_sbom_Inr new_image_digest_def split: if_split_asm)

lemma build_sbom_fields:
  assumes "build_sbom l sid now cmd d = Inr s"
  shows "sb_sbom_id s = sid" "sb_tenant_id s = ing_tenant_id cmd" "sb_image_digest s = ing_image_digest cmd"
    "sb_sbom_digest s = d" "cyclonedx_document s = ing_document cmd" "verification_status s = VS_PENDING"
    "image_reference s = ing_image_reference cmd" "purl_count s = int (count_purls_in_document (ing_document cmd))"
    "new_row s = s" "sbom_valid s"
  using assms by (auto simp: build_sbom_Inr new_row_def)

lemma build_sbom_again:
  assumes "build_sbom l sid now cmd d = Inr s"
  shows "\<exists>s'. build_sbom l sid' now' cmd d = Inr s'"
proof -
  obtain s' where "s' = s\<lparr>sb_sbom_id := sid', sb_created_at := Aware now'\<rparr>" by simp
  then have "build_sbom l sid' now' cmd d = Inr s'"
    using assms unfolding build_sbom_Inr by (auto simp: sbom_valid_iff is_aware_def)
  then show ?thesis ..
qed

lemma from_component_again:
  assumes "from_cyclonedx_component show cid now raw sid = Inr c"
  shows "\<exists>c'. from_cyclonedx_component show cid' now' raw sid' = Inr c'"
  using assms by (auto simp: from_cyclonedx_component_def py_bind_Inr_iff new_component_def is_aware_def Let_def split: if_split_asm prod.split_asm)

lemma py_mapM_Inr_iff: "(\<exists>ys. py_mapM f xs = Inr ys) \<longleftrightarrow> (\<forall>x\<in>set xs. \<exists>y. f x = Inr y)"
  by (induction xs) (auto simp: py_bind_Inr_iff)

lemma extract_again:
  assumes "extract_components l fresh sid document = Inr cs"
  shows "\<exists>cs'. extract_components l fresh' sid' document = Inr cs'"
proof -
  have "\<forall>x\<in>set (enumerate 0 (raw_components document)).
      \<exists>c. from_cyclonedx_component (show_json l) (fst (fresh (fst x))) (snd (fresh (fst x))) (snd x) sid = Inr c"
    using assms py_mapM_Inr_iff unfolding extract_components_def by (metis (no_types, lifting) case_prod_beta)
  then have "\<forall>x\<in>set (enumerate 0 (raw_components document)).
      \<exists>c. from_cyclonedx_component (show_json l) (fst (fresh' (fst x))) (snd (fresh' (fst x))) (snd x) sid' = Inr c"
    using from_component_again by metis
  then show ?thesis unfolding extract_components_def py_mapM_Inr_iff by (simp add: case_prod_beta)
qed

lemma prepare_again:
  assumes "prepare l sid now fresh cmd = Inr (s, cs)"
  shows "\<exists>s' cs'. prepare l sid' now' fresh' cmd = Inr (s', cs') \<and> sb_sbom_digest s' = sb_sbom_digest s"
proof -
  have p: "build_sbom l sid now cmd (declared_sbom_digest cmd) = Inr s" "extract_components l fresh sid (ing_document cmd) = Inr cs"
    using assms by (simp_all add: prepare_Inr)
  obtain s' cs' where again: "build_sbom l sid' now' cmd (declared_sbom_digest cmd) = Inr s'"
      "extract_components l fresh' sid' (ing_document cmd) = Inr cs'"
    using build_sbom_again [OF p(1)] extract_again [OF p(2)] by metis
  have "sb_sbom_digest s' = sb_sbom_digest s"
    using build_sbom_fields(4) [OF p(1)] build_sbom_fields(4) [OF again(1)] by simp
  then show ?thesis using assms again by (auto simp: prepare_Inr)
qed

section \<open>Repeating a request\<close>

lemma find_map_same: "(\<And>x. P (f x) = P x) \<Longrightarrow> find P (map f xs) = map_option f (find P xs)"
  by (induction xs) simp_all

lemma bind_existing_again:
  assumes "bind_existing cmd existing db = Inr db'"
    and "find_by_image_and_digest img d tid db = Some existing"
  shows "\<exists>e'. find_by_image_and_digest img d tid db' = Some e' \<and> sb_sbom_id e' = sb_sbom_id existing \<and>
    bind_existing cmd e' db' = Inr db'"
proof (cases "db' = db")
  case True
  then show ?thesis using assms by auto
next
  case False
  then obtain ref where r: "ing_image_reference cmd = Some ref" "image_reference existing = None"
      "bind_image_reference (sb_sbom_id existing) (sb_tenant_id existing) ref db = Inr db'"
    using assms(1) by (auto simp: bind_existing_def split: option.split_asm if_split_asm)
  let ?f = "\<lambda>row. if bindable (sb_sbom_id existing) (sb_tenant_id existing) ref row then row\<lparr>image_reference := Some ref\<rparr> else row"
  have db': "sboms db' = map ?f (sboms db)"
    using r(3) by (auto simp: bind_image_reference_def split: if_split_asm)
  have "find_by_image_and_digest img d tid db' = Some (?f existing)"
    using assms(2) unfolding find_by_image_and_digest_def db'
    by (subst find_map_same) (simp_all add: same_identity_def)
  moreover have "?f existing = existing\<lparr>image_reference := Some ref\<rparr>" using r(2) by (simp add: bindable_def)
  ultimately show ?thesis by (simp add: bind_existing_def r(1))
qed

text \<open>
  Repeating an accepted request, with another UUID and at another time, returns the same record and
  changes nothing: no row, no component and no object is added.
\<close>

theorem ingest_repeat:
  assumes "ingest l accepted sid now fresh cmd st = (Inr r, st')"
  shows "\<exists>r'. ingest l accepted sid' now' fresh' cmd st' = (Inr r', st') \<and> res_sbom_id r' = res_sbom_id r"
proof -
  obtain s cs where p: "prepare l sid now fresh cmd = Inr (s, cs)"
    using assms by (auto simp: ingest_def split: sum.split_asm prod.split_asm)
  obtain s' cs' where p': "prepare l sid' now' fresh' cmd = Inr (s', cs')" "sb_sbom_digest s' = sb_sbom_digest s"
    using prepare_again [OF p] by blast
  have b: "build_sbom l sid now cmd (declared_sbom_digest cmd) = Inr s" using p by (simp add: prepare_Inr)
  have ok: "\<not> (artifact_given cmd \<and> \<not> accepted cmd)" using assms by (auto simp: ingest_def p split: if_split_asm)
  let ?find = "find_by_image_and_digest (ing_image_digest cmd) (sb_sbom_digest s) (ing_tenant_id cmd)"
  have again: ?thesis if "?find (store_db st') = Some e" "bind_existing cmd e (store_db st') = Inr (store_db st')"
    "sb_sbom_id e = res_sbom_id r" for e
    using that ok by (simp add: ingest_def p' retry_result_def)
  show ?thesis
  proof (cases "?find (store_db st)")
    case (Some e)
    then obtain db' where "bind_existing cmd e (store_db st) = Inr db'" "st' = st\<lparr>store_db := db'\<rparr>" "res_sbom_id r = sb_sbom_id e"
      using assms ok by (auto simp: ingest_def p retry_result_def split: sum.split_asm)
    then show ?thesis using bind_existing_again [OF _ Some] again by auto
  next
    case None
    define st1 where "st1 = (if artifact_given cmd then st else upload_sbom l s st)"
    have db1: "store_db st1 = store_db st" by (simp add: st1_def upload_sbom_def)
    obtain "save_with_components s cs st1 = Inr st'" and r: "r = new_result cmd s"
      using assms ok None by (auto simp: ingest_def p Let_def st1_def [symmetric] split: sum.split_asm)
    then have db': "sboms (store_db st') = sboms (store_db st) @ [s]"
      by (auto simp: save_with_components_def db1 build_sbom_fields(9) [OF b] split: if_split_asm)
    have "?find (store_db st') = Some s"
      using None build_sbom_fields [OF b]
      by (simp add: find_by_image_and_digest_def db' find_append same_identity_def)
    moreover have "bind_existing cmd s (store_db st') = Inr (store_db st')"
      using build_sbom_fields(7) [OF b] by (simp add: bind_existing_def split: option.split)
    ultimately show ?thesis using again by (simp add: r new_result_def)
  qed
qed

section \<open>Reading what was ingested\<close>

lemma bind_existing_found:
  assumes "bind_existing cmd e db = Inr db'" "sbom_by_id db sid tid = Some e"
  shows "\<exists>e'. sbom_by_id db' sid tid = Some e' \<and> sb_image_digest e' = sb_image_digest e \<and> sb_sbom_digest e' = sb_sbom_digest e"
proof (cases "db' = db")
  case False
  then obtain ref where r: "bind_image_reference (sb_sbom_id e) (sb_tenant_id e) ref db = Inr db'"
    using assms(1) by (auto simp: bind_existing_def split: option.split_asm if_split_asm)
  let ?f = "\<lambda>row. if bindable (sb_sbom_id e) (sb_tenant_id e) ref row then row\<lparr>image_reference := Some ref\<rparr> else row"
  have "sboms db' = map ?f (sboms db)" using r by (auto simp: bind_image_reference_def split: if_split_asm)
  then have "sbom_by_id db' sid tid = Some (?f e)"
    using assms(2) by (simp add: sbom_by_id_def find_map_same)
  then show ?thesis by simp
qed (use assms(2) in simp)

text \<open>
  What the use case answers can be read: the record of the answer exists under the tenant of the request,
  for the image and with the document digest that were declared.
\<close>

theorem ingest_then_get:
  assumes "ingest l accepted sid now fresh cmd st = (Inr r, st')" "distinct (map sb_sbom_id (sboms (store_db st)))"
  shows "\<exists>v. get_sbom (res_sbom_id r) (ing_tenant_id cmd) (store_db st') = Inr v \<and>
    view_image_digest v = ing_image_digest cmd \<and> view_sbom_digest v = declared_sbom_digest cmd"
proof -
  obtain s cs where p: "prepare l sid now fresh cmd = Inr (s, cs)"
    using assms(1) by (auto simp: ingest_def split: sum.split_asm prod.split_asm)
  have b: "build_sbom l sid now cmd (declared_sbom_digest cmd) = Inr s" using p by (simp add: prepare_Inr)
  note f = build_sbom_fields [OF b]
  have ok: "\<not> (artifact_given cmd \<and> \<not> accepted cmd)" using assms(1) by (auto simp: ingest_def p split: if_split_asm)
  let ?find = "find_by_image_and_digest (ing_image_digest cmd) (declared_sbom_digest cmd) (ing_tenant_id cmd) (store_db st)"
  show ?thesis
  proof (cases ?find)
    case (Some e)
    then obtain db' where db': "bind_existing cmd e (store_db st) = Inr db'" "st' = st\<lparr>store_db := db'\<rparr>" "res_sbom_id r = sb_sbom_id e"
      using assms(1) ok by (auto simp: ingest_def p f(4) retry_result_def split: sum.split_asm)
    have e: "e \<in> set (sboms (store_db st))" "same_identity (ing_image_digest cmd) (declared_sbom_digest cmd) (ing_tenant_id cmd) e"
      using Some by (auto simp: find_by_image_and_digest_def find_Some_iff)
    have "sbom_by_id (store_db st) (sb_sbom_id e) (ing_tenant_id cmd) = Some e"
    proof (cases "sbom_by_id (store_db st) (sb_sbom_id e) (ing_tenant_id cmd)")
      case None
      then show ?thesis using e by (auto simp: sbom_by_id_def find_None_iff same_identity_def)
    next
      case (Some e')
      then have "e' \<in> set (sboms (store_db st))" "sb_sbom_id e' = sb_sbom_id e" by (auto simp: sbom_by_id_def find_Some_iff)
      then show ?thesis using Some e(1) assms(2) by (auto simp: distinct_map inj_on_def)
    qed
    from bind_existing_found [OF db'(1) this] show ?thesis
      using e(2) by (auto simp: get_sbom_def db'(2, 3) from_entity_def same_identity_def)
  next
    case None
    define st1 where "st1 = (if artifact_given cmd then st else upload_sbom l s st)"
    have db1: "store_db st1 = store_db st" by (simp add: st1_def upload_sbom_def)
    have saved: "save_with_components s cs st1 = Inr st'" and r: "r = new_result cmd s"
      using assms(1) ok None by (auto simp: ingest_def p f(4) Let_def st1_def [symmetric] split: sum.split_asm)
    then have db': "sboms (store_db st') = sboms (store_db st) @ [s]" and new: "sid \<notin> sb_sbom_id ` set (sboms (store_db st))"
      using f(1, 9) by (auto simp: save_with_components_def db1 list_ex_iff split: if_split_asm)
    have "find (\<lambda>row. sb_sbom_id row = sid \<and> sb_tenant_id row = ing_tenant_id cmd) (sboms (store_db st)) = None"
      using new by (auto simp: find_None_iff)
    then have "sbom_by_id (store_db st') sid (ing_tenant_id cmd) = Some s"
      using f(1, 2) by (simp add: sbom_by_id_def db' find_append)
    then show ?thesis using f by (simp add: r new_result_def get_sbom_def from_entity_def)
  qed
qed

section \<open>Failures\<close>

text \<open>
  C17: A request that fails leaves every table as it was. An object is left behind only by an upload after which
  saving the new record failed: nothing had the document and image of the request, and the error is that of
  the save.
\<close>

theorem ingest_failure_atomic:
  assumes "ingest l accepted sid now fresh cmd st = (Inl e, st')"
  shows "store_db st' = store_db st \<and> component_rows st' = component_rows st \<and>
    (objects st' = objects st \<or>
     (\<exists>s cs. \<not> artifact_given cmd \<and> prepare l sid now fresh cmd = Inr (s, cs) \<and>
        find_by_image_and_digest (ing_image_digest cmd) (sb_sbom_digest s) (ing_tenant_id cmd) (store_db st) = None \<and>
        save_with_components s cs st' = Inl e \<and> e \<in> {StorageError, DuplicateSbom, DriverError} \<and>
        objects st' = objects st @ [(sid, dumps l (canonical (JObj (ing_document cmd))))]))"
proof (cases "prepare l sid now fresh cmd")
  case (Inl e')
  then show ?thesis using assms by (simp add: ingest_def)
next
  case (Inr p)
  obtain s cs where p: "p = (s, cs)" by fastforce
  have b: "build_sbom l sid now cmd (declared_sbom_digest cmd) = Inr s" using Inr by (simp add: p prepare_Inr)
  have errors: "e' \<in> {StorageError, DuplicateSbom, DriverError}" if "save_with_components s cs st1 = Inl e'" for st1 e'
    using that by (auto simp: save_with_components_def split: if_split_asm)
  show ?thesis
    using assms build_sbom_fields(1, 5) [OF b]
    by (auto simp: ingest_def Inr p upload_sbom_def Let_def dest: errors split: option.split_asm sum.split_asm if_split_asm)
qed

text \<open>
  A component without a name makes the request fail with a bare \<open>ValueError\<close> or \<open>TypeError\<close>, which no
  caller translates, although the document passes the structural check and has the declared digest.
\<close>

theorem nameless_component_raises:
  assumes "validate_cyclonedx_document (ing_document cmd) = Inr ()"
    and "compute_digest (sha256_text l) (ing_document cmd) = Inr (declared_sbom_digest cmd)"
    and "build_sbom l sid now cmd (declared_sbom_digest cmd) = Inr s"
    and "raw \<in> set (raw_components (ing_document cmd))" "\<not> json_truthy (json_field raw ''name'' (JStr []))"
  shows "\<exists>e. ingest l accepted sid now fresh cmd st = (Inl (Raised e), st)"
proof -
  have none: "from_cyclonedx_component (show_json l) cid t raw sid \<noteq> Inr c" for cid t c
    using assms(5) by (auto simp: from_cyclonedx_component_def py_bind_Inr_iff new_component_def Let_def split: prod.split_asm if_split_asm)
  obtain i where "i < length (raw_components (ing_document cmd))" "raw = raw_components (ing_document cmd) ! i"
    using assms(4) by (metis in_set_conv_nth)
  then have "(i, raw) \<in> set (enumerate 0 (raw_components (ing_document cmd)))" by (simp add: in_set_enumerate_eq)
  then have "extract_components l fresh sid (ing_document cmd) \<noteq> Inr cs" for cs
    using none py_mapM_Inr_iff unfolding extract_components_def by (metis (no_types, lifting) case_prod_conv)
  then obtain e where "extract_components l fresh sid (ing_document cmd) = Inl e"
    by (cases "extract_components l fresh sid (ing_document cmd)") blast+
  then show ?thesis using assms(1-3) by (simp add: ingest_def prepare_def)
qed

text \<open>
  One document may describe any number of images: that its digest is bound to another image does not
  refuse a request.
\<close>

theorem ingest_accepts_other_image:
  assumes "prepare l sid now fresh cmd = Inr (s, cs)" "artifact_given cmd \<longrightarrow> accepted cmd"
    and "digest_column (ing_image_digest cmd)" "digest_column (declared_sbom_digest cmd)" "list_all text_columns cs"
    and "\<And>row. row \<in> set (sboms (store_db st)) \<Longrightarrow> sb_sbom_id row \<noteq> sid \<and>
      \<not> (sb_image_digest row = ing_image_digest cmd \<and> sb_sbom_digest row = declared_sbom_digest cmd)"
  shows "\<exists>r st'. ingest l accepted sid now fresh cmd st = (Inr r, st') \<and>
    sboms (store_db st') = sboms (store_db st) @ [s] \<and> sb_sbom_digest s = declared_sbom_digest cmd"
proof -
  have b: "build_sbom l sid now cmd (declared_sbom_digest cmd) = Inr s" using assms(1) by (simp add: prepare_Inr)
  note f = build_sbom_fields [OF b]
  have none: "\<not> same_identity (ing_image_digest cmd) (declared_sbom_digest cmd) (ing_tenant_id cmd) row"
      "sb_sbom_id row \<noteq> sid" if "row \<in> set (sboms (store_db st))" for row
    using assms(6) [OF that] by (auto simp: same_identity_def)
  have "find_by_image_and_digest (ing_image_digest cmd) (declared_sbom_digest cmd) (ing_tenant_id cmd) (store_db st) = None"
    using none(1) by (simp add: find_by_image_and_digest_def find_None_iff)
  then show ?thesis
    using assms(2-5) none f
    by (simp add: ingest_def assms(1) save_with_components_def upload_sbom_def Let_def list_ex_iff)
qed

section \<open>A small request\<close>

definition demo_lib :: lib where
  "demo_lib = \<lparr>sha256_text = (\<lambda>j. replicate 64 (CHR ''b'')), show_json = (\<lambda>j. []), dumps = (\<lambda>j. ''doc'')\<rparr>"

definition demo_ingest :: "string \<Rightarrow> (string \<times> json) list \<Rightarrow> nat ingest_command" where
  "demo_ingest img document =
     \<lparr>ing_tenant_id = ''t'', ing_image_digest = ''sha256:'' @ img, ing_artifact_uri = ''s3:x'', ing_document = document,
      declared_sbom_digest = ''sha256:'' @ replicate 64 (CHR ''b''), ing_source = ''syft'', ing_generated_at = Aware 0,
      ing_signature_bundle_uri = None, artifact_download_url = None, artifact_version_id = None,
      artifact_content_sha256 = None, artifact_manifest_digest = None,
      ing_image_reference = Some (''r/i@sha256:'' @ img)\<rparr>"

definition demo_doc :: "(string \<times> json) list" where
  "demo_doc = [(''bomFormat'', JStr ''CycloneDX'')]"

definition demo_command :: "nat ingest_command" where
  "demo_command = demo_ingest (replicate 64 (CHR ''d'')) demo_doc"

definition empty_store :: "'time store" where
  "empty_store = \<lparr>store_db = \<lparr>sboms = [], jobs = []\<rparr>, component_rows = [], objects = []\<rparr>"

definition demo_fresh_ids :: "nat \<Rightarrow> string \<times> nat" where
  "demo_fresh_ids i = (show_nat i, 0)"

definition demo_store :: "nat store" where
  "demo_store = \<lparr>store_db = demo_db, component_rows = [], objects = [(''s1'', ''doc'')]\<rparr>"

lemma demo_prepare: "prepare demo_lib ''s1'' 0 demo_fresh_ids demo_command = Inr (pending_sbom, [])"
  by code_simp

lemma demo_ingested:
  "ingest demo_lib (\<lambda>c. True) ''s1'' 0 demo_fresh_ids demo_command empty_store = (Inr (new_result demo_command pending_sbom), demo_store)"
proof -
  have d: "digest_column (sb_image_digest pending_sbom)" "digest_column (sb_sbom_digest pending_sbom)" by code_simp+
  have n: "new_row pending_sbom = pending_sbom" "sb_sbom_id pending_sbom = ''s1''" by (simp_all add: new_row_def pending_sbom_def)
  have a: "\<not> artifact_given demo_command" by code_simp
  have o: "dumps demo_lib j = ''doc''" for j by (simp add: demo_lib_def)
  show ?thesis unfolding ingest_def demo_prepare
    by (simp add: a d n o find_by_image_and_digest_def save_with_components_def upload_sbom_def
        empty_store_def demo_store_def demo_db_def)
qed

theorem ingest_repeat_witness:
  "\<exists>r'. ingest demo_lib (\<lambda>c. True) ''s2'' 5 demo_fresh_ids demo_command demo_store = (Inr r', demo_store) \<and> res_sbom_id r' = ''s1''"
  using ingest_repeat [OF demo_ingested] by (simp add: new_result_def pending_sbom_def)

theorem ingest_then_get_witness:
  "\<exists>v. get_sbom ''s1'' ''t'' demo_db = Inr v \<and> view_sbom_digest v = ''sha256:'' @ replicate 64 (CHR ''b'')"
proof -
  have f: "ing_tenant_id demo_command = ''t''" "declared_sbom_digest demo_command = ''sha256:'' @ replicate 64 (CHR ''b'')"
    by (simp_all add: demo_command_def demo_ingest_def)
  show ?thesis
    using ingest_then_get [OF demo_ingested] unfolding f
    by (auto simp: empty_store_def demo_store_def new_result_def pending_sbom_def)
qed

text \<open>
  A second image of the document under an identifier that is taken: its upload stays behind.\<close>

theorem ingest_failure_atomic_witness:
  "(\<exists>s cs. save_with_components s cs (snd (ingest demo_lib (\<lambda>c. True) ''s1'' 0 demo_fresh_ids
       (demo_ingest (replicate 64 (CHR ''e'')) demo_doc) demo_store)) = Inl DuplicateSbom) \<and>
   store_db (snd (ingest demo_lib (\<lambda>c. True) ''s1'' 0 demo_fresh_ids
       (demo_ingest (replicate 64 (CHR ''e'')) demo_doc) demo_store)) = demo_db"
proof -
  let ?r = "ingest demo_lib (\<lambda>c. True) ''s1'' 0 demo_fresh_ids (demo_ingest (replicate 64 (CHR ''e'')) demo_doc) demo_store"
  have failed: "case fst ?r of Inl DuplicateSbom \<Rightarrow> length (objects (snd ?r)) = 2 | _ \<Rightarrow> False" by code_simp
  then have "?r = (Inl DuplicateSbom, snd ?r)" by (cases ?r) (auto split: sum.splits ingest_error.splits)
  from ingest_failure_atomic [OF this] show ?thesis using failed by (auto simp: demo_store_def split: sum.splits ingest_error.splits)
qed

definition nameless_doc :: "(string \<times> json) list" where
  "nameless_doc = demo_doc @ [(''components'', JArr [JObj [(''purl'', JStr ''pkg:npm/left-pad@1'')]])]"

theorem nameless_component_raises_witness:
  "\<exists>e. ingest demo_lib (\<lambda>c. True) ''s1'' 0 demo_fresh_ids (demo_ingest (replicate 64 (CHR ''d'')) nameless_doc) demo_store =
     (Inl (Raised e), demo_store)"
proof -
  let ?cmd = "demo_ingest (replicate 64 (CHR ''d'')) nameless_doc"
  have b: "case build_sbom demo_lib ''s1'' 0 ?cmd (declared_sbom_digest ?cmd) of Inl _ \<Rightarrow> False | Inr _ \<Rightarrow> True" by code_simp
  then obtain s where s: "build_sbom demo_lib ''s1'' 0 ?cmd (declared_sbom_digest ?cmd) = Inr s" by (auto split: sum.split_asm)
  have v: "validate_cyclonedx_document (ing_document ?cmd) = Inr ()" by code_simp
  have c: "compute_digest (sha256_text demo_lib) (ing_document ?cmd) = Inr (declared_sbom_digest ?cmd)" by code_simp
  have r: "raw_components (ing_document ?cmd) = [[(''purl'', JStr ''pkg:npm/left-pad@1'')]]" by code_simp
  have n: "\<not> json_truthy (json_field [(''purl'', JStr ''pkg:npm/left-pad@1'')] ''name'' (JStr []))" by code_simp
  show ?thesis using nameless_component_raises [OF v c s _ n] by (simp add: r)
qed

theorem ingest_accepts_other_image_witness:
  "\<exists>r st'. ingest demo_lib (\<lambda>c. True) ''s2'' 0 demo_fresh_ids (demo_ingest (replicate 64 (CHR ''e'')) demo_doc) demo_store = (Inr r, st') \<and>
     map sb_sbom_digest (sboms (store_db st')) = replicate 2 (''sha256:'' @ replicate 64 (CHR ''b''))"
proof -
  let ?cmd = "demo_ingest (replicate 64 (CHR ''e'')) demo_doc"
  have "case prepare demo_lib ''s2'' 0 demo_fresh_ids ?cmd of Inl _ \<Rightarrow> False | Inr (s, cs) \<Rightarrow> cs = []" by code_simp
  then obtain s where p: "prepare demo_lib ''s2'' 0 demo_fresh_ids ?cmd = Inr (s, [])" by (auto split: sum.split_asm)
  have d: "digest_column (ing_image_digest ?cmd)" "digest_column (declared_sbom_digest ?cmd)" by code_simp+
  have a: "artifact_given ?cmd \<longrightarrow> (\<lambda>c. True) ?cmd" by simp
  obtain r st' where i: "ingest demo_lib (\<lambda>c. True) ''s2'' 0 demo_fresh_ids ?cmd demo_store = (Inr r, st')"
      "sboms (store_db st') = [pending_sbom, s]" "sb_sbom_digest s = declared_sbom_digest ?cmd"
    using ingest_accepts_other_image [OF p a d, of demo_store]
    by (auto simp: demo_store_def demo_db_def pending_sbom_def demo_ingest_def)
  then show ?thesis by (auto simp: pending_sbom_def demo_ingest_def numeral_2_eq_2)
qed

end
