(* ===== verification/Sbom_Service.thy ===== *)
theory Sbom_Service
  imports Sbom_Ingest
begin

text \<open>
  The SBOM service as a whole: ingestion and verification interleave over one store, every call of a
  repository or of the artifact store is one atomic step, and any task may stop anywhere.

  The lemmas show that the stored records stay consistent with their documents and components, and that
  across both workflows a record is verified only with an attestation of its own document.
\<close>

section \<open>Steps\<close>

text \<open>A task of ingestion is named by the call it makes next.\<close>

datatype 'time ingest_task =
    IngestPrepare "'time ingest_command"
  | IngestExternal "'time ingest_command" "'time sbom" "'time component list"
  | IngestFind "'time ingest_command" "'time sbom" "'time component list"
  | IngestBind string string string
  | IngestUpload "'time sbom" "'time component list"
  | IngestSave "'time sbom" "'time component list"

inductive ingest_step ::
    "lib \<Rightarrow> 'time store \<Rightarrow> 'time ingest_task \<Rightarrow> 'time store \<Rightarrow> 'time ingest_task list \<Rightarrow> bool"
  for l
where
  prepared:
    "prepare l sid now fresh cmd = Inr (s, cs) \<Longrightarrow>
     ingest_step l st (IngestPrepare cmd) st
       [if artifact_given cmd then IngestExternal cmd s cs else IngestFind cmd s cs]"
| refused: "prepare l sid now fresh cmd = Inl e \<Longrightarrow> ingest_step l st (IngestPrepare cmd) st []"
| external_accepted: "ingest_step l st (IngestExternal cmd s cs) st [IngestFind cmd s cs]"
| find_new:
    "find_by_image_and_digest (ing_image_digest cmd) (sb_sbom_digest s) (ing_tenant_id cmd) (store_db st) = None \<Longrightarrow>
     ingest_step l st (IngestFind cmd s cs) st [if artifact_given cmd then IngestSave s cs else IngestUpload s cs]"
| find_bind:
    "find_by_image_and_digest (ing_image_digest cmd) (sb_sbom_digest s) (ing_tenant_id cmd) (store_db st) = Some existing \<Longrightarrow>
     ing_image_reference cmd = Some ref \<Longrightarrow> image_reference existing = None \<Longrightarrow>
     ingest_step l st (IngestFind cmd s cs) st [IngestBind (sb_sbom_id existing) (sb_tenant_id existing) ref]"
| find_same:
    "find_by_image_and_digest (ing_image_digest cmd) (sb_sbom_digest s) (ing_tenant_id cmd) (store_db st) = Some existing \<Longrightarrow>
     ing_image_reference cmd = None \<or> image_reference existing \<noteq> None \<Longrightarrow>
     ingest_step l st (IngestFind cmd s cs) st []"
| bound:
    "bind_image_reference sid tid ref (store_db st) = Inr db' \<Longrightarrow>
     ingest_step l st (IngestBind sid tid ref) (st\<lparr>store_db := db'\<rparr>) []"
| bind_refused:
    "bind_image_reference sid tid ref (store_db st) = Inl e \<Longrightarrow> ingest_step l st (IngestBind sid tid ref) st []"
| uploaded: "ingest_step l st (IngestUpload s cs) (upload_sbom l s st) [IngestSave s cs]"
| saved: "save_with_components s cs st = Inr st' \<Longrightarrow> ingest_step l st (IngestSave s cs) st' []"
| save_failed: "save_with_components s cs st = Inl e \<Longrightarrow> ingest_step l st (IngestSave s cs) st []"
| ingest_stopped: "ingest_step l st t st []"

datatype 'time service_task = Verifying "'time task" | Ingesting "'time ingest_task"

record 'time service =
  service_store :: "'time store"
  service_pool :: "'time service_task list"

inductive service_step ::
    "lib \<Rightarrow> (py_error \<Rightarrow> string) \<Rightarrow> 'time::linorder verifier \<Rightarrow> 'time service \<Rightarrow> 'time service \<Rightarrow> bool"
  for l exc_text V
where
  verify_request:
    "service_step l exc_text V \<lparr>service_store = st, service_pool = ts\<rparr>
       \<lparr>service_store = st, service_pool = ts @ [Verifying (EnqueueExists cmd)]\<rparr>"
| ingest_request:
    "service_step l exc_text V \<lparr>service_store = st, service_pool = ts\<rparr>
       \<lparr>service_store = st, service_pool = ts @ [Ingesting (IngestPrepare icmd)]\<rparr>"
| verifying:
    "task_step exc_text V (store_db st) t db' rest \<Longrightarrow>
     service_step l exc_text V \<lparr>service_store = st, service_pool = xs @ Verifying t # ys\<rparr>
       \<lparr>service_store = st\<lparr>store_db := db'\<rparr>, service_pool = xs @ map Verifying rest @ ys\<rparr>"
| ingesting:
    "ingest_step l st i st' irest \<Longrightarrow>
     service_step l exc_text V \<lparr>service_store = st, service_pool = xs @ Ingesting i # ys\<rparr>
       \<lparr>service_store = st', service_pool = xs @ map Ingesting irest @ ys\<rparr>"

definition service_reachable ::
    "lib \<Rightarrow> (py_error \<Rightarrow> string) \<Rightarrow> 'time::linorder verifier \<Rightarrow> 'time service \<Rightarrow> 'time service \<Rightarrow> bool" where
  "service_reachable l exc_text V = (service_step l exc_text V)\<^sup>*\<^sup>*"

lemma service_reachable_refl: "service_reachable l exc_text V w w"
  by (simp add: service_reachable_def)

lemma service_reachable_step:
  "service_reachable l exc_text V u v \<Longrightarrow> service_step l exc_text V v w \<Longrightarrow> service_reachable l exc_text V u w"
  unfolding service_reachable_def by (rule rtranclp.rtrancl_into_rtrancl)

lemma service_reachable_trans:
  "service_reachable l exc_text V u v \<Longrightarrow> service_reachable l exc_text V v w \<Longrightarrow> service_reachable l exc_text V u w"
  unfolding service_reachable_def by (rule rtranclp_trans)

text \<open>
  An invariant of the service: it holds of the store, a condition holds of every task, and a step of one
  task keeps the store's part, establishes the condition of what remains, and keeps that of the others.
\<close>

lemma service_invariant [consumes 1, case_names init verify_request ingest_request verifying ingesting others_v others_i]:
  assumes "service_reachable l exc_text V \<lparr>service_store = st0, service_pool = []\<rparr> w"
    and "I st0"
    and "\<And>st cmd. I st \<Longrightarrow> T st (Verifying (EnqueueExists cmd))"
    and "\<And>st cmd. I st \<Longrightarrow> T st (Ingesting (IngestPrepare cmd))"
    and "\<And>st t db' rest. I st \<Longrightarrow> T st (Verifying t) \<Longrightarrow> task_step exc_text V (store_db st) t db' rest \<Longrightarrow>
      I (st\<lparr>store_db := db'\<rparr>) \<and> (\<forall>r\<in>set rest. T (st\<lparr>store_db := db'\<rparr>) (Verifying r))"
    and "\<And>st t st' rest. I st \<Longrightarrow> T st (Ingesting t) \<Longrightarrow> ingest_step l st t st' rest \<Longrightarrow>
      I st' \<and> (\<forall>r\<in>set rest. T st' (Ingesting r))"
    and "\<And>st t db' rest u. task_step exc_text V (store_db st) t db' rest \<Longrightarrow> T st u \<Longrightarrow> T (st\<lparr>store_db := db'\<rparr>) u"
    and "\<And>st t st' rest u. ingest_step l st t st' rest \<Longrightarrow> T st u \<Longrightarrow> T st' u"
  shows "I (service_store w) \<and> (\<forall>t\<in>set (service_pool w). T (service_store w) t)"
  using assms(1) unfolding service_reachable_def
proof (induction rule: rtranclp_induct)
  case base
  then show ?case using assms(2) by simp
next
  case (step v w)
  from step.hyps(2) step.IH show ?case
  proof cases
    case (verifying st t db' rest xs ys)
    then show ?thesis using step.IH assms(5) [of st t db' rest] assms(7) [of st t db' rest] by auto
  next
    case (ingesting st i st' irest xs ys)
    then show ?thesis using step.IH assms(6) [of st i st' irest] assms(8) [of st i st' irest] by auto
  qed (auto simp: assms(3, 4))
qed

section \<open>Requests that run alone\<close>

text \<open>The state in which only verification tasks run, and only ingestion tasks.\<close>

definition verification_world :: "'time store \<Rightarrow> 'time world \<Rightarrow> 'time service" where
  "verification_world st w = \<lparr>service_store = st\<lparr>store_db := tables w\<rparr>, service_pool = map Verifying (pool w)\<rparr>"

definition ingest_world :: "'time store \<Rightarrow> 'time ingest_task list \<Rightarrow> 'time service" where
  "ingest_world st ts = \<lparr>service_store = st, service_pool = map Ingesting ts\<rparr>"

lemma verification_lifts:
  assumes "reachable exc_text V u w"
  shows "service_reachable l exc_text V (verification_world st u) (verification_world st w)"
  using assms unfolding reachable_def
proof (induction rule: rtranclp_induct)
  case base
  show ?case by (rule service_reachable_refl)
next
  case (step v w)
  from step.hyps(2) have "service_step l exc_text V (verification_world st v) (verification_world st w)"
  proof cases
    case (request db ts cmd)
    then show ?thesis
      using service_step.verify_request [of l exc_text V "st\<lparr>store_db := db\<rparr>" "map Verifying ts" cmd]
      by (simp add: verification_world_def)
  next
    case (advance db t db' rest xs ys)
    then have "task_step exc_text V (store_db (st\<lparr>store_db := db\<rparr>)) t db' rest" by simp
    from service_step.verifying [OF this, of l "map Verifying xs" "map Verifying ys"] advance show ?thesis
      by (simp add: verification_world_def)
  qed
  with step.IH show ?case by (rule service_reachable_step)
qed

lemma ingest_alone:
  assumes "service_reachable l exc_text V w (ingest_world st [t])" "ingest_step l st t st' ts"
  shows "service_reachable l exc_text V w (ingest_world st' ts)"
  using service_reachable_step [OF assms(1), of "ingest_world st' ts"]
    service_step.ingesting [OF assms(2), of exc_text V "[]" "[]"] by (simp add: ingest_world_def)

lemma ingest_runs_alone:
  assumes i: "ingest l accepted sid now fresh cmd st = (Inr r, st')"
  shows "service_reachable l exc_text V (ingest_world st []) (ingest_world st' [])"
proof -
  obtain s cs where p: "prepare l sid now fresh cmd = Inr (s, cs)"
    using i by (auto simp: ingest_def split: sum.split_asm prod.split_asm)
  have ok: "\<not> (artifact_given cmd \<and> \<not> accepted cmd)" using i by (auto simp: ingest_def p split: if_split_asm)
  have start: "service_reachable l exc_text V (ingest_world st []) (ingest_world st [IngestPrepare cmd])"
    using service_reachable_step [OF service_reachable_refl, of l exc_text V "ingest_world st []" "ingest_world st [IngestPrepare cmd]"]
      service_step.ingest_request [of l exc_text V st "[]" cmd] by (simp add: ingest_world_def)
  note first = ingest_alone [OF start ingest_step.prepared [OF p]]
  have found: "service_reachable l exc_text V (ingest_world st []) (ingest_world st [IngestFind cmd s cs])"
    using first ingest_alone [OF _ ingest_step.external_accepted] by (cases "artifact_given cmd") simp_all
  let ?find = "find_by_image_and_digest (ing_image_digest cmd) (sb_sbom_digest s) (ing_tenant_id cmd) (store_db st)"
  show ?thesis
  proof (cases ?find)
    case (Some e)
    then obtain db' where b: "bind_existing cmd e (store_db st) = Inr db'" and st': "st' = st\<lparr>store_db := db'\<rparr>"
      using i ok by (auto simp: ingest_def p split: sum.split_asm)
    show ?thesis
    proof (cases "ing_image_reference cmd = None \<or> image_reference e \<noteq> None")
      case True
      then have "db' = store_db st" using b by (auto simp: bind_existing_def split: option.split_asm if_split_asm)
      then show ?thesis using ingest_alone [OF found ingest_step.find_same [OF Some True]] by (simp add: st')
    next
      case False
      then obtain ref where ref: "ing_image_reference cmd = Some ref" "image_reference e = None" by auto
      then have "bind_image_reference (sb_sbom_id e) (sb_tenant_id e) ref (store_db st) = Inr db'"
        using b by (simp add: bind_existing_def)
      from ingest_alone [OF ingest_alone [OF found ingest_step.find_bind [OF Some ref]] ingest_step.bound [OF this]]
      show ?thesis by (simp add: st')
    qed
  next
    case None
    note searched = ingest_alone [OF found ingest_step.find_new [OF None]]
    show ?thesis
    proof (cases "artifact_given cmd")
      case True
      then have "save_with_components s cs st = Inr st'"
        using i ok None by (auto simp: ingest_def p Let_def split: sum.split_asm)
      then show ?thesis using ingest_alone [OF _ ingest_step.saved] searched True by simp
    next
      case False
      then have "save_with_components s cs (upload_sbom l s st) = Inr st'"
        using i ok None by (auto simp: ingest_def p Let_def split: sum.split_asm)
      from ingest_alone [OF ingest_alone [OF _ ingest_step.uploaded] ingest_step.saved [OF this]] searched False
      show ?thesis by simp
    qed
  qed
qed

text \<open>
  The use case refines the interleaved service: a request that is accepted without interruption is one
  of its runs, and it ends with the same store.
\<close>

theorem ingest_refines:
  assumes "ingest l accepted sid now fresh cmd st = (Inr r, st')"
  shows "service_reachable l exc_text V \<lparr>service_store = st, service_pool = []\<rparr> \<lparr>service_store = st', service_pool = []\<rparr>"
  using ingest_runs_alone [OF assms] by (simp add: ingest_world_def)

theorem ingest_refines_witness:
  "service_reachable demo_lib (\<lambda>e. []) (cosign_calls accepting_runtime demo_may trusting_client)
     \<lparr>service_store = empty_store, service_pool = []\<rparr> \<lparr>service_store = demo_store, service_pool = []\<rparr>"
  by (rule ingest_refines [OF demo_ingested])

text \<open>
  Ingestion of the small document, and then its verification.\<close>

lemma demo_service_reachable:
  "service_reachable demo_lib (\<lambda>e. []) (cosign_calls accepting_runtime demo_may trusting_client)
     \<lparr>service_store = empty_store, service_pool = []\<rparr>
     \<lparr>service_store = demo_store\<lparr>store_db := demo_final\<rparr>, service_pool = []\<rparr>"
proof (rule service_reachable_trans)
  show "service_reachable demo_lib (\<lambda>e. []) (cosign_calls accepting_runtime demo_may trusting_client)
     \<lparr>service_store = empty_store, service_pool = []\<rparr> \<lparr>service_store = demo_store, service_pool = []\<rparr>"
    using ingest_runs_alone [OF demo_ingested] by (simp add: ingest_world_def)
  show "service_reachable demo_lib (\<lambda>e. []) (cosign_calls accepting_runtime demo_may trusting_client)
     \<lparr>service_store = demo_store, service_pool = []\<rparr> \<lparr>service_store = demo_store\<lparr>store_db := demo_final\<rparr>, service_pool = []\<rparr>"
    using verification_lifts [OF demo_reachable, of demo_lib demo_store]
    by (simp add: verification_world_def) (simp add: demo_store_def)
qed

section \<open>Records and their documents\<close>

text \<open>The columns no \<open>UPDATE\<close> of either workflow sets.\<close>

definition fixed_columns where
  "fixed_columns row =
     (sb_sbom_id row, sb_tenant_id row, sb_image_digest row, sb_sbom_digest row, cyclonedx_document row, purl_count row)"

lemma fixed_columns_simps [simp]:
  "fixed_columns (sbom_columns s row) = fixed_columns row"
  "fixed_columns (row\<lparr>image_reference := r\<rparr>) = fixed_columns row"
  by (simp_all add: fixed_columns_def sbom_columns_def)

lemma update_verification_fixed:
  "update_verification s db = Inr db' \<Longrightarrow> map fixed_columns (sboms db') = map fixed_columns (sboms db)"
  by (drule update_verification_Inr) simp

lemma task_step_fixed:
  "task_step exc_text V db t db' rest \<Longrightarrow> map fixed_columns (sboms db') = map fixed_columns (sboms db)"
  by (induction rule: task_step.induct) (simp_all add: update_verification_fixed)

lemma bind_fixed:
  "bind_image_reference sid tid ref db = Inr db' \<Longrightarrow> map fixed_columns (sboms db') = map fixed_columns (sboms db)"
  by (auto simp: bind_image_reference_def split: if_split_asm)

text \<open>What a record owes its document: digests, count, and components.\<close>

definition record_consistent :: "lib \<Rightarrow> 'time store \<Rightarrow> 'time sbom \<Rightarrow> bool" where
  "record_consistent l st row \<longleftrightarrow>
     validate_cyclonedx_document (cyclonedx_document row) = Inr () \<and>
     compute_digest (sha256_text l) (cyclonedx_document row) = Inr (sb_sbom_digest row) \<and>
     digest_column (sb_image_digest row) \<and>
     purl_count row = int (count_purls_in_document (cyclonedx_document row)) \<and>
     (\<exists>fresh cs. extract_components l fresh (sb_sbom_id row) (cyclonedx_document row) = Inr cs \<and>
        filter (\<lambda>(tid, c). comp_sbom_id c = sb_sbom_id row) (component_rows st) = map (Pair (sb_tenant_id row)) cs)"

definition store_consistent :: "lib \<Rightarrow> 'time store \<Rightarrow> bool" where
  "store_consistent l st \<longleftrightarrow>
     (\<forall>row\<in>set (sboms (store_db st)). record_consistent l st row) \<and>
     distinct (map sb_sbom_id (sboms (store_db st))) \<and>
     distinct (map (\<lambda>row. (sb_image_digest row, sb_sbom_digest row, sb_tenant_id row)) (sboms (store_db st))) \<and>
     (\<forall>(tid, c)\<in>set (component_rows st). comp_sbom_id c \<in> sb_sbom_id ` set (sboms (store_db st)))"

lemma record_consistent_fixed:
  assumes "fixed_columns row = fixed_columns row'" "component_rows st = component_rows st'"
  shows "record_consistent l st row = record_consistent l st' row'"
  using assms by (simp add: record_consistent_def fixed_columns_def)

lemma store_consistent_fixed:
  assumes c: "store_consistent l st" and rows: "component_rows st' = component_rows st"
    and f: "map fixed_columns (sboms (store_db st')) = map fixed_columns (sboms (store_db st))"
  shows "store_consistent l st'"
proof -
  have keys: "map sb_sbom_id ss = map (\<lambda>x. fst x) (map fixed_columns ss)"
      "map (\<lambda>row. (sb_image_digest row, sb_sbom_digest row, sb_tenant_id row)) ss =
        map (\<lambda>(i, t, img, d, _). (img, d, t)) (map fixed_columns ss)" for ss :: "'a sbom list"
    by (simp_all add: fixed_columns_def)
  have ids: "sb_sbom_id ` set ss = (\<lambda>x. fst x) ` set (map fixed_columns ss)" for ss :: "'a sbom list"
    by (force simp: fixed_columns_def)
  have "record_consistent l st' row" if "row \<in> set (sboms (store_db st'))" for row
  proof -
    have "fixed_columns row \<in> fixed_columns ` set (sboms (store_db st))"
      using that arg_cong [OF f, of set] by auto
    then obtain row' where "row' \<in> set (sboms (store_db st))" "fixed_columns row = fixed_columns row'" by auto
    then show ?thesis using c record_consistent_fixed [of row row' st' st l] rows by (simp add: store_consistent_def)
  qed
  then show ?thesis
    using c unfolding store_consistent_def keys ids rows f by simp
qed

lemma component_owner:
  "from_cyclonedx_component show cid now raw sid = Inr c \<Longrightarrow> comp_sbom_id c = sid"
  by (auto simp: from_cyclonedx_component_def py_bind_Inr_iff new_component_def Let_def split: if_split_asm prod.split_asm)

lemma py_mapM_result: "py_mapM f xs = Inr ys \<Longrightarrow> y \<in> set ys \<Longrightarrow> \<exists>x\<in>set xs. f x = Inr y"
  by (induction xs arbitrary: ys) (auto simp: py_bind_Inr_iff)

lemma extract_owner:
  assumes "extract_components l fresh sid document = Inr cs" "c \<in> set cs"
  shows "comp_sbom_id c = sid"
  using py_mapM_result [OF assms(1) [unfolded extract_components_def] assms(2)] by (auto dest: component_owner)

text \<open>What a task of ingestion carries was prepared from one document.\<close>

definition prepared :: "lib \<Rightarrow> 'time sbom \<Rightarrow> 'time component list \<Rightarrow> bool" where
  "prepared l s cs \<longleftrightarrow>
     validate_cyclonedx_document (cyclonedx_document s) = Inr () \<and>
     compute_digest (sha256_text l) (cyclonedx_document s) = Inr (sb_sbom_digest s) \<and>
     purl_count s = int (count_purls_in_document (cyclonedx_document s)) \<and>
     (\<exists>fresh. extract_components l fresh (sb_sbom_id s) (cyclonedx_document s) = Inr cs) \<and>
     sbom_valid s \<and> verification_status s = VS_PENDING"

lemma prepare_prepared:
  assumes "prepare l sid now fresh cmd = Inr (s, cs)"
  shows "prepared l s cs"
proof -
  have "build_sbom l sid now cmd (declared_sbom_digest cmd) = Inr s" using assms by (simp add: prepare_Inr)
  from build_sbom_fields [OF this] show ?thesis using assms by (auto simp: prepared_def prepare_Inr)
qed

fun carried :: "'time ingest_task \<Rightarrow> ('time sbom \<times> 'time component list) option" where
  "carried (IngestExternal cmd s cs) = Some (s, cs)"
| "carried (IngestFind cmd s cs) = Some (s, cs)"
| "carried (IngestUpload s cs) = Some (s, cs)"
| "carried (IngestSave s cs) = Some (s, cs)"
| "carried (IngestPrepare cmd) = None"
| "carried (IngestBind sid tid ref) = None"

definition carries_prepared :: "lib \<Rightarrow> 'time service_task \<Rightarrow> bool" where
  "carries_prepared l t \<longleftrightarrow> (\<forall>i s cs. t = Ingesting i \<and> carried i = Some (s, cs) \<longrightarrow> prepared l s cs)"

lemma carries_prepared_simps [simp]:
  "carries_prepared l (Verifying v)"
  "carries_prepared l (Ingesting i) \<longleftrightarrow> (\<forall>s cs. carried i = Some (s, cs) \<longrightarrow> prepared l s cs)"
  by (auto simp: carries_prepared_def)

lemma ingest_step_prepared:
  "ingest_step l st i st' rest \<Longrightarrow> carries_prepared l (Ingesting i) \<Longrightarrow> r \<in> set rest \<Longrightarrow> carries_prepared l (Ingesting r)"
  by (induction rule: ingest_step.induct) (auto dest: prepare_prepared split: if_split_asm)

lemma save_consistent:
  assumes "store_consistent l st" "prepared l s cs" "save_with_components s cs st = Inr st'"
  shows "store_consistent l st'"
proof -
  have new: "sb_sbom_id s \<notin> sb_sbom_id ` set (sboms (store_db st))"
      "\<not> list_ex (same_identity (sb_image_digest s) (sb_sbom_digest s) (sb_tenant_id s)) (sboms (store_db st))"
      "digest_column (sb_image_digest s)"
      and db: "sboms (store_db st') = sboms (store_db st) @ [new_row s]"
      and rows: "component_rows st' = component_rows st @ map (Pair (sb_tenant_id s)) cs"
    using assms(3) by (auto simp: save_with_components_def list_ex_iff split: if_split_asm)
  obtain fresh where x: "extract_components l fresh (sb_sbom_id s) (cyclonedx_document s) = Inr cs"
    using assms(2) by (auto simp: prepared_def)
  have owned: "filter (\<lambda>(tid, c). comp_sbom_id c = i) (map (Pair (sb_tenant_id s)) cs) =
      (if i = sb_sbom_id s then map (Pair (sb_tenant_id s)) cs else [])" for i
    using extract_owner [OF x] by (auto simp: filter_map o_def filter_empty_conv cong: filter_cong)
  have none: "filter (\<lambda>(tid, c). comp_sbom_id c = sb_sbom_id s) (component_rows st) = []"
    unfolding filter_empty_conv
  proof
    fix x assume x: "x \<in> set (component_rows st)"
    obtain tid c where "x = (tid, c)" by fastforce
    moreover from this have "comp_sbom_id c \<in> sb_sbom_id ` set (sboms (store_db st))"
      using assms(1) x by (auto simp: store_consistent_def)
    ultimately show "\<not> (case x of (tid, c) \<Rightarrow> comp_sbom_id c = sb_sbom_id s)" using new(1) by auto
  qed
  have f: "sb_sbom_id (new_row s) = sb_sbom_id s" "sb_tenant_id (new_row s) = sb_tenant_id s"
      "sb_image_digest (new_row s) = sb_image_digest s" "sb_sbom_digest (new_row s) = sb_sbom_digest s"
      "cyclonedx_document (new_row s) = cyclonedx_document s" "purl_count (new_row s) = purl_count s"
    by (simp_all add: new_row_def)
  have "record_consistent l st' (new_row s)"
    using assms(2) x new(3) unfolding record_consistent_def f rows filter_append none owned
    by (auto simp: prepared_def)
  moreover have "record_consistent l st' row" if "row \<in> set (sboms (store_db st))" for row
  proof -
    have "sb_sbom_id row \<noteq> sb_sbom_id s" using that new(1) by (metis imageI)
    moreover have "record_consistent l st row" using assms(1) that by (simp add: store_consistent_def)
    ultimately show ?thesis unfolding record_consistent_def rows filter_append owned by simp
  qed
  moreover have "distinct (map (\<lambda>row. (sb_image_digest row, sb_sbom_digest row, sb_tenant_id row)) (sboms (store_db st')))"
    using assms(1) new(2) by (auto simp: store_consistent_def db f list_ex_iff same_identity_def)
  moreover have "\<forall>(tid, c)\<in>set (component_rows st'). comp_sbom_id c \<in> sb_sbom_id ` set (sboms (store_db st'))"
    using assms(1) extract_owner [OF x] by (fastforce simp: store_consistent_def db f rows)
  ultimately show ?thesis using assms(1) new(1) by (auto simp: store_consistent_def db f)
qed

lemma ingest_step_consistent:
  assumes "ingest_step l st i st' rest" "store_consistent l st" "carries_prepared l (Ingesting i)"
  shows "store_consistent l st'"
  using assms
proof (induction rule: ingest_step.induct)
  case (bound sid tid ref st db')
  then show ?case by (intro store_consistent_fixed [OF bound(2)]) (simp_all add: bind_fixed)
next
  case (uploaded st s cs)
  then show ?case by (intro store_consistent_fixed [OF uploaded(1)]) (simp_all add: upload_sbom_def)
next
  case (saved s cs st st')
  then show ?case by (intro save_consistent [OF saved(2) _ saved(1)]) simp
qed simp_all

text \<open>
  C16: In every state the service reaches from empty tables, however its requests interleave and stop, every
  record has the digest of its document, an image digest of 64 hexadecimal digits and the right number
  of package URLs; its components are exactly those extracted from its document, under its tenant; and
  no two records agree in their image, document digest and tenant.
\<close>

theorem service_consistent:
  assumes "service_reachable l exc_text V \<lparr>service_store = empty_store, service_pool = []\<rparr> w"
  shows "store_consistent l (service_store w)"
proof -
  have "store_consistent l (service_store w) \<and> (\<forall>t\<in>set (service_pool w). carries_prepared l t)"
    using assms
  proof (induction rule: service_invariant [where I = "store_consistent l" and T = "\<lambda>st. carries_prepared l"])
    case init
    show ?case by (simp add: store_consistent_def empty_store_def)
  next
    case (verifying st t db' rest)
    then have "store_consistent l (st\<lparr>store_db := db'\<rparr>)"
      by (intro store_consistent_fixed [OF verifying(1)]) (simp_all add: task_step_fixed)
    then show ?case by simp
  next
    case (ingesting st t st' rest)
    then show ?case using ingest_step_consistent ingest_step_prepared by blast
  qed simp_all
  then show ?thesis ..
qed

section \<open>Records and their attestations\<close>

lemma bound_rows:
  assumes "bind_image_reference sid tid ref db = Inr db'" "row' \<in> set (sboms db')"
  obtains row where "row \<in> set (sboms db)" "row' = row \<or> bindable sid tid ref row \<and> row' = row\<lparr>image_reference := Some ref\<rparr>"
  using assms by (auto simp: bind_image_reference_def split: if_split_asm)

lemma bind_covers: "bindable sid tid ref row \<Longrightarrow> covers row (row\<lparr>image_reference := Some ref\<rparr>)"
  by (auto simp: covers_def bindable_def)

lemma grows_refl [simp]: "grows ss ss"
  unfolding grows_def using covers_refl by blast

lemma grows_append: "grows ss (ss @ ts)"
  unfolding grows_def using covers_refl by (metis Un_iff set_append)

lemma ingest_step_grows:
  "ingest_step l st i st' rest \<Longrightarrow> grows (sboms (store_db st)) (sboms (store_db st'))"
proof (induction rule: ingest_step.induct)
  case (bound sid tid ref st db')
  let ?f = "\<lambda>row. if bindable sid tid ref row then row\<lparr>image_reference := Some ref\<rparr> else row"
  have "sboms db' = map ?f (sboms (store_db st))"
    using bound by (auto simp: bind_image_reference_def split: if_split_asm)
  then have "\<exists>row'\<in>set (sboms db'). covers row row'" if "row \<in> set (sboms (store_db st))" for row
    using that by (intro bexI [of _ "?f row"]) (auto simp: bind_covers)
  then show ?case by (simp add: grows_def)
next
  case (saved s cs st st')
  then have "sboms (store_db st') = sboms (store_db st) @ [new_row s]"
    by (auto simp: save_with_components_def split: if_split_asm)
  then show ?case by (simp add: grows_append)
qed (simp_all add: upload_sbom_def)

text \<open>The reference a task is about to bind fits the row it was found for.\<close>

definition bind_fits :: "'time db \<Rightarrow> string \<Rightarrow> string \<Rightarrow> string \<Rightarrow> bool" where
  "bind_fits db sid tid ref \<longleftrightarrow>
     (\<exists>row\<in>set (sboms db). sb_sbom_id row = sid \<and> sb_tenant_id row = tid \<and>
        reference_match ref \<and> ends_with ref (CHR ''@'' # sb_image_digest row))"

lemma bind_fits_grows: "grows (sboms db) (sboms db') \<Longrightarrow> bind_fits db sid tid ref \<Longrightarrow> bind_fits db' sid tid ref"
  unfolding bind_fits_def grows_def covers_def by metis

context sbom_verifier
begin

definition ingest_task_ok :: "'time db \<Rightarrow> 'time ingest_task \<Rightarrow> bool" where
  "ingest_task_ok db i \<longleftrightarrow>
     (case i of
        IngestPrepare cmd \<Rightarrow> True
      | IngestExternal cmd s cs \<Rightarrow> sbom_valid s \<and> verification_status s = VS_PENDING \<and>
          sb_image_digest s = ing_image_digest cmd \<and> image_reference s = ing_image_reference cmd
      | IngestFind cmd s cs \<Rightarrow> sbom_valid s \<and> verification_status s = VS_PENDING \<and>
          sb_image_digest s = ing_image_digest cmd \<and> image_reference s = ing_image_reference cmd
      | IngestBind sid tid ref \<Rightarrow> bind_fits db sid tid ref
      | IngestUpload s cs \<Rightarrow> sbom_valid s \<and> verification_status s = VS_PENDING
      | IngestSave s cs \<Rightarrow> sbom_valid s \<and> verification_status s = VS_PENDING)"

lemma ingest_task_ok_grows:
  "grows (sboms db) (sboms db') \<Longrightarrow> ingest_task_ok db i \<Longrightarrow> ingest_task_ok db' i"
  using bind_fits_grows by (auto simp: ingest_task_ok_def split: ingest_task.split)

definition service_task_ok :: "'time db \<Rightarrow> 'time service_task \<Rightarrow> bool" where
  "service_task_ok db t \<longleftrightarrow> (case t of Verifying v \<Rightarrow> task_ok db v | Ingesting i \<Rightarrow> ingest_task_ok db i)"

lemma service_task_ok_grows:
  "grows (sboms db) (sboms db') \<Longrightarrow> service_task_ok db t \<Longrightarrow> service_task_ok db' t"
  using task_ok_grows ingest_task_ok_grows by (auto simp: service_task_ok_def split: service_task.split)

lemma bind_ok:
  assumes "tables_ok db" "bind_fits db sid tid ref" "bind_image_reference sid tid ref db = Inr db'"
  shows "tables_ok db'"
proof -
  have keys: "map (\<lambda>s. (sb_sbom_id s, sb_tenant_id s)) ss = map (\<lambda>x. (fst x, fst (snd x))) (map fixed_columns ss)"
    for ss :: "'time sbom list" by (simp add: fixed_columns_def)
  have "keys_distinct (sboms db')"
    using assms(1) unfolding tables_ok_def keys_distinct_def keys bind_fixed [OF assms(3)] by simp
  moreover have "sbom_ok row'" if in': "row' \<in> set (sboms db')" for row'
  proof -
    obtain row where row: "row \<in> set (sboms db)"
        "row' = row \<or> bindable sid tid ref row \<and> row' = row\<lparr>image_reference := Some ref\<rparr>"
      using bound_rows [OF assms(3) in'] .
    have ok: "sbom_ok row" using assms(1) row(1) by (simp add: tables_ok_def list_all_iff)
    show ?thesis
    proof (cases "row' = row")
      case False
      then have b: "bindable sid tid ref row" and row': "row' = row\<lparr>image_reference := Some ref\<rparr>" using row(2) by auto
      obtain r where r: "r \<in> set (sboms db)" "sb_sbom_id r = sid" "sb_tenant_id r = tid" "reference_match ref"
          "ends_with ref (CHR ''@'' # sb_image_digest r)"
        using assms(2) by (auto simp: bind_fits_def)
      have "inj_on (\<lambda>s. (sb_sbom_id s, sb_tenant_id s)) (set (sboms db))"
        using assms(1) by (simp add: tables_ok_def keys_distinct_def distinct_map)
      then have "r = row" using r(1-3) row(1) b by (auto simp: inj_on_def bindable_def)
      then have "sbom_valid row'" using ok r(4, 5) by (simp add: row' sbom_ok_def sbom_valid_iff)
      moreover have "C row \<Longrightarrow> C row'" using certified_covers [OF bind_covers [OF b]] by (simp add: row')
      ultimately show ?thesis using ok by (simp add: sbom_ok_def row')
    qed (simp add: ok)
  qed
  ultimately show ?thesis by (simp add: tables_ok_def list_all_iff)
qed

lemma save_ok:
  assumes "tables_ok (store_db st)" "sbom_valid s" "verification_status s = VS_PENDING"
    "save_with_components s cs st = Inr st'"
  shows "tables_ok (store_db st')"
proof -
  have new: "sb_sbom_id s \<notin> sb_sbom_id ` set (sboms (store_db st))"
      and db: "sboms (store_db st') = sboms (store_db st) @ [new_row s]"
    using assms(4) by (auto simp: save_with_components_def list_ex_iff split: if_split_asm)
  have "sbom_ok (new_row s)" using assms(2, 3) by (simp add: sbom_ok_def sbom_valid_iff new_row_def)
  moreover have "keys_distinct (sboms (store_db st'))"
    using assms(1) new by (auto simp: tables_ok_def keys_distinct_def db new_row_def)
  ultimately show ?thesis using assms(1) by (simp add: tables_ok_def db)
qed

lemma ingest_step_ok:
  assumes "ingest_step l st i st' rest" "tables_ok (store_db st)" "ingest_task_ok (store_db st) i"
  shows "tables_ok (store_db st') \<and> (\<forall>r\<in>set rest. ingest_task_ok (store_db st') r)"
  using assms
proof (induction rule: ingest_step.induct)
  case (prepared sid now fresh cmd s cs st)
  have "build_sbom l sid now cmd (declared_sbom_digest cmd) = Inr s" using prepared(1) by (simp add: prepare_Inr)
  from build_sbom_fields [OF this] show ?case using prepared by (simp add: ingest_task_ok_def)
next
  case (find_bind cmd s st existing ref cs)
  have s: "sbom_valid s" "image_reference s = Some ref" "sb_image_digest s = ing_image_digest cmd"
    using find_bind(2, 5) by (simp_all add: ingest_task_ok_def)
  have "existing \<in> set (sboms (store_db st))" "sb_image_digest existing = ing_image_digest cmd"
    using find_bind(1) by (auto simp: find_by_image_and_digest_def find_Some_iff same_identity_def)
  then have "bind_fits (store_db st) (sb_sbom_id existing) (sb_tenant_id existing) ref"
    using s by (auto simp: bind_fits_def sbom_valid_iff)
  then show ?case using find_bind(4) by (simp add: ingest_task_ok_def)
next
  case (bound sid tid ref st db')
  then show ?case using bind_ok by (simp add: ingest_task_ok_def)
next
  case (saved s cs st st')
  then show ?case using save_ok [OF _ _ _ saved(1)] by (simp add: ingest_task_ok_def)
qed (simp_all add: ingest_task_ok_def upload_sbom_def)

theorem service_certified:
  assumes "service_reachable l exc_text V \<lparr>service_store = st0, service_pool = []\<rparr> w" "tables_ok (store_db st0)"
    and "s \<in> set (sboms (store_db (service_store w)))" "verification_status s = VS_VERIFIED"
  shows "C s"
proof -
  have "tables_ok (store_db (service_store w)) \<and>
      (\<forall>t\<in>set (service_pool w). service_task_ok (store_db (service_store w)) t)"
    using assms(1)
  proof (induction rule: service_invariant [where I = "\<lambda>st. tables_ok (store_db st)" and
        T = "\<lambda>st. service_task_ok (store_db st)"])
    case init
    show ?case by (rule assms(2))
  next
    case (verify_request st cmd)
    show ?case by (simp add: service_task_ok_def task_ok_def)
  next
    case (ingest_request st cmd)
    show ?case by (simp add: service_task_ok_def ingest_task_ok_def)
  next
    case (verifying st t db' rest)
    then show ?case using task_step_ok [OF verifying(3)] by (simp add: service_task_ok_def list_all_iff)
  next
    case (ingesting st t st' rest)
    then show ?case using ingest_step_ok [OF ingesting(3)] by (simp add: service_task_ok_def)
  next
    case (others_v st t db' rest u)
    have "grows (sboms (store_db st)) (sboms db')" by (rule grows_identities [OF task_step_identities [OF others_v(1)]])
    then show ?case using service_task_ok_grows others_v(2) by simp
  next
    case (others_i st t st' rest u)
    then show ?case using service_task_ok_grows [OF ingest_step_grows [OF others_i(1)]] by simp
  qed
  then show ?thesis using assms(3, 4) by (auto simp: tables_ok_def list_all_iff sbom_ok_def)
qed

end

text \<open>
  C15: In every state the service reaches from empty tables, a record that says verified has an attestation:
  on its stored reference to exactly its image, the binary ended successfully, and a line of its output
  decodes to a statement about this document and this image.
\<close>

theorem service_verified_attested:
  assumes "service_reachable l exc_text (cosign_calls rt may c) \<lparr>service_store = empty_store, service_pool = []\<rparr> w"
    and "s \<in> set (sboms (store_db (service_store w)))" "verification_status s = VS_VERIFIED"
  shows "\<exists>argv out err line env encoded plain st.
    may argv (Completed 0 out err) \<and> image_reference s = Some (last argv) \<and>
    ends_with (last argv) (CHR ''@'' # sb_image_digest s) \<and>
    line \<in> set (splitlines out) \<and> parse_json rt line = Some (JObj env) \<and>
    dict_get env ''payload'' = Some (JStr encoded) \<and> b64decode rt encoded = Some plain \<and>
    parse_json rt plain = Some (JObj st) \<and> attests rt s st"
proof -
  have "cosign.tables_ok rt may c (store_db (empty_store :: 'a store))"
    by (rule initial_ok) (simp_all add: empty_store_def keys_distinct_def)
  then have "attested rt may c s" by (rule cosign.service_certified [OF assms(1) _ assms(2, 3)])
  then show ?thesis unfolding attested_def by (elim conjE)
qed

theorem service_consistent_witness:
  "store_consistent demo_lib (demo_store\<lparr>store_db := demo_final\<rparr>)"
  using service_consistent [OF demo_service_reachable] by simp

theorem service_verified_attested_witness:
  "list_ex (\<lambda>s. verification_status s = VS_VERIFIED) (sboms demo_final) \<and>
   (\<exists>argv s. image_reference s = Some (last argv) \<and> s \<in> set (sboms demo_final))"
proof
  show v: "list_ex (\<lambda>s. verification_status s = VS_VERIFIED) (sboms demo_final)" by code_simp
  then obtain s where s: "s \<in> set (sboms demo_final)" "verification_status s = VS_VERIFIED" by (auto simp: list_ex_iff)
  then obtain argv where "image_reference s = Some (last argv)"
    using service_verified_attested [OF demo_service_reachable] by fastforce
  then show "\<exists>argv s. image_reference s = Some (last argv) \<and> s \<in> set (sboms demo_final)" using s(1) by blast
qed

end
