(* ===== verification/Causal_Multigraph.thy ===== *)
theory Causal_Multigraph
  imports Prelude
begin

text \<open>
  The NetworkX \<open>MultiDiGraph\<close> under the behavioural dependency graph of the causal engine. It is a
  parameter of the model: a record of the operations the code calls, over the node and edge attributes it
  stores, with its documented behaviour as the locale \<open>multigraph_library\<close>, interpreted on association
  lists in insertion order.
\<close>

section \<open>Nodes and edges\<close>

type_synonym uuid = string
type_synonym node_key = "string list"
type_synonym time = int

datatype node_type = WORKLOAD | CONTAINER | PROCESS | PURL | FILE | NETWORK_ENDPOINT | CONTRACT | DRIFT_EVENT

fun node_type_value :: "node_type \<Rightarrow> string" where
  "node_type_value WORKLOAD = ''workload''"
| "node_type_value CONTAINER = ''container''"
| "node_type_value PROCESS = ''process''"
| "node_type_value PURL = ''purl''"
| "node_type_value FILE = ''file''"
| "node_type_value NETWORK_ENDPOINT = ''network_endpoint''"
| "node_type_value CONTRACT = ''contract''"
| "node_type_value DRIFT_EVENT = ''drift_event''"

datatype edge_type =
  RUNS | EXECUTES | LOADS | READS | WRITES | CONNECTS_TO | BELONGS_TO | VIOLATES | DERIVED_FROM

fun edge_type_value :: "edge_type \<Rightarrow> string" where
  "edge_type_value RUNS = ''runs''"
| "edge_type_value EXECUTES = ''executes''"
| "edge_type_value LOADS = ''loads''"
| "edge_type_value READS = ''reads''"
| "edge_type_value WRITES = ''writes''"
| "edge_type_value CONNECTS_TO = ''connects_to''"
| "edge_type_value BELONGS_TO = ''belongs_to''"
| "edge_type_value VIOLATES = ''violates''"
| "edge_type_value DERIVED_FROM = ''derived_from''"

lemma node_type_value_inject [simp]: "node_type_value a = node_type_value b \<longleftrightarrow> a = b"
  by (cases a; cases b) simp_all

lemma edge_type_value_inject [simp]: "edge_type_value a = edge_type_value b \<longleftrightarrow> a = b"
  by (cases a; cases b) simp_all

text \<open>
  The attributes of a node, \<open>None\<close> where the dictionary has no such key. The time of the last observation
  may also be present and empty.
\<close>

record node_attrs =
  na_id :: "uuid option"
  na_type :: "string option"
  na_label :: "string option"
  na_first :: "time option"
  na_last :: "time option option"
  na_confidence :: "real option"
  na_count :: "nat option"
  na_refs :: "uuid list option"

definition bare :: node_attrs where
  "bare = \<lparr>na_id = None, na_type = None, na_label = None, na_first = None, na_last = None, na_confidence = None,
           na_count = None, na_refs = None\<rparr>"

record edge_attrs =
  ea_type :: string
  ea_weight :: real
  ea_last :: "time option"
  ea_count :: nat
  ea_refs :: "uuid list"
  ea_id :: uuid

section \<open>The graph library\<close>

text \<open>
  \<open>add_node\<close> with all attributes and the update of a node's dictionary are both \<open>mg_set_node\<close>;
  \<open>mg_between\<close> is the dictionary of the parallel edges of a pair.
\<close>

record 'g multigraph =
  mg_empty :: 'g
  mg_nodes :: "'g \<Rightarrow> node_key list"
  mg_node :: "'g \<Rightarrow> node_key \<Rightarrow> node_attrs"
  mg_set_node :: "'g \<Rightarrow> node_key \<Rightarrow> node_attrs \<Rightarrow> 'g"
  mg_succ :: "'g \<Rightarrow> node_key \<Rightarrow> node_key list"
  mg_between :: "'g \<Rightarrow> node_key \<Rightarrow> node_key \<Rightarrow> (nat \<times> edge_attrs) list"
  mg_add_edge :: "'g \<Rightarrow> node_key \<Rightarrow> node_key \<Rightarrow> edge_attrs \<Rightarrow> 'g"
  mg_set_edge :: "'g \<Rightarrow> node_key \<Rightarrow> node_key \<Rightarrow> nat \<Rightarrow> edge_attrs \<Rightarrow> 'g"

definition insert_key :: "'a \<Rightarrow> 'a list \<Rightarrow> 'a list" where
  "insert_key x xs = (if x \<in> set xs then xs else xs @ [x])"

text \<open>\<open>edges(data=True, keys=True)\<close>: by source in node order, by target in the order of its first edge.\<close>

definition mg_edges :: "'g multigraph \<Rightarrow> 'g \<Rightarrow> (node_key \<times> node_key \<times> edge_attrs) list" where
  "mg_edges nx g =
     concat (map (\<lambda>u. concat (map (\<lambda>v. map (\<lambda>(_, a). (u, v, a)) (mg_between nx g u v)) (mg_succ nx g u)))
       (mg_nodes nx g))"

locale multigraph_library =
  fixes nx :: "'g multigraph"
    and ok :: "'g \<Rightarrow> bool"
  assumes ok_empty: "ok (mg_empty nx)"
    and ok_set_node: "ok g \<Longrightarrow> ok (mg_set_node nx g k a)"
    and ok_add_edge: "ok g \<Longrightarrow> ok (mg_add_edge nx g u v e)"
    and ok_set_edge: "ok g \<Longrightarrow> ok (mg_set_edge nx g u v i e)"
    and nodes_empty: "mg_nodes nx (mg_empty nx) = []"
    and succ_empty: "mg_succ nx (mg_empty nx) u = []"
    and distinct_nodes: "ok g \<Longrightarrow> distinct (mg_nodes nx g)"
    and distinct_succ: "ok g \<Longrightarrow> distinct (mg_succ nx g u)"
    and distinct_edge_keys: "ok g \<Longrightarrow> distinct (map fst (mg_between nx g u v))"
    and succ_nodes: "ok g \<Longrightarrow> v \<in> set (mg_succ nx g u) \<Longrightarrow> u \<in> set (mg_nodes nx g) \<and> v \<in> set (mg_nodes nx g)"
    and succ_between: "ok g \<Longrightarrow> v \<in> set (mg_succ nx g u) \<longleftrightarrow> mg_between nx g u v \<noteq> []"
    and nodes_set_node: "ok g \<Longrightarrow> mg_nodes nx (mg_set_node nx g k a) = insert_key k (mg_nodes nx g)"
    and node_set_node: "ok g \<Longrightarrow> j = k \<or> j \<in> set (mg_nodes nx g) \<Longrightarrow>
      mg_node nx (mg_set_node nx g k a) j = (if j = k then a else mg_node nx g j)"
    and succ_set_node: "ok g \<Longrightarrow> mg_succ nx (mg_set_node nx g k a) u = mg_succ nx g u"
    and between_set_node: "ok g \<Longrightarrow> mg_between nx (mg_set_node nx g k a) u v = mg_between nx g u v"
    and nodes_add_edge: "ok g \<Longrightarrow> mg_nodes nx (mg_add_edge nx g u v e) = insert_key v (insert_key u (mg_nodes nx g))"
    and node_add_edge: "ok g \<Longrightarrow> j \<in> set (mg_nodes nx (mg_add_edge nx g u v e)) \<Longrightarrow>
      mg_node nx (mg_add_edge nx g u v e) j = (if j \<in> set (mg_nodes nx g) then mg_node nx g j else bare)"
    and succ_add_edge: "ok g \<Longrightarrow>
      mg_succ nx (mg_add_edge nx g u v e) w = (if w = u then insert_key v (mg_succ nx g u) else mg_succ nx g w)"
    and between_add_edge: "ok g \<Longrightarrow> \<exists>i. \<forall>x y. mg_between nx (mg_add_edge nx g u v e) x y =
      (if x = u \<and> y = v then mg_between nx g u v @ [(i, e)] else mg_between nx g x y)"
    and nodes_set_edge: "ok g \<Longrightarrow> mg_nodes nx (mg_set_edge nx g u v i e) = mg_nodes nx g"
    and node_set_edge: "ok g \<Longrightarrow> mg_node nx (mg_set_edge nx g u v i e) j = mg_node nx g j"
    and succ_set_edge: "ok g \<Longrightarrow> mg_succ nx (mg_set_edge nx g u v i e) w = mg_succ nx g w"
    and between_set_edge: "ok g \<Longrightarrow> mg_between nx (mg_set_edge nx g u v i e) x y =
      (if x = u \<and> y = v then map (\<lambda>(j, a). (j, if j = i then e else a)) (mg_between nx g u v) else mg_between nx g x y)"
begin

lemmas ok_intros = ok_empty ok_set_node ok_add_edge ok_set_edge

lemmas read_after_write =
  nodes_empty succ_empty nodes_set_node node_set_node succ_set_node between_set_node nodes_add_edge node_add_edge
  succ_add_edge nodes_set_edge node_set_edge succ_set_edge between_set_edge

lemma between_empty: "mg_between nx (mg_empty nx) u v = []"
  using succ_between [OF ok_empty, of v u] by (simp add: succ_empty)

lemma between_add_edge_attrs:
  "ok g \<Longrightarrow> map snd (mg_between nx (mg_add_edge nx g u v e) x y) =
     map snd (mg_between nx g x y) @ (if x = u \<and> y = v then [e] else [])"
  using between_add_edge [of g u v e] by fastforce

lemma between_set_node_eq: "ok g \<Longrightarrow> mg_between nx (mg_set_node nx g k a) = mg_between nx g"
  by (intro ext) (rule between_set_node)

end

lemma set_insert_key [simp]: "set (insert_key x xs) = insert x (set xs)"
  by (auto simp: insert_key_def)

lemma insert_key_member [simp]: "x \<in> set xs \<Longrightarrow> insert_key x xs = xs"
  by (simp add: insert_key_def)

lemma distinct_insert_key [simp]: "distinct (insert_key x xs) \<longleftrightarrow> distinct xs"
  by (simp add: insert_key_def)

text \<open>An instance: association lists in insertion order.\<close>

record lgraph =
  lg_nodes :: "(node_key \<times> node_attrs) list"
  lg_edges :: "(node_key \<times> node_key \<times> nat \<times> edge_attrs) list"

definition lg_between :: "lgraph \<Rightarrow> node_key \<Rightarrow> node_key \<Rightarrow> (nat \<times> edge_attrs) list" where
  "lg_between g u v = map (\<lambda>(_, _, i, a). (i, a)) (filter (\<lambda>(x, y, _). x = u \<and> y = v) (lg_edges g))"

definition lg_add_node :: "node_key \<Rightarrow> (node_key \<times> node_attrs) list \<Rightarrow> (node_key \<times> node_attrs) list" where
  "lg_add_node k ns = (if k \<in> set (map fst ns) then ns else ns @ [(k, bare)])"

definition list_graph :: "lgraph multigraph" where
  "list_graph =
     \<lparr>mg_empty = \<lparr>lg_nodes = [], lg_edges = []\<rparr>,
      mg_nodes = (\<lambda>g. map fst (lg_nodes g)),
      mg_node = (\<lambda>g k. case map_of (lg_nodes g) k of None \<Rightarrow> bare | Some a \<Rightarrow> a),
      mg_set_node = (\<lambda>g k a. g\<lparr>lg_nodes := AList.update k a (lg_nodes g)\<rparr>),
      mg_succ = (\<lambda>g u. foldl (\<lambda>xs x. insert_key x xs) [] (map (\<lambda>(_, y, _). y) (filter (\<lambda>(x, _). x = u) (lg_edges g)))),
      mg_between = lg_between,
      mg_add_edge = (\<lambda>g u v a. g\<lparr>lg_nodes := lg_add_node v (lg_add_node u (lg_nodes g)),
                               lg_edges := lg_edges g @ [(u, v, length (lg_between g u v), a)]\<rparr>),
      mg_set_edge = (\<lambda>g u v i a. g\<lparr>lg_edges := map (\<lambda>(x, y, j, b). (x, y, j, if x = u \<and> y = v \<and> j = i then a else b)) (lg_edges g)\<rparr>)\<rparr>"

definition lg_ok :: "lgraph \<Rightarrow> bool" where
  "lg_ok g \<longleftrightarrow> distinct (map fst (lg_nodes g)) \<and>
     (\<forall>(u, v, _) \<in> set (lg_edges g). u \<in> fst ` set (lg_nodes g) \<and> v \<in> fst ` set (lg_nodes g)) \<and>
     (\<forall>u v. map fst (lg_between g u v) = [0..<length (lg_between g u v)])"

lemma set_fold_insert_key: "set (foldl (\<lambda>xs x. insert_key x xs) ys xs) = set ys \<union> set xs"
  by (induction xs arbitrary: ys) auto

lemma distinct_fold_insert_key: "distinct ys \<Longrightarrow> distinct (foldl (\<lambda>xs x. insert_key x xs) ys xs)"
  by (induction xs arbitrary: ys) simp_all

lemma lg_add_node_keys: "map fst (lg_add_node k ns) = insert_key k (map fst ns)"
  by (simp add: lg_add_node_def insert_key_def)

lemma lg_add_node_get:
  "map_of (lg_add_node k ns) j = (if j = k \<and> map_of ns k = None then Some bare else map_of ns j)"
proof (cases "k \<in> fst ` set ns")
  case True
  then show ?thesis
    using map_of_eq_None_iff [of ns k] by (auto simp: lg_add_node_def)
next
  case False
  then have "map_of ns k = None" by (simp add: map_of_eq_None_iff)
  with False show ?thesis by (auto simp: lg_add_node_def map_add_def split: option.split)
qed

lemma update_keys: "map fst (AList.update k a ns) = insert_key k (map fst ns)"
  by (induction ns) (auto simp: insert_key_def)

lemma lg_between_append:
  "lg_between (g\<lparr>lg_nodes := ns, lg_edges := es @ [(u, v, i, a)]\<rparr>) x y =
     lg_between (g\<lparr>lg_edges := es\<rparr>) x y @ (if x = u \<and> y = v then [(i, a)] else [])"
  by (simp add: lg_between_def)

lemma lg_between_set:
  "lg_between (g\<lparr>lg_edges := map (\<lambda>(x, y, j, b). (x, y, j, if x = u \<and> y = v \<and> j = i then a else b)) es\<rparr>) x y =
     (if x = u \<and> y = v then map (\<lambda>(j, b). (j, if j = i then a else b)) (lg_between (g\<lparr>lg_edges := es\<rparr>) u v)
      else lg_between (g\<lparr>lg_edges := es\<rparr>) x y)"
  by (induction es) (auto simp: lg_between_def)

lemma lg_between_nodes [simp]: "lg_between (g\<lparr>lg_nodes := ns\<rparr>) = lg_between g"
  by (intro ext) (simp add: lg_between_def)

lemma lg_ok_set_node: "lg_ok g \<Longrightarrow> lg_ok (g\<lparr>lg_nodes := AList.update k a (lg_nodes g)\<rparr>)"
  by (fastforce simp: lg_ok_def update_keys dom_update)

lemma lg_ok_add_edge:
  "lg_ok g \<Longrightarrow> lg_ok (g\<lparr>lg_nodes := lg_add_node v (lg_add_node u (lg_nodes g)),
                      lg_edges := lg_edges g @ [(u, v, length (lg_between g u v), a)]\<rparr>)"
  unfolding lg_ok_def lg_between_append
  by (auto simp: lg_add_node_keys simp flip: set_map)

lemma lg_ok_set_edge:
  "lg_ok g \<Longrightarrow> lg_ok (g\<lparr>lg_edges := map (\<lambda>(x, y, j, b). (x, y, j, if x = u \<and> y = v \<and> j = i then a else b)) (lg_edges g)\<rparr>)"
  unfolding lg_ok_def lg_between_set by (fastforce simp: comp_def case_prod_unfold)

lemma list_graph_simps:
  "mg_empty list_graph = \<lparr>lg_nodes = [], lg_edges = []\<rparr>"
  "mg_nodes list_graph g = map fst (lg_nodes g)"
  "mg_node list_graph g k = (case map_of (lg_nodes g) k of None \<Rightarrow> bare | Some a \<Rightarrow> a)"
  "mg_set_node list_graph g k a = g\<lparr>lg_nodes := AList.update k a (lg_nodes g)\<rparr>"
  "mg_succ list_graph g u =
     foldl (\<lambda>xs x. insert_key x xs) [] (map (\<lambda>(_, y, _). y) (filter (\<lambda>(x, _). x = u) (lg_edges g)))"
  "mg_between list_graph = lg_between"
  "mg_add_edge list_graph g u v e =
     g\<lparr>lg_nodes := lg_add_node v (lg_add_node u (lg_nodes g)), lg_edges := lg_edges g @ [(u, v, length (lg_between g u v), e)]\<rparr>"
  "mg_set_edge list_graph g u v i e =
     g\<lparr>lg_edges := map (\<lambda>(x, y, j, b). (x, y, j, if x = u \<and> y = v \<and> j = i then e else b)) (lg_edges g)\<rparr>"
  by (simp_all add: list_graph_def)

lemma lg_succ_member:
  "v \<in> set (mg_succ list_graph g u) \<longleftrightarrow> (\<exists>i a. (u, v, i, a) \<in> set (lg_edges g))"
  "lg_between g u v \<noteq> [] \<longleftrightarrow> (\<exists>i a. (u, v, i, a) \<in> set (lg_edges g))"
  by (force simp: list_graph_simps set_fold_insert_key lg_between_def filter_empty_conv)+

lemma lg_succ_set_edge:
  "map (\<lambda>(_, y, _). y) (filter (\<lambda>(x, _). x = w) (map (\<lambda>(x, y, j, b). (x, y, j, if x = u \<and> y = v \<and> j = i then e else b)) es)) =
   map (\<lambda>(_, y, _). y) (filter (\<lambda>(x, _). x = w) es)"
  by (induction es) auto

interpretation lg: multigraph_library list_graph lg_ok
proof
  show "lg_ok (mg_empty list_graph)" "mg_nodes list_graph (mg_empty list_graph) = []"
      "mg_succ list_graph (mg_empty list_graph) u = []" for u
    by (simp_all add: lg_ok_def list_graph_simps lg_between_def)
next
  fix g k a u v e i w x y j
  assume ok: "lg_ok g"
  show "lg_ok (mg_set_node list_graph g k a)" "lg_ok (mg_add_edge list_graph g u v e)" "lg_ok (mg_set_edge list_graph g u v i e)"
    using lg_ok_set_node lg_ok_add_edge lg_ok_set_edge ok by (simp_all add: list_graph_simps)
  show "distinct (mg_nodes list_graph g)" "distinct (mg_succ list_graph g u)" "distinct (map fst (mg_between list_graph g u v))"
    using ok by (simp_all add: lg_ok_def list_graph_simps distinct_fold_insert_key)
  show "v \<in> set (mg_succ list_graph g u) \<Longrightarrow> u \<in> set (mg_nodes list_graph g) \<and> v \<in> set (mg_nodes list_graph g)"
    using ok by (fastforce simp: lg_succ_member lg_ok_def list_graph_simps(2))
  show "v \<in> set (mg_succ list_graph g u) \<longleftrightarrow> mg_between list_graph g u v \<noteq> []"
    by (simp add: lg_succ_member list_graph_simps(6))
  show "mg_nodes list_graph (mg_set_node list_graph g k a) = insert_key k (mg_nodes list_graph g)"
      "mg_succ list_graph (mg_set_node list_graph g k a) u = mg_succ list_graph g u"
      "mg_between list_graph (mg_set_node list_graph g k a) u v = mg_between list_graph g u v"
    by (simp_all add: list_graph_simps update_keys)
  show "j = k \<or> j \<in> set (mg_nodes list_graph g) \<Longrightarrow>
      mg_node list_graph (mg_set_node list_graph g k a) j = (if j = k then a else mg_node list_graph g j)"
    by (simp add: list_graph_simps update_conv)
  show "mg_nodes list_graph (mg_add_edge list_graph g u v e) = insert_key v (insert_key u (mg_nodes list_graph g))"
    by (simp add: list_graph_simps lg_add_node_keys)
  show "mg_node list_graph (mg_add_edge list_graph g u v e) j = (if j \<in> set (mg_nodes list_graph g) then mg_node list_graph g j else bare)"
    using map_of_eq_None_iff [of "lg_nodes g" j] by (auto simp: list_graph_simps lg_add_node_get split: option.split)
  show "mg_succ list_graph (mg_add_edge list_graph g u v e) w =
      (if w = u then insert_key v (mg_succ list_graph g u) else mg_succ list_graph g w)"
    by (simp add: list_graph_simps)
  show "\<exists>i. \<forall>x y. mg_between list_graph (mg_add_edge list_graph g u v e) x y =
      (if x = u \<and> y = v then mg_between list_graph g u v @ [(i, e)] else mg_between list_graph g x y)"
    by (simp add: list_graph_simps lg_between_append)
  show "mg_nodes list_graph (mg_set_edge list_graph g u v i e) = mg_nodes list_graph g"
      "mg_node list_graph (mg_set_edge list_graph g u v i e) j = mg_node list_graph g j"
      "mg_succ list_graph (mg_set_edge list_graph g u v i e) w = mg_succ list_graph g w"
    by (simp_all add: list_graph_simps lg_succ_set_edge)
  show "mg_between list_graph (mg_set_edge list_graph g u v i e) x y =
      (if x = u \<and> y = v then map (\<lambda>(j, a). (j, if j = i then e else a)) (mg_between list_graph g u v)
       else mg_between list_graph g x y)"
    using lg_between_set [where g = g and es = "lg_edges g"] by (simp add: list_graph_simps)
qed

end
