(* ===== verification/Causal_Graph.thy ===== *)
theory Causal_Graph
  imports Causal_Multigraph
begin

text \<open>
  The behavioural dependency graph of the causal engine, \<open>domain/bdg.py\<close>: nodes and edges are upserted by
  natural key and by type, edge weights decay, evidence is bounded, snapshots are cut at batch boundaries.

  Times are microseconds, weights and confidences are reals. Random UUIDs are drawn from a supply
  \<open>uuid4\<close>, the state counts the draws; the ids of mutations and the time of a snapshot are left out.
  The decay constant is meant to be positive: Python raises a negative float to a complex power.
\<close>

section \<open>State\<close>

definition MAX_EVIDENCE_REFS :: nat where
  "MAX_EVIDENCE_REFS = 50"

record bdg_snapshot =
  sn_id :: uuid
  sn_tenant :: uuid
  sn_nodes :: nat
  sn_edges :: nat
  sn_watermark :: uuid

record 'g bdg =
  graph :: 'g
  decay_lambda :: real
  decay_delta :: real
  batch_size :: int
  events_since_snapshot :: int
  idempotency_index :: "uuid set"
  snapshots :: "bdg_snapshot list"
  key_to_uuid :: "(node_key, uuid) dict"
  draws :: nat

definition new_bdg :: "'g multigraph \<Rightarrow> real \<Rightarrow> real \<Rightarrow> int \<Rightarrow> 'g bdg" where
  "new_bdg nx lam delta n =
     \<lparr>graph = mg_empty nx, decay_lambda = lam, decay_delta = delta, batch_size = n, events_since_snapshot = 0,
      idempotency_index = {}, snapshots = [], key_to_uuid = [], draws = 0\<rparr>"

text \<open>An operation leaves a state and possibly an exception: what was written before it stays.\<close>

type_synonym 'g effect = "'g bdg \<times> py_error option"

section \<open>Upserting a node\<close>

definition optional :: "'a \<Rightarrow> 'a option \<Rightarrow> 'a" where
  "optional d x = (case x of None \<Rightarrow> d | Some v \<Rightarrow> v)"

lemma optional_simps [simp]: "optional d None = d" "optional d (Some v) = v"
  by (simp_all add: optional_def)

text \<open>What follows the maximum of the two times: the count, the moving average and the bounded evidence.\<close>

definition observe_node :: "time \<Rightarrow> real \<Rightarrow> uuid option \<Rightarrow> node_attrs \<Rightarrow> node_attrs \<times> py_error option" where
  "observe_node seen conf eid a =
     (let alpha = 1 / 10;
          a1 = a\<lparr>na_last := Some (Some seen), na_count := Some (optional 0 (na_count a) + 1),
                 na_confidence := Some (min 1 (optional 0 (na_confidence a) * (1 - alpha) + conf * alpha))\<rparr>
      in case eid of
           None \<Rightarrow> (a1, None)
         | Some e \<Rightarrow>
             (if length (optional [] (na_refs a)) < MAX_EVIDENCE_REFS
              then (case na_refs a of None \<Rightarrow> (a1, Some KeyError) | Some rs \<Rightarrow> (a1\<lparr>na_refs := Some (rs @ [e])\<rparr>, None))
              else (a1, None)))"

definition fresh_node :: "uuid \<Rightarrow> node_type \<Rightarrow> string \<Rightarrow> time \<Rightarrow> real \<Rightarrow> uuid option \<Rightarrow> node_attrs" where
  "fresh_node i ntype label t conf eid =
     \<lparr>na_id = Some i, na_type = Some (node_type_value ntype), na_label = Some label, na_first = Some t,
      na_last = Some (Some t), na_confidence = Some conf, na_count = Some 1,
      na_refs = Some (case eid of None \<Rightarrow> [] | Some e \<Rightarrow> [e])\<rparr>"

text \<open>\<open>show_key\<close> is \<open>str\<close> of a tuple, the label when none is given.\<close>

definition upsert_node ::
    "'g multigraph \<Rightarrow> (nat \<Rightarrow> uuid) \<Rightarrow> (node_key \<Rightarrow> string) \<Rightarrow> node_type \<Rightarrow> node_key \<Rightarrow> time \<Rightarrow> real \<Rightarrow> string \<Rightarrow>
       uuid option \<Rightarrow> 'g bdg \<Rightarrow> 'g effect" where
  "upsert_node nx uuid4 show_key ntype key t conf label eid b =
     (if key \<in> set (mg_nodes nx (graph b)) then
        (let a = mg_node nx (graph b) key
         in case optional (Some t) (na_last a) of
              None \<Rightarrow> (b, Some TypeError)
            | Some s \<Rightarrow>
                (let (a', e) = observe_node (max s t) conf eid a
                 in (b\<lparr>graph := mg_set_node nx (graph b) key a'\<rparr>, e)))
      else
        (let i = uuid4 (draws b)
         in (b\<lparr>draws := draws b + 1, key_to_uuid := dict_set (key_to_uuid b) key i,
               graph := mg_set_node nx (graph b) key
                 (fresh_node i ntype (if label \<noteq> [] then label else show_key key) t conf eid)\<rparr>, None)))"

section \<open>Upserting an edge\<close>

text \<open>The decay between two observations, \<open>dt\<close> in microseconds.\<close>

definition decay_factor :: "real \<Rightarrow> real \<Rightarrow> int \<Rightarrow> real" where
  "decay_factor lam delta dt =
     (if dt > 0 \<and> delta > 0 then lam powr (real_of_int dt / 1000000 / delta) else 1)"

definition observe_edge :: "real \<Rightarrow> real \<Rightarrow> time \<Rightarrow> time \<Rightarrow> real \<Rightarrow> uuid option \<Rightarrow> edge_attrs \<Rightarrow> edge_attrs" where
  "observe_edge lam delta t_prev t q eid e =
     e\<lparr>ea_weight := decay_factor lam delta (t - t_prev) * ea_weight e + q, ea_last := Some (max t_prev t),
       ea_count := ea_count e + 1,
       ea_refs := (case eid of Some i \<Rightarrow> if length (ea_refs e) < MAX_EVIDENCE_REFS then ea_refs e @ [i] else ea_refs e
                   | None \<Rightarrow> ea_refs e)\<rparr>"

definition existing_edge :: "'g multigraph \<Rightarrow> 'g \<Rightarrow> node_key \<Rightarrow> node_key \<Rightarrow> edge_type \<Rightarrow> (nat \<times> edge_attrs) option" where
  "existing_edge nx g u v ty = find (\<lambda>(i, e). ea_type e = edge_type_value ty) (mg_between nx g u v)"

text \<open>The returned \<open>GraphEdge\<close> is left out: no caller uses it.\<close>

definition upsert_edge ::
    "'g multigraph \<Rightarrow> (nat \<Rightarrow> uuid) \<Rightarrow> node_key \<Rightarrow> node_key \<Rightarrow> edge_type \<Rightarrow> time \<Rightarrow> real \<Rightarrow> uuid option \<Rightarrow> real option \<Rightarrow>
       'g bdg \<Rightarrow> 'g effect" where
  "upsert_edge nx uuid4 u v ty t conf eid weight_increment b =
     (let q = optional conf weight_increment
      in case existing_edge nx (graph b) u v ty of
           Some (i, e) \<Rightarrow>
             (case ea_last e of
                None \<Rightarrow> (b, Some TypeError)
              | Some t_prev \<Rightarrow>
                  (b\<lparr>graph := mg_set_edge nx (graph b) u v i
                      (observe_edge (decay_lambda b) (decay_delta b) t_prev t q eid e)\<rparr>, None))
         | None \<Rightarrow>
             (b\<lparr>draws := draws b + 1,
                graph := mg_add_edge nx (graph b) u v
                  \<lparr>ea_type = edge_type_value ty, ea_weight = q, ea_last = Some t, ea_count = 1,
                   ea_refs = (case eid of None \<Rightarrow> [] | Some i \<Rightarrow> [i]), ea_id = uuid4 (draws b)\<rparr>\<rparr>, None))"

section \<open>Events\<close>

record event_relation =
  er_target :: node_type
  er_key :: node_key
  er_edge :: edge_type
  er_label :: string

definition map_event_to_relations :: "string \<Rightarrow> string \<Rightarrow> (string, string) dict \<Rightarrow> event_relation list" where
  "map_event_to_relations event_type tenant attrs =
     (let resource = optional ''OTHER_RESOURCE'' (dict_get attrs ''resource_class'');
          protocol = optional ''tcp'' (dict_get attrs ''protocol'');
          port = optional ''other'' (dict_get attrs ''port_class'');
          file = (\<lambda>ty prefix. [\<lparr>er_target = FILE, er_key = [tenant, resource], er_edge = ty, er_label = prefix @ resource\<rparr>]);
          net = (\<lambda>prefix. [\<lparr>er_target = NETWORK_ENDPOINT, er_key = [tenant, protocol, resource, port],
                           er_edge = CONNECTS_TO, er_label = prefix @ resource @ '':'' @ port\<rparr>])
      in if event_type = ''exec'' then file LOADS ''exec:''
         else if event_type \<in> {''file_open'', ''read''} then file READS ''read:''
         else if event_type \<in> {''file_write'', ''write''} then file WRITES ''write:''
         else if event_type \<in> {''net_connect'', ''connect''} then net ''connect:''
         else if event_type \<in> {''net_accept'', ''accept''} then net ''accept:''
         else [])"

record bdg_event =
  be_id :: uuid
  be_type :: string
  be_time :: time
  be_tenant :: string
  be_cluster :: string
  be_namespace :: string
  be_pod_uid :: string
  be_container_id :: string
  be_image_digest :: string
  be_tgid :: int
  be_start_ns :: int
  be_identity_confidence :: real
  be_binding_confidence :: real
  be_collector_confidence :: real
  be_binding_status :: string
  be_purl :: "string option"
  be_violations :: "(string, string) dict list option"
  be_attrs :: "(string, string) dict option"

text \<open>The upserts of an event, in the order the code makes them.\<close>

datatype upsert = UNode node_type node_key string | UEdge node_key node_key edge_type

definition workload_key :: "bdg_event \<Rightarrow> node_key" where
  "workload_key ev = [be_tenant ev, be_cluster ev, be_namespace ev, be_pod_uid ev]"

definition container_key :: "bdg_event \<Rightarrow> node_key" where
  "container_key ev = [be_tenant ev, be_container_id ev, be_image_digest ev]"

definition process_key :: "bdg_event \<Rightarrow> node_key" where
  "process_key ev = [be_tenant ev, be_container_id ev, show_int (be_tgid ev), show_int (be_start_ns ev)]"

definition component_key :: "bdg_event \<Rightarrow> node_key option" where
  "component_key ev =
     (if be_binding_status ev = ''resolved'' \<and> truthy_text (be_purl ev) then Some [be_tenant ev, the (be_purl ev)] else None)"

definition chain_upserts :: "bdg_event \<Rightarrow> upsert list" where
  "chain_upserts ev =
     [UNode WORKLOAD (workload_key ev) (''pod:'' @ be_namespace ev @ ''/'' @ take 8 (be_pod_uid ev)),
      UNode CONTAINER (container_key ev) (''container:'' @ take 12 (be_container_id ev)),
      UNode PROCESS (process_key ev) (''process:'' @ show_int (be_tgid ev)),
      UEdge (workload_key ev) (container_key ev) RUNS,
      UEdge (container_key ev) (process_key ev) EXECUTES]"

definition component_upserts :: "bdg_event \<Rightarrow> upsert list" where
  "component_upserts ev =
     (case component_key ev of None \<Rightarrow> []
      | Some k \<Rightarrow> [UNode PURL k (''purl:'' @ the (be_purl ev)), UEdge (container_key ev) k BELONGS_TO])"

definition relation_upserts :: "node_key \<Rightarrow> event_relation list \<Rightarrow> upsert list" where
  "relation_upserts source rels =
     concat (map (\<lambda>r. [UNode (er_target r) (er_key r) (er_label r), UEdge source (er_key r) (er_edge r)]) rels)"

text \<open>\<open>drawn\<close> is the UUID drawn for a violation without an id of its own.\<close>

definition violation_upserts :: "bdg_event \<Rightarrow> (string, string) dict \<Rightarrow> uuid \<Rightarrow> upsert list" where
  "violation_upserts ev viol drawn =
     (let drift_id = optional drawn (dict_get viol ''drift_event_id'');
          contract = optional [] (dict_get viol ''contract_id'');
          kind = optional ''unknown'' (dict_get viol ''violation_type'');
          drift_key = [be_tenant ev, drift_id];
          contract_key = [be_tenant ev, if contract \<noteq> [] then contract else ''synthetic:'' @ be_tenant ev @ '':'' @ kind];
          contract_label = ''contract:'' @ (if contract \<noteq> [] then take 8 contract else kind)
      in [UNode DRIFT_EVENT drift_key (''drift:'' @ take 8 drift_id), UEdge (process_key ev) drift_key DERIVED_FROM] @
         (case component_key ev of None \<Rightarrow> [] | Some k \<Rightarrow> [UEdge k drift_key VIOLATES]) @
         [UNode CONTRACT contract_key contract_label, UEdge drift_key contract_key VIOLATES])"

definition event_upserts :: "bdg_event \<Rightarrow> (nat \<Rightarrow> uuid) \<Rightarrow> upsert list" where
  "event_upserts ev drawn =
     (let viols = optional [] (be_violations ev)
      in chain_upserts ev @ component_upserts ev @
         relation_upserts (process_key ev) (map_event_to_relations (be_type ev) (be_tenant ev) (optional [] (be_attrs ev))) @
         concat (map (\<lambda>i. violation_upserts ev (viols ! i) (drawn i)) [0..<length viols]))"

section \<open>Update\<close>

record graph_mutation =
  gm_event :: uuid
  nodes_created :: nat
  nodes_updated :: nat
  edges_created :: nat
  edges_updated :: nat
  snapshot_cut :: bool

definition no_mutation :: "uuid \<Rightarrow> graph_mutation" where
  "no_mutation i = \<lparr>gm_event = i, nodes_created = 0, nodes_updated = 0, edges_created = 0, edges_updated = 0,
                    snapshot_cut = False\<rparr>"

text \<open>What a whole run of the code draws on: the library and the UUID functions.\<close>

record 'g bdg_env =
  env_nx :: "'g multigraph"
  env_uuid4 :: "nat \<Rightarrow> uuid"
  env_show_key :: "node_key \<Rightarrow> string"
  env_parse_uuid :: "string \<Rightarrow> uuid option"
  env_uuid5 :: "string \<Rightarrow> uuid"

text \<open>One counted upsert with the event's time, confidence and id.\<close>

fun apply_upsert ::
    "'g bdg_env \<Rightarrow> time \<Rightarrow> real \<Rightarrow> uuid \<Rightarrow> upsert \<Rightarrow> 'g bdg \<times> graph_mutation \<Rightarrow> ('g bdg \<times> graph_mutation) \<times> py_error option" where
  "apply_upsert env t q eid (UNode ty key label) (b, m) =
     (let existed = key \<in> set (mg_nodes (env_nx env) (graph b));
          (b', e) = upsert_node (env_nx env) (env_uuid4 env) (env_show_key env) ty key t q label (Some eid) b
      in case e of
           Some _ \<Rightarrow> ((b', m), e)
         | None \<Rightarrow> ((b', if existed then m\<lparr>nodes_updated := nodes_updated m + 1\<rparr> else m\<lparr>nodes_created := nodes_created m + 1\<rparr>), None))"
| "apply_upsert env t q eid (UEdge u v ty) (b, m) =
     (let existed = existing_edge (env_nx env) (graph b) u v ty \<noteq> None;
          (b', e) = upsert_edge (env_nx env) (env_uuid4 env) u v ty t q (Some eid) None b
      in case e of
           Some _ \<Rightarrow> ((b', m), e)
         | None \<Rightarrow> ((b', if existed then m\<lparr>edges_updated := edges_updated m + 1\<rparr> else m\<lparr>edges_created := edges_created m + 1\<rparr>), None))"

fun run_upserts ::
    "('u \<Rightarrow> 's \<Rightarrow> 's \<times> py_error option) \<Rightarrow> 'u list \<Rightarrow> 's \<Rightarrow> 's \<times> py_error option" where
  "run_upserts step [] s = (s, None)"
| "run_upserts step (u # us) s =
     (case step u s of (s', None) \<Rightarrow> run_upserts step us s' | (s', Some e) \<Rightarrow> (s', Some e))"

definition commit_snapshot :: "'g bdg_env \<Rightarrow> string \<Rightarrow> uuid \<Rightarrow> 'g bdg \<Rightarrow> 'g bdg" where
  "commit_snapshot env tenant eid b =
     (let tid = (if tenant \<noteq> [] then optional (env_uuid5 env tenant) (env_parse_uuid env tenant)
                 else env_uuid4 env (draws b));
          n = draws b + (if tenant = [] then 1 else 0)
      in b\<lparr>draws := n + 1,
           snapshots := snapshots b @
             [\<lparr>sn_id = env_uuid4 env n, sn_tenant = tid, sn_nodes = length (mg_nodes (env_nx env) (graph b)),
               sn_edges = length (mg_edges (env_nx env) (graph b)), sn_watermark = eid\<rparr>],
           events_since_snapshot := 0\<rparr>)"

text \<open>The batch boundary that closes both ways to process an event.\<close>

definition close_batch :: "'g bdg_env \<Rightarrow> string \<Rightarrow> uuid \<Rightarrow> 'g bdg \<times> graph_mutation \<Rightarrow> 'g bdg \<times> graph_mutation" where
  "close_batch env tenant eid s =
     (let b = (fst s)\<lparr>events_since_snapshot := events_since_snapshot (fst s) + 1\<rparr>
      in if events_since_snapshot b \<ge> batch_size b
         then (commit_snapshot env tenant eid b, (snd s)\<lparr>snapshot_cut := True\<rparr>)
         else (b, snd s))"

definition process_upserts ::
    "'g bdg_env \<Rightarrow> string \<Rightarrow> uuid \<Rightarrow> time \<Rightarrow> real \<Rightarrow> upsert list \<Rightarrow> 'g bdg \<Rightarrow> 'g bdg \<times> (py_error + graph_mutation)" where
  "process_upserts env tenant eid t q us b =
     (if eid \<in> idempotency_index b then (b, Inr (no_mutation eid))
      else
        (case run_upserts (apply_upsert env t q eid) us
                (b\<lparr>idempotency_index := insert eid (idempotency_index b)\<rparr>, no_mutation eid) of
           ((b', m), Some e) \<Rightarrow> (b', Inl e)
         | (s, None) \<Rightarrow> (let (b', m) = close_batch env tenant eid s in (b', Inr m))))"

definition event_confidence :: "bdg_event \<Rightarrow> real" where
  "event_confidence ev = be_collector_confidence ev * be_identity_confidence ev * be_binding_confidence ev"

definition update :: "'g bdg_env \<Rightarrow> bdg_event \<Rightarrow> (nat \<Rightarrow> uuid) \<Rightarrow> 'g bdg \<Rightarrow> 'g bdg \<times> (py_error + graph_mutation)" where
  "update env ev drawn b =
     process_upserts env (be_tenant ev) (be_id ev) (be_time ev) (event_confidence ev) (event_upserts ev drawn) b"

text \<open>The wrapper for an event whose keys and relations were resolved upstream.\<close>

definition update_from_event ::
    "'g bdg_env \<Rightarrow> uuid \<Rightarrow> string \<Rightarrow> node_key \<Rightarrow> time \<Rightarrow> event_relation list \<Rightarrow> real \<Rightarrow> 'g bdg \<Rightarrow>
       'g bdg \<times> (py_error + graph_mutation)" where
  "update_from_event env eid tenant key t rels conf b =
     process_upserts env tenant eid t conf
       (UNode PROCESS key (''process:'' @ (if key \<noteq> [] then last key else ''unknown'')) # relation_upserts key rels) b"

section \<open>Views of the graph\<close>

text \<open>The graph as two maps: attributes of a node by its key, of an edge by its ends and its type.\<close>

definition node_view :: "'g multigraph \<Rightarrow> 'g \<Rightarrow> node_key \<Rightarrow> node_attrs option" where
  "node_view nx g k = (if k \<in> set (mg_nodes nx g) then Some (mg_node nx g k) else None)"

definition edge_view :: "'g multigraph \<Rightarrow> 'g \<Rightarrow> node_key \<times> node_key \<times> string \<Rightarrow> edge_attrs option" where
  "edge_view nx g = (\<lambda>(u, v, s). map_option snd (find (\<lambda>(i, e). ea_type e = s) (mg_between nx g u v)))"

definition node_wf :: "node_attrs \<Rightarrow> bool" where
  "node_wf a \<longleftrightarrow> (\<exists>i ty l t s c n rs. a = \<lparr>na_id = Some i, na_type = Some ty, na_label = Some l, na_first = Some t,
       na_last = Some (Some s), na_confidence = Some c, na_count = Some n, na_refs = Some rs\<rparr> \<and>
     t \<le> s \<and> 0 \<le> c \<and> c \<le> 1 \<and> 1 \<le> n \<and> length rs \<le> n \<and> length rs \<le> MAX_EVIDENCE_REFS)"

definition edge_wf :: "edge_attrs \<Rightarrow> bool" where
  "edge_wf e \<longleftrightarrow> ea_last e \<noteq> None \<and> 1 \<le> ea_count e \<and> 0 \<le> ea_weight e \<and> ea_weight e \<le> real (ea_count e) \<and>
     length (ea_refs e) \<le> ea_count e \<and> length (ea_refs e) \<le> MAX_EVIDENCE_REFS"

definition graph_wf :: "'g multigraph \<Rightarrow> 'g \<Rightarrow> bool" where
  "graph_wf nx g \<longleftrightarrow>
     (\<forall>k \<in> set (mg_nodes nx g). node_wf (mg_node nx g k)) \<and>
     (\<forall>u v. \<forall>(i, e) \<in> set (mg_between nx g u v). edge_wf e) \<and>
     (\<forall>u v. distinct (map (\<lambda>(i, e). ea_type e) (mg_between nx g u v)))"

lemma existing_edge_view:
  "existing_edge nx g u v ty = None \<longleftrightarrow> edge_view nx g (u, v, edge_type_value ty) = None"
  "existing_edge nx g u v ty = Some (i, e) \<Longrightarrow> edge_view nx g (u, v, edge_type_value ty) = Some e"
  by (simp_all add: existing_edge_def edge_view_def)

text \<open>What an upsert does to the views.\<close>

definition node_after :: "uuid \<Rightarrow> node_type \<Rightarrow> string \<Rightarrow> time \<Rightarrow> real \<Rightarrow> uuid option \<Rightarrow> node_attrs option \<Rightarrow> node_attrs" where
  "node_after i ty label t q eid old =
     (case old of
        None \<Rightarrow> fresh_node i ty label t q eid
      | Some a \<Rightarrow> fst (observe_node (max (the (the (na_last a))) t) q eid a))"

definition edge_after :: "real \<Rightarrow> real \<Rightarrow> uuid \<Rightarrow> edge_type \<Rightarrow> time \<Rightarrow> real \<Rightarrow> uuid option \<Rightarrow> edge_attrs option \<Rightarrow> edge_attrs" where
  "edge_after lam delta i ty t q eid old =
     (case old of
        None \<Rightarrow> \<lparr>ea_type = edge_type_value ty, ea_weight = q, ea_last = Some t, ea_count = 1,
                 ea_refs = (case eid of None \<Rightarrow> [] | Some r \<Rightarrow> [r]), ea_id = i\<rparr>
      | Some e \<Rightarrow> observe_edge lam delta (the (ea_last e)) t q eid e)"

lemma observe_edge_type [simp]: "ea_type (observe_edge lam delta s t q eid e) = ea_type e"
  by (simp add: observe_edge_def)

lemma decay_factor_bounds:
  assumes "0 < lam" "lam \<le> 1"
  shows "0 < decay_factor lam delta dt" "decay_factor lam delta dt \<le> 1"
proof -
  have "lam powr x \<le> 1" if "0 \<le> x" for x
    using assms that powr_mono2 [of x lam 1] by simp
  then show "0 < decay_factor lam delta dt" "decay_factor lam delta dt \<le> 1"
    using assms by (simp_all add: decay_factor_def)
qed

lemma observe_node_wf:
  assumes "node_wf a" "0 \<le> q" "q \<le> 1"
  shows "node_wf (fst (observe_node (max (the (the (na_last a))) t) q eid a))"
    and "snd (observe_node s q eid a) = None"
  using assms by (auto simp: node_wf_def observe_node_def Let_def max_def MAX_EVIDENCE_REFS_def split: option.split)

lemma fresh_node_wf: "0 \<le> q \<Longrightarrow> q \<le> 1 \<Longrightarrow> node_wf (fresh_node i ty label t q eid)"
  by (simp add: node_wf_def fresh_node_def MAX_EVIDENCE_REFS_def split: option.split)

lemma observe_edge_wf:
  assumes "edge_wf e" "0 \<le> q" "q \<le> 1" "0 < lam" "lam \<le> 1"
  shows "edge_wf (observe_edge lam delta s t q eid e)"
proof -
  have d: "0 \<le> decay_factor lam delta (t - s)" "decay_factor lam delta (t - s) \<le> 1"
    using decay_factor_bounds assms(4,5) by (simp_all add: less_imp_le)
  have "0 \<le> decay_factor lam delta (t - s) * ea_weight e"
    using d(1) assms(1) by (simp add: edge_wf_def)
  moreover have "decay_factor lam delta (t - s) * ea_weight e \<le> real (ea_count e)"
    using d assms(1) mult_left_le_one_le [of "ea_weight e" "decay_factor lam delta (t - s)"] by (simp add: edge_wf_def)
  ultimately show ?thesis
    using assms(1-3) by (auto simp: edge_wf_def observe_edge_def MAX_EVIDENCE_REFS_def split: option.split)
qed

context multigraph_library
begin

lemma node_view_set_node: "ok g \<Longrightarrow> node_view nx (mg_set_node nx g k a) = (node_view nx g)(k \<mapsto> a)"
  by (rule ext) (auto simp: node_view_def read_after_write)

lemma edge_view_set_node: "ok g \<Longrightarrow> edge_view nx (mg_set_node nx g k a) = edge_view nx g"
  by (rule ext) (simp add: edge_view_def read_after_write split: prod.split)

lemma node_view_set_edge: "ok g \<Longrightarrow> node_view nx (mg_set_edge nx g u v i e) = node_view nx g"
  by (rule ext) (simp add: node_view_def read_after_write)

lemma node_view_add_edge:
  "ok g \<Longrightarrow> u \<in> set (mg_nodes nx g) \<Longrightarrow> v \<in> set (mg_nodes nx g) \<Longrightarrow>
     node_view nx (mg_add_edge nx g u v e) = node_view nx g"
  by (rule ext) (simp add: node_view_def read_after_write)

lemma edge_view_add_edge:
  assumes "ok g" "edge_view nx g (u, v, ea_type e) = None"
  shows "edge_view nx (mg_add_edge nx g u v e) = (edge_view nx g)((u, v, ea_type e) \<mapsto> e)"
proof
  fix k :: "node_key \<times> node_key \<times> string"
  obtain x y s where k: "k = (x, y, s)" by (cases k)
  obtain i where i: "\<And>x y. mg_between nx (mg_add_edge nx g u v e) x y =
      (if x = u \<and> y = v then mg_between nx g u v @ [(i, e)] else mg_between nx g x y)"
    using between_add_edge [OF assms(1)] by blast
  have "find P (xs @ [z]) = (case find P xs of None \<Rightarrow> if P z then Some z else None | Some w \<Rightarrow> Some w)"
    for P and xs :: "(nat \<times> edge_attrs) list" and z
    by (induction xs) auto
  then show "edge_view nx (mg_add_edge nx g u v e) k = ((edge_view nx g)((u, v, ea_type e) \<mapsto> e)) k"
    using assms(2) unfolding k by (auto simp: edge_view_def i split: option.split)
qed

lemma edge_view_set_edge:
  assumes "ok g" "find (\<lambda>(i, a). ea_type a = s) (mg_between nx g u v) = Some (i, e)" "ea_type e' = ea_type e"
  shows "edge_view nx (mg_set_edge nx g u v i e') = (edge_view nx g)((u, v, s) \<mapsto> e')"
proof
  fix k :: "node_key \<times> node_key \<times> string"
  obtain x y r where k: "k = (x, y, r)" by (cases k)
  let ?f = "\<lambda>(j, a). (j, if j = i then e' else a)"
  have mem: "(i, e) \<in> set (mg_between nx g u v)" and s: "ea_type e = s"
    using find_SomeD [OF assms(2)] by simp_all
  have same: "a = e" if "(i, a) \<in> set (mg_between nx g u v)" for a
    using mem that distinct_edge_keys [OF assms(1)] by (metis eq_key_imp_eq_value)
  have "find (\<lambda>(j, a). ea_type a = r) (map ?f xs) = map_option ?f (find (\<lambda>(j, a). ea_type a = r) xs)"
    if "set xs \<subseteq> set (mg_between nx g u v)" for xs r
    using that by (induction xs) (auto simp: assms(3) dest!: same)
  then have found: "find (\<lambda>(j, a). ea_type a = r) (map ?f (mg_between nx g u v)) =
      map_option ?f (find (\<lambda>(j, a). ea_type a = r) (mg_between nx g u v))" for r
    by simp
  have "j = i \<Longrightarrow> r = s" if "find (\<lambda>(j, a). ea_type a = r) (mg_between nx g u v) = Some (j, a)" for j a
    using find_SomeD [OF that] same s by auto
  then show "edge_view nx (mg_set_edge nx g u v i e') k = ((edge_view nx g)((u, v, s) \<mapsto> e')) k"
    using assms(2) unfolding k
    by (cases "find (\<lambda>(j, a). ea_type a = r) (mg_between nx g u v)")
       (auto simp: edge_view_def between_set_edge [OF assms(1)] found)
qed

end

section \<open>Upserts refine updates of the views\<close>

definition bdg_wf :: "'g multigraph \<Rightarrow> ('g \<Rightarrow> bool) \<Rightarrow> 'g bdg \<Rightarrow> bool" where
  "bdg_wf nx ok b \<longleftrightarrow> ok (graph b) \<and> graph_wf nx (graph b) \<and> 0 < decay_lambda b \<and> decay_lambda b \<le> 1"

definition same_frame :: "'g bdg \<Rightarrow> 'g bdg \<Rightarrow> bool" where
  "same_frame b b' \<longleftrightarrow> decay_lambda b' = decay_lambda b \<and> decay_delta b' = decay_delta b \<and> batch_size b' = batch_size b \<and>
     events_since_snapshot b' = events_since_snapshot b \<and> idempotency_index b' = idempotency_index b \<and>
     snapshots b' = snapshots b"

lemma same_frame_refl [simp]: "same_frame b b"
  by (simp add: same_frame_def)

lemma same_frame_trans: "same_frame a b \<Longrightarrow> same_frame b c \<Longrightarrow> same_frame a c"
  by (simp add: same_frame_def)

context multigraph_library
begin

lemma between_no_node:
  "ok g \<Longrightarrow> u \<notin> set (mg_nodes nx g) \<or> v \<notin> set (mg_nodes nx g) \<Longrightarrow> mg_between nx g u v = []"
  using succ_between [of g v u] succ_nodes [of g v u] by blast

text \<open>
  The number of edges is a sum over pairs of nodes.\<close>

lemma length_mg_edges:
  assumes "ok g" "finite N" "set (mg_nodes nx g) \<subseteq> N"
  shows "length (mg_edges nx g) = (\<Sum>u \<in> N. \<Sum>v \<in> N. length (mg_between nx g u v))"
proof -
  have inner: "(\<Sum>v \<leftarrow> mg_succ nx g u. length (mg_between nx g u v)) = (\<Sum>v \<in> N. length (mg_between nx g u v))" for u
  proof -
    have "(\<Sum>v \<leftarrow> mg_succ nx g u. length (mg_between nx g u v)) = (\<Sum>v \<in> set (mg_succ nx g u). length (mg_between nx g u v))"
      by (rule sum_list_distinct_conv_sum_set) (rule distinct_succ [OF assms(1)])
    also have "\<dots> = (\<Sum>v \<in> N. length (mg_between nx g u v))"
      using assms succ_nodes succ_between by (intro sum.mono_neutral_left) auto
    finally show ?thesis .
  qed
  have "length (mg_edges nx g) = (\<Sum>u \<leftarrow> mg_nodes nx g. \<Sum>v \<in> N. length (mg_between nx g u v))"
    by (simp add: mg_edges_def length_concat comp_def inner)
  also have "\<dots> = (\<Sum>u \<in> set (mg_nodes nx g). \<Sum>v \<in> N. length (mg_between nx g u v))"
    by (rule sum_list_distinct_conv_sum_set) (rule distinct_nodes [OF assms(1)])
  also have "\<dots> = (\<Sum>u \<in> N. \<Sum>v \<in> N. length (mg_between nx g u v))"
    using assms between_no_node by (intro sum.mono_neutral_left) auto
  finally show ?thesis .
qed

lemma length_between_add_edge:
  "ok g \<Longrightarrow> length (mg_between nx (mg_add_edge nx g u v e) x y) =
     length (mg_between nx g x y) + (if x = u \<and> y = v then 1 else 0)"
  using arg_cong [OF between_add_edge_attrs, of g length u v e x y] by simp

lemma length_edges_add:
  assumes "ok g"
  shows "length (mg_edges nx (mg_add_edge nx g u v e)) = length (mg_edges nx g) + 1"
proof -
  define N where "N = insert u (insert v (set (mg_nodes nx g)))"
  have "length (mg_edges nx (mg_add_edge nx g u v e)) =
      (\<Sum>x \<in> N. \<Sum>y \<in> N. length (mg_between nx g x y) + (if x = u \<and> y = v then 1 else 0))"
    using assms by (subst length_mg_edges [where N = N])
      (auto simp: N_def read_after_write ok_intros length_between_add_edge)
  also have "\<dots> = (\<Sum>x \<in> N. \<Sum>y \<in> N. length (mg_between nx g x y)) + (\<Sum>x \<in> N. \<Sum>y \<in> N. if x = u \<and> y = v then 1 else 0)"
    by (simp add: sum.distrib)
  also have "(\<Sum>x \<in> N. \<Sum>y \<in> N. if x = u \<and> y = v then 1 else 0 :: nat) = (\<Sum>x \<in> N. if x = u then 1 else 0)"
    by (rule sum.cong) (auto simp: N_def)
  also have "\<dots> = 1"
    by (simp add: N_def)
  also have "(\<Sum>x \<in> N. \<Sum>y \<in> N. length (mg_between nx g x y)) = length (mg_edges nx g)"
    using assms by (subst length_mg_edges [where N = N]) (auto simp: N_def)
  finally show ?thesis .
qed

lemma length_edges_same:
  assumes "ok g" "ok g'" "set (mg_nodes nx g) \<subseteq> set (mg_nodes nx g')"
    and "\<And>u v. length (mg_between nx g' u v) = length (mg_between nx g u v)"
  shows "length (mg_edges nx g') = length (mg_edges nx g)"
  using assms by (simp add: length_mg_edges [where N = "set (mg_nodes nx g')"])

lemma upsert_node_refines:
  assumes "bdg_wf nx ok b" "0 \<le> q" "q \<le> 1"
  obtains b' where
    "upsert_node nx uuid4 show_key ty key t q label eid b = (b', None)" "bdg_wf nx ok b'" "same_frame b b'"
    "node_view nx (graph b') = (node_view nx (graph b))
       (key \<mapsto> node_after (uuid4 (draws b)) ty (if label \<noteq> [] then label else show_key key) t q eid (node_view nx (graph b) key))"
    "edge_view nx (graph b') = edge_view nx (graph b)"
    "mg_nodes nx (graph b') = insert_key key (mg_nodes nx (graph b))"
    "length (mg_edges nx (graph b')) = length (mg_edges nx (graph b))"
proof -
  have ok: "ok (graph b)" and wf: "graph_wf nx (graph b)"
    using assms(1) by (simp_all add: bdg_wf_def)
  define a' where "a' = node_after (uuid4 (draws b)) ty (if label \<noteq> [] then label else show_key key) t q eid (node_view nx (graph b) key)"
  have after: "\<exists>b'. upsert_node nx uuid4 show_key ty key t q label eid b = (b', None) \<and> same_frame b b' \<and>
      graph b' = mg_set_node nx (graph b) key a' \<and> node_wf a'"
  proof (cases "key \<in> set (mg_nodes nx (graph b))")
    case True
    then have wf_a: "node_wf (mg_node nx (graph b) key)"
      using wf by (simp add: graph_wf_def)
    then obtain s where s: "na_last (mg_node nx (graph b) key) = Some (Some s)"
      by (auto simp: node_wf_def)
    with True have a': "a' = fst (observe_node (max s t) q eid (mg_node nx (graph b) key))"
      by (simp add: a'_def node_view_def node_after_def)
    have "node_wf a'" and err: "snd (observe_node (max s t) q eid (mg_node nx (graph b) key)) = None"
      using observe_node_wf [OF wf_a assms(2,3)] by (simp_all add: a' s)
    with True show ?thesis
      by (simp add: upsert_node_def Let_def s a' case_prod_unfold same_frame_def)
  next
    case False
    then have a': "a' = fresh_node (uuid4 (draws b)) ty (if label \<noteq> [] then label else show_key key) t q eid"
      by (simp add: a'_def node_view_def node_after_def)
    with False show ?thesis
      using fresh_node_wf [OF assms(2,3)] by (simp add: upsert_node_def Let_def same_frame_def)
  qed
  then obtain b' where b': "upsert_node nx uuid4 show_key ty key t q label eid b = (b', None)" "same_frame b b'"
      "graph b' = mg_set_node nx (graph b) key a'" "node_wf a'"
    by blast
  have nodes: "mg_nodes nx (graph b') = insert_key key (mg_nodes nx (graph b))"
    by (simp add: b'(3) read_after_write ok)
  have "graph_wf nx (graph b')"
    using wf b'(4) by (auto simp: graph_wf_def b'(3) read_after_write ok)
  then have "bdg_wf nx ok b'"
    using assms(1) b'(2,3) by (simp add: bdg_wf_def same_frame_def ok_intros)
  moreover have "length (mg_edges nx (graph b')) = length (mg_edges nx (graph b))"
    using ok by (intro length_edges_same) (auto simp: b'(3) read_after_write ok_intros)
  ultimately show thesis
    using that [OF b'(1) _ b'(2)] nodes
    by (simp add: b'(3) node_view_set_node [OF ok] edge_view_set_node [OF ok] flip: a'_def)
qed

lemma upsert_edge_refines:
  assumes "bdg_wf nx ok b" "0 \<le> optional q w" "optional q w \<le> 1"
    and ends: "u \<in> set (mg_nodes nx (graph b))" "v \<in> set (mg_nodes nx (graph b))"
  obtains b' where
    "upsert_edge nx uuid4 u v ty t q eid w b = (b', None)" "bdg_wf nx ok b'" "same_frame b b'"
    "node_view nx (graph b') = node_view nx (graph b)"
    "edge_view nx (graph b') = (edge_view nx (graph b))
       ((u, v, edge_type_value ty) \<mapsto> edge_after (decay_lambda b) (decay_delta b) (uuid4 (draws b)) ty t (optional q w) eid
          (edge_view nx (graph b) (u, v, edge_type_value ty)))"
    "mg_nodes nx (graph b') = mg_nodes nx (graph b)"
    "length (mg_edges nx (graph b')) =
       length (mg_edges nx (graph b)) + (if edge_view nx (graph b) (u, v, edge_type_value ty) = None then 1 else 0)"
proof (cases "existing_edge nx (graph b) u v ty")
  case None
  have ok: "ok (graph b)" and wf: "graph_wf nx (graph b)"
    using assms(1) by (simp_all add: bdg_wf_def)
  define e where "e = edge_after (decay_lambda b) (decay_delta b) (uuid4 (draws b)) ty t (optional q w) eid None"
  have e: "ea_type e = edge_type_value ty" "edge_wf e"
    using assms(2,3) by (auto simp: e_def edge_after_def edge_wf_def MAX_EVIDENCE_REFS_def split: option.split)
  have none: "edge_view nx (graph b) (u, v, ea_type e) = None"
    using None by (simp add: existing_edge_view e(1))
  define b' where "b' = b\<lparr>draws := draws b + 1, graph := mg_add_edge nx (graph b) u v e\<rparr>"
  obtain i where i: "\<And>x y. mg_between nx (graph b') x y =
      (if x = u \<and> y = v then mg_between nx (graph b) u v @ [(i, e)] else mg_between nx (graph b) x y)"
    using between_add_edge [OF ok, of u v e] by (auto simp: b'_def)
  have new: "ea_type a \<noteq> ea_type e" if "(j, a) \<in> set (mg_between nx (graph b) u v)" for j a
    using none that by (auto simp: edge_view_def find_None_iff)
  have nodes: "mg_nodes nx (graph b') = mg_nodes nx (graph b)"
    using ends ok by (simp add: b'_def read_after_write)
  have node: "mg_node nx (graph b') k = mg_node nx (graph b) k" if "k \<in> set (mg_nodes nx (graph b))" for k
    using that ends ok by (simp add: b'_def read_after_write)
  have entries: "edge_wf a" if "(j, a) \<in> set (mg_between nx (graph b') x y)" for j a x y
    using that wf e(2) by (fastforce simp: i graph_wf_def split: if_splits)
  have types: "distinct (map (\<lambda>(j, a). ea_type a) (mg_between nx (graph b') x y))" for x y
    using wf by (auto simp: i graph_wf_def dest: new)
  have "graph_wf nx (graph b')"
    using wf node types unfolding graph_wf_def nodes by (auto intro: entries)
  then have wf': "bdg_wf nx ok b'"
    using assms(1) by (simp add: bdg_wf_def b'_def ok_intros)
  have run: "upsert_edge nx uuid4 u v ty t q eid w b = (b', None)"
    by (simp add: upsert_edge_def None b'_def e_def edge_after_def)
  have views: "node_view nx (graph b') = node_view nx (graph b)"
      "edge_view nx (graph b') = (edge_view nx (graph b))((u, v, ea_type e) \<mapsto> e)"
    using node_view_add_edge [OF ok ends] edge_view_add_edge [OF ok none] by (simp_all add: b'_def)
  show thesis
  proof (rule that [OF run wf'])
    show "same_frame b b'" by (simp add: same_frame_def b'_def)
    show "length (mg_edges nx (graph b')) =
        length (mg_edges nx (graph b)) + (if edge_view nx (graph b) (u, v, edge_type_value ty) = None then 1 else 0)"
      using none by (simp add: b'_def length_edges_add [OF ok] e(1))
  qed (use none in \<open>simp_all add: views e(1) nodes flip: e_def\<close>)
next
  case (Some p)
  then obtain i e where ie: "existing_edge nx (graph b) u v ty = Some (i, e)" by (cases p) auto
  have ok: "ok (graph b)" and wf: "graph_wf nx (graph b)" and lam: "0 < decay_lambda b" "decay_lambda b \<le> 1"
    using assms(1) by (simp_all add: bdg_wf_def)
  note found = ie [unfolded existing_edge_def]
  have view: "edge_view nx (graph b) (u, v, edge_type_value ty) = Some e"
    by (rule existing_edge_view(2) [OF ie])
  have e: "edge_wf e" "ea_type e = edge_type_value ty"
    using find_SomeD [OF found] wf by (fastforce simp: graph_wf_def)+
  define e' where "e' = observe_edge (decay_lambda b) (decay_delta b) (the (ea_last e)) t (optional q w) eid e"
  define b' where "b' = b\<lparr>graph := mg_set_edge nx (graph b) u v i e'\<rparr>"
  have e': "edge_wf e'" "ea_type e' = ea_type e"
    using observe_edge_wf [OF e(1) assms(2,3) lam] by (simp_all add: e'_def)
  have same: "a = e" if "(i, a) \<in> set (mg_between nx (graph b) u v)" for a
    using that find_SomeD [OF found] distinct_edge_keys [OF ok] by (metis eq_key_imp_eq_value)
  have types: "map (\<lambda>(j, a). ea_type a) (mg_between nx (graph b') x y) = map (\<lambda>(j, a). ea_type a) (mg_between nx (graph b) x y)"
    for x y
    by (auto simp: b'_def between_set_edge [OF ok] comp_def e'(2) dest!: same)
  have entries: "edge_wf a" if "(j, a) \<in> set (mg_between nx (graph b') x y)" for j a x y
    using that wf e'(1) by (fastforce simp: b'_def between_set_edge [OF ok] graph_wf_def split: if_splits)
  have "graph_wf nx (graph b')"
    using wf entries unfolding graph_wf_def types by (fastforce simp: b'_def read_after_write ok)
  moreover have "upsert_edge nx uuid4 u v ty t q eid w b = (b', None)"
    using e(1) by (auto simp: upsert_edge_def ie b'_def e'_def edge_wf_def split: option.split)
  moreover have "length (mg_edges nx (graph b')) = length (mg_edges nx (graph b))"
    using ok by (intro length_edges_same) (simp_all add: b'_def read_after_write ok_intros)
  moreover have "bdg_wf nx ok b'"
    using assms(1) ok calculation(1) by (simp add: bdg_wf_def b'_def ok_intros)
  moreover have "node_view nx (graph b') = node_view nx (graph b)"
      "edge_view nx (graph b') = (edge_view nx (graph b))((u, v, edge_type_value ty) \<mapsto> e')"
    using node_view_set_edge [OF ok] edge_view_set_edge [OF ok found e'(2)] by (simp_all add: b'_def)
  ultimately show thesis
    using that [of b'] view by (simp add: same_frame_def edge_after_def e'_def) (simp add: b'_def read_after_write ok)
qed

end

end
