(* ===== verification/Causal_Update.thy ===== *)
theory Causal_Update
  imports Causal_Graph
begin

text \<open>
  What the stream of events makes of the dependency graph: every update of a well-formed graph succeeds
  and preserves well-formedness, a redelivered event changes nothing, snapshots are cut every batch, and
  the counts, the evidence and the decayed weights are exactly those of the history of accepted events.
\<close>

section \<open>Upserts in an order that works\<close>

text \<open>An edge needs its ends: otherwise the library adds nodes without attributes.\<close>

fun covered :: "node_key set \<Rightarrow> upsert list \<Rightarrow> bool" where
  "covered N [] \<longleftrightarrow> True"
| "covered N (UNode ty k l # us) \<longleftrightarrow> covered (insert k N) us"
| "covered N (UEdge u v ty # us) \<longleftrightarrow> u \<in> N \<and> v \<in> N \<and> covered N us"

fun nodes_of :: "upsert list \<Rightarrow> node_key set" where
  "nodes_of [] = {}"
| "nodes_of (UNode ty k l # us) = insert k (nodes_of us)"
| "nodes_of (UEdge u v ty # us) = nodes_of us"

lemma covered_append: "covered N (us @ vs) \<longleftrightarrow> covered N us \<and> covered (N \<union> nodes_of us) vs"
  by (induction N us rule: covered.induct) (auto simp: insert_commute)

lemma nodes_of_append [simp]: "nodes_of (us @ vs) = nodes_of us \<union> nodes_of vs"
  by (induction us rule: nodes_of.induct) auto

lemma covered_mono: "covered N us \<Longrightarrow> N \<subseteq> M \<Longrightarrow> covered M us"
proof (induction N us arbitrary: M rule: covered.induct)
  case (2 N ty k l us)
  then show ?case using "2.IH" [of "insert k M"] by auto
qed auto

lemma covered_concat: "(\<And>us. us \<in> set uss \<Longrightarrow> covered N us) \<Longrightarrow> covered N (concat uss)"
  by (induction uss) (auto simp: covered_append intro: covered_mono)

lemma covered_relations: "source \<in> N \<Longrightarrow> covered N (relation_upserts source rels)"
  unfolding relation_upserts_def by (rule covered_concat) auto

lemma covered_violation:
  "process_key ev \<in> N \<Longrightarrow> (\<And>k. component_key ev = Some k \<Longrightarrow> k \<in> N) \<Longrightarrow> covered N (violation_upserts ev viol drawn)"
  by (auto simp: violation_upserts_def Let_def split: option.split)

lemma covered_event: "covered N (event_upserts ev drawn)"
proof -
  let ?M = "insert (process_key ev) (set_option (component_key ev)) \<union> N \<union> nodes_of (chain_upserts ev)"
  have "covered N (chain_upserts ev)" "covered (N \<union> nodes_of (chain_upserts ev)) (component_upserts ev)"
    by (auto simp: chain_upserts_def component_upserts_def split: option.split)
  moreover have "?M \<subseteq> N \<union> nodes_of (chain_upserts ev) \<union> nodes_of (component_upserts ev)"
    by (auto simp: chain_upserts_def component_upserts_def split: option.splits)
  moreover have "covered ?M (relation_upserts (process_key ev) rels @ concat (map (\<lambda>i. violation_upserts ev (vs ! i) (drawn i)) is))"
    for rels vs "is"
    unfolding covered_append
    by (intro conjI covered_relations covered_concat) (auto intro!: covered_violation)
  ultimately show ?thesis
    unfolding event_upserts_def Let_def covered_append [of _ "chain_upserts ev"] covered_append [of _ "component_upserts ev"]
    by (blast intro: covered_mono)
qed

section \<open>History\<close>

type_synonym observation = "upsert \<times> time \<times> real \<times> uuid"

definition node_obs :: "observation list \<Rightarrow> node_key \<Rightarrow> (time \<times> real \<times> uuid) list" where
  "node_obs hist k =
     concat (map (\<lambda>(u, o'). case u of UNode ty j l \<Rightarrow> (if j = k then [o'] else []) | UEdge _ _ _ \<Rightarrow> []) hist)"

definition edge_obs :: "observation list \<Rightarrow> node_key \<times> node_key \<times> string \<Rightarrow> (time \<times> real \<times> uuid) list" where
  "edge_obs hist k =
     concat (map (\<lambda>(u, o'). case u of UNode _ _ _ \<Rightarrow> []
       | UEdge x y ty \<Rightarrow> (if (x, y, edge_type_value ty) = k then [o'] else [])) hist)"

text \<open>The count and the evidence of a node; for an edge also its weight and the time of the last observation.\<close>

definition node_summary :: "(time \<times> real \<times> uuid) list \<Rightarrow> (nat \<times> uuid list) option" where
  "node_summary obs =
     (if obs = [] then None else Some (length obs, take MAX_EVIDENCE_REFS (map (\<lambda>(t, q, i). i) obs)))"

definition observe_summary ::
    "real \<Rightarrow> real \<Rightarrow> (nat \<times> real \<times> time \<times> uuid list) option \<Rightarrow> time \<times> real \<times> uuid \<Rightarrow> (nat \<times> real \<times> time \<times> uuid list) option" where
  "observe_summary lam delta old = (\<lambda>(t, q, i). case old of
     None \<Rightarrow> Some (1, q, t, [i])
   | Some (n, w, s, rs) \<Rightarrow> Some (n + 1, decay_factor lam delta (t - s) * w + q, max s t,
       if length rs < MAX_EVIDENCE_REFS then rs @ [i] else rs))"

definition edge_summary :: "real \<Rightarrow> real \<Rightarrow> (time \<times> real \<times> uuid) list \<Rightarrow> (nat \<times> real \<times> time \<times> uuid list) option" where
  "edge_summary lam delta obs = foldl (observe_summary lam delta) None obs"

lemma node_obs_append [simp]: "node_obs (h @ h') k = node_obs h k @ node_obs h' k"
  by (simp add: node_obs_def)

lemma edge_obs_append [simp]: "edge_obs (h @ h') k = edge_obs h k @ edge_obs h' k"
  by (simp add: edge_obs_def)

lemma obs_Nil [simp]: "node_obs [] k = []" "edge_obs [] j = []"
  by (simp_all add: node_obs_def edge_obs_def)

lemma obs_single [simp]:
  "node_obs [(UNode ty k l, o')] j = (if j = k then [o'] else [])"
  "node_obs [(UEdge u v et, o')] j = []"
  "edge_obs [(UNode ty k l, o')] e = []"
  "edge_obs [(UEdge u v et, o')] e = (if e = (u, v, edge_type_value et) then [o'] else [])"
  by (auto simp: node_obs_def edge_obs_def)

lemma edge_summary_snoc [simp]: "edge_summary lam delta (obs @ [x]) = observe_summary lam delta (edge_summary lam delta obs) x"
  by (simp add: edge_summary_def)

lemma node_summary_snoc:
  "node_summary (obs @ [(t, q, i)]) =
     Some (case node_summary obs of None \<Rightarrow> (1, [i])
           | Some (n, rs) \<Rightarrow> (n + 1, if length rs < MAX_EVIDENCE_REFS then rs @ [i] else rs))"
  by (auto simp: node_summary_def MAX_EVIDENCE_REFS_def)

text \<open>
  The decayed weight of an edge whose observations came in order: every confidence, discounted by the time
  that has passed until the last observation.
\<close>

lemma edge_summary_closed:
  assumes "0 < lam" "0 < delta" "obs \<noteq> []" "sorted (map fst obs)"
  shows "edge_summary lam delta obs =
    Some (length obs, \<Sum>(t, q, i) \<leftarrow> obs. q * lam powr (real_of_int (fst (last obs) - t) / 1000000 / delta), fst (last obs),
          take MAX_EVIDENCE_REFS (map (\<lambda>(t, q, i). i) obs))"
  using assms(3,4)
proof (induction obs rule: rev_induct)
  case (snoc x obs)
  obtain t q i where x: "x = (t, q, i)" by (cases x)
  show ?case
  proof (cases "obs = []")
    case True
    then show ?thesis
      using assms(1) by (simp add: x edge_summary_def observe_summary_def MAX_EVIDENCE_REFS_def)
  next
    case False
    define s where "s = fst (last obs)"
    have s: "s \<le> t" and sorted: "sorted (map fst obs)"
      using snoc.prems(2) False by (auto simp: sorted_append x s_def)
    have decay: "decay_factor lam delta (t - s) = lam powr (real_of_int (t - s) / 1000000 / delta)"
      using assms(1,2) s by (auto simp: decay_factor_def)
    have split: "lam powr (real_of_int (t - s) / 1000000 / delta) * lam powr (real_of_int (s - r) / 1000000 / delta) =
        lam powr (real_of_int (t - r) / 1000000 / delta)" for r
      by (simp add: powr_add [symmetric] add_divide_distrib [symmetric])
    have "decay_factor lam delta (t - s) * (\<Sum>(t, q, i) \<leftarrow> obs. q * lam powr (real_of_int (s - t) / 1000000 / delta)) =
        (\<Sum>(r, q, i) \<leftarrow> obs. q * lam powr (real_of_int (t - r) / 1000000 / delta))"
      unfolding decay sum_list_const_mult [symmetric]
      by (intro arg_cong [where f = sum_list] map_cong refl) (auto simp: split [simplified] mult.left_commute)
    then show ?thesis
      using snoc.IH [OF False sorted] s assms(1) by (auto simp: x s_def observe_summary_def MAX_EVIDENCE_REFS_def max_def)
  qed
qed simp

section \<open>One update\<close>

text \<open>The graph records a history: counts, evidence and weights are those of the observations.\<close>

definition records :: "'g multigraph \<Rightarrow> observation list \<Rightarrow> 'g bdg \<Rightarrow> bool" where
  "records nx hist b \<longleftrightarrow>
     (\<forall>k. map_option (\<lambda>a. (the (na_count a), the (na_refs a))) (node_view nx (graph b) k) = node_summary (node_obs hist k)) \<and>
     (\<forall>k. map_option (\<lambda>e. (ea_count e, ea_weight e, the (ea_last e), ea_refs e)) (edge_view nx (graph b) k) =
        edge_summary (decay_lambda b) (decay_delta b) (edge_obs hist k))"

definition touched :: "graph_mutation \<Rightarrow> nat" where
  "touched m = nodes_created m + nodes_updated m + edges_created m + edges_updated m"

text \<open>What a sequence of upserts of one event does to a well-formed state.\<close>

definition advanced ::
    "'g multigraph \<Rightarrow> ('g \<Rightarrow> bool) \<Rightarrow> time \<Rightarrow> real \<Rightarrow> uuid \<Rightarrow> upsert list \<Rightarrow> 'g bdg \<times> graph_mutation \<Rightarrow> 'g bdg \<times> graph_mutation \<Rightarrow> bool" where
  "advanced nx ok t q eid us = (\<lambda>(b, m) (b', m').
     bdg_wf nx ok b' \<and> same_frame b b' \<and>
     set (mg_nodes nx (graph b')) = set (mg_nodes nx (graph b)) \<union> nodes_of us \<and>
     (\<forall>hist. records nx hist b \<longrightarrow> records nx (hist @ map (\<lambda>u. (u, t, q, eid)) us) b') \<and>
     nodes_created m' + length (mg_nodes nx (graph b)) = nodes_created m + length (mg_nodes nx (graph b')) \<and>
     edges_created m' + length (mg_edges nx (graph b)) = edges_created m + length (mg_edges nx (graph b')) \<and>
     touched m' = touched m + length us \<and> gm_event m' = gm_event m \<and> snapshot_cut m' = snapshot_cut m)"

lemma advanced_trans:
  "advanced nx ok t q eid us s s' \<Longrightarrow> advanced nx ok t q eid vs s' s'' \<Longrightarrow> advanced nx ok t q eid (us @ vs) s s''"
  by (auto simp: advanced_def intro: same_frame_trans)

lemma length_insert_key: "length (insert_key k xs) = length xs + (if k \<in> set xs then 0 else 1)"
  by (simp add: insert_key_def)

context multigraph_library
begin

lemma records_node:
  assumes "bdg_wf nx ok b" "records nx hist b" "same_frame b b'"
    and "node_view nx (graph b') = (node_view nx (graph b))(k \<mapsto> node_after i ty l' t q (Some eid) (node_view nx (graph b) k))"
    and "edge_view nx (graph b') = edge_view nx (graph b)"
  shows "records nx (hist @ [(UNode ty k l, t, q, eid)]) b'"
proof -
  have sum: "map_option (\<lambda>a. (the (na_count a), the (na_refs a))) (node_view nx (graph b) k) = node_summary (node_obs hist k)"
    using assms(2) by (simp add: records_def)
  have "(the (na_count a), the (na_refs a)) = (case node_summary (node_obs hist k) of None \<Rightarrow> (1, [eid])
      | Some (n, rs) \<Rightarrow> (n + 1, if length rs < MAX_EVIDENCE_REFS then rs @ [eid] else rs))"
    if a: "a = node_after i ty l' t q (Some eid) (node_view nx (graph b) k)" for a
  proof (cases "k \<in> set (mg_nodes nx (graph b))")
    case True
    then have "node_wf (mg_node nx (graph b) k)"
      using assms(1) by (simp add: bdg_wf_def graph_wf_def)
    with True show ?thesis
      unfolding a sum [symmetric] by (auto simp: node_wf_def node_view_def node_after_def observe_node_def Let_def)
  next
    case False
    then show ?thesis
      unfolding a sum [symmetric] by (simp add: node_view_def node_after_def fresh_node_def)
  qed
  then show ?thesis
    using assms(2,3,5) by (auto simp: records_def assms(4) node_summary_snoc same_frame_def)
qed

lemma records_edge:
  assumes "bdg_wf nx ok b" "records nx hist b" "same_frame b b'"
    and "edge_view nx (graph b') = (edge_view nx (graph b))((u, v, edge_type_value ty) \<mapsto>
      edge_after (decay_lambda b) (decay_delta b) i ty t q (Some eid) (edge_view nx (graph b) (u, v, edge_type_value ty)))"
    and "node_view nx (graph b') = node_view nx (graph b)"
  shows "records nx (hist @ [(UEdge u v ty, t, q, eid)]) b'"
proof -
  let ?k = "(u, v, edge_type_value ty)"
  let ?f = "\<lambda>e. (ea_count e, ea_weight e, the (ea_last e), ea_refs e)"
  have sum: "map_option ?f (edge_view nx (graph b) ?k) = edge_summary (decay_lambda b) (decay_delta b) (edge_obs hist ?k)"
    using assms(2) by (simp add: records_def)
  have "Some (?f (edge_after (decay_lambda b) (decay_delta b) i ty t q (Some eid) (edge_view nx (graph b) ?k))) =
      observe_summary (decay_lambda b) (decay_delta b) (edge_summary (decay_lambda b) (decay_delta b) (edge_obs hist ?k)) (t, q, eid)"
    unfolding sum [symmetric]
    by (cases "edge_view nx (graph b) ?k") (simp_all add: edge_after_def observe_summary_def observe_edge_def)
  then show ?thesis
    using assms(2,3,5) by (auto simp: records_def assms(4) same_frame_def)
qed

lemma apply_upsert_advances:
  assumes "env_nx env = nx" "bdg_wf nx ok b" "0 \<le> q" "q \<le> 1" "covered (set (mg_nodes nx (graph b))) [u]"
  shows "\<exists>s'. apply_upsert env t q eid u (b, m) = (s', None) \<and> advanced nx ok t q eid [u] (b, m) s'"
proof (cases u)
  case (UNode ty k l)
  obtain b' where b': "upsert_node nx (env_uuid4 env) (env_show_key env) ty k t q l (Some eid) b = (b', None)" "bdg_wf nx ok b'"
      "same_frame b b'" "mg_nodes nx (graph b') = insert_key k (mg_nodes nx (graph b))"
      "length (mg_edges nx (graph b')) = length (mg_edges nx (graph b))"
      and views: "node_view nx (graph b') = (node_view nx (graph b))(k \<mapsto> node_after (env_uuid4 env (draws b)) ty
          (if l \<noteq> [] then l else env_show_key env k) t q (Some eid) (node_view nx (graph b) k))"
        "edge_view nx (graph b') = edge_view nx (graph b)"
    by (rule upsert_node_refines [OF assms(2-4)])
  then show ?thesis
    using records_node [OF assms(2) _ b'(3) views]
    by (auto simp: UNode assms(1) advanced_def touched_def length_insert_key Let_def)
next
  case (UEdge x y ty)
  have ends: "x \<in> set (mg_nodes nx (graph b))" "y \<in> set (mg_nodes nx (graph b))"
    using assms(5) by (simp_all add: UEdge)
  obtain b' where b': "upsert_edge nx (env_uuid4 env) x y ty t q (Some eid) None b = (b', None)" "bdg_wf nx ok b'"
      "same_frame b b'" "mg_nodes nx (graph b') = mg_nodes nx (graph b)"
      "length (mg_edges nx (graph b')) =
         length (mg_edges nx (graph b)) + (if edge_view nx (graph b) (x, y, edge_type_value ty) = None then 1 else 0)"
      and views: "edge_view nx (graph b') = (edge_view nx (graph b))((x, y, edge_type_value ty) \<mapsto>
          edge_after (decay_lambda b) (decay_delta b) (env_uuid4 env (draws b)) ty t q (Some eid)
            (edge_view nx (graph b) (x, y, edge_type_value ty)))"
        "node_view nx (graph b') = node_view nx (graph b)"
    using upsert_edge_refines [OF assms(2) _ _ ends, where q = q and w = None] assms(3,4) by (metis optional_simps(1))
  then show ?thesis
    using records_edge [OF assms(2) _ b'(3) views]
    by (auto simp: UEdge assms(1) advanced_def touched_def existing_edge_view(1) Let_def)
qed

lemma run_upserts_advances:
  assumes "env_nx env = nx" "0 \<le> q" "q \<le> 1"
  shows "bdg_wf nx ok b \<Longrightarrow> covered (set (mg_nodes nx (graph b))) us \<Longrightarrow>
    \<exists>s'. run_upserts (apply_upsert env t q eid) us (b, m) = (s', None) \<and> advanced nx ok t q eid us (b, m) s'"
proof (induction us arbitrary: b m)
  case Nil
  then show ?case by (simp add: advanced_def)
next
  case (Cons u us)
  have cov: "covered (set (mg_nodes nx (graph b))) [u]" "covered (set (mg_nodes nx (graph b)) \<union> nodes_of [u]) us"
    using Cons.prems(2) covered_append [of _ "[u]" us] by simp_all
  obtain b' m' where step: "apply_upsert env t q eid u (b, m) = ((b', m'), None)" "advanced nx ok t q eid [u] (b, m) (b', m')"
    using apply_upsert_advances [OF assms(1) Cons.prems(1) assms(2,3) cov(1)] by fastforce
  then have "bdg_wf nx ok b'" "covered (set (mg_nodes nx (graph b'))) us"
    using cov(2) by (simp_all add: advanced_def)
  then obtain s' where "run_upserts (apply_upsert env t q eid) us (b', m') = (s', None)" "advanced nx ok t q eid us (b', m') s'"
    using Cons.IH by blast
  with step show ?case
    using advanced_trans [of nx ok t q eid "[u]" "(b, m)" "(b', m')" us] by auto
qed

end

text \<open>What an update leaves, apart from the history: the state between two events and its report.\<close>

definition event_done :: "'g multigraph \<Rightarrow> uuid \<Rightarrow> nat \<Rightarrow> 'g bdg \<Rightarrow> 'g bdg \<Rightarrow> graph_mutation \<Rightarrow> bool" where
  "event_done nx eid n b b' m \<longleftrightarrow>
     idempotency_index b' = insert eid (idempotency_index b) \<and> gm_event m = eid \<and>
     length (mg_nodes nx (graph b')) = length (mg_nodes nx (graph b)) + nodes_created m \<and>
     length (mg_edges nx (graph b')) = length (mg_edges nx (graph b)) + edges_created m \<and>
     touched m = n \<and> decay_lambda b' = decay_lambda b \<and> decay_delta b' = decay_delta b \<and> batch_size b' = batch_size b \<and>
     (if batch_size b \<le> events_since_snapshot b + 1
      then snapshot_cut m \<and> events_since_snapshot b' = 0 \<and>
        (\<exists>sn. snapshots b' = snapshots b @ [sn] \<and> sn_nodes sn = length (mg_nodes nx (graph b')) \<and>
           sn_edges sn = length (mg_edges nx (graph b')) \<and> sn_watermark sn = eid)
      else \<not> snapshot_cut m \<and> events_since_snapshot b' = events_since_snapshot b + 1 \<and> snapshots b' = snapshots b)"

context multigraph_library
begin

lemma process_new:
  assumes "env_nx env = nx" "bdg_wf nx ok b" "0 \<le> q" "q \<le> 1" "covered (set (mg_nodes nx (graph b))) us"
    and "eid \<notin> idempotency_index b"
  shows "\<exists>b' m. process_upserts env tenant eid t q us b = (b', Inr m) \<and> bdg_wf nx ok b' \<and>
    (\<forall>hist. records nx hist b \<longrightarrow> records nx (hist @ map (\<lambda>u. (u, t, q, eid)) us) b') \<and>
    event_done nx eid (length us) b b' m"
proof -
  define b1 where "b1 = b\<lparr>idempotency_index := insert eid (idempotency_index b)\<rparr>"
  have b1: "bdg_wf nx ok b1" "graph b1 = graph b" "records nx hist b \<longleftrightarrow> records nx hist b1" for hist
    using assms(2) by (simp_all add: b1_def bdg_wf_def records_def)
  obtain b2 m2 where run: "run_upserts (apply_upsert env t q eid) us (b1, no_mutation eid) = ((b2, m2), None)"
      and adv: "advanced nx ok t q eid us (b1, no_mutation eid) (b2, m2)"
    using run_upserts_advances [OF assms(1,3,4) b1(1), where us = us] assms(5) b1(2) by fastforce
  obtain b3 m3 where close: "close_batch env tenant eid (b2, m2) = (b3, m3)" by fastforce
  then have b3: "graph b3 = graph b2" "decay_lambda b3 = decay_lambda b2" "decay_delta b3 = decay_delta b2"
    by (auto simp: close_batch_def commit_snapshot_def Let_def split: if_splits)
  have "process_upserts env tenant eid t q us b = (b3, Inr m3)"
    using run close assms(6) by (simp add: process_upserts_def b1_def)
  moreover have "bdg_wf nx ok b3" "\<forall>hist. records nx hist b \<longrightarrow> records nx (hist @ map (\<lambda>u. (u, t, q, eid)) us) b3"
    using adv b1(3) by (simp_all add: advanced_def bdg_wf_def records_def b3)
  moreover have "event_done nx eid (length us) b b3 m3"
    using adv close assms(1)
    by (auto simp: event_done_def advanced_def same_frame_def b1_def no_mutation_def touched_def close_batch_def
        commit_snapshot_def Let_def split: if_splits)
  ultimately show ?thesis by blast
qed

end

section \<open>A stream of events\<close>

type_synonym delivery = "bdg_event \<times> (nat \<Rightarrow> uuid)"

definition updates :: "'g bdg_env \<Rightarrow> delivery list \<Rightarrow> 'g bdg \<Rightarrow> 'g bdg" where
  "updates env ds b = foldl (\<lambda>b (ev, drawn). fst (update env ev drawn b)) b ds"

text \<open>The deliveries that are not repetitions, and what they observe.\<close>

fun accepted :: "uuid set \<Rightarrow> delivery list \<Rightarrow> delivery list" where
  "accepted seen [] = []"
| "accepted seen (d # ds) =
     (if be_id (fst d) \<in> seen then accepted seen ds else d # accepted (insert (be_id (fst d)) seen) ds)"

definition history_of :: "delivery list \<Rightarrow> observation list" where
  "history_of ds = concat (map (\<lambda>(ev, drawn). map (\<lambda>u. (u, be_time ev, event_confidence ev, be_id ev)) (event_upserts ev drawn)) ds)"

definition confident :: "delivery list \<Rightarrow> bool" where
  "confident ds \<longleftrightarrow> (\<forall>d \<in> set ds. 0 \<le> event_confidence (fst d) \<and> event_confidence (fst d) \<le> 1)"

definition batches :: "'g bdg \<Rightarrow> bool" where
  "batches b \<longleftrightarrow> finite (idempotency_index b) \<and> 0 \<le> events_since_snapshot b \<and> events_since_snapshot b < batch_size b \<and>
     int (card (idempotency_index b)) = batch_size b * int (length (snapshots b)) + events_since_snapshot b"

lemma event_done_batches:
  assumes "event_done nx eid n b b' m" "eid \<notin> idempotency_index b" "batches b"
  shows "batches b'"
  using assms by (auto simp: event_done_def batches_def algebra_simps split: if_splits)

context multigraph_library
begin

lemma updates_step:
  assumes "env_nx env = nx" "bdg_wf nx ok b" "0 \<le> event_confidence ev" "event_confidence ev \<le> 1" "be_id ev \<notin> idempotency_index b"
  obtains b' m where "update env ev drawn b = (b', Inr m)" "bdg_wf nx ok b'"
    "event_done nx (be_id ev) (length (event_upserts ev drawn)) b b' m"
    "\<And>hist. records nx hist b \<Longrightarrow> records nx (hist @ history_of [(ev, drawn)]) b'"
proof -
  obtain b' m where *: "update env ev drawn b = (b', Inr m)" "bdg_wf nx ok b'"
      "\<And>hist. records nx hist b \<Longrightarrow>
        records nx (hist @ map (\<lambda>u. (u, be_time ev, event_confidence ev, be_id ev)) (event_upserts ev drawn)) b'"
      "event_done nx (be_id ev) (length (event_upserts ev drawn)) b b' m"
    using process_new [OF assms(1-4) covered_event [of _ ev drawn] assms(5), of "be_tenant ev" "be_time ev"]
    unfolding update_def by blast
  show thesis
    by (rule that [OF *(1,2,4)]) (simp add: history_of_def *(3))
qed

lemma updates_history:
  assumes "env_nx env = nx"
  shows "bdg_wf nx ok b \<Longrightarrow> confident ds \<Longrightarrow> records nx hist b \<Longrightarrow> batches b \<Longrightarrow>
    bdg_wf nx ok (updates env ds b) \<and> batches (updates env ds b) \<and>
    records nx (hist @ history_of (accepted (idempotency_index b) ds)) (updates env ds b) \<and>
    idempotency_index (updates env ds b) = idempotency_index b \<union> be_id ` fst ` set ds \<and>
    decay_lambda (updates env ds b) = decay_lambda b \<and> decay_delta (updates env ds b) = decay_delta b \<and>
    batch_size (updates env ds b) = batch_size b"
proof (induction ds arbitrary: b hist)
  case Nil
  then show ?case by (simp add: updates_def history_of_def)
next
  case (Cons d ds)
  obtain ev drawn where d: "d = (ev, drawn)" by (cases d)
  have conf: "0 \<le> event_confidence ev" "event_confidence ev \<le> 1" "confident ds"
    using Cons.prems(2) by (simp_all add: confident_def d)
  have step: "updates env (d # ds) b = updates env ds (fst (update env ev drawn b))"
    by (simp add: updates_def d)
  show ?case
  proof (cases "be_id ev \<in> idempotency_index b")
    case True
    then have "fst (update env ev drawn b) = b"
      by (simp add: update_def process_upserts_def)
    with True show ?thesis
      using Cons.IH [OF Cons.prems(1) conf(3) Cons.prems(3,4)] unfolding step by (auto simp: d)
  next
    case False
    obtain b' m where b': "update env ev drawn b = (b', Inr m)" "bdg_wf nx ok b'"
        "event_done nx (be_id ev) (length (event_upserts ev drawn)) b b' m"
        "\<And>hist. records nx hist b \<Longrightarrow> records nx (hist @ history_of [(ev, drawn)]) b'"
      using updates_step [OF assms Cons.prems(1) conf(1,2) False] by blast
    have "accepted (idempotency_index b) (d # ds) = (ev, drawn) # accepted (idempotency_index b') ds"
      using False b'(3) by (simp add: d event_done_def)
    then have hist: "hist @ history_of (accepted (idempotency_index b) (d # ds)) =
        (hist @ history_of [(ev, drawn)]) @ history_of (accepted (idempotency_index b') ds)"
      by (simp add: history_of_def)
    have "batches b'"
      by (rule event_done_batches [OF b'(3) False Cons.prems(4)])
    from Cons.IH [OF b'(2) conf(3) b'(4) [OF Cons.prems(3)] this] b'(1,3) show ?thesis
      unfolding step hist by (simp add: d event_done_def)
  qed
qed

lemma new_bdg_wf:
  assumes "0 < lam" "lam \<le> 1" "1 \<le> n"
  shows "bdg_wf nx ok (new_bdg nx lam delta n)" "records nx [] (new_bdg nx lam delta n)" "batches (new_bdg nx lam delta n)"
  using assms
  by (auto simp: bdg_wf_def new_bdg_def graph_wf_def read_after_write ok_intros between_empty records_def node_view_def
      edge_view_def node_summary_def edge_summary_def batches_def split: prod.split)

lemma stream_history:
  fixes delta :: real
  assumes "env_nx env = nx" "0 < lam" "lam \<le> 1" "1 \<le> n" "confident ds"
  defines "b \<equiv> updates env ds (new_bdg nx lam delta n)"
  shows "bdg_wf nx ok b" "batches b" "records nx (history_of (accepted {} ds)) b"
    "idempotency_index b = be_id ` fst ` set ds" "decay_lambda b = lam" "decay_delta b = delta" "batch_size b = n"
proof -
  have b0: "idempotency_index (new_bdg nx lam delta n) = {}" "decay_lambda (new_bdg nx lam delta n) = lam"
      "decay_delta (new_bdg nx lam delta n) = delta" "batch_size (new_bdg nx lam delta n) = n"
    by (simp_all add: new_bdg_def)
  note all = updates_history [OF assms(1) new_bdg_wf(1) [OF assms(2-4)] assms(5) new_bdg_wf(2,3) [OF assms(2-4)], of delta, unfolded b0]
  show "bdg_wf nx ok b" "batches b" "records nx (history_of (accepted {} ds)) b"
      "idempotency_index b = be_id ` fst ` set ds" "decay_lambda b = lam" "decay_delta b = delta" "batch_size b = n"
    using all unfolding b_def by simp_all
qed

end

definition demo_env :: "lgraph bdg_env" where
  "demo_env = \<lparr>env_nx = list_graph, env_uuid4 = show_nat, env_show_key = concat, env_parse_uuid = Some, env_uuid5 = rev\<rparr>"

definition demo_event :: "uuid \<Rightarrow> time \<Rightarrow> bdg_event" where
  "demo_event i t =
     \<lparr>be_id = i, be_type = ''exec'', be_time = t, be_tenant = ''t'', be_cluster = ''c'', be_namespace = ''n'',
      be_pod_uid = ''p'', be_container_id = ''k'', be_image_digest = ''d'', be_tgid = 1, be_start_ns = 2,
      be_identity_confidence = 1, be_binding_confidence = 1, be_collector_confidence = 1, be_binding_status = ''resolved'',
      be_purl = Some ''pkg:a'', be_violations = None, be_attrs = None\<rparr>"

definition demo_bdg :: "lgraph bdg" where
  "demo_bdg = new_bdg list_graph (1 / 2) 300 1"

definition demo_deliveries :: "delivery list" where
  "demo_deliveries = [(demo_event ''e1'' 0, show_nat), (demo_event ''e1'' 0, show_nat), (demo_event ''e2'' 300000000, show_nat)]"

lemma demo_facts:
  "env_nx demo_env = list_graph" "event_confidence (demo_event i t) = 1" "be_id (demo_event i t) = i"
  "be_time (demo_event i t) = t" "confident demo_deliveries" "idempotency_index demo_bdg = {}" "bdg_wf list_graph lg_ok demo_bdg"
  by (simp_all add: demo_env_def event_confidence_def demo_event_def confident_def demo_deliveries_def demo_bdg_def
      lg.new_bdg_wf(1)) (simp add: new_bdg_def)

text \<open>
  C32: An update of a well-formed graph always succeeds. A redelivered event changes nothing; a new one preserves
  well-formedness (every node and edge has all its attributes, confidences within 0 and 1, at most fifty
  references, one edge per pair of nodes and type), is remembered, adds as many nodes and edges as its
  report says, and closes the batch when it fills it.
\<close>

theorem update_exactly:
  assumes "multigraph_library nx ok" "env_nx env = nx" "bdg_wf nx ok b" "0 \<le> event_confidence ev" "event_confidence ev \<le> 1"
  shows "if be_id ev \<in> idempotency_index b then update env ev drawn b = (b, Inr (no_mutation (be_id ev)))
    else \<exists>b' m. update env ev drawn b = (b', Inr m) \<and> bdg_wf nx ok b' \<and>
      event_done nx (be_id ev) (length (event_upserts ev drawn)) b b' m"
proof (cases "be_id ev \<in> idempotency_index b")
  case True
  then show ?thesis by (simp add: update_def process_upserts_def)
next
  case False
  show ?thesis
    by (rule multigraph_library.updates_step [OF assms False, where drawn = drawn]) (use False in auto)
qed

theorem update_exactly_witness:
  "\<exists>b' m. update demo_env (demo_event ''e'' 0) show_nat demo_bdg = (b', Inr m) \<and> bdg_wf list_graph lg_ok b' \<and>
     event_done list_graph ''e'' (length (event_upserts (demo_event ''e'' 0) show_nat)) demo_bdg b' m"
  using update_exactly [OF lg.multigraph_library_axioms, of demo_env demo_bdg "demo_event ''e'' 0" show_nat]
  by (simp add: demo_facts)

text \<open>
  C31: A stream of events, redeliveries included, leaves a well-formed graph whose nodes and edges count the
  observations of the accepted events, keep the first fifty of them as evidence and, as long as the
  observations of an edge came in order, weigh them by the decayed sum of their confidences.
\<close>

theorem stream_exactly:
  assumes "multigraph_library nx ok" "env_nx env = nx" "0 < lam" "lam \<le> 1" "0 < delta" "1 \<le> n" "confident ds"
    and "b = updates env ds (new_bdg nx lam delta n)" "hist = history_of (accepted {} ds)"
    and "sorted (map fst (edge_obs hist (u, v, s)))"
  shows "bdg_wf nx ok b \<and>
    map_option (\<lambda>a. (the (na_count a), the (na_refs a))) (node_view nx (graph b) k) = node_summary (node_obs hist k) \<and>
    map_option (\<lambda>e. (ea_count e, ea_weight e, ea_refs e)) (edge_view nx (graph b) (u, v, s)) =
      (let obs = edge_obs hist (u, v, s)
       in if obs = [] then None
          else Some (length obs, \<Sum>(t, q, i) \<leftarrow> obs. q * lam powr (real_of_int (fst (last obs) - t) / 1000000 / delta),
                     take MAX_EVIDENCE_REFS (map (\<lambda>(t, q, i). i) obs)))"
proof -
  note stream = multigraph_library.stream_history [OF assms(1-4,6,7), of delta, folded assms(8)]
  have wf: "bdg_wf nx ok b" and rec: "records nx hist b" and lam: "decay_lambda b = lam" "decay_delta b = delta"
    using stream by (simp_all add: assms(9))
  have "map_option (\<lambda>e. (ea_count e, ea_weight e, ea_refs e)) (edge_view nx (graph b) (u, v, s)) =
      map_option (\<lambda>(n, w, t, rs). (n, w, rs))
        (map_option (\<lambda>e. (ea_count e, ea_weight e, the (ea_last e), ea_refs e)) (edge_view nx (graph b) (u, v, s)))"
    by (cases "edge_view nx (graph b) (u, v, s)") simp_all
  also have "map_option (\<lambda>e. (ea_count e, ea_weight e, the (ea_last e), ea_refs e)) (edge_view nx (graph b) (u, v, s)) =
      edge_summary lam delta (edge_obs hist (u, v, s))"
    using rec lam by (simp add: records_def)
  finally have edge: "map_option (\<lambda>e. (ea_count e, ea_weight e, ea_refs e)) (edge_view nx (graph b) (u, v, s)) =
      map_option (\<lambda>(n, w, t, rs). (n, w, rs)) (edge_summary lam delta (edge_obs hist (u, v, s)))" .
  show ?thesis
  proof (intro conjI wf)
    show "map_option (\<lambda>a. (the (na_count a), the (na_refs a))) (node_view nx (graph b) k) = node_summary (node_obs hist k)"
      using rec by (simp add: records_def)
    show "map_option (\<lambda>e. (ea_count e, ea_weight e, ea_refs e)) (edge_view nx (graph b) (u, v, s)) =
        (let obs = edge_obs hist (u, v, s)
         in if obs = [] then None
            else Some (length obs, \<Sum>(t, q, i) \<leftarrow> obs. q * lam powr (real_of_int (fst (last obs) - t) / 1000000 / delta),
                       take MAX_EVIDENCE_REFS (map (\<lambda>(t, q, i). i) obs)))"
      unfolding edge
    proof (cases "edge_obs hist (u, v, s) = []")
      case False
      show "map_option (\<lambda>(n, w, t, rs). (n, w, rs)) (edge_summary lam delta (edge_obs hist (u, v, s))) =
          (let obs = edge_obs hist (u, v, s)
           in if obs = [] then None
              else Some (length obs, \<Sum>(t, q, i) \<leftarrow> obs. q * lam powr (real_of_int (fst (last obs) - t) / 1000000 / delta),
                         take MAX_EVIDENCE_REFS (map (\<lambda>(t, q, i). i) obs)))"
        unfolding edge_summary_closed [OF assms(3,5) False assms(10)] Let_def using False by simp
    qed (simp add: edge_summary_def)
  qed
qed

lemma demo_history:
  "edge_obs (history_of (accepted {} demo_deliveries)) ([''t'', ''c'', ''n'', ''p''], [''t'', ''k'', ''d''], ''runs'') =
     [(0, 1, ''e1''), (300000000, 1, ''e2'')]"
  by (simp add: demo_deliveries_def demo_facts history_of_def event_upserts_def chain_upserts_def component_upserts_def
      component_key_def relation_upserts_def map_event_to_relations_def edge_obs_def demo_event_def workload_key_def
      container_key_def process_key_def event_confidence_def truthy_text_def Let_def)

theorem stream_exactly_witness:
  "map_option (\<lambda>e. (ea_count e, ea_weight e, ea_refs e))
     (edge_view list_graph (graph (updates demo_env demo_deliveries demo_bdg)) ([''t'', ''c'', ''n'', ''p''], [''t'', ''k'', ''d''], ''runs'')) =
   Some (2, 3 / 2, [''e1'', ''e2''])"
  using stream_exactly [OF lg.multigraph_library_axioms, of demo_env "1 / 2" 300 1 demo_deliveries
      "updates demo_env demo_deliveries demo_bdg" "history_of (accepted {} demo_deliveries)" "[''t'', ''c'', ''n'', ''p'']"
      "[''t'', ''k'', ''d'']" "''runs''"]
  by (simp add: demo_facts demo_history demo_bdg_def MAX_EVIDENCE_REFS_def numeral_2_eq_2)

text \<open>
  Every batch of new events is closed by one snapshot: the accepted events are those of the snapshots and
  the ones since the last of them, fewer than a batch.
\<close>

theorem snapshots_close_batches:
  assumes "multigraph_library nx ok" "env_nx env = nx" "0 < lam" "lam \<le> 1" "1 \<le> n" "confident ds"
    and "b = updates env ds (new_bdg nx lam delta n)"
  shows "int (card (be_id ` fst ` set ds)) = n * int (length (snapshots b)) + events_since_snapshot b \<and>
    0 \<le> events_since_snapshot b \<and> events_since_snapshot b < n"
proof -
  show ?thesis
    using multigraph_library.stream_history [OF assms(1-6), of delta, folded assms(7)] by (simp add: batches_def)
qed

theorem snapshots_close_batches_witness:
  "int (length (snapshots (updates demo_env demo_deliveries demo_bdg))) = 2"
  using snapshots_close_batches [OF lg.multigraph_library_axioms, of demo_env "1 / 2" 1 demo_deliveries
      "updates demo_env demo_deliveries demo_bdg" 300]
  by (simp add: demo_facts demo_bdg_def) (simp add: demo_deliveries_def demo_facts)

end
