(* ===== verification/Causal_Snapshot.thy ===== *)
theory Causal_Snapshot
  imports Causal_Update
begin

text \<open>
  Storing and restoring the dependency graph, \<open>domain/serialization.py\<close> of the causal engine. A snapshot
  document is a record whose optional fields are the keys a dictionary may lack; the canonical and the
  legacy schema hold the same fields under other names. The conversions of times and UUIDs are parameters.
\<close>

section \<open>Documents\<close>

record node_doc =
  nd_key :: node_key
  nd_id :: "string option"
  nd_type :: "string option"
  nd_label :: "string option"
  nd_first :: "string option"
  nd_last :: "string option"
  nd_confidence :: "real option"
  nd_count :: "nat option"
  nd_refs :: "string list option"

record edge_doc =
  ed_source :: node_key
  ed_target :: node_key
  ed_type :: "string option"
  ed_id :: "string option"
  ed_weight :: "real option"
  ed_last :: "string option"
  ed_count :: "nat option"
  ed_refs :: "string list option"

record bdg_doc =
  dc_lambda :: "real option"
  dc_delta :: "real option"
  dc_batch_size :: "int option"
  dc_since :: "int option"
  dc_nodes :: "node_doc list"
  dc_edges :: "edge_doc list"

text \<open>\<open>isoformat\<close>, \<open>fromisoformat\<close> and \<open>uuid.UUID\<close>, the latter two \<open>None\<close> where they raise.\<close>

record conversions =
  cv_iso :: "time \<Rightarrow> string"
  cv_parse_iso :: "string \<Rightarrow> time option"
  cv_parse_uuid :: "string \<Rightarrow> uuid option"

section \<open>Serialization\<close>

definition dt_to_str :: "conversions \<Rightarrow> time option \<Rightarrow> string option" where
  "dt_to_str cv t = map_option (cv_iso cv) t"

definition node_to_doc :: "conversions \<Rightarrow> node_key \<Rightarrow> node_attrs \<Rightarrow> node_doc" where
  "node_to_doc cv k a =
     \<lparr>nd_key = k, nd_id = Some (optional [] (na_id a)), nd_type = Some (optional [] (na_type a)),
      nd_label = Some (optional [] (na_label a)), nd_first = dt_to_str cv (na_first a),
      nd_last = dt_to_str cv (optional None (na_last a)), nd_confidence = Some (optional 0 (na_confidence a)),
      nd_count = Some (optional 0 (na_count a)), nd_refs = Some (optional [] (na_refs a))\<rparr>"

definition edge_to_doc :: "conversions \<Rightarrow> node_key \<times> node_key \<times> edge_attrs \<Rightarrow> edge_doc" where
  "edge_to_doc cv = (\<lambda>(u, v, e).
     \<lparr>ed_source = u, ed_target = v, ed_type = Some (ea_type e), ed_id = Some (ea_id e), ed_weight = Some (ea_weight e),
      ed_last = dt_to_str cv (ea_last e), ed_count = Some (ea_count e), ed_refs = Some (ea_refs e)\<rparr>)"

definition serialize_bdg :: "'g multigraph \<Rightarrow> conversions \<Rightarrow> 'g bdg \<Rightarrow> bdg_doc" where
  "serialize_bdg nx cv b =
     \<lparr>dc_lambda = Some (decay_lambda b), dc_delta = Some (decay_delta b), dc_batch_size = Some (batch_size b),
      dc_since = Some (events_since_snapshot b),
      dc_nodes = map (\<lambda>k. node_to_doc cv k (mg_node nx (graph b) k)) (mg_nodes nx (graph b)),
      dc_edges = map (edge_to_doc cv) (mg_edges nx (graph b))\<rparr>"

section \<open>Deserialization\<close>

definition str_to_dt :: "conversions \<Rightarrow> string option \<Rightarrow> py_error + time option" where
  "str_to_dt cv s =
     (case s of None \<Rightarrow> Inr None
      | Some x \<Rightarrow> (case cv_parse_iso cv x of None \<Rightarrow> Inl ValueError | Some t \<Rightarrow> Inr (Some t)))"

text \<open>A stored id, or a new one: the text must be a UUID, and the empty one draws.\<close>

definition stored_id :: "conversions \<Rightarrow> (nat \<Rightarrow> uuid) \<Rightarrow> nat \<Rightarrow> string option \<Rightarrow> py_error + uuid \<times> nat" where
  "stored_id cv uuid4 n s =
     (if truthy_text s then (case cv_parse_uuid cv (the s) of None \<Rightarrow> Inl ValueError | Some i \<Rightarrow> Inr (i, n))
      else Inr (uuid4 n, n + 1))"

definition read_refs :: "conversions \<Rightarrow> string list option \<Rightarrow> uuid list" where
  "read_refs cv rs = List.map_filter (cv_parse_uuid cv) (optional [] rs)"

definition read_node :: "'g multigraph \<Rightarrow> conversions \<Rightarrow> (nat \<Rightarrow> uuid) \<Rightarrow> 'g bdg \<Rightarrow> node_doc \<Rightarrow> py_error + 'g bdg" where
  "read_node nx cv uuid4 b d =
     py_bind (str_to_dt cv (nd_first d)) (\<lambda>first.
     py_bind (str_to_dt cv (nd_last d)) (\<lambda>seen.
     py_bind (stored_id cv uuid4 (draws b) (nd_id d)) (\<lambda>(i, n).
       Inr (b\<lparr>draws := n, key_to_uuid := dict_set (key_to_uuid b) (nd_key d) i,
              graph := mg_set_node nx (graph b) (nd_key d)
                \<lparr>na_id = Some i, na_type = Some (optional [] (nd_type d)), na_label = Some (optional [] (nd_label d)),
                 na_first = first, na_last = Some seen, na_confidence = Some (optional 0 (nd_confidence d)),
                 na_count = Some (optional 0 (nd_count d)), na_refs = Some (read_refs cv (nd_refs d))\<rparr>\<rparr>))))"

definition read_edge :: "'g multigraph \<Rightarrow> conversions \<Rightarrow> (nat \<Rightarrow> uuid) \<Rightarrow> 'g bdg \<Rightarrow> edge_doc \<Rightarrow> py_error + 'g bdg" where
  "read_edge nx cv uuid4 b d =
     py_bind (str_to_dt cv (ed_last d)) (\<lambda>seen.
     py_bind (stored_id cv uuid4 (draws b) (ed_id d)) (\<lambda>(i, n).
       Inr (b\<lparr>draws := n,
              graph := mg_add_edge nx (graph b) (ed_source d) (ed_target d)
                \<lparr>ea_type = optional [] (ed_type d), ea_weight = optional 0 (ed_weight d), ea_last = seen,
                 ea_count = optional 0 (ed_count d), ea_refs = read_refs cv (ed_refs d), ea_id = i\<rparr>\<rparr>)))"

fun read_all :: "('s \<Rightarrow> 'd \<Rightarrow> py_error + 's) \<Rightarrow> 's \<Rightarrow> 'd list \<Rightarrow> py_error + 's" where
  "read_all f s [] = Inr s"
| "read_all f s (d # ds) = py_bind (f s d) (\<lambda>s'. read_all f s' ds)"

definition deserialize_bdg :: "'g multigraph \<Rightarrow> conversions \<Rightarrow> (nat \<Rightarrow> uuid) \<Rightarrow> bdg_doc \<Rightarrow> py_error + 'g bdg" where
  "deserialize_bdg nx cv uuid4 d =
     (let b = (new_bdg nx (optional (95 / 100) (dc_lambda d)) (optional 300 (dc_delta d)) (optional 100 (dc_batch_size d)))
                \<lparr>events_since_snapshot := optional 0 (dc_since d)\<rparr>
      in py_bind (read_all (read_node nx cv uuid4) b (dc_nodes d)) (\<lambda>b'. read_all (read_edge nx cv uuid4) b' (dc_edges d)))"

section \<open>Round trip\<close>

text \<open>What the conversions promise.\<close>

definition faithful_conversions :: "conversions \<Rightarrow> bool" where
  "faithful_conversions cv \<longleftrightarrow> (\<forall>t. cv_parse_iso cv (cv_iso cv t) = Some t)"

text \<open>The UUIDs of a graph are UUIDs.\<close>

definition is_uuid :: "conversions \<Rightarrow> uuid \<Rightarrow> bool" where
  "is_uuid cv i \<longleftrightarrow> i \<noteq> [] \<and> cv_parse_uuid cv i = Some i"

definition uuids_wf :: "'g multigraph \<Rightarrow> conversions \<Rightarrow> 'g \<Rightarrow> bool" where
  "uuids_wf nx cv g \<longleftrightarrow>
     (\<forall>k \<in> set (mg_nodes nx g). is_uuid cv (the (na_id (mg_node nx g k))) \<and> list_all (is_uuid cv) (the (na_refs (mg_node nx g k)))) \<and>
     (\<forall>(u, v, e) \<in> set (mg_edges nx g). is_uuid cv (ea_id e) \<and> list_all (is_uuid cv) (ea_refs e))"

lemma read_refs_id: "list_all (is_uuid cv) rs \<Longrightarrow> read_refs cv (Some rs) = rs"
  by (induction rs) (simp_all add: read_refs_def List.map_filter_def is_uuid_def)

lemma str_to_dt_id: "faithful_conversions cv \<Longrightarrow> str_to_dt cv (dt_to_str cv t) = Inr t"
  by (cases t) (simp_all add: str_to_dt_def dt_to_str_def faithful_conversions_def)

lemma stored_id_id: "is_uuid cv i \<Longrightarrow> stored_id cv uuid4 n (Some i) = Inr (i, n)"
  by (simp add: stored_id_def is_uuid_def truthy_text_def)

lemma read_node_id:
  assumes "faithful_conversions cv" "node_wf a" "is_uuid cv (the (na_id a))" "list_all (is_uuid cv) (the (na_refs a))"
  shows "read_node nx cv uuid4 b (node_to_doc cv k a) =
    Inr (b\<lparr>key_to_uuid := dict_set (key_to_uuid b) k (the (na_id a)), graph := mg_set_node nx (graph b) k a\<rparr>)"
  using assms(2-4)
  by (auto simp: node_wf_def read_node_def node_to_doc_def str_to_dt_id [OF assms(1)] stored_id_id read_refs_id)

lemma read_edge_id:
  assumes "faithful_conversions cv" "is_uuid cv (ea_id e)" "list_all (is_uuid cv) (ea_refs e)"
  shows "read_edge nx cv uuid4 b (edge_to_doc cv (u, v, e)) = Inr (b\<lparr>graph := mg_add_edge nx (graph b) u v e\<rparr>)"
  using assms(2,3) by (cases e) (simp add: read_edge_def edge_to_doc_def str_to_dt_id [OF assms(1)] stored_id_id read_refs_id)

text \<open>Reading everything back rebuilds the graph.\<close>

definition rebuilt_nodes :: "'g multigraph \<Rightarrow> (node_key \<times> node_attrs) list \<Rightarrow> 'g \<Rightarrow> 'g" where
  "rebuilt_nodes nx ns g = foldl (\<lambda>g (k, a). mg_set_node nx g k a) g ns"

definition rebuilt_edges :: "'g multigraph \<Rightarrow> (node_key \<times> node_key \<times> edge_attrs) list \<Rightarrow> 'g \<Rightarrow> 'g" where
  "rebuilt_edges nx es g = foldl (\<lambda>g (u, v, e). mg_add_edge nx g u v e) g es"

lemma filter_blocks:
  assumes "distinct us" "\<And>u x. x \<in> set (B u) \<Longrightarrow> f x = u"
  shows "filter (\<lambda>x. f x = k) (concat (map B us)) = (if k \<in> set us then B k else [])"
  using assms(1)
proof (induction us)
  case (Cons u us)
  have "filter (\<lambda>x. f x = k) (B u) = (if u = k then B u else [])"
    using assms(2) by (auto simp: filter_id_conv filter_empty_conv)
  with Cons show ?case by auto
qed simp

lemma insert_keys_blocks:
  "distinct (xs @ vs) \<Longrightarrow> (\<And>v. v \<in> set vs \<Longrightarrow> 0 < n v) \<Longrightarrow>
     foldl (\<lambda>zs y. insert_key y zs) xs (concat (map (\<lambda>v. replicate (n v) v) vs)) = xs @ vs"
proof (induction vs arbitrary: xs)
  case (Cons v vs)
  have same: "foldl (\<lambda>zs y. insert_key y zs) zs (replicate i v) = zs" if "v \<in> set zs" for zs i
    using that by (induction i) simp_all
  obtain m where "n v = Suc m"
    using Cons.prems(2) [of v] by (cases "n v") auto
  then have "foldl (\<lambda>zs y. insert_key y zs) xs (replicate (n v) v) = xs @ [v]"
    using Cons.prems(1) same [of "xs @ [v]"] by (simp add: insert_key_def [of v xs])
  then show ?case
    using Cons.IH [of "xs @ [v]"] Cons.prems by simp
qed simp

context multigraph_library
begin

lemma rebuilt_nodes_reads:
  "ok g \<Longrightarrow> distinct (mg_nodes nx g @ map fst ns) \<Longrightarrow>
     ok (rebuilt_nodes nx ns g) \<and> mg_nodes nx (rebuilt_nodes nx ns g) = mg_nodes nx g @ map fst ns \<and>
     (\<forall>k a. (k, a) \<in> set ns \<longrightarrow> mg_node nx (rebuilt_nodes nx ns g) k = a) \<and>
     (\<forall>k \<in> set (mg_nodes nx g). mg_node nx (rebuilt_nodes nx ns g) k = mg_node nx g k) \<and>
     mg_succ nx (rebuilt_nodes nx ns g) = mg_succ nx g \<and> mg_between nx (rebuilt_nodes nx ns g) = mg_between nx g"
proof (induction ns rule: rev_induct)
  case (snoc p ns)
  obtain k a where p: "p = (k, a)" by (cases p)
  let ?h = "rebuilt_nodes nx ns g"
  have IH: "ok ?h" "mg_nodes nx ?h = mg_nodes nx g @ map fst ns" "\<And>j b. (j, b) \<in> set ns \<Longrightarrow> mg_node nx ?h j = b"
      "\<And>j. j \<in> set (mg_nodes nx g) \<Longrightarrow> mg_node nx ?h j = mg_node nx g j"
      "mg_succ nx ?h = mg_succ nx g" "mg_between nx ?h = mg_between nx g"
    using snoc by simp_all
  have step: "rebuilt_nodes nx (ns @ [p]) g = mg_set_node nx ?h k a"
    by (simp add: rebuilt_nodes_def p)
  have new: "k \<notin> set (mg_nodes nx ?h)"
    using snoc.prems(2) by (simp add: IH(2) p)
  have node: "mg_node nx (mg_set_node nx ?h k a) j = mg_node nx ?h j" if "j \<in> set (mg_nodes nx ?h)" for j
    using that new IH(1) by (auto simp: read_after_write)
  show ?case
    unfolding step using new IH node
    by (auto simp: p read_after_write ok_intros insert_key_def between_set_node_eq rev_image_eqI intro!: ext)
qed (simp add: rebuilt_nodes_def)

lemma rebuilt_edges_reads:
  "ok g \<Longrightarrow> (\<And>u v e. (u, v, e) \<in> set es \<Longrightarrow> u \<in> set (mg_nodes nx g) \<and> v \<in> set (mg_nodes nx g)) \<Longrightarrow>
     ok (rebuilt_edges nx es g) \<and> mg_nodes nx (rebuilt_edges nx es g) = mg_nodes nx g \<and>
     (\<forall>k \<in> set (mg_nodes nx g). mg_node nx (rebuilt_edges nx es g) k = mg_node nx g k) \<and>
     (\<forall>x. mg_succ nx (rebuilt_edges nx es g) x =
        foldl (\<lambda>zs y. insert_key y zs) (mg_succ nx g x) (map (\<lambda>(_, v, _). v) (filter (\<lambda>(u, _). u = x) es))) \<and>
     (\<forall>x y. map snd (mg_between nx (rebuilt_edges nx es g) x y) =
        map snd (mg_between nx g x y) @ map (\<lambda>(_, _, e). e) (filter (\<lambda>(u, v, _). u = x \<and> v = y) es))"
proof (induction es rule: rev_induct)
  case (snoc p es)
  obtain u v e where p: "p = (u, v, e)" by (cases p)
  let ?h = "rebuilt_edges nx es g"
  have "\<And>u v e. (u, v, e) \<in> set es \<Longrightarrow> u \<in> set (mg_nodes nx g) \<and> v \<in> set (mg_nodes nx g)"
    using snoc.prems(2) by auto
  from snoc.IH [OF snoc.prems(1) this] have IH: "ok ?h" "mg_nodes nx ?h = mg_nodes nx g" "\<And>k. k \<in> set (mg_nodes nx g) \<Longrightarrow> mg_node nx ?h k = mg_node nx g k"
      "\<And>x. mg_succ nx ?h x =
        foldl (\<lambda>zs y. insert_key y zs) (mg_succ nx g x) (map (\<lambda>(_, v, _). v) (filter (\<lambda>(u, _). u = x) es))"
      "\<And>x y. map snd (mg_between nx ?h x y) =
        map snd (mg_between nx g x y) @ map (\<lambda>(_, _, e). e) (filter (\<lambda>(u, v, _). u = x \<and> v = y) es)"
    by simp_all
  have step: "rebuilt_edges nx (es @ [p]) g = mg_add_edge nx ?h u v e"
    by (simp add: rebuilt_edges_def p)
  have ends: "u \<in> set (mg_nodes nx g)" "v \<in> set (mg_nodes nx g)"
    using snoc.prems(2) [of u v e] by (simp_all add: p)
  show ?case
    unfolding step using IH ends by (auto simp: p read_after_write ok_intros between_add_edge_attrs)
qed (simp add: rebuilt_edges_def)

definition node_pairs :: "'g \<Rightarrow> (node_key \<times> node_attrs) list" where
  "node_pairs g = map (\<lambda>k. (k, mg_node nx g k)) (mg_nodes nx g)"

lemma rebuilt_reads:
  fixes g :: 'g
  assumes "ok g"
  defines "g' \<equiv> rebuilt_edges nx (mg_edges nx g) (rebuilt_nodes nx (node_pairs g) (mg_empty nx))"
  shows "ok g'" "mg_nodes nx g' = mg_nodes nx g" "\<And>k. k \<in> set (mg_nodes nx g) \<Longrightarrow> mg_node nx g' k = mg_node nx g k"
    "\<And>x. x \<in> set (mg_nodes nx g) \<Longrightarrow> mg_succ nx g' x = mg_succ nx g x"
    "\<And>x y. map snd (mg_between nx g' x y) = map snd (mg_between nx g x y)"
proof -
  define h where "h = rebuilt_nodes nx (node_pairs g) (mg_empty nx)"
  have pairs: "map fst (node_pairs g) = mg_nodes nx g"
    by (simp add: node_pairs_def comp_def)
  have h: "ok h" "mg_nodes nx h = mg_nodes nx g" "\<And>k. k \<in> set (mg_nodes nx g) \<Longrightarrow> mg_node nx h k = mg_node nx g k"
      "\<And>x. mg_succ nx h x = []" "\<And>x y. mg_between nx h x y = []"
    using rebuilt_nodes_reads [OF ok_empty, of "node_pairs g"] distinct_nodes [OF assms(1)]
    by (simp_all add: h_def pairs nodes_empty succ_empty between_empty) (simp add: node_pairs_def)
  define B where "B u = concat (map (\<lambda>v. map (\<lambda>(_, a). (u, v, a)) (mg_between nx g u v)) (mg_succ nx g u))" for u
  have es: "mg_edges nx g = concat (map B (mg_nodes nx g))"
    unfolding mg_edges_def B_def ..
  have ends: "u \<in> set (mg_nodes nx h) \<and> v \<in> set (mg_nodes nx h)" if "(u, v, e) \<in> set (mg_edges nx g)" for u v e
    using that succ_nodes [OF assms(1)] by (auto simp: es B_def h(2))
  have block: "filter (\<lambda>(u, _). u = x) (mg_edges nx g) = (if x \<in> set (mg_nodes nx g) then B x else [])" for x
    unfolding es case_prod_unfold by (rule filter_blocks [OF distinct_nodes [OF assms(1)]]) (auto simp: B_def)
  have targets: "map (\<lambda>(_, v, _). v) (B x) = concat (map (\<lambda>v. replicate (length (mg_between nx g x v)) v) (mg_succ nx g x))" for x
    by (simp add: B_def map_concat comp_def case_prod_unfold map_replicate_const)
  have pair: "filter (\<lambda>(u, v, _). u = x \<and> v = y) (mg_edges nx g) = map (\<lambda>(_, a). (x, y, a)) (mg_between nx g x y)" for x y
  proof -
    have "filter (\<lambda>(u, v, _). u = x \<and> v = y) (mg_edges nx g) = filter (\<lambda>(_, v, _). v = y) (filter (\<lambda>(u, _). u = x) (mg_edges nx g))"
      by (simp add: case_prod_unfold conj_commute)
    also have "\<dots> = (if x \<in> set (mg_nodes nx g) then filter (\<lambda>(_, v, _). v = y) (B x) else [])"
      by (simp add: block)
    also have "filter (\<lambda>(_, v, _). v = y) (B x) =
        (if y \<in> set (mg_succ nx g x) then map (\<lambda>(_, a). (x, y, a)) (mg_between nx g x y) else [])"
      unfolding B_def case_prod_unfold by (rule filter_blocks [OF distinct_succ [OF assms(1)]]) auto
    finally show ?thesis
      using between_no_node [OF assms(1), of x y] succ_between [OF assms(1), of y x] by auto
  qed
  note all = rebuilt_edges_reads [OF h(1), of "mg_edges nx g", OF ends, unfolded h(4,5) block pair, folded g'_def [folded h_def]]
  show "ok g'" "mg_nodes nx g' = mg_nodes nx g" "\<And>k. k \<in> set (mg_nodes nx g) \<Longrightarrow> mg_node nx g' k = mg_node nx g k"
    using all h(2,3) by simp_all
  show "map snd (mg_between nx g' x y) = map snd (mg_between nx g x y)" for x y
    using all by (simp add: comp_def case_prod_unfold)
  have "foldl (\<lambda>zs y. insert_key y zs) [] (map (\<lambda>(_, v, _). v) (B x)) = mg_succ nx g x" for x
    unfolding targets using insert_keys_blocks [of "[]" "mg_succ nx g x" "\<lambda>v. length (mg_between nx g x v)"]
      distinct_succ [OF assms(1), of x] succ_between [OF assms(1)] by simp
  then show "\<And>x. x \<in> set (mg_nodes nx g) \<Longrightarrow> mg_succ nx g' x = mg_succ nx g x"
    using all by simp
qed

lemma mg_edges_cong:
  assumes "mg_nodes nx g' = mg_nodes nx g" "\<And>x. x \<in> set (mg_nodes nx g) \<Longrightarrow> mg_succ nx g' x = mg_succ nx g x"
    and "\<And>x y. map snd (mg_between nx g' x y) = map snd (mg_between nx g x y)"
  shows "mg_edges nx g' = mg_edges nx g"
proof -
  have attrs: "map (\<lambda>(_, a). (u, v, a)) xs = map (\<lambda>a. (u, v, a)) (map snd xs)" for u v :: node_key and xs :: "(nat \<times> edge_attrs) list"
    by (simp add: case_prod_unfold)
  show ?thesis
    unfolding mg_edges_def attrs assms(1,3)
    by (intro arg_cong [where f = concat] map_cong refl) (simp add: assms(2))
qed

text \<open>
  The views of a graph depend on its nodes and on the attributes between them.\<close>

lemma same_views:
  assumes "mg_nodes nx g' = mg_nodes nx g" "\<And>k. k \<in> set (mg_nodes nx g) \<Longrightarrow> mg_node nx g' k = mg_node nx g k"
    and "\<And>x y. map snd (mg_between nx g' x y) = map snd (mg_between nx g x y)"
  shows "node_view nx g' = node_view nx g" "edge_view nx g' = edge_view nx g" "graph_wf nx g' \<longleftrightarrow> graph_wf nx g"
proof -
  show "node_view nx g' = node_view nx g"
    by (rule ext) (simp add: node_view_def assms(1,2))
  have "map_option snd (find (\<lambda>(i, e). ea_type e = s) xs) = find (\<lambda>e. ea_type e = s) (map snd xs)"
    for s and xs :: "(nat \<times> edge_attrs) list"
    by (induction xs) auto
  then show "edge_view nx g' = edge_view nx g"
    by (intro ext) (simp add: edge_view_def assms(3) split: prod.split)
  have entries: "(\<forall>(i, e) \<in> set xs. edge_wf e) \<longleftrightarrow> list_all edge_wf (map snd xs)"
      "map (\<lambda>(i, e). ea_type e) xs = map ea_type (map snd xs)" for xs :: "(nat \<times> edge_attrs) list"
    by (auto simp: list_all_iff)
  show "graph_wf nx g' \<longleftrightarrow> graph_wf nx g"
    unfolding graph_wf_def entries assms(1,3) using assms(2) by simp
qed

lemma read_all_nodes:
  assumes "faithful_conversions cv"
  shows "(\<And>k. k \<in> set ks \<Longrightarrow> node_wf (f k) \<and> is_uuid cv (the (na_id (f k))) \<and> list_all (is_uuid cv) (the (na_refs (f k)))) \<Longrightarrow>
    \<exists>d. read_all (read_node nx cv uuid4) b (map (\<lambda>k. node_to_doc cv k (f k)) ks) =
      Inr (b\<lparr>key_to_uuid := d, graph := rebuilt_nodes nx (map (\<lambda>k. (k, f k)) ks) (graph b)\<rparr>)"
proof (induction ks arbitrary: b)
  case (Cons k ks)
  have "read_node nx cv uuid4 b (node_to_doc cv k (f k)) =
      Inr (b\<lparr>key_to_uuid := dict_set (key_to_uuid b) k (the (na_id (f k))), graph := mg_set_node nx (graph b) k (f k)\<rparr>)"
    using Cons.prems [of k] by (intro read_node_id [OF assms]) simp_all
  moreover obtain d where "read_all (read_node nx cv uuid4)
      (b\<lparr>key_to_uuid := dict_set (key_to_uuid b) k (the (na_id (f k))), graph := mg_set_node nx (graph b) k (f k)\<rparr>)
      (map (\<lambda>k. node_to_doc cv k (f k)) ks) =
      Inr (b\<lparr>key_to_uuid := d, graph := rebuilt_nodes nx (map (\<lambda>k. (k, f k)) ks) (mg_set_node nx (graph b) k (f k))\<rparr>)"
    using Cons.IH [of "b\<lparr>key_to_uuid := dict_set (key_to_uuid b) k (the (na_id (f k))), graph := mg_set_node nx (graph b) k (f k)\<rparr>"]
      Cons.prems by auto
  ultimately show ?case by (simp add: rebuilt_nodes_def) blast
next
  case Nil
  show ?case by (rule exI [of _ "key_to_uuid b"]) (simp add: rebuilt_nodes_def)
qed

lemma read_all_edges:
  assumes "faithful_conversions cv"
  shows "(\<And>u v e. (u, v, e) \<in> set es \<Longrightarrow> is_uuid cv (ea_id e) \<and> list_all (is_uuid cv) (ea_refs e)) \<Longrightarrow>
    read_all (read_edge nx cv uuid4) b (map (edge_to_doc cv) es) = Inr (b\<lparr>graph := rebuilt_edges nx es (graph b)\<rparr>)"
proof (induction es arbitrary: b)
  case (Cons p es)
  obtain u v e where p: "p = (u, v, e)" by (cases p)
  have "read_edge nx cv uuid4 b (edge_to_doc cv p) = Inr (b\<lparr>graph := mg_add_edge nx (graph b) u v e\<rparr>)"
    unfolding p using Cons.prems [of u v e] by (intro read_edge_id [OF assms]) (simp_all add: p)
  moreover have "read_all (read_edge nx cv uuid4) (b\<lparr>graph := mg_add_edge nx (graph b) u v e\<rparr>) (map (edge_to_doc cv) es) =
      Inr (b\<lparr>graph := rebuilt_edges nx es (mg_add_edge nx (graph b) u v e)\<rparr>)"
    using Cons.IH [of "b\<lparr>graph := mg_add_edge nx (graph b) u v e\<rparr>"] Cons.prems by fastforce
  ultimately show ?case
    by (simp add: p rebuilt_edges_def)
qed (simp add: rebuilt_edges_def)

lemma restored:
  assumes "faithful_conversions cv" "bdg_wf nx ok b" "uuids_wf nx cv (graph b)"
  obtains b' where "deserialize_bdg nx cv uuid4 (serialize_bdg nx cv b) = Inr b'" "bdg_wf nx ok b'"
    "node_view nx (graph b') = node_view nx (graph b)" "edge_view nx (graph b') = edge_view nx (graph b)"
    "serialize_bdg nx cv b' = serialize_bdg nx cv b" "idempotency_index b' = {}" "snapshots b' = []"
proof -
  let ?g = "graph b"
  have ok: "ok ?g" and wf: "graph_wf nx ?g"
    using assms(2) by (simp_all add: bdg_wf_def)
  define b0 where "b0 = (new_bdg nx (decay_lambda b) (decay_delta b) (batch_size b))\<lparr>events_since_snapshot := events_since_snapshot b\<rparr>"
  define g' where "g' = rebuilt_edges nx (mg_edges nx ?g) (rebuilt_nodes nx (node_pairs ?g) (mg_empty nx))"
  obtain d where "read_all (read_node nx cv uuid4) b0 (map (\<lambda>k. node_to_doc cv k (mg_node nx ?g k)) (mg_nodes nx ?g)) =
      Inr (b0\<lparr>key_to_uuid := d, graph := rebuilt_nodes nx (node_pairs ?g) (graph b0)\<rparr>)"
    using read_all_nodes [OF assms(1), of "mg_nodes nx ?g" "mg_node nx ?g" uuid4 b0] assms(3) wf
    unfolding node_pairs_def by (auto simp: uuids_wf_def graph_wf_def)
  moreover have "read_all (read_edge nx cv uuid4) (b0\<lparr>key_to_uuid := d, graph := rebuilt_nodes nx (node_pairs ?g) (graph b0)\<rparr>)
      (map (edge_to_doc cv) (mg_edges nx ?g)) = Inr (b0\<lparr>key_to_uuid := d, graph := g'\<rparr>)"
    using read_all_edges [OF assms(1), of "mg_edges nx ?g"] assms(3)
    by (fastforce simp: uuids_wf_def g'_def b0_def new_bdg_def)
  ultimately have run: "deserialize_bdg nx cv uuid4 (serialize_bdg nx cv b) = Inr (b0\<lparr>key_to_uuid := d, graph := g'\<rparr>)"
    by (simp add: deserialize_bdg_def serialize_bdg_def b0_def)
  note reads = rebuilt_reads [OF ok, folded g'_def]
  note views = same_views [OF reads(2,3,5)]
  have "mg_edges nx g' = mg_edges nx ?g"
    by (rule mg_edges_cong [OF reads(2,4,5)])
  then have "serialize_bdg nx cv (b0\<lparr>key_to_uuid := d, graph := g'\<rparr>) = serialize_bdg nx cv b"
    by (simp add: serialize_bdg_def b0_def new_bdg_def reads(2,3) cong: map_cong)
  moreover have "bdg_wf nx ok (b0\<lparr>key_to_uuid := d, graph := g'\<rparr>)"
    using assms(2) views(3) reads(1) by (simp add: bdg_wf_def b0_def new_bdg_def)
  ultimately show thesis
    using that [OF run] views(1,2) by (simp add: b0_def new_bdg_def)
qed

end

text \<open>
  C33: A stored graph is restored with the same nodes, edges, weights and counters, and is stored again as the
  same document. The index of processed events and the list of snapshots are not: a restored graph takes
  every event for a new one.
\<close>

theorem snapshot_roundtrip:
  assumes "multigraph_library nx ok" "faithful_conversions cv" "bdg_wf nx ok b" "uuids_wf nx cv (graph b)"
  shows "\<exists>b'. deserialize_bdg nx cv uuid4 (serialize_bdg nx cv b) = Inr b' \<and> bdg_wf nx ok b' \<and>
    node_view nx (graph b') = node_view nx (graph b) \<and> edge_view nx (graph b') = edge_view nx (graph b) \<and>
    serialize_bdg nx cv b' = serialize_bdg nx cv b \<and> idempotency_index b' = {} \<and> snapshots b' = []"
  by (rule multigraph_library.restored [OF assms, of uuid4]) blast

text \<open>Times as strokes: a concrete conversion.\<close>

definition demo_conversions :: conversions where
  "demo_conversions =
     \<lparr>cv_iso = (\<lambda>t. if t < 0 then replicate (nat (- t)) CHR ''-'' else replicate (nat t) CHR ''+''),
      cv_parse_iso = (\<lambda>s. Some (if s \<noteq> [] \<and> hd s = CHR ''-'' then - int (length s) else int (length s))),
      cv_parse_uuid = (\<lambda>s. if s = [] then None else Some s)\<rparr>"

lemma demo_conversions_faithful: "faithful_conversions demo_conversions"
  by (auto simp: faithful_conversions_def demo_conversions_def)

definition demo_updated :: "lgraph bdg" where
  "demo_updated = fst (update demo_env (demo_event ''e'' 0) show_nat demo_bdg)"

lemma demo_updated_wf: "bdg_wf list_graph lg_ok demo_updated" "''e'' \<in> idempotency_index demo_updated"
proof -
  obtain b' m where "update demo_env (demo_event ''e'' 0) show_nat demo_bdg = (b', Inr m)" "bdg_wf list_graph lg_ok b'"
      "event_done list_graph ''e'' (length (event_upserts (demo_event ''e'' 0) show_nat)) demo_bdg b' m"
    by (rule lg.updates_step [of demo_env demo_bdg "demo_event ''e'' 0" show_nat]) (simp_all add: demo_facts)
  then show "bdg_wf list_graph lg_ok demo_updated" "''e'' \<in> idempotency_index demo_updated"
    by (simp_all add: demo_updated_def event_done_def)
qed

lemma demo_updated_uuids: "uuids_wf list_graph demo_conversions (graph demo_updated)" "length (mg_nodes list_graph (graph demo_updated)) = 5"
  by code_simp+

theorem snapshot_roundtrip_witness:
  "\<exists>b'. deserialize_bdg list_graph demo_conversions show_nat (serialize_bdg list_graph demo_conversions demo_updated) = Inr b' \<and>
     node_view list_graph (graph b') = node_view list_graph (graph demo_updated)"
  using snapshot_roundtrip [OF lg.multigraph_library_axioms demo_conversions_faithful demo_updated_wf(1) demo_updated_uuids(1), of show_nat]
  by blast

text \<open>
  An event that a graph has already counted changes nothing there, but after a restore its redelivery
  is counted a second time, with every node and edge it touches.
\<close>

theorem restored_counts_again:
  assumes "multigraph_library nx ok" "env_nx env = nx" "faithful_conversions cv" "bdg_wf nx ok b" "uuids_wf nx cv (graph b)"
    and "be_id ev \<in> idempotency_index b" "0 \<le> event_confidence ev" "event_confidence ev \<le> 1"
  shows "fst (update env ev drawn b) = b \<and>
    (\<exists>b' b'' m. deserialize_bdg nx cv uuid4 (serialize_bdg nx cv b) = Inr b' \<and> update env ev drawn b' = (b'', Inr m) \<and>
       touched m = length (event_upserts ev drawn) \<and> 5 \<le> touched m)"
proof
  show "fst (update env ev drawn b) = b"
    using assms(6) by (simp add: update_def process_upserts_def)
  obtain b' where b': "deserialize_bdg nx cv uuid4 (serialize_bdg nx cv b) = Inr b'" "bdg_wf nx ok b'" "idempotency_index b' = {}"
    by (rule multigraph_library.restored [OF assms(1,3-5), of uuid4]) blast
  obtain b'' m where "update env ev drawn b' = (b'', Inr m)" "event_done nx (be_id ev) (length (event_upserts ev drawn)) b' b'' m"
    by (rule multigraph_library.updates_step [OF assms(1,2) b'(2) assms(7,8), where drawn = drawn]) (use b'(3) in auto)
  moreover have "5 \<le> length (event_upserts ev drawn)"
    by (simp add: event_upserts_def chain_upserts_def Let_def)
  ultimately show "\<exists>b' b'' m. deserialize_bdg nx cv uuid4 (serialize_bdg nx cv b) = Inr b' \<and> update env ev drawn b' = (b'', Inr m) \<and>
      touched m = length (event_upserts ev drawn) \<and> 5 \<le> touched m"
    using b'(1) by (auto simp: event_done_def)
qed

theorem restored_counts_again_witness:
  "\<exists>b' b'' m. deserialize_bdg list_graph demo_conversions show_nat (serialize_bdg list_graph demo_conversions demo_updated) = Inr b' \<and>
     update demo_env (demo_event ''e'' 0) show_nat b' = (b'', Inr m) \<and> 5 \<le> touched m"
  using restored_counts_again [OF lg.multigraph_library_axioms _ demo_conversions_faithful demo_updated_wf(1) demo_updated_uuids(1),
      of demo_env "demo_event ''e'' 0" show_nat show_nat] demo_updated_wf(2)
  by (auto simp: demo_facts)

end
