(* ===== verification/Causal_Observations.thy ===== *)
theory Causal_Observations
  imports Prelude
begin

text \<open>
  Observations for causal estimation, \<open>domain/observation_builder.py\<close> of the causal engine: a run's
  manifest is classified by its contract and independent evidence, and yields at most one observation
  with its provenance. Explanations are left out; the reason codes and missing fields stand for them.

  The lemmas show which runs are labelled, that alerts of the detector never influence a label, and how
  a batch of several runs adds up.
\<close>

section \<open>Run manifests\<close>

record run_phase =
  phase_name :: string
  phase_start :: string
  phase_end :: string
  phase_duration_s :: real
  phase_notes :: string

definition inject_ok :: "run_phase \<Rightarrow> bool option" where
  "inject_ok ph =
     (if contains (phase_notes ph) ''inject_ok=True'' then Some True
      else if contains (phase_notes ph) ''inject_ok=False'' then Some False
      else None)"

definition recover_ok :: "run_phase \<Rightarrow> bool option" where
  "recover_ok ph =
     (if contains (phase_notes ph) ''recover_ok=True'' then Some True
      else if contains (phase_notes ph) ''recover_ok=False'' then Some False
      else None)"

text \<open>A detection is its dictionary, of which nothing is read.\<close>

record run_manifest =
  run_id :: string
  attack_id :: string
  attack_family :: string
  repetition :: int
  namespace :: string
  pod_name :: string
  ground_truth_label :: int
  injection_timestamp :: "string option"
  first_phantom_detection_timestamp :: "string option"
  mttd_s :: "real option"
  is_true_positive :: bool
  phases :: "run_phase list"
  phantom_detections :: "(string, string) dict list"
  target_purl :: string
  clean_purl :: string
  detection_window_s :: real
  run_error :: string
  verified_contract_drift :: "int option"
  contract_status :: "string option"
  contract_evidence_verified :: "bool option"
  sink_receipt_verified :: "bool option"
  pre_treatment_covariates :: "(string, real) dict"

definition is_attack_run :: "run_manifest \<Rightarrow> bool" where
  "is_attack_run m \<longleftrightarrow> ground_truth_label m = 1"

definition injection_succeeded :: "run_manifest \<Rightarrow> bool option" where
  "injection_succeeded m =
     (case find (\<lambda>ph. phase_name ph = ''inject'') (phases m) of None \<Rightarrow> None | Some ph \<Rightarrow> inject_ok ph)"

definition run_completed :: "run_manifest \<Rightarrow> bool" where
  "run_completed m \<longleftrightarrow> run_error m = [] \<and> length (phases m) \<ge> 4"

definition phase_bound :: "(run_phase \<Rightarrow> string) \<Rightarrow> run_manifest \<Rightarrow> string \<Rightarrow> string" where
  "phase_bound f m name = (case find (\<lambda>ph. phase_name ph = name) (phases m) of None \<Rightarrow> [] | Some ph \<Rightarrow> f ph)"

definition run_duration :: "run_manifest \<Rightarrow> real" where
  "run_duration m = sum_list (map phase_duration_s (phases m))"

section \<open>Outcomes\<close>

datatype outcome_label = POSITIVE | NEGATIVE | UNKNOWN | INCOMPLETE_RUN | FAILED_INJECTION

text \<open>What follows the contract status: the independently verified drift.\<close>

definition classify_verified_drift :: "run_manifest \<Rightarrow> outcome_label \<times> string" where
  "classify_verified_drift m =
     (case verified_contract_drift m of
        Some d \<Rightarrow>
          (if d = 1 then (POSITIVE, ''verified_contract_drift'')
           else if d = 0 then
             (if contract_evidence_verified m = Some False then (UNKNOWN, ''contract_unverified_evidence'')
              else (NEGATIVE, ''verified_contract_drift''))
           else (UNKNOWN, ''unverified_drift_telemetry''))
      | None \<Rightarrow> (UNKNOWN, ''unverified_drift_telemetry''))"

definition classify_run_outcome :: "run_manifest \<Rightarrow> outcome_label \<times> string" where
  "classify_run_outcome m =
     (if is_attack_run m \<and> injection_succeeded m = Some False then (FAILED_INJECTION, ''inject_phase_notes'')
      else case contract_status m of
        None \<Rightarrow> classify_verified_drift m
      | Some status \<Rightarrow>
          (let status_norm = lower (strip status); drift = verified_contract_drift m; ev = contract_evidence_verified m in
           if status_norm \<in> {''missing'', ''ambiguous'', ''incomplete'', ''silent''} then
             (if drift = Some 1 then (POSITIVE, ''verified_contract_drift'')
              else if drift = Some 0 \<and> ev \<noteq> Some False then (NEGATIVE, ''verified_contract_drift'')
              else (UNKNOWN, ''contract_'' @ status_norm))
           else if status_norm \<in> {''violating'', ''violation'', ''prohibited''} then
             (if ev = Some True \<or> drift = Some 1 then (POSITIVE, ''verified_contract_violation'')
              else (UNKNOWN, ''contract_unverified_violation''))
           else if status_norm \<in> {''conforming'', ''conformance'', ''allowed''} then
             (if ev = Some True then (NEGATIVE, ''verified_contract_conformance'')
              else if drift = Some 0 then (NEGATIVE, ''verified_contract_drift'')
              else if drift = Some 1 then (POSITIVE, ''verified_contract_drift'')
              else (UNKNOWN, ''contract_unverified_evidence''))
           else classify_verified_drift m))"

definition classify_outcome_value :: "outcome_label \<Rightarrow> int option" where
  "classify_outcome_value l = (case l of POSITIVE \<Rightarrow> Some 1 | NEGATIVE \<Rightarrow> Some 0 | _ \<Rightarrow> None)"

section \<open>Observations\<close>

record window_provenance =
  wp_run_id :: string
  wp_scenario_id :: string
  wp_window_index :: nat
  wp_window_start_iso :: string
  wp_window_end_iso :: string
  wp_event_count :: nat
  wp_mapping_statuses :: "string list"
  wp_evidence_ids :: "string list"
  wp_drift_outcome :: string
  wp_drift_score :: "real option"
  wp_outcome_label :: outcome_label
  wp_outcome_label_source :: string
  wp_missing_fields :: "string list"
  wp_exclusion_reason :: string
  wp_window_id :: string
  wp_event_refs :: "string list"

text \<open>\<open>WindowProvenance.__post_init__\<close>.\<close>

definition new_provenance :: "window_provenance \<Rightarrow> window_provenance" where
  "new_provenance p =
     (let p1 = (if wp_window_id p = [] \<and> wp_run_id p \<noteq> []
                then p\<lparr>wp_window_id := wp_run_id p @ ''_w'' @ show_nat (wp_window_index p)\<rparr> else p)
      in if wp_event_refs p1 = [] \<and> wp_evidence_ids p1 \<noteq> [] then p1\<lparr>wp_event_refs := wp_evidence_ids p1\<rparr> else p1)"

text \<open>The row for estimation with the attributes attached to it.\<close>

record causal_observation =
  window_index :: nat
  treatment_value :: int
  outcome_value :: int
  covariates :: "(string, real) dict"
  obs_run_id :: string
  obs_window_id :: string
  t_inject :: int
  t_purl :: int
  y_hat_phantom :: int
  obs_event_refs :: "string list"
  obs_provenance :: window_provenance

record observation_record =
  or_run_id :: string
  or_window_id :: string
  or_window_index :: nat
  or_t_inject :: int
  or_t_purl :: int
  or_treatment_value :: int
  or_outcome_value :: "int option"
  or_y_hat_phantom :: "int option"
  or_covariates :: "(string, real) dict"
  or_event_refs :: "string list"
  or_provenance :: "window_provenance option"

record builder_insufficiency =
  bi_run_id :: string
  bi_reason_code :: string
  bi_missing_fields :: "string list"

record observation_batch =
  batch_run_id :: string
  observations :: "causal_observation list"
  observation_records :: "observation_record list"
  provenance_records :: "window_provenance list"
  insufficiencies :: "builder_insufficiency list"
  treatment_mapping_statuses :: "string list"
  treatment_evidence_ids :: "string list"
  excluded_count :: nat
  included_count :: nat

definition empty_batch :: "string \<Rightarrow> observation_batch" where
  "empty_batch rid =
     \<lparr>batch_run_id = rid, observations = [], observation_records = [], provenance_records = [], insufficiencies = [],
      treatment_mapping_statuses = [], treatment_evidence_ids = [], excluded_count = 0, included_count = 0\<rparr>"

definition MINIMUM_OBSERVATIONS :: nat where
  "MINIMUM_OBSERVATIONS = 10"

definition can_proceed_to_estimation :: "observation_batch \<Rightarrow> bool" where
  "can_proceed_to_estimation b \<longleftrightarrow> included_count b \<ge> MINIMUM_OBSERVATIONS"

definition has_valid_outcome_labels :: "observation_batch \<Rightarrow> bool" where
  "has_valid_outcome_labels b \<longleftrightarrow> list_ex (\<lambda>p. wp_outcome_label p \<in> {POSITIVE, NEGATIVE}) (provenance_records b)"

section \<open>The builder\<close>

text \<open>The attributes of a node of the dependency graph that are read, references as text.\<close>

record bdg_node =
  bn_node_type :: "string option"
  bn_mapping_status :: "string option"
  bn_evidence_refs :: "string list"

definition node_statuses :: "bdg_node list \<Rightarrow> string list" where
  "node_statuses nodes =
     concat (map (\<lambda>n. if bn_node_type n = Some ''purl'' \<and> truthy_text (bn_mapping_status n)
                      then [the (bn_mapping_status n)] else []) nodes)"

definition node_evidence :: "bdg_node list \<Rightarrow> string list" where
  "node_evidence nodes = concat (map (\<lambda>n. if bn_node_type n = Some ''purl'' then bn_evidence_refs n else []) nodes)"

definition missing_node_data :: "string list" where
  "missing_node_data =
     [''mapping_statuses: BDG node data not supplied; mapping provenance unavailable'',
      ''evidence_ids: BDG node data not supplied; evidence IDs unavailable'']"

text \<open>\<open>parse_uuid\<close> is \<open>uuid.UUID\<close>, with its canonical form as the result.\<close>

definition build_from_run_manifest_only ::
    "(string \<Rightarrow> string option) \<Rightarrow> nat \<Rightarrow> run_manifest \<Rightarrow> bdg_node list option \<Rightarrow> string \<Rightarrow> observation_batch" where
  "build_from_run_manifest_only parse_uuid minimum m nodes treatment_target =
     (let batch = empty_batch (run_id m);
          (outcome_label, label_source) = classify_run_outcome m;
          exclude = (\<lambda>code fields.
            batch\<lparr>insufficiencies := [\<lparr>bi_run_id = run_id m, bi_reason_code = code, bi_missing_fields = fields\<rparr>],
                  excluded_count := 1\<rparr>)
      in if outcome_label = FAILED_INJECTION then exclude ''failed_injection'' [''inject_ok'']
         else if \<not> run_completed m then exclude ''incomplete_run'' [''phases'', ''error'']
         else
           (let supplied = (case nodes of None \<Rightarrow> [] | Some ns \<Rightarrow> ns);
                mapping_statuses = node_statuses supplied;
                evidence = node_evidence supplied;
                missing = (if supplied = [] then missing_node_data else []);
                t_inj = (if is_attack_run m \<and> injection_succeeded m = Some True then 1 else 0);
                t_prl = (if is_attack_run m then 1 else 0);
                treatment = (if treatment_target = ''inject'' then t_inj else t_prl);
                y_hat = (if first_phantom_detection_timestamp m \<noteq> None then 1 else 0);
                wid = run_id m @ ''_w0'';
                provenance = (\<lambda>reason. new_provenance
                  \<lparr>wp_run_id = run_id m, wp_scenario_id = attack_id m, wp_window_index = 0,
                   wp_window_start_iso = phase_bound phase_start m ''baseline'',
                   wp_window_end_iso = phase_bound phase_end m ''post_recovery'', wp_event_count = 0,
                   wp_mapping_statuses = mapping_statuses, wp_evidence_ids = evidence, wp_drift_outcome = [],
                   wp_drift_score = None, wp_outcome_label = outcome_label, wp_outcome_label_source = label_source,
                   wp_missing_fields = missing, wp_exclusion_reason = reason, wp_window_id = wid,
                   wp_event_refs = evidence\<rparr>);
                batch1 = batch\<lparr>treatment_mapping_statuses := mapping_statuses,
                               treatment_evidence_ids := List.map_filter parse_uuid evidence\<rparr>
            in case classify_outcome_value outcome_label of
                 None \<Rightarrow>
                   batch1\<lparr>insufficiencies := [\<lparr>bi_run_id = run_id m, bi_reason_code = ''unknown_outcome'',
                            bi_missing_fields = [''runtime_sbom_drift'', ''verified_contract_drift'']\<rparr>],
                          excluded_count := 1, provenance_records := [provenance ''unknown_outcome'']\<rparr>
               | Some outcome \<Rightarrow>
                   (let covs = (if pre_treatment_covariates m \<noteq> [] then pre_treatment_covariates m
                                else [(''repetition'', real_of_int (repetition m))]);
                        prov = provenance [];
                        obs = \<lparr>window_index = 0, treatment_value = treatment, outcome_value = outcome, covariates = covs,
                               obs_run_id = run_id m, obs_window_id = wid, t_inject = t_inj, t_purl = t_prl,
                               y_hat_phantom = y_hat, obs_event_refs = evidence, obs_provenance = prov\<rparr>;
                        rec = \<lparr>or_run_id = run_id m, or_window_id = wid, or_window_index = 0, or_t_inject = t_inj,
                               or_t_purl = t_prl, or_treatment_value = treatment, or_outcome_value = Some outcome,
                               or_y_hat_phantom = Some y_hat, or_covariates = covs, or_event_refs = evidence,
                               or_provenance = Some prov\<rparr>
                    in batch1\<lparr>observations := [obs], observation_records := [rec], provenance_records := [prov],
                              included_count := 1,
                              insufficiencies := (if 1 < minimum
                                then [\<lparr>bi_run_id = run_id m, bi_reason_code = ''too_few_observations'',
                                       bi_missing_fields = [''per_window_drift_labels'']\<rparr>]
                                else [])\<rparr>)))"

definition add_batch :: "observation_batch \<Rightarrow> observation_batch \<Rightarrow> observation_batch" where
  "add_batch combined single =
     combined\<lparr>observations := observations combined @ observations single,
              observation_records := observation_records combined @ observation_records single,
              provenance_records := provenance_records combined @ provenance_records single,
              insufficiencies := insufficiencies combined @ insufficiencies single,
              treatment_mapping_statuses := treatment_mapping_statuses combined @ treatment_mapping_statuses single,
              treatment_evidence_ids := treatment_evidence_ids combined @ treatment_evidence_ids single,
              excluded_count := excluded_count combined + excluded_count single,
              included_count := included_count combined + included_count single\<rparr>"

definition build_from_run_batch ::
    "(string \<Rightarrow> string option) \<Rightarrow> nat \<Rightarrow> run_manifest list \<Rightarrow> string \<Rightarrow> observation_batch" where
  "build_from_run_batch parse_uuid minimum ms treatment_target =
     foldl (\<lambda>combined m. add_batch combined (build_from_run_manifest_only parse_uuid minimum m None treatment_target))
       (empty_batch ''<multi-run>'') ms"

section \<open>Labels\<close>

text \<open>The contract status in its normal form.\<close>

definition norm_status :: "run_manifest \<Rightarrow> string option" where
  "norm_status m = map_option (\<lambda>s. lower (strip s)) (contract_status m)"

definition failed_run :: "run_manifest \<Rightarrow> bool" where
  "failed_run m \<longleftrightarrow> is_attack_run m \<and> injection_succeeded m = Some False"

lemma drift_label:
  "fst (classify_verified_drift m) = POSITIVE \<longleftrightarrow> verified_contract_drift m = Some 1"
  "fst (classify_verified_drift m) = NEGATIVE \<longleftrightarrow>
     verified_contract_drift m = Some 0 \<and> contract_evidence_verified m \<noteq> Some False"
  "fst (classify_verified_drift m) \<noteq> FAILED_INJECTION"
  by (auto simp: classify_verified_drift_def split: option.split)

lemma failed_label: "fst (classify_run_outcome m) = FAILED_INJECTION \<longleftrightarrow> failed_run m"
  by (cases "contract_status m") (simp_all add: classify_run_outcome_def failed_run_def drift_label Let_def)

text \<open>
  The label of a run, decided by its contract and the independent oracle: a failed injection takes
  precedence, a violating status needs either of the two to be verified, a conforming status with
  verified evidence is negative whatever the oracle says, and otherwise the oracle decides.
\<close>

theorem label_exactly:
  "(fst (classify_run_outcome m) = FAILED_INJECTION \<longleftrightarrow> failed_run m) \<and>
   (fst (classify_run_outcome m) = POSITIVE \<longleftrightarrow> \<not> failed_run m \<and>
     (if norm_status m \<in> Some ` {''violating'', ''violation'', ''prohibited''}
      then contract_evidence_verified m = Some True \<or> verified_contract_drift m = Some 1
      else if norm_status m \<in> Some ` {''conforming'', ''conformance'', ''allowed''}
      then contract_evidence_verified m \<noteq> Some True \<and> verified_contract_drift m = Some 1
      else verified_contract_drift m = Some 1)) \<and>
   (fst (classify_run_outcome m) = NEGATIVE \<longleftrightarrow> \<not> failed_run m \<and>
     norm_status m \<notin> Some ` {''violating'', ''violation'', ''prohibited''} \<and>
     (if norm_status m \<in> Some ` {''conforming'', ''conformance'', ''allowed''}
      then contract_evidence_verified m = Some True \<or> verified_contract_drift m = Some 0
      else verified_contract_drift m = Some 0 \<and> contract_evidence_verified m \<noteq> Some False))"
  by (cases "contract_status m")
     (simp_all add: classify_run_outcome_def failed_run_def norm_status_def drift_label Let_def)

section \<open>What a run contributes\<close>

definition usable :: "run_manifest \<Rightarrow> bool" where
  "usable m \<longleftrightarrow> run_completed m \<and> fst (classify_run_outcome m) \<in> {POSITIVE, NEGATIVE}"

definition row_of :: "string \<Rightarrow> run_manifest \<Rightarrow> string \<times> nat \<times> int \<times> int" where
  "row_of target m =
     (run_id m, 0,
      if is_attack_run m \<and> (target = ''inject'' \<longrightarrow> injection_succeeded m = Some True) then 1 else 0,
      if fst (classify_run_outcome m) = POSITIVE then 1 else 0)"

definition obs_row :: "causal_observation \<Rightarrow> string \<times> nat \<times> int \<times> int" where
  "obs_row obs = (obs_run_id obs, window_index obs, treatment_value obs, outcome_value obs)"

lemma single_run:
  "included_count (build_from_run_manifest_only u n m nodes t) = (if usable m then 1 else 0)"
  "excluded_count (build_from_run_manifest_only u n m nodes t) = (if usable m then 0 else 1)"
  "map obs_row (observations (build_from_run_manifest_only u n m nodes t)) = (if usable m then [row_of t m] else [])"
  "1 < n \<Longrightarrow> insufficiencies (build_from_run_manifest_only u n m nodes t) \<noteq> []"
  by (cases "fst (classify_run_outcome m)";
      simp add: build_from_run_manifest_only_def usable_def row_of_def obs_row_def classify_outcome_value_def
        empty_batch_def Let_def case_prod_unfold)+

lemma single_run_statuses:
  "treatment_mapping_statuses (build_from_run_manifest_only u n m nodes t) =
     (if run_completed m \<and> \<not> failed_run m then node_statuses (case nodes of None \<Rightarrow> [] | Some ns \<Rightarrow> ns) else [])"
  unfolding failed_label [symmetric]
  by (cases "fst (classify_run_outcome m)")
     (simp_all add: build_from_run_manifest_only_def classify_outcome_value_def empty_batch_def Let_def case_prod_unfold)

lemma add_batch_simps [simp]:
  "included_count (add_batch a b) = included_count a + included_count b"
  "excluded_count (add_batch a b) = excluded_count a + excluded_count b"
  "observations (add_batch a b) = observations a @ observations b"
  "insufficiencies (add_batch a b) = insufficiencies a @ insufficiencies b"
  "treatment_mapping_statuses (add_batch a b) = treatment_mapping_statuses a @ treatment_mapping_statuses b"
  by (simp_all add: add_batch_def)

lemma batch_snoc:
  "build_from_run_batch u n [] t = empty_batch ''<multi-run>''"
  "build_from_run_batch u n (ms @ [m]) t =
     add_batch (build_from_run_batch u n ms t) (build_from_run_manifest_only u n m None t)"
  by (simp_all add: build_from_run_batch_def)

lemma batch_counts:
  "included_count (build_from_run_batch u n ms t) = length (filter usable ms)"
  "excluded_count (build_from_run_batch u n ms t) = length (filter (\<lambda>m. \<not> usable m) ms)"
  by (induction ms rule: rev_induct) (simp_all add: batch_snoc empty_batch_def single_run)

lemma batch_rows: "map obs_row (observations (build_from_run_batch u n ms t)) = map (row_of t) (filter usable ms)"
  by (induction ms rule: rev_induct) (simp_all add: batch_snoc empty_batch_def single_run)

lemma batch_statuses: "treatment_mapping_statuses (build_from_run_batch u n ms t) = []"
  by (induction ms rule: rev_induct) (simp_all add: batch_snoc empty_batch_def single_run_statuses node_statuses_def)

text \<open>
  A batch of runs accounts for every run: a run is included exactly when it completed and has a verified
  label, the included runs give one row each in order, all with window index 0, and no mapping status ever
  reaches the batch.
\<close>

theorem batch_exactly:
  "included_count (build_from_run_batch u n ms t) = length (filter usable ms) \<and>
   excluded_count (build_from_run_batch u n ms t) = length (filter (\<lambda>m. \<not> usable m) ms) \<and>
   map obs_row (observations (build_from_run_batch u n ms t)) = map (row_of t) (filter usable ms) \<and>
   treatment_mapping_statuses (build_from_run_batch u n ms t) = []"
  by (simp add: batch_counts batch_rows batch_statuses)

text \<open>
  A batch may be large enough for estimation and still carry one complaint per run that it is too small.
\<close>

lemma batch_complains:
  assumes "1 < n"
  shows "length ms \<le> length (insufficiencies (build_from_run_batch u n ms t))"
proof (induction ms rule: rev_induct)
  case (snoc m ms)
  show ?case
    using snoc single_run(4) [OF assms, of u m None t]
    by (cases "insufficiencies (build_from_run_manifest_only u n m None t)") (simp_all add: batch_snoc)
qed simp

section \<open>Alerts are no evidence\<close>

text \<open>A manifest without what the detector reported, and a batch without its alert indicator.\<close>

definition silence :: "run_manifest \<Rightarrow> run_manifest" where
  "silence m = m\<lparr>first_phantom_detection_timestamp := None, mttd_s := None, is_true_positive := False,
                phantom_detections := []\<rparr>"

definition mute :: "observation_batch \<Rightarrow> observation_batch" where
  "mute b = b\<lparr>observations := map (\<lambda>obs. obs\<lparr>y_hat_phantom := 0\<rparr>) (observations b),
             observation_records := map (\<lambda>r. r\<lparr>or_y_hat_phantom := None\<rparr>) (observation_records b)\<rparr>"

lemma silence_reads:
  "phases (silence m) = phases m" "run_error (silence m) = run_error m" "run_id (silence m) = run_id m"
  "attack_id (silence m) = attack_id m" "ground_truth_label (silence m) = ground_truth_label m"
  "contract_status (silence m) = contract_status m" "repetition (silence m) = repetition m"
  "verified_contract_drift (silence m) = verified_contract_drift m"
  "contract_evidence_verified (silence m) = contract_evidence_verified m"
  "pre_treatment_covariates (silence m) = pre_treatment_covariates m"
  by (simp_all add: silence_def)

lemma silence_derived:
  "injection_succeeded (silence m) = injection_succeeded m" "is_attack_run (silence m) = is_attack_run m"
  "run_completed (silence m) = run_completed m" "classify_run_outcome (silence m) = classify_run_outcome m"
  "phase_bound f (silence m) name = phase_bound f m name"
  unfolding injection_succeeded_def is_attack_run_def run_completed_def phase_bound_def
      classify_run_outcome_def classify_verified_drift_def silence_reads by (rule refl)+

lemma mute_single: "mute (build_from_run_manifest_only u n (silence m) nodes t) = mute (build_from_run_manifest_only u n m nodes t)"
  by (cases "classify_outcome_value (fst (classify_run_outcome m))")
     (simp_all add: build_from_run_manifest_only_def mute_def silence_reads silence_derived Let_def case_prod_unfold)

lemma mute_add: "mute (add_batch a b) = add_batch (mute a) (mute b)"
  by (simp add: mute_def add_batch_def)

text \<open>
  C37: Runs that differ only in what the detector reported give the same batch except for the alert indicator
  of each row: the same runs are included, with the same treatment, outcome, covariates and provenance.
\<close>

theorem batch_ignores_alerts:
  assumes "map silence ms = map silence ms'"
  shows "mute (build_from_run_batch u n ms t) = mute (build_from_run_batch u n ms' t)"
proof -
  have "mute (build_from_run_batch u n (map silence xs) t) = mute (build_from_run_batch u n xs t)" for xs
    by (induction xs rule: rev_induct) (simp_all add: batch_snoc mute_add mute_single)
  then show ?thesis using assms by metis
qed

definition demo_run :: run_manifest where
  "demo_run =
     \<lparr>run_id = ''r1'', attack_id = ''a'', attack_family = ''f'', repetition = 1, namespace = ''ns'', pod_name = ''p'',
      ground_truth_label = 1, injection_timestamp = None, first_phantom_detection_timestamp = None, mttd_s = None,
      is_true_positive = False,
      phases = map (\<lambda>n. \<lparr>phase_name = n, phase_start = ''s'', phase_end = ''e'', phase_duration_s = 1,
                         phase_notes = ''inject_ok=True''\<rparr>) [''baseline'', ''inject'', ''recover'', ''post_recovery''],
      phantom_detections = [], target_purl = ''pkg:x'', clean_purl = ''pkg:y'', detection_window_s = 120, run_error = [],
      verified_contract_drift = Some 1, contract_status = None, contract_evidence_verified = None,
      sink_receipt_verified = None, pre_treatment_covariates = []\<rparr>"

lemma demo_run_usable: "usable demo_run"
  by code_simp

theorem batch_ignores_alerts_witness:
  "mute (build_from_run_batch Some 10 [demo_run\<lparr>first_phantom_detection_timestamp := Some ''now''\<rparr>] ''purl'') =
   mute (build_from_run_batch Some 10 [demo_run] ''purl'')"
  using batch_ignores_alerts [of "[demo_run\<lparr>first_phantom_detection_timestamp := Some ''now''\<rparr>]" "[demo_run]" Some 10 "''purl''"]
  by (simp add: silence_def)

end
