(* ===== verification/Causal_Validation.thy ===== *)
theory Causal_Validation
  imports Causal_Observations
begin

text \<open>
  The evidence gates that precede an attribution, \<open>domain/causal_validation.py\<close> of the causal engine, and
  their composition in \<open>run_preflight_checks\<close>. Explanations are left out.

  The lemmas characterise when a preflight passes, which blocker is reported, and what becomes of a batch
  of several runs.
\<close>

section \<open>Verdicts\<close>

datatype gate_outcome = PASS | BLOCK

record gate_verdict =
  gate_name :: string
  gate_outcome_of :: gate_outcome
  reason :: string
  suggested_status :: "string option"

definition pass_gate :: "string \<Rightarrow> gate_verdict" where
  "pass_gate name = \<lparr>gate_name = name, gate_outcome_of = PASS, reason = [], suggested_status = None\<rparr>"

definition block_gate :: "string \<Rightarrow> string \<Rightarrow> string \<Rightarrow> gate_verdict" where
  "block_gate name r status = \<lparr>gate_name = name, gate_outcome_of = BLOCK, reason = r, suggested_status = Some status\<rparr>"

section \<open>Gates\<close>

definition gate_minimum_observations :: "nat \<Rightarrow> nat \<Rightarrow> gate_verdict" where
  "gate_minimum_observations n minimum =
     (if minimum \<le> n then pass_gate ''G1_minimum_observations''
      else block_gate ''G1_minimum_observations'' ''too_few_observations'' ''insufficient_evidence'')"

text \<open>Over treatment values; the code also takes them from objects and dictionaries.\<close>

definition gate_treatment_variation :: "int list \<Rightarrow> gate_verdict" where
  "gate_treatment_variation ts =
     (if ts = [] then block_gate ''gate_treatment_variation'' ''no_treatment_variation'' ''not_identifiable''
      else if \<not> (1 \<in> set ts \<and> 0 \<in> set ts)
      then block_gate ''gate_treatment_variation'' ''no_treatment_variation'' ''not_identifiable''
      else pass_gate ''gate_treatment_variation'')"

definition gate_unique_run_ids :: "string list \<Rightarrow> nat \<Rightarrow> gate_verdict" where
  "gate_unique_run_ids ids minimum =
     (if ids = [] then block_gate ''gate_unique_run_ids'' ''too_few_observations'' ''insufficient_evidence''
      else
        (let num_unique = length (remdups ids); total = length ids
         in if num_unique < total \<and> num_unique < minimum
            then block_gate ''gate_unique_run_ids'' ''window_slicing_detected'' ''insufficient_evidence''
            else if num_unique < minimum
            then block_gate ''gate_unique_run_ids'' ''too_few_observations'' ''insufficient_evidence''
            else pass_gate ''gate_unique_run_ids''))"

definition gate_component_mapping_quality :: "string list \<Rightarrow> bool \<Rightarrow> gate_verdict" where
  "gate_component_mapping_quality statuses allow_inferred =
     (let blocking = [''UNRESOLVED'', ''INVALID''] @ (if allow_inferred then [] else [''INFERRED''])
      in if statuses = []
         then block_gate ''G2_component_mapping_quality'' ''unresolved_component_identity'' ''ambiguous_component''
         else if filter (\<lambda>s. upper s \<in> set blocking) statuses \<noteq> []
         then block_gate ''G2_component_mapping_quality'' ''unresolved_component_identity'' ''ambiguous_component''
         else if filter (\<lambda>s. upper s = ''AMBIGUOUS'') statuses \<noteq> []
         then block_gate ''G2_component_mapping_quality'' ''ambiguous_component_identity'' ''ambiguous_component''
         else pass_gate ''G2_component_mapping_quality'')"

definition gate_temporal_order :: "int \<Rightarrow> int \<Rightarrow> gate_verdict" where
  "gate_temporal_order treatment_ns outcome_ns =
     (if treatment_ns \<le> outcome_ns then pass_gate ''G3_temporal_order''
      else block_gate ''G3_temporal_order'' ''reversed_temporal_order'' ''not_identifiable'')"

definition gate_covariates_pre_treatment :: "(string, int) dict \<Rightarrow> int \<Rightarrow> gate_verdict" where
  "gate_covariates_pre_treatment covs treatment_ns =
     (let violations = map fst (filter (\<lambda>(name, ts). treatment_ns < ts) covs)
      in if violations = [] then pass_gate ''G4_covariates_pre_treatment''
         else block_gate ''G4_covariates_pre_treatment'' ''covariate_observed_after_outcome'' ''invalid_graph'')"

definition gate_outcome_present :: "nat \<Rightarrow> gate_verdict" where
  "gate_outcome_present n =
     (if 0 < n then pass_gate ''G5_outcome_present''
      else block_gate ''G5_outcome_present'' ''outcome_absent_from_window'' ''insufficient_evidence'')"

fun duplicates_from :: "nat set \<Rightarrow> nat list \<Rightarrow> nat list" where
  "duplicates_from seen [] = []"
| "duplicates_from seen (i # is) = (if i \<in> seen then [i] else []) @ duplicates_from (insert i seen) is"

definition gate_no_duplicate_observations :: "nat list \<Rightarrow> gate_verdict" where
  "gate_no_duplicate_observations indices =
     (if duplicates_from {} indices = [] then pass_gate ''G6_no_duplicate_observations''
      else block_gate ''G6_no_duplicate_observations'' ''duplicate_observations_detected'' ''insufficient_evidence'')"

section \<open>The preflight\<close>

record preflight_input =
  observation_count :: nat
  outcome_positive_count :: nat
  window_indices :: "nat list"
  mapping_statuses :: "string list"
  treatment_first_seen_ns :: "int option"
  outcome_first_seen_ns :: "int option"
  covariate_first_seen_ns :: "(string, int) dict option"
  minimum_observations :: nat
  run_ids :: "string list option"
  treatment_values :: "int list option"

record preflight_report =
  verdicts :: "gate_verdict list"
  blocking_verdicts :: "gate_verdict list"
  passed :: bool
  first_blocker :: "gate_verdict option"

definition preflight_gates :: "preflight_input \<Rightarrow> gate_verdict list" where
  "preflight_gates p =
     [gate_minimum_observations (observation_count p) (minimum_observations p)] @
     (case run_ids p of None \<Rightarrow> [] | Some ids \<Rightarrow> [gate_unique_run_ids ids (minimum_observations p)]) @
     (case treatment_values p of None \<Rightarrow> [] | Some ts \<Rightarrow> [gate_treatment_variation ts]) @
     [gate_outcome_present (outcome_positive_count p),
      gate_no_duplicate_observations (window_indices p),
      gate_component_mapping_quality (mapping_statuses p) True] @
     (case (treatment_first_seen_ns p, outcome_first_seen_ns p) of
        (Some t, Some y) \<Rightarrow> [gate_temporal_order t y] | _ \<Rightarrow> []) @
     (case (covariate_first_seen_ns p, treatment_first_seen_ns p) of
        (Some covs, Some t) \<Rightarrow> [gate_covariates_pre_treatment covs t] | _ \<Rightarrow> [])"

definition run_preflight_checks :: "preflight_input \<Rightarrow> preflight_report" where
  "run_preflight_checks p =
     (let gates = preflight_gates p;
          blocking = filter (\<lambda>g. gate_outcome_of g = BLOCK) gates
      in \<lparr>verdicts = gates, blocking_verdicts = blocking, passed = (length blocking = 0),
          first_blocker = (case blocking of [] \<Rightarrow> None | g # _ \<Rightarrow> Some g)\<rparr>)"

section \<open>When a gate passes\<close>

named_theorems gate_simps "when a gate passes"

lemma gate_outcomes [simp]:
  "gate_outcome_of (pass_gate n) = PASS" "gate_outcome_of (block_gate n r s) = BLOCK"
  by (simp_all add: pass_gate_def block_gate_def)

lemma not_pass [simp]: "x \<noteq> PASS \<longleftrightarrow> x = BLOCK" "x \<noteq> BLOCK \<longleftrightarrow> x = PASS"
  by (cases x; simp)+

lemma duplicates_from_Nil: "duplicates_from seen is = [] \<longleftrightarrow> distinct is \<and> set is \<inter> seen = {}"
  by (induction seen "is" rule: duplicates_from.induct) auto

lemma gate_passes [gate_simps]:
  "gate_outcome_of (gate_minimum_observations n k) = PASS \<longleftrightarrow> k \<le> n"
  "gate_outcome_of (gate_treatment_variation ts) = PASS \<longleftrightarrow> 0 \<in> set ts \<and> 1 \<in> set ts"
  "gate_outcome_of (gate_unique_run_ids ids k) = PASS \<longleftrightarrow> ids \<noteq> [] \<and> k \<le> card (set ids)"
  "gate_outcome_of (gate_temporal_order t y) = PASS \<longleftrightarrow> t \<le> y"
  "gate_outcome_of (gate_outcome_present n) = PASS \<longleftrightarrow> 0 < n"
  "gate_outcome_of (gate_no_duplicate_observations is) = PASS \<longleftrightarrow> distinct is"
  "gate_outcome_of (gate_component_mapping_quality ss True) = PASS \<longleftrightarrow>
     ss \<noteq> [] \<and> (\<forall>s \<in> set ss. upper s \<notin> {''UNRESOLVED'', ''INVALID'', ''AMBIGUOUS''})"
  "gate_outcome_of (gate_covariates_pre_treatment covs t) = PASS \<longleftrightarrow> \<not> (\<exists>cov \<in> set covs. t < snd cov)"
  by (auto simp: gate_minimum_observations_def gate_treatment_variation_def gate_unique_run_ids_def
      gate_temporal_order_def gate_outcome_present_def gate_no_duplicate_observations_def duplicates_from_Nil
      gate_component_mapping_quality_def gate_covariates_pre_treatment_def filter_empty_conv length_remdups_card_conv
      Let_def case_prod_unfold)

lemma preflight_fields:
  "passed (run_preflight_checks p) \<longleftrightarrow> (\<forall>g \<in> set (preflight_gates p). gate_outcome_of g = PASS)"
  "first_blocker (run_preflight_checks p) = List.find (\<lambda>g. gate_outcome_of g = BLOCK) (preflight_gates p)"
proof -
  show "passed (run_preflight_checks p) \<longleftrightarrow> (\<forall>g \<in> set (preflight_gates p). gate_outcome_of g = PASS)"
    by (auto simp: run_preflight_checks_def Let_def filter_empty_conv)
  have "(case filter P xs of [] \<Rightarrow> None | x # _ \<Rightarrow> Some x) = List.find P xs" for P and xs :: "gate_verdict list"
    by (induction xs) simp_all
  then show "first_blocker (run_preflight_checks p) = List.find (\<lambda>g. gate_outcome_of g = BLOCK) (preflight_gates p)"
    by (simp add: run_preflight_checks_def Let_def)
qed

lemma preflight_blockers:
  "observation_count p < minimum_observations p \<Longrightarrow> \<not> passed (run_preflight_checks p)"
  "outcome_positive_count p = 0 \<Longrightarrow> \<not> passed (run_preflight_checks p)"
  "\<not> distinct (window_indices p) \<Longrightarrow> \<not> passed (run_preflight_checks p)"
  "mapping_statuses p = [] \<Longrightarrow> \<not> passed (run_preflight_checks p)"
  unfolding preflight_fields by (simp_all add: preflight_gates_def gate_simps)

text \<open>
  A preflight passes exactly when every condition of the gates holds, the optional ones as far as their
  inputs were supplied; the time of the treatment is compared only with an outcome or covariate time that
  is known too.
\<close>

theorem preflight_passes_exactly:
  "passed (run_preflight_checks p) \<longleftrightarrow>
     minimum_observations p \<le> observation_count p \<and>
     (\<forall>ids. run_ids p = Some ids \<longrightarrow> ids \<noteq> [] \<and> minimum_observations p \<le> card (set ids)) \<and>
     (\<forall>ts. treatment_values p = Some ts \<longrightarrow> 0 \<in> set ts \<and> 1 \<in> set ts) \<and>
     0 < outcome_positive_count p \<and> distinct (window_indices p) \<and> mapping_statuses p \<noteq> [] \<and>
     (\<forall>s \<in> set (mapping_statuses p). upper s \<notin> {''UNRESOLVED'', ''INVALID'', ''AMBIGUOUS''}) \<and>
     (\<forall>t y. treatment_first_seen_ns p = Some t \<longrightarrow> outcome_first_seen_ns p = Some y \<longrightarrow> t \<le> y) \<and>
     (\<forall>t covs. treatment_first_seen_ns p = Some t \<longrightarrow> covariate_first_seen_ns p = Some covs \<longrightarrow>
        (\<forall>cov \<in> set covs. snd cov \<le> t))"
  unfolding preflight_fields
  by (cases "run_ids p"; cases "treatment_values p"; cases "treatment_first_seen_ns p";
      cases "outcome_first_seen_ns p"; cases "covariate_first_seen_ns p")
     (simp_all add: preflight_gates_def gate_simps conj_ac not_less)

theorem preflight_passes_exactly_witness:
  "passed (run_preflight_checks
     \<lparr>observation_count = 10, outcome_positive_count = 1, window_indices = [0, 1], mapping_statuses = [''VERIFIED''],
      treatment_first_seen_ns = Some 1, outcome_first_seen_ns = Some 2, covariate_first_seen_ns = Some [(''c'', 1)],
      minimum_observations = 2, run_ids = Some [''r1'', ''r2''], treatment_values = Some [0, 1]\<rparr>)"
  by (simp add: preflight_passes_exactly upper_def upper_char_def Let_def)

text \<open>
  The order of the gates decides what a blocked preflight reports: too few observations come first.
\<close>

lemma first_blocker_exists:
  "\<not> passed (run_preflight_checks p) \<Longrightarrow>
     \<exists>g. first_blocker (run_preflight_checks p) = Some g \<and> gate_outcome_of g = BLOCK \<and> g \<in> set (preflight_gates p)"
  unfolding preflight_fields
  by (cases "List.find (\<lambda>g. gate_outcome_of g = BLOCK) (preflight_gates p)")
     (auto simp: find_None_iff dest: find_SomeD)

section \<open>Several runs\<close>

text \<open>The preflight of a batch, as the analysis of a single run derives it.\<close>

definition batch_preflight :: "nat \<Rightarrow> observation_batch \<Rightarrow> preflight_input" where
  "batch_preflight minimum b =
     \<lparr>observation_count = included_count b,
      outcome_positive_count = length (filter (\<lambda>obs. outcome_value obs = 1) (observations b)),
      window_indices = map window_index (observations b), mapping_statuses = treatment_mapping_statuses b,
      treatment_first_seen_ns = None, outcome_first_seen_ns = None, covariate_first_seen_ns = None,
      minimum_observations = minimum, run_ids = None, treatment_values = None\<rparr>"

text \<open>
  C38: The batch of several runs is blocked for good: it never carries a mapping status, and as every run has
  window index 0 two usable runs count as duplicates. Whatever statuses and optional inputs a caller adds,
  two usable runs block the preflight.
\<close>

theorem multi_run_blocked:
  assumes "2 \<le> length (filter usable ms)"
    and "window_indices p = map window_index (observations (build_from_run_batch u n ms t))"
  shows "\<not> passed (run_preflight_checks p) \<and>
    \<not> passed (run_preflight_checks (batch_preflight k (build_from_run_batch u n ms t)))"
proof
  have "window_indices p = map (\<lambda>r. fst (snd r)) (map obs_row (observations (build_from_run_batch u n ms t)))"
    by (simp add: assms(2) obs_row_def)
  also have "\<dots> = replicate (length (filter usable ms)) 0"
    unfolding batch_rows by (simp add: row_of_def comp_def map_replicate_const)
  finally show "\<not> passed (run_preflight_checks p)"
    using assms(1) by (intro preflight_blockers(3)) (auto dest!: distinct_card simp: set_replicate_conv_if split: if_splits)
  show "\<not> passed (run_preflight_checks (batch_preflight k (build_from_run_batch u n ms t)))"
    by (rule preflight_blockers(4)) (simp add: batch_preflight_def batch_statuses)
qed

theorem multi_run_blocked_witness:
  "\<not> passed (run_preflight_checks
     ((batch_preflight 1 (build_from_run_batch Some 1 [demo_run, demo_run\<lparr>run_id := ''r2''\<rparr>] ''purl''))
      \<lparr>mapping_statuses := [''VERIFIED'', ''VERIFIED''], run_ids := Some [''r1'', ''r2'']\<rparr>))"
proof -
  have "length (filter usable [demo_run, demo_run\<lparr>run_id := ''r2''\<rparr>]) = 2" by code_simp
  then show ?thesis
    using multi_run_blocked [of "[demo_run, demo_run\<lparr>run_id := ''r2''\<rparr>]" "(batch_preflight 1
      (build_from_run_batch Some 1 [demo_run, demo_run\<lparr>run_id := ''r2''\<rparr>] ''purl''))
      \<lparr>mapping_statuses := [''VERIFIED'', ''VERIFIED''], run_ids := Some [''r1'', ''r2'']\<rparr>" Some 1 "''purl''"]
    by (simp add: batch_preflight_def)
qed

end
