(* ===== verification/Causal_Projection.thy ===== *)
theory Causal_Projection
  imports Causal_Update "HOL-Library.List_Lexorder" "HOL-Library.Char_ord"
begin

text \<open>
  The projection of the dependency graph to a temporal graph over semantic variables,
  \<open>project_to_temporal_dag\<close> in \<open>domain/bdg.py\<close>: every variable is unrolled over the windows, an edge leads
  from a window to every later one, and within a window along the causal tiers.

  The computation of strongly connected components is a parameter. The diagnostics repeat the sizes of the
  other fields and are left out.
\<close>

section \<open>Definitions\<close>

definition CAUSAL_TIERS :: "(string, nat) dict" where
  "CAUSAL_TIERS =
     [(''environment'', 0), (''rbac'', 0), (''image'', 0), (''component_version'', 1), (''process_behavior'', 2),
      (''file_behavior'', 3), (''network_behavior'', 3), (''privilege_behavior'', 3), (''contract_deviation'', 4),
      (''runtime_sbom_drift'', 5)]"

fun NODE_TYPE_TO_SEMANTIC :: "node_type \<Rightarrow> string" where
  "NODE_TYPE_TO_SEMANTIC WORKLOAD = ''environment''"
| "NODE_TYPE_TO_SEMANTIC CONTAINER = ''image''"
| "NODE_TYPE_TO_SEMANTIC PROCESS = ''process_behavior''"
| "NODE_TYPE_TO_SEMANTIC PURL = ''component_version''"
| "NODE_TYPE_TO_SEMANTIC FILE = ''file_behavior''"
| "NODE_TYPE_TO_SEMANTIC NETWORK_ENDPOINT = ''network_behavior''"
| "NODE_TYPE_TO_SEMANTIC CONTRACT = ''contract_deviation''"
| "NODE_TYPE_TO_SEMANTIC DRIFT_EVENT = ''runtime_sbom_drift''"

definition node_types :: "node_type list" where
  "node_types = [WORKLOAD, CONTAINER, PROCESS, PURL, FILE, NETWORK_ENDPOINT, CONTRACT, DRIFT_EVENT]"

text \<open>The semantic variable of a stored type; a type that is no \<open>BdgNodeType\<close> stands for itself.\<close>

definition semantic_of :: "string \<Rightarrow> string" where
  "semantic_of s =
     (case find (\<lambda>ty. node_type_value ty = s) node_types of Some ty \<Rightarrow> NODE_TYPE_TO_SEMANTIC ty | None \<Rightarrow> s)"

definition tier_of :: "string \<Rightarrow> nat" where
  "tier_of v = optional 99 (dict_get CAUSAL_TIERS v)"

definition variable_of :: "'g multigraph \<Rightarrow> 'g \<Rightarrow> node_key \<Rightarrow> string" where
  "variable_of nx g k = semantic_of (optional [] (na_type (mg_node nx g k)))"

type_synonym window_var = "string \<times> nat"

record projection =
  projected_nodes :: "window_var list"
  projected_edges :: "(window_var \<times> window_var) list"
  excluded_edges :: "(string \<times> string \<times> string) list"
  treatment_or_outcome_in_cycle :: bool
  sccs :: "window_var list list"

text \<open>Whether a node is skipped because its first component is another tenant.\<close>

definition in_scope :: "string option \<Rightarrow> node_key \<Rightarrow> bool" where
  "in_scope tenant k \<longleftrightarrow> (case tenant of None \<Rightarrow> True | Some t \<Rightarrow> k = [] \<or> hd k = t)"

definition semantic_vars :: "'g multigraph \<Rightarrow> 'g \<Rightarrow> string option \<Rightarrow> string list" where
  "semantic_vars nx g tenant = sort (remdups (map (variable_of nx g) (filter (in_scope tenant) (mg_nodes nx g))))"

text \<open>The edges one edge of the graph stands for, in the order they are added.\<close>

definition window_edges :: "nat \<Rightarrow> string \<Rightarrow> string \<Rightarrow> (window_var \<times> window_var) list" where
  "window_edges n a b =
     concat (map (\<lambda>w. map (\<lambda>w'. ((a, w), (b, w'))) [w + 1..<n] @ (if tier_of a < tier_of b then [((a, w), (b, w))] else []))
       [0..<n])"

definition excluded_windows :: "(node_key \<Rightarrow> string) \<Rightarrow> nat \<Rightarrow> node_key \<Rightarrow> node_key \<Rightarrow> string \<Rightarrow> string \<Rightarrow> string \<Rightarrow>
    (string \<times> string \<times> string) list" where
  "excluded_windows show_key n u v a b ty =
     (if \<not> tier_of a < tier_of b \<and> a \<noteq> b then replicate n (show_key u, show_key v, ty) else [])"

definition insert_keys :: "'a list \<Rightarrow> 'a list \<Rightarrow> 'a list" where
  "insert_keys xs ys = foldl (\<lambda>zs y. insert_key y zs) xs ys"

definition project_to_temporal_dag ::
    "'g bdg_env \<Rightarrow> (window_var list \<Rightarrow> (window_var \<times> window_var) list \<Rightarrow> window_var list list) \<Rightarrow>
       string \<Rightarrow> string \<Rightarrow> nat \<Rightarrow> string option \<Rightarrow> 'g bdg \<Rightarrow> projection" where
  "project_to_temporal_dag env scc treatment outcome n tenant b =
     (let nx = env_nx env; g = graph b;
          var = variable_of nx g;
          nodes = concat (map (\<lambda>v. map (\<lambda>w. (v, w)) [0..<n]) (semantic_vars nx g tenant));
          edges = insert_keys [] (concat (map (\<lambda>(u, v, e). window_edges n (var u) (var v)) (mg_edges nx g)));
          excluded = concat (map (\<lambda>(u, v, e). excluded_windows (env_show_key env) n u v (var u) (var v) (ea_type e)) (mg_edges nx g));
          dag_nodes = insert_keys nodes (concat (map (\<lambda>(x, y). [x, y]) edges));
          cycles = filter (\<lambda>c. length c > 1) (scc dag_nodes edges)
      in \<lparr>projected_nodes = nodes, projected_edges = edges, excluded_edges = excluded,
          treatment_or_outcome_in_cycle = list_ex (\<lambda>c. treatment \<in> fst ` set c \<or> outcome \<in> fst ` set c) cycles,
          sccs = cycles\<rparr>)"

section \<open>Strongly connected components\<close>

text \<open>Each component is, without repetition, the set of nodes its members reach and are reached from.\<close>

locale scc_library =
  fixes scc :: "'v list \<Rightarrow> ('v \<times> 'v) list \<Rightarrow> 'v list list"
  assumes scc_class: "c \<in> set (scc V E) \<Longrightarrow> x \<in> set c \<Longrightarrow> set c = {y. (x, y) \<in> (set E)\<^sup>* \<and> (y, x) \<in> (set E)\<^sup>*}"
    and scc_distinct: "c \<in> set (scc V E) \<Longrightarrow> distinct c"
begin

lemma acyclic_single: "acyclic (set E) \<Longrightarrow> filter (\<lambda>c. length c > 1) (scc V E) = []"
proof (rule ccontr)
  assume acyclic: "acyclic (set E)" and "filter (\<lambda>c. length c > 1) (scc V E) \<noteq> []"
  then obtain c where c: "c \<in> set (scc V E)" "length c > 1"
    by (auto simp: filter_empty_conv)
  then obtain x y cs where xy: "c = x # y # cs"
    by (cases c rule: remdups_adj.cases) auto
  have "y \<in> {y. (x, y) \<in> (set E)\<^sup>* \<and> (y, x) \<in> (set E)\<^sup>*}"
    using scc_class [OF c(1), of x] by (auto simp: xy)
  then have cyc: "(x, y) \<in> (set E)\<^sup>*" "(y, x) \<in> (set E)\<^sup>*"
    by simp_all
  have "x \<noteq> y"
    using scc_distinct [OF c(1)] by (simp add: xy)
  with cyc show False
    using acyclic by (metis acyclic_def rtrancl_into_trancl2 rtrancl_trancl_trancl converse_rtranclE trancl_rtrancl_trancl rtranclD)
qed

end

text \<open>An instance: the classes of mutual reachability, one per node.\<close>

definition reach_classes :: "'v list \<Rightarrow> ('v \<times> 'v) list \<Rightarrow> 'v list list" where
  "reach_classes V E =
     (let N = remdups (V @ map fst E @ map snd E)
      in map (\<lambda>x. filter (\<lambda>y. (x, y) \<in> (set E)\<^sup>* \<and> (y, x) \<in> (set E)\<^sup>*) N) (remdups V))"

interpretation classes: scc_library reach_classes
proof
  fix c V x and E :: "('a \<times> 'a) list"
  assume c: "c \<in> set (reach_classes V E)"
  show "distinct c" using c by (auto simp: reach_classes_def Let_def)
  obtain z where z: "z \<in> set V" "c = filter (\<lambda>y. (z, y) \<in> (set E)\<^sup>* \<and> (y, z) \<in> (set E)\<^sup>*) (remdups (V @ map fst E @ map snd E))"
    using c by (auto simp: reach_classes_def Let_def)
  have reach: "y \<in> set (V @ map fst E @ map snd E)" if "(z, y) \<in> (set E)\<^sup>*" for y
    using that z(1) by (cases rule: rtranclE) force+
  assume "x \<in> set c"
  then have "(z, x) \<in> (set E)\<^sup>*" "(x, z) \<in> (set E)\<^sup>*" using z(2) by auto
  then show "set c = {y. (x, y) \<in> (set E)\<^sup>* \<and> (y, x) \<in> (set E)\<^sup>*}"
    using reach unfolding z(2) by (auto intro: rtrancl_trans)
qed

section \<open>The projected edges\<close>

lemma set_insert_keys [simp]: "set (insert_keys xs ys) = set xs \<union> set ys"
  unfolding insert_keys_def by (rule set_fold_insert_key)

lemma distinct_insert_keys: "distinct xs \<Longrightarrow> distinct (insert_keys xs ys)"
  unfolding insert_keys_def by (rule distinct_fold_insert_key)

lemma window_edges_iff:
  "((x, w), (y, w')) \<in> set (window_edges n a b) \<longleftrightarrow>
     x = a \<and> y = b \<and> w' < n \<and> (w < w' \<or> w = w' \<and> tier_of a < tier_of b)"
  by (auto simp: window_edges_def)

lemma projected_edges_iff:
  "((x, w), (y, w')) \<in> set (projected_edges (project_to_temporal_dag env scc t o' n tenant b)) \<longleftrightarrow>
     (\<exists>(u, v, e) \<in> set (mg_edges (env_nx env) (graph b)).
        variable_of (env_nx env) (graph b) u = x \<and> variable_of (env_nx env) (graph b) v = y) \<and>
     w' < n \<and> (w < w' \<or> w = w' \<and> tier_of x < tier_of y)"
  by (fastforce simp: project_to_temporal_dag_def Let_def window_edges_iff)

lemma tier_bound: "tier_of v \<le> 99"
  by (simp add: tier_of_def dict_get_def CAUSAL_TIERS_def)

text \<open>Windows and tiers rank the variables: every projected edge leads upwards.\<close>

definition var_rank :: "window_var \<Rightarrow> nat" where
  "var_rank x = 100 * snd x + tier_of (fst x)"

lemma projected_edges_up:
  "(x, y) \<in> set (projected_edges (project_to_temporal_dag env scc t o' n tenant b)) \<Longrightarrow> var_rank x < var_rank y"
  using tier_bound [of "fst x"] by (cases x; cases y) (auto simp: projected_edges_iff var_rank_def)

lemma projected_acyclic: "acyclic (set (projected_edges (project_to_temporal_dag env scc t o' n tenant b)))"
proof -
  have "set (projected_edges (project_to_temporal_dag env scc t o' n tenant b)) \<subseteq> measure var_rank"
    using projected_edges_up by fastforce
  then show ?thesis
    by (meson acyclic_subset wf_acyclic wf_measure)
qed

text \<open>
  C35: The projection is the relation the documentation describes, without repetitions, and it never has a
  cycle: the test for a treatment or outcome in a cycle, whose failure is a documented reason not to
  estimate, cannot succeed.
\<close>

theorem projection_exactly:
  assumes "scc_library scc" "P = project_to_temporal_dag env scc treatment outcome n tenant b"
  shows "distinct (projected_edges P) \<and>
    (\<forall>x w y w'. ((x, w), (y, w')) \<in> set (projected_edges P) \<longleftrightarrow>
       (\<exists>(u, v, e) \<in> set (mg_edges (env_nx env) (graph b)).
          variable_of (env_nx env) (graph b) u = x \<and> variable_of (env_nx env) (graph b) v = y) \<and>
       w' < n \<and> (w < w' \<or> w = w' \<and> tier_of x < tier_of y)) \<and>
    treatment_or_outcome_in_cycle P = False \<and> sccs P = []"
proof -
  have "filter (\<lambda>c. length c > 1) (scc V (projected_edges P)) = []" for V
    unfolding assms(2) by (rule scc_library.acyclic_single [OF assms(1) projected_acyclic])
  then have none: "filter (\<lambda>c. length c > 1) (scc (insert_keys (projected_nodes P)
      (concat (map (\<lambda>(x, y). [x, y]) (projected_edges P)))) (projected_edges P)) = []"
    by blast
  have "sccs P = filter (\<lambda>c. length c > 1) (scc (insert_keys (projected_nodes P)
      (concat (map (\<lambda>(x, y). [x, y]) (projected_edges P)))) (projected_edges P))"
      "treatment_or_outcome_in_cycle P = list_ex (\<lambda>c. treatment \<in> fst ` set c \<or> outcome \<in> fst ` set c) (sccs P)"
      "distinct (projected_edges P)"
    unfolding assms(2) by (simp_all add: project_to_temporal_dag_def Let_def distinct_insert_keys)
  then show ?thesis
    unfolding none by (simp add: projected_edges_iff assms(2))
qed

theorem projection_exactly_witness:
  "treatment_or_outcome_in_cycle (project_to_temporal_dag demo_env reach_classes ''component_version'' ''runtime_sbom_drift'' 3 None
     (updates demo_env demo_deliveries demo_bdg)) = False"
  using projection_exactly [OF classes.scc_library_axioms refl] by blast

text \<open>
  The scope of a tenant restricts the projected variables but not the edges: the edges of one tenant's
  projection are those of all tenants.
\<close>

theorem projection_mixes_tenants:
  "projected_edges (project_to_temporal_dag env scc treatment outcome n (Some tenant) b) =
     projected_edges (project_to_temporal_dag env scc treatment outcome n None b) \<and>
   fst ` set (projected_nodes (project_to_temporal_dag env scc treatment outcome n (Some tenant) b)) =
     (if n = 0 then {} else variable_of (env_nx env) (graph b) ` {k \<in> set (mg_nodes (env_nx env) (graph b)). k = [] \<or> hd k = tenant})"
  by (auto simp: project_to_temporal_dag_def semantic_vars_def in_scope_def image_iff Let_def)

end
