(* ===== verification/Causal_Attribution.thy ===== *)
theory Causal_Attribution
  imports Causal_Projection Causal_Observations
begin

text \<open>
  Causal attribution: the structural model of \<open>domain/causal.py\<close> and the pipeline of
  \<open>application/estimate_attribution.py\<close>. DoWhy is a parameter, a record of the calls with their possible
  failures, and so are the quartiles of pandas and the acyclicity test of NetworkX. A table is the list of
  its rows, a missing cell \<open>None\<close>. Texts of explanations and random ids are left out.
\<close>

section \<open>The data table\<close>

datatype attribution_error =
    GraphCycleError
  | InsufficientVariationError string
  | PositivityFailureError
  | CausalModelConstructionError
  | RaisedError py_error

type_synonym table_row = "(string, real option) dict"

definition table_row :: "string \<Rightarrow> string \<Rightarrow> string list \<Rightarrow> causal_observation \<Rightarrow> table_row" where
  "table_row treatment outcome covs obs =
     foldl (\<lambda>row c. dict_set row c (Some (optional 0 (dict_get (covariates obs) c))))
       (dict_set (dict_set [] treatment (Some (real_of_int (treatment_value obs)))) outcome
          (Some (real_of_int (outcome_value obs)))) covs"

definition cell :: "string \<Rightarrow> table_row \<Rightarrow> real option" where
  "cell c row = optional None (dict_get row c)"

definition nunique :: "string \<Rightarrow> table_row list \<Rightarrow> nat" where
  "nunique c rows = length (remdups (List.map_filter (cell c) rows))"

text \<open>A table without rows has no columns: reading one raises \<open>KeyError\<close>.\<close>

definition build_causal_data_table ::
    "causal_observation list \<Rightarrow> string \<Rightarrow> string \<Rightarrow> string list \<Rightarrow> attribution_error + table_row list" where
  "build_causal_data_table obs treatment outcome covs =
     (let rows = map (table_row treatment outcome covs) obs
      in if rows = [] then Inl (RaisedError KeyError)
         else if nunique treatment rows < 2 then Inl (InsufficientVariationError treatment)
         else if nunique outcome rows < 2 then Inl (InsufficientVariationError outcome)
         else Inr rows)"

section \<open>Positivity\<close>

text \<open>\<open>pd.qcut\<close> into quartiles replaces a column of more than four values.\<close>

definition discretize :: "(real option list \<Rightarrow> real option list) \<Rightarrow> string list \<Rightarrow> table_row list \<Rightarrow> table_row list" where
  "discretize qcut covs rows =
     foldl (\<lambda>rs c. if nunique c rs > 4
              then map (\<lambda>(r, q). dict_set r c q) (zip rs (qcut (map (cell c) rs))) else rs) rows covs"

definition stratum_key :: "string list \<Rightarrow> table_row \<Rightarrow> real option list" where
  "stratum_key covs row = map (\<lambda>c. cell c row) covs"

text \<open>The groups of \<open>groupby\<close>: rows with equal covariates, those with a missing one dropped.\<close>

definition strata :: "string list \<Rightarrow> table_row list \<Rightarrow> table_row list list" where
  "strata covs rows =
     (let kept = filter (\<lambda>r. None \<notin> set (stratum_key covs r)) rows
      in map (\<lambda>k. filter (\<lambda>r. stratum_key covs r = k) kept) (remdups (map (stratum_key covs) kept)))"

definition count_value :: "string \<Rightarrow> real \<Rightarrow> table_row list \<Rightarrow> nat" where
  "count_value c x rows = length (filter (\<lambda>r. cell c r = Some x) rows)"

definition stratum_overlaps :: "string \<Rightarrow> real \<Rightarrow> table_row list \<Rightarrow> bool" where
  "stratum_overlaps treatment fraction rows \<longleftrightarrow>
     length rows < 2 \<or>
     \<not> (real (count_value treatment 1 rows) / real (length rows) < fraction \<or>
        real (count_value treatment 0 rows) / real (length rows) < fraction)"

text \<open>A stratum of one row is skipped. The global check that replaces a grouping that raises is left out.\<close>

definition check_positivity ::
    "(real option list \<Rightarrow> real option list) \<Rightarrow> table_row list \<Rightarrow> string \<Rightarrow> string list \<Rightarrow> bool" where
  "check_positivity qcut rows treatment covs =
     (if covs = [] then nunique treatment rows \<ge> 2
      else list_all (stratum_overlaps treatment (1 / 20)) (strata covs (discretize qcut covs rows)))"

section \<open>The structural model\<close>

definition POST_TREATMENT_MEDIATOR_NAMES :: "string list" where
  "POST_TREATMENT_MEDIATOR_NAMES =
     [''process_behavior'', ''file_behavior'', ''network_behavior'', ''privilege_behavior'', ''contract_deviation'',
      ''runtime_sbom_drift'', ''run_duration_s'', ''run_duration'', ''b_behavior'', ''b_process'', ''spawned_pids'',
      ''syscall_count'', ''network_packets'', ''intermediate_process_spawns'']"

definition POST_TREATMENT_MEDIATOR_SUBSTRINGS :: "string list" where
  "POST_TREATMENT_MEDIATOR_SUBSTRINGS =
     [''process_behavior'', ''file_behavior'', ''network_behavior'', ''privilege_behavior'', ''contract_deviation'',
      ''runtime_sbom_drift'', ''run_duration'', ''b_behavior'', ''b_process'', ''spawned_pid'', ''intermediate_process'']"

definition is_post_treatment_mediator :: "string \<Rightarrow> bool" where
  "is_post_treatment_mediator v =
     (let l = lower v
      in l \<in> set POST_TREATMENT_MEDIATOR_NAMES \<or> optional 0 (dict_get CAUSAL_TIERS l) \<ge> 2 \<or>
         list_ex (contains l) POST_TREATMENT_MEDIATOR_SUBSTRINGS)"

record scm =
  scm_nodes :: "string set"
  scm_edges :: "(string \<times> string) set"

definition projected_pairs :: "projection \<Rightarrow> (string \<times> string) set" where
  "projected_pairs P = set (filter (\<lambda>(a, b). a \<noteq> b) (map (\<lambda>((a, _), (b, _)). (a, b)) (projected_edges P)))"

definition build_scm_graph :: "projection \<Rightarrow> string \<Rightarrow> string \<Rightarrow> string list \<Rightarrow> scm" where
  "build_scm_graph P treatment outcome covs =
     (let vars = {treatment, outcome} \<union> set covs \<union> set (map fst (projected_nodes P));
          confounders = filter (\<lambda>c. \<not> is_post_treatment_mediator c) covs
      in \<lparr>scm_nodes = vars,
          scm_edges = Set.filter (\<lambda>(a, b). a \<in> vars \<and> b \<in> vars \<and> \<not> (b = treatment \<and> is_post_treatment_mediator a))
              (projected_pairs P) \<union> {(treatment, outcome)} \<union>
            set (map (\<lambda>c. (c, treatment)) confounders) \<union> set (map (\<lambda>c. (c, outcome)) confounders)\<rparr>)"

section \<open>DoWhy\<close>

text \<open>
  Each call returns \<open>None\<close> when it raises. \<open>dw_interval\<close> and \<open>dw_counterfactual\<close> are \<open>None\<close> also when the
  estimate does not offer the value. A refutation gives its new effect and its p-value where it has them.
\<close>

record ('m, 'e, 'r) dowhy =
  dw_qcut :: "real option list \<Rightarrow> real option list"
  dw_is_dag :: "scm \<Rightarrow> bool"
  dw_model :: "table_row list \<Rightarrow> string \<Rightarrow> string \<Rightarrow> scm \<Rightarrow> 'm option"
  dw_identify :: "'m \<Rightarrow> 'e option option"
  dw_estimands :: "'e \<Rightarrow> (string, bool) dict"
  dw_estimate :: "'m \<Rightarrow> 'e \<Rightarrow> string \<Rightarrow> 'r option"
  dw_value :: "'r \<Rightarrow> pyfloat option"
  dw_interval :: "'r \<Rightarrow> (pyfloat \<times> pyfloat) option"
  dw_counterfactual :: "'m \<Rightarrow> 'r \<Rightarrow> pyfloat option"
  dw_refute :: "'m \<Rightarrow> 'e \<Rightarrow> 'r \<Rightarrow> string \<Rightarrow> (pyfloat option \<times> pyfloat option) option"

definition construct_causal_model ::
    "('m, 'e, 'r) dowhy \<Rightarrow> projection \<Rightarrow> causal_observation list \<Rightarrow> string \<Rightarrow> string \<Rightarrow> string list \<Rightarrow> attribution_error + 'm" where
  "construct_causal_model dw P obs treatment outcome covs =
     (if treatment_or_outcome_in_cycle P then Inl GraphCycleError
      else py_bind (build_causal_data_table obs treatment outcome covs) (\<lambda>rows.
        if \<not> check_positivity (dw_qcut dw) rows treatment covs then Inl PositivityFailureError
        else let dag = build_scm_graph P treatment outcome covs
             in if \<not> dw_is_dag dw dag then Inl GraphCycleError
                else case dw_model dw rows treatment outcome dag of
                       None \<Rightarrow> Inl CausalModelConstructionError
                     | Some m \<Rightarrow> Inr m))"

section \<open>Results\<close>

datatype attribution_status =
    COMPLETED | NOT_IDENTIFIABLE | INSUFFICIENT_EVIDENCE | ESTIMATION_FAILED | INVALID_GRAPH | AMBIGUOUS_COMPONENT

fun attribution_status_value :: "attribution_status \<Rightarrow> string" where
  "attribution_status_value COMPLETED = ''completed''"
| "attribution_status_value NOT_IDENTIFIABLE = ''not_identifiable''"
| "attribution_status_value INSUFFICIENT_EVIDENCE = ''insufficient_evidence''"
| "attribution_status_value ESTIMATION_FAILED = ''estimation_failed''"
| "attribution_status_value INVALID_GRAPH = ''invalid_graph''"
| "attribution_status_value AMBIGUOUS_COMPONENT = ''ambiguous_component''"

record refutation =
  rf_name :: string
  rf_estimated :: pyfloat
  rf_new_effect :: pyfloat
  rf_p_value :: "pyfloat option"
  rf_passed :: bool

record attribution =
  ar_status :: attribution_status
  ar_reason :: string
  ar_ate :: "pyfloat option"
  ar_ci_lower :: "pyfloat option"
  ar_ci_upper :: "pyfloat option"
  ar_counterfactual :: "pyfloat option"
  ar_counterfactual_status :: string
  ar_refutations :: "refutation list"
  ar_confidence :: pyfloat
  ar_stability :: pyfloat
  ar_estimator :: string
  ar_observation_count :: nat
  ar_assumptions :: "string list"

text \<open>The constants that hold the texts.\<close>

definition DEFAULT_CAUSAL_ASSUMPTIONS :: "string list" where
  "DEFAULT_CAUSAL_ASSUMPTIONS =
     [''ASSUMPTION_FORCED_TREATMENT_OUTCOME_EDGE'', ''ASSUMPTION_BACKDOOR_SUFFICIENT'',
      ''ASSUMPTION_CAUSAL_DIRECTION_ASSERTED'']"

definition zero_float :: "pyfloat \<Rightarrow> bool" where
  "zero_float x \<longleftrightarrow> x = Fin 0"

text \<open>\<open>AttributionResult.__post_init__\<close>.\<close>

definition sync_confidence :: "attribution \<Rightarrow> attribution" where
  "sync_confidence r =
     (if zero_float (ar_stability r) \<and> \<not> zero_float (ar_confidence r) then r\<lparr>ar_stability := ar_confidence r\<rparr>
      else if zero_float (ar_confidence r) \<and> \<not> zero_float (ar_stability r) then r\<lparr>ar_confidence := ar_stability r\<rparr>
      else r)"

text \<open>A result without an estimate.\<close>

definition abstain :: "attribution_status \<Rightarrow> string \<Rightarrow> nat \<Rightarrow> attribution" where
  "abstain status why n =
     \<lparr>ar_status = status, ar_reason = why, ar_ate = None, ar_ci_lower = None, ar_ci_upper = None, ar_counterfactual = None,
      ar_counterfactual_status = ''unavailable'', ar_refutations = [], ar_confidence = Fin 0, ar_stability = Fin 0,
      ar_estimator = [], ar_observation_count = n, ar_assumptions = []\<rparr>"

section \<open>Confidence\<close>

record evidence_quality =
  event_loss_rate :: pyfloat
  identity_resolution_rate :: pyfloat
  contract_verified :: bool

definition ci_factor :: "pyfloat option \<Rightarrow> pyfloat option \<Rightarrow> pyfloat" where
  "ci_factor lo hi =
     (case (lo, hi) of
        (Some l, Some h) \<Rightarrow> (let width = h - l in if Fin (1 / 2) < width then py_max (Fin (3 / 10)) (Fin 1 - width) else Fin 1)
      | _ \<Rightarrow> Fin 1)"

definition refutation_factor :: "refutation list \<Rightarrow> nat option \<Rightarrow> real" where
  "refutation_factor rs required =
     (let ok = length (filter rf_passed rs)
      in case required of
           Some n \<Rightarrow> (if n > 0 then real ok / real (max (length rs) n)
                      else if rs \<noteq> [] then real ok / real (length rs) else 1)
         | None \<Rightarrow> (if rs \<noteq> [] then real ok / real (length rs) else 1))"

definition compute_attribution_confidence ::
    "pyfloat option \<Rightarrow> pyfloat option \<Rightarrow> pyfloat option \<Rightarrow> refutation list \<Rightarrow> nat option \<Rightarrow> evidence_quality \<Rightarrow> pyfloat" where
  "compute_attribution_confidence ate lo hi rs required ev =
     (case ate of
        None \<Rightarrow> Fin 0
      | Some a \<Rightarrow>
          (if \<not> is_finite a then Fin 0
           else
             (let c1 = Fin 1 * py_max (Fin 0) (Fin 1 - event_loss_rate ev);
                  c2 = c1 * identity_resolution_rate ev;
                  c3 = (if contract_verified ev then c2 else c2 * Fin (1 / 2));
                  c4 = c3 * ci_factor lo hi;
                  c5 = c4 * Fin (refutation_factor rs required)
              in py_max (Fin 0) (py_min (Fin 1) c5))))"

section \<open>The pipeline\<close>

definition REQUIRED_REFUTERS :: "string list" where
  "REQUIRED_REFUTERS = [''random_common_cause'', ''placebo_treatment_refuter'', ''data_subset_refuter'']"

text \<open>The verdict on a refutation: a placebo must vanish, the others must stay within half of the estimate.\<close>

definition refutation_passed :: "string \<Rightarrow> pyfloat option \<Rightarrow> pyfloat \<Rightarrow> pyfloat option \<Rightarrow> bool" where
  "refutation_passed name ate new_effect p =
     (let truthy = (case ate of None \<Rightarrow> False | Some a \<Rightarrow> \<not> zero_float a);
          bound = (if truthy then Fin (1 / 5) * \<bar>the ate\<bar> else Fin (1 / 10))
      in if name = ''placebo_treatment_refuter'' then
           (case p of Some v \<Rightarrow> Fin (1 / 20) < v \<or> \<bar>new_effect\<bar> < bound | None \<Rightarrow> \<bar>new_effect\<bar> < bound)
         else if truthy then float_div \<bar>new_effect - the ate\<bar> \<bar>the ate\<bar> < Fin (1 / 2)
         else True)"

definition refute :: "pyfloat option \<Rightarrow> string \<Rightarrow> (pyfloat option \<times> pyfloat option) option \<Rightarrow> refutation" where
  "refute ate name answer =
     (let estimated = (case ate of None \<Rightarrow> Fin 0 | Some a \<Rightarrow> a)
      in case answer of
           Some (new_effect, p) \<Rightarrow>
             (let new = optional (Fin 0) new_effect
              in \<lparr>rf_name = name, rf_estimated = estimated, rf_new_effect = new, rf_p_value = p,
                  rf_passed = refutation_passed name ate new p\<rparr>)
         | None \<Rightarrow> \<lparr>rf_name = name, rf_estimated = estimated, rf_new_effect = Fin 0, rf_p_value = None, rf_passed = False\<rparr>)"

definition is_identified :: "string \<Rightarrow> (string, bool) dict \<Rightarrow> bool" where
  "is_identified estimator estimands =
     (if starts_with estimator ''backdoor'' then dict_get estimands ''backdoor'' = Some True
      else if starts_with estimator ''iv'' then dict_get estimands ''iv'' = Some True
      else if starts_with estimator ''frontdoor'' then dict_get estimands ''frontdoor'' = Some True
      else list_ex snd estimands)"

text \<open>Steps 6 to 11, with the model at hand.\<close>

definition estimate_with_model ::
    "('m, 'e, 'r) dowhy \<Rightarrow> 'm \<Rightarrow> string \<Rightarrow> evidence_quality \<Rightarrow> nat \<Rightarrow> attribution" where
  "estimate_with_model dw m estimator ev n =
     (case dw_identify dw m of
        None \<Rightarrow> (abstain NOT_IDENTIFIABLE ''unidentified_effect'' n)\<lparr>ar_assumptions := DEFAULT_CAUSAL_ASSUMPTIONS\<rparr>
      | Some estimand \<Rightarrow>
          (case estimand of
             Some e \<Rightarrow>
               (if \<not> is_identified estimator (dw_estimands dw e)
                then (abstain NOT_IDENTIFIABLE
                       (if starts_with estimator ''backdoor'' then ''unidentified_backdoor_effect'' else ''unidentified_effect'') n)
                       \<lparr>ar_assumptions := DEFAULT_CAUSAL_ASSUMPTIONS\<rparr>
                else case dw_estimate dw m e estimator of
                       None \<Rightarrow> (abstain ESTIMATION_FAILED ''estimation_failed'' n)
                                 \<lparr>ar_estimator := estimator, ar_assumptions := DEFAULT_CAUSAL_ASSUMPTIONS\<rparr>
                     | Some r \<Rightarrow>
                         (let ate = dw_value dw r;
                              lo = map_option fst (dw_interval dw r);
                              hi = map_option snd (dw_interval dw r);
                              cf = dw_counterfactual dw m r;
                              rs = map (\<lambda>name. refute ate name (dw_refute dw m e r name)) REQUIRED_REFUTERS;
                              conf = compute_attribution_confidence ate lo hi rs (Some (length REQUIRED_REFUTERS)) ev
                          in sync_confidence
                            \<lparr>ar_status = COMPLETED, ar_reason = [], ar_ate = ate, ar_ci_lower = lo, ar_ci_upper = hi,
                             ar_counterfactual = cf,
                             ar_counterfactual_status = (if cf = None then ''unavailable'' else ''available''),
                             ar_refutations = rs, ar_confidence = conf, ar_stability = Fin 0, ar_estimator = estimator,
                             ar_observation_count = n, ar_assumptions = DEFAULT_CAUSAL_ASSUMPTIONS\<rparr>))
           | None \<Rightarrow>
               (abstain NOT_IDENTIFIABLE
                  (if starts_with estimator ''backdoor'' then ''unidentified_backdoor_effect'' else ''unidentified_effect'') n)
                  \<lparr>ar_assumptions := DEFAULT_CAUSAL_ASSUMPTIONS\<rparr>))"

text \<open>The whole use case over a projection; an error it does not translate is raised.\<close>

definition estimate_causal_attribution ::
    "('m, 'e, 'r) dowhy \<Rightarrow> projection \<Rightarrow> causal_observation list \<Rightarrow> string \<Rightarrow> string \<Rightarrow> string list \<Rightarrow> string \<Rightarrow>
       evidence_quality \<Rightarrow> py_error + attribution" where
  "estimate_causal_attribution dw P obs treatment outcome covs estimator ev =
     (if treatment_or_outcome_in_cycle P then Inr (abstain INVALID_GRAPH ''cyclic_treatment_or_outcome'' (length obs))
      else case construct_causal_model dw P obs treatment outcome covs of
             Inl GraphCycleError \<Rightarrow> Inr (abstain INVALID_GRAPH ''invalid_graph_cycle'' (length obs))
           | Inl (InsufficientVariationError v) \<Rightarrow> Inr (abstain INSUFFICIENT_EVIDENCE ''no_empirical_variation'' (length obs))
           | Inl PositivityFailureError \<Rightarrow> Inr (abstain INSUFFICIENT_EVIDENCE ''positivity_failure'' (length obs))
           | Inl CausalModelConstructionError \<Rightarrow> Inr (abstain INVALID_GRAPH ''model_construction_error'' (length obs))
           | Inl (RaisedError e) \<Rightarrow> Inl e
           | Inr m \<Rightarrow> Inr (estimate_with_model dw m estimator ev (length obs)))"

section \<open>What a result means\<close>

definition unit_float :: "pyfloat \<Rightarrow> bool" where
  "unit_float x \<longleftrightarrow> (\<exists>r. x = Fin r \<and> 0 \<le> r \<and> r \<le> 1)"

lemma confidence_unit: "unit_float (compute_attribution_confidence ate lo hi rs required ev)"
  using clamp_unit by (auto simp: compute_attribution_confidence_def unit_float_def Let_def split: option.split)

lemma sync_confidence_simps [simp]:
  "ar_status (sync_confidence r) = ar_status r" "ar_reason (sync_confidence r) = ar_reason r" "ar_ate (sync_confidence r) = ar_ate r"
  by (simp_all add: sync_confidence_def)

lemma sync_confidence_new [simp]: "ar_stability r = Fin 0 \<Longrightarrow> ar_confidence (sync_confidence r) = ar_confidence r"
  "ar_stability r = Fin 0 \<Longrightarrow> ar_stability (sync_confidence r) = ar_confidence r"
  by (auto simp: sync_confidence_def zero_float_def)

definition identified :: "('m, 'e, 'r) dowhy \<Rightarrow> 'm \<Rightarrow> string \<Rightarrow> bool" where
  "identified dw m estimator \<longleftrightarrow> (\<exists>e. dw_identify dw m = Some (Some e) \<and> is_identified estimator (dw_estimands dw e))"

lemma estimate_with_model_cases:
  "(ar_status (estimate_with_model dw m estimator ev n) = COMPLETED \<and> identified dw m estimator \<and>
     ar_reason (estimate_with_model dw m estimator ev n) = [] \<and>
     unit_float (ar_confidence (estimate_with_model dw m estimator ev n)) \<and>
     ar_stability (estimate_with_model dw m estimator ev n) = ar_confidence (estimate_with_model dw m estimator ev n)) \<or>
   (ar_status (estimate_with_model dw m estimator ev n) \<in> {NOT_IDENTIFIABLE, ESTIMATION_FAILED} \<and>
     ar_reason (estimate_with_model dw m estimator ev n) \<noteq> [] \<and> ar_ate (estimate_with_model dw m estimator ev n) = None \<and>
     ar_confidence (estimate_with_model dw m estimator ev n) = Fin 0)"
  by (auto simp: estimate_with_model_def identified_def abstain_def confidence_unit Let_def split: option.split)

lemma construct_Inr_iff:
  "construct_causal_model dw P obs treatment outcome covs = Inr m \<longleftrightarrow>
     \<not> treatment_or_outcome_in_cycle P \<and>
     (let rows = map (table_row treatment outcome covs) obs; dag = build_scm_graph P treatment outcome covs
      in rows \<noteq> [] \<and> 2 \<le> nunique treatment rows \<and> 2 \<le> nunique outcome rows \<and>
         check_positivity (dw_qcut dw) rows treatment covs \<and> dw_is_dag dw dag \<and> dw_model dw rows treatment outcome dag = Some m)"
  by (auto simp: construct_causal_model_def build_causal_data_table_def Let_def split: option.split)

lemma positivity_strata:
  assumes "check_positivity qcut rows treatment covs" and "covs \<noteq> []" and "None \<notin> set k"
    and "S = filter (\<lambda>row. stratum_key covs row = k) (discretize qcut covs rows)" and "2 \<le> length S"
  shows "real (length S) / 20 \<le> real (count_value treatment 1 S) \<and> real (length S) / 20 \<le> real (count_value treatment 0 S)"
proof -
  let ?kept = "filter (\<lambda>r. None \<notin> set (stratum_key covs r)) (discretize qcut covs rows)"
  have "filter (\<lambda>row. stratum_key covs row = k) ?kept = S"
    using assms(3,4) by (auto simp: intro!: filter_cong)
  moreover from this have "k \<in> stratum_key covs ` set ?kept"
    using assms(5) by (cases S) (force simp: filter_eq_Cons_iff)+
  ultimately have "S \<in> set (strata covs (discretize qcut covs rows))" by (auto simp: strata_def Let_def)
  then have "stratum_overlaps treatment (1 / 20) S"
    using assms(1,2) by (simp add: check_positivity_def list_all_iff)
  then show ?thesis using assms(5) by (cases S) (auto simp: stratum_overlaps_def field_simps not_less)
qed

text \<open>
  C36: A completed attribution rests on observations whose treatment and outcome vary, on overlap, on an acyclic
  model that DoWhy accepted, and on an identified effect. Overlap means that among the rows with equal
  covariates, in quartiles where a covariate has more than four values, at least one twentieth is treated and
  one twentieth is not, wherever there are two such rows or more; smaller strata are not checked. Every other
  result has no effect, confidence 0 and a reason. The confidence always lies between 0 and 1.
\<close>

theorem attribution_sound:
  assumes "estimate_causal_attribution dw P obs treatment outcome covs estimator ev = Inr r"
  shows "if ar_status r = COMPLETED
    then (\<exists>m. dw_model dw (map (table_row treatment outcome covs) obs) treatment outcome (build_scm_graph P treatment outcome covs) = Some m \<and>
            identified dw m estimator) \<and>
         2 \<le> nunique treatment (map (table_row treatment outcome covs) obs) \<and>
         2 \<le> nunique outcome (map (table_row treatment outcome covs) obs) \<and>
         (covs \<noteq> [] \<longrightarrow> (\<forall>k S. None \<notin> set k \<longrightarrow>
            S = filter (\<lambda>row. stratum_key covs row = k) (discretize (dw_qcut dw) covs (map (table_row treatment outcome covs) obs)) \<longrightarrow>
            2 \<le> length S \<longrightarrow>
            real (length S) / 20 \<le> real (count_value treatment 1 S) \<and> real (length S) / 20 \<le> real (count_value treatment 0 S))) \<and>
         dw_is_dag dw (build_scm_graph P treatment outcome covs) \<and>
         ar_reason r = [] \<and> unit_float (ar_confidence r) \<and> ar_stability r = ar_confidence r
    else ar_status r \<noteq> AMBIGUOUS_COMPONENT \<and> ar_reason r \<noteq> [] \<and> ar_ate r = None \<and> ar_confidence r = Fin 0"
proof (cases "construct_causal_model dw P obs treatment outcome covs")
  case (Inl e)
  then show ?thesis
    using assms by (cases e) (auto simp: estimate_causal_attribution_def abstain_def split: if_splits)
next
  case (Inr m)
  note made = Inr [unfolded construct_Inr_iff Let_def]
  have r: "r = estimate_with_model dw m estimator ev (length obs)"
    using assms made by (simp add: estimate_causal_attribution_def Inr)
  have "check_positivity (dw_qcut dw) (map (table_row treatment outcome covs) obs) treatment covs" using made by simp
  note overlap = positivity_strata [OF this]
  show ?thesis
  proof (cases "ar_status r = COMPLETED")
    case True
    then show ?thesis
      using made estimate_with_model_cases [of dw m estimator ev "length obs"] r overlap by simp
  next
    case False
    then show ?thesis using estimate_with_model_cases [of dw m estimator ev "length obs"] r by auto
  qed
qed

text \<open>
  Without observations the table has no columns, and the exception of reading one escapes.\<close>

theorem no_observations_raise:
  assumes "\<not> treatment_or_outcome_in_cycle P"
  shows "estimate_causal_attribution dw P [] treatment outcome covs estimator ev = Inl KeyError"
  using assms by (simp add: estimate_causal_attribution_def construct_causal_model_def build_causal_data_table_def)

lemma nunique_single: "nunique c [row] < 2"
  by (simp add: nunique_def List.map_filter_def)

lemma one_observation_insufficient:
  "\<not> treatment_or_outcome_in_cycle P \<Longrightarrow>
     estimate_causal_attribution dw P [obs] treatment outcome covs estimator ev =
       Inr (abstain INSUFFICIENT_EVIDENCE ''no_empirical_variation'' 1)"
  using nunique_single
  by (simp add: estimate_causal_attribution_def construct_causal_model_def build_causal_data_table_def Let_def)

section \<open>The confidence score\<close>

text \<open>
  On finite rates within 0 and 1 the score is the product of its penalties: the share of events that was
  not lost, the share of resolved identities, one half for an unverified contract, the width of the
  interval down to three tenths, and the share of passed refutations among those required.
\<close>

theorem confidence_product:
  assumes "event_loss_rate ev = Fin l" "identity_resolution_rate ev = Fin d" "0 \<le> l" "l \<le> 1" "0 \<le> d" "d \<le> 1"
    and "length rs \<le> n" "0 < n" "x \<le> y"
  shows "compute_attribution_confidence (Some (Fin a)) (Some (Fin x)) (Some (Fin y)) rs (Some n) ev =
    Fin ((1 - l) * d * (if contract_verified ev then 1 else 1 / 2) *
      (if 1 / 2 < y - x then max (3 / 10) (1 - (y - x)) else 1) * (real (length (filter rf_passed rs)) / real n))"
proof -
  define c where "c = (if contract_verified ev then 1 else 1 / 2 :: real)"
  define w where "w = (if 1 / 2 < y - x then max (3 / 10) (1 - (y - x)) else 1)"
  define p where "p = real (length (filter rf_passed rs)) / real n"
  have ci: "ci_factor (Some (Fin x)) (Some (Fin y)) = Fin w"
    by (simp add: ci_factor_def w_def py_max_def max_def Let_def)
  have p: "refutation_factor rs (Some n) = p" "0 \<le> p" "p \<le> 1"
    using assms(7,8) length_filter_le [of rf_passed rs]
    by (simp_all add: refutation_factor_def p_def max_def Let_def divide_le_eq del: length_filter_le)
  have l: "py_max (Fin 0) (Fin 1 - event_loss_rate ev) = Fin (1 - l)"
    using assms(1,4) by (simp add: py_max_def)
  have v: "(if contract_verified ev then z else z * Fin (1 / 2)) = z * Fin c" if "z = Fin r" for z r
    using that by (simp add: c_def)
  have "0 \<le> c" "c \<le> 1" "0 \<le> w" "w \<le> 1"
    using assms(9) by (auto simp: c_def w_def)
  then have "0 \<le> (1 - l) * d * c * w * p" "(1 - l) * d * c * w * p \<le> 1"
    using assms(3-6) p(2,3) by (simp_all add: mult_le_one)
  then have "py_max (Fin 0) (py_min (Fin 1) (Fin ((1 - l) * d * c * w * p))) = Fin ((1 - l) * d * c * w * p)"
    by (rule clamp_Fin)
  then show ?thesis
    unfolding c_def [symmetric] w_def [symmetric] p_def [symmetric]
    by (simp add: compute_attribution_confidence_def Let_def l assms(2) ci p(1) c_def split: if_split_asm)
qed

text \<open>
  An identity rate that is not a number makes the score 1, the highest there is.\<close>

theorem confidence_nan:
  assumes "identity_resolution_rate ev = NaN"
  shows "compute_attribution_confidence (Some (Fin a)) lo hi rs required ev = Fin 1"
  using assms by (simp add: compute_attribution_confidence_def Let_def)

section \<open>Positivity without overlap\<close>

lemma distinct_filter_key: "distinct (map f xs) \<Longrightarrow> length (filter (\<lambda>x. f x = k) xs) < 2"
proof (induction xs)
  case (Cons x xs)
  show ?case
  proof (cases "f x = k")
    case True
    then have "filter (\<lambda>x. f x = k) xs = []"
      using Cons.prems by (fastforce simp: filter_empty_conv intro: rev_image_eqI)
    with True show ?thesis by simp
  qed (use Cons in simp)
qed simp

text \<open>
  A stratum of one observation is skipped: when every observation has covariates of its own, the check
  passes although no stratum holds both a treated and a control observation.
\<close>

theorem positivity_vacuous:
  assumes "covs \<noteq> []" "distinct (map (stratum_key covs) (discretize qcut covs rows))"
  shows "check_positivity qcut rows treatment covs"
proof -
  have "length (filter (\<lambda>r. stratum_key covs r = k) (filter Q (discretize qcut covs rows))) < 2" for k Q
    using assms(2) by (intro distinct_filter_key) (simp add: distinct_map_filter)
  then show ?thesis
    using assms(1) by (auto simp: check_positivity_def strata_def list_all_iff stratum_overlaps_def Let_def)
qed

section \<open>The edges of the structural model\<close>

lemma scm_edges_iff:
  "(a, b) \<in> scm_edges (build_scm_graph P treatment outcome covs) \<longleftrightarrow>
     (let vars = {treatment, outcome} \<union> set covs \<union> fst ` set (projected_nodes P)
      in (a, b) \<in> projected_pairs P \<and> a \<in> vars \<and> b \<in> vars \<and> \<not> (b = treatment \<and> is_post_treatment_mediator a)) \<or>
     a = treatment \<and> b = outcome \<or>
     a \<in> set covs \<and> \<not> is_post_treatment_mediator a \<and> (b = treatment \<or> b = outcome)"
  by (auto simp: build_scm_graph_def Let_def)

text \<open>
  No mediator ever points at the treatment, unless it is the treatment or the outcome is the treatment.\<close>

lemma mediators_not_into_treatment:
  "(a, treatment) \<in> scm_edges (build_scm_graph P treatment outcome covs) \<Longrightarrow> treatment \<noteq> outcome \<Longrightarrow> \<not> is_post_treatment_mediator a"
  by (auto simp: scm_edges_iff)

text \<open>
  The edge of a mediator to the outcome stays.\<close>

lemma mediator_into_outcome:
  "(a, outcome) \<in> projected_pairs P \<Longrightarrow> a \<in> fst ` set (projected_nodes P) \<Longrightarrow> treatment \<noteq> outcome \<Longrightarrow>
     (a, outcome) \<in> scm_edges (build_scm_graph P treatment outcome covs)"
  by (auto simp: scm_edges_iff Let_def)

definition typed_graph :: "'g multigraph \<Rightarrow> 'g \<Rightarrow> bool" where
  "typed_graph nx g \<longleftrightarrow> (\<forall>k \<in> set (mg_nodes nx g). \<exists>ty. na_type (mg_node nx g k) = Some (node_type_value ty))"

lemma semantic_of_value [simp]: "semantic_of (node_type_value ty) = NODE_TYPE_TO_SEMANTIC ty"
  by (cases ty) (simp_all add: semantic_of_def node_types_def)

lemma projected_pairs_variables:
  assumes "multigraph_library nx ok" "env_nx env = nx" "ok (graph b)" "typed_graph nx (graph b)"
    and "(x, y) \<in> projected_pairs (project_to_temporal_dag env scc t o' n tenant b)"
  shows "x \<in> range NODE_TYPE_TO_SEMANTIC \<and> y \<in> range NODE_TYPE_TO_SEMANTIC"
proof -
  obtain w w' where "((x, w), (y, w')) \<in> set (projected_edges (project_to_temporal_dag env scc t o' n tenant b))"
    using assms(5) by (auto simp: projected_pairs_def)
  then obtain u v e where uv: "(u, v, e) \<in> set (mg_edges nx (graph b))"
      and xy: "variable_of nx (graph b) u = x" "variable_of nx (graph b) v = y"
    unfolding projected_edges_iff assms(2) by blast
  have "u \<in> set (mg_nodes nx (graph b)) \<and> v \<in> set (mg_nodes nx (graph b))"
    using uv multigraph_library.succ_nodes [OF assms(1,3)] by (auto simp: mg_edges_def)
  then show ?thesis
    using assms(4) xy unfolding typed_graph_def variable_of_def by (metis optional_simps(2) rangeI semantic_of_value)
qed

text \<open>
  The default treatment is no variable of the dependency graph: whatever was observed, its causes in the
  structural model are the given covariates that are no mediators and its only effect is the outcome. The
  graph contributes nothing to the adjustment.
\<close>

theorem default_treatment_isolated:
  assumes "multigraph_library nx ok" "env_nx env = nx" "ok (graph b)" "typed_graph nx (graph b)"
    and "T = ''component_version_treatment''" "T \<notin> set covs" "outcome \<noteq> T"
    and "G = build_scm_graph (project_to_temporal_dag env scc T outcome n tenant b) T outcome covs"
  shows "{a. (a, T) \<in> scm_edges G} = {c \<in> set covs. \<not> is_post_treatment_mediator c} \<and> {y. (T, y) \<in> scm_edges G} = {outcome}"
proof -
  have "NODE_TYPE_TO_SEMANTIC ty \<noteq> T" for ty
    by (cases ty) (simp_all add: assms(5))
  then have "(a, T) \<notin> projected_pairs (project_to_temporal_dag env scc T outcome n tenant b)"
      "(T, a) \<notin> projected_pairs (project_to_temporal_dag env scc T outcome n tenant b)" for a
    using projected_pairs_variables [OF assms(1-4), of _ _ scc T outcome n tenant] by fastforce+
  then show ?thesis
    using assms(6,7) by (auto simp: assms(8) scm_edges_iff Let_def)
qed

section \<open>Concrete inputs\<close>

definition demo_dowhy :: "(unit, unit, unit) dowhy" where
  "demo_dowhy =
     \<lparr>dw_qcut = id, dw_is_dag = (\<lambda>g. True), dw_model = (\<lambda>rows t y g. Some ()), dw_identify = (\<lambda>m. Some (Some ())),
      dw_estimands = (\<lambda>e. [(''backdoor'', True)]), dw_estimate = (\<lambda>m e s. Some ()), dw_value = (\<lambda>r. Some (Fin 1)),
      dw_interval = (\<lambda>r. Some (Fin 1, Fin 1)), dw_counterfactual = (\<lambda>m r. None),
      dw_refute = (\<lambda>m e r name. Some (Some (if name = ''placebo_treatment_refuter'' then Fin 0 else Fin 1), None))\<rparr>"

definition demo_projection :: projection where
  "demo_projection = \<lparr>projected_nodes = [], projected_edges = [], excluded_edges = [], treatment_or_outcome_in_cycle = False, sccs = []\<rparr>"

definition demo_observation :: "int \<Rightarrow> causal_observation" where
  "demo_observation i = hd (observations (build_from_run_manifest_only Some 1 demo_run None ''purl''))
     \<lparr>treatment_value := i, outcome_value := i, covariates := [(''c'', real_of_int i)]\<rparr>"

lemma demo_observation_reads [simp]:
  "treatment_value (demo_observation i) = i" "outcome_value (demo_observation i) = i"
  "covariates (demo_observation i) = [(''c'', real_of_int i)]"
  by (simp_all add: demo_observation_def)

definition demo_quality :: evidence_quality where
  "demo_quality = \<lparr>event_loss_rate = Fin (1 / 2), identity_resolution_rate = Fin 1, contract_verified = False\<rparr>"

definition demo_table :: "table_row list" where
  "demo_table =
     [[(''t'', Some 0), (''y'', Some 0), (''c'', Some 0)], [(''t'', Some 1), (''y'', Some 1), (''c'', Some 1)]]"

lemma demo_table_reads:
  "map (table_row ''t'' ''y'' [''c'']) [demo_observation 0, demo_observation 1] = demo_table"
  "discretize id [''c''] demo_table = demo_table" "nunique ''t'' demo_table = 2" "nunique ''y'' demo_table = 2"
  "map (stratum_key [''c'']) demo_table = [[Some 0], [Some 1]]" "demo_table \<noteq> []"
  by (simp_all add: demo_table_def table_row_def dict_set_def dict_get_def discretize_def nunique_def cell_def
      stratum_key_def List.map_filter_def)

text \<open>The same two observations with equal covariates: one stratum in which both treatments occur.\<close>

definition overlap_observation :: "int \<Rightarrow> causal_observation" where
  "overlap_observation i = (demo_observation i)\<lparr>covariates := [(''c'', 0)]\<rparr>"

definition overlap_table :: "table_row list" where
  "overlap_table =
     [[(''t'', Some 0), (''y'', Some 0), (''c'', Some 0)], [(''t'', Some 1), (''y'', Some 1), (''c'', Some 0)]]"

lemma overlap_table_reads:
  "map (table_row ''t'' ''y'' [''c'']) [overlap_observation 0, overlap_observation 1] = overlap_table"
  "discretize id [''c''] overlap_table = overlap_table" "nunique ''t'' overlap_table = 2" "nunique ''y'' overlap_table = 2"
  "filter (\<lambda>row. stratum_key [''c''] row = [Some 0]) overlap_table = overlap_table" "overlap_table \<noteq> []"
  "strata [''c''] overlap_table = [overlap_table]" "length overlap_table = 2"
  by (simp_all add: overlap_table_def overlap_observation_def table_row_def dict_set_def dict_get_def discretize_def nunique_def cell_def
      stratum_key_def List.map_filter_def strata_def Let_def)

lemma overlap_positivity: "check_positivity id overlap_table ''t'' [''c'']"
  unfolding check_positivity_def overlap_table_reads
  by (simp add: stratum_overlaps_def overlap_table_def count_value_def cell_def dict_get_def)

lemma overlap_attribution:
  "\<exists>r. estimate_causal_attribution demo_dowhy demo_projection [overlap_observation 0, overlap_observation 1] ''t'' ''y'' [''c'']
     ''backdoor.linear_regression'' demo_quality = Inr r \<and> ar_status r = COMPLETED"
proof -
  have "construct_causal_model demo_dowhy demo_projection [overlap_observation 0, overlap_observation 1] ''t'' ''y'' [''c''] = Inr ()"
    unfolding construct_Inr_iff overlap_table_reads Let_def using overlap_positivity
    by (simp add: overlap_table_reads demo_dowhy_def demo_projection_def)
  then show ?thesis
    by (simp add: estimate_causal_attribution_def demo_projection_def)
      (simp add: estimate_with_model_def demo_dowhy_def is_identified_def starts_with_def dict_get_def Let_def)
qed

theorem attribution_sound_witness:
  "\<exists>r. estimate_causal_attribution demo_dowhy demo_projection [overlap_observation 0, overlap_observation 1] ''t'' ''y'' [''c'']
     ''backdoor.linear_regression'' demo_quality = Inr r \<and> identified demo_dowhy () ''backdoor.linear_regression'' \<and>
     unit_float (ar_confidence r) \<and> 1 / 10 \<le> real (count_value ''t'' 1 overlap_table) \<and> 1 / 10 \<le> real (count_value ''t'' 0 overlap_table)"
proof -
  obtain r where r: "estimate_causal_attribution demo_dowhy demo_projection [overlap_observation 0, overlap_observation 1] ''t'' ''y''
      [''c''] ''backdoor.linear_regression'' demo_quality = Inr r" "ar_status r = COMPLETED"
    using overlap_attribution by blast
  have "dw_qcut demo_dowhy = id" by (simp add: demo_dowhy_def)
  note sound = attribution_sound [OF r(1), unfolded overlap_table_reads this, unfolded if_P [OF r(2)]]
  have "real (length overlap_table) / 20 \<le> real (count_value ''t'' 1 overlap_table) \<and>
      real (length overlap_table) / 20 \<le> real (count_value ''t'' 0 overlap_table)"
    using sound overlap_table_reads(5,8) by (metis list.set(1) list.set(2) insert_iff empty_iff list.distinct(1) option.distinct(1) order_refl)
  then show ?thesis
    using r sound overlap_table_reads(8) by auto
qed

theorem no_observations_raise_witness:
  "estimate_causal_attribution demo_dowhy demo_projection [] ''t'' ''y'' [] ''backdoor.linear_regression'' demo_quality = Inl KeyError"
  by (rule no_observations_raise) (simp add: demo_projection_def)

theorem confidence_product_witness:
  "compute_attribution_confidence (Some (Fin 2)) (Some (Fin 0)) (Some (Fin (3 / 5)))
     [refute (Some (Fin 2)) ''random_common_cause'' None, refute (Some (Fin 2)) ''data_subset_refuter'' (Some (Some (Fin 2), None))]
     (Some 2) demo_quality = Fin (1 / 20)"
  by (subst confidence_product [where l = "1 / 2" and d = 1])
     (simp_all add: demo_quality_def refute_def refutation_passed_def zero_float_def Let_def)

theorem confidence_nan_witness:
  "compute_attribution_confidence (Some (Fin 2)) None None [] (Some 3)
     \<lparr>event_loss_rate = Fin 0, identity_resolution_rate = NaN, contract_verified = True\<rparr> = Fin 1"
  by (rule confidence_nan) simp

theorem positivity_vacuous_witness:
  "check_positivity id (map (table_row ''t'' ''y'' [''c'']) [demo_observation 0, demo_observation 1]) ''t'' [''c'']"
  unfolding demo_table_reads(1) by (rule positivity_vacuous) (simp_all add: demo_table_reads)

lemma demo_typed: "typed_graph list_graph (graph demo_bdg)" "lg_ok (graph demo_bdg)"
  using lg.new_bdg_wf(1) [of "1 / 2" 1 300]
  by (simp_all add: typed_graph_def demo_bdg_def bdg_wf_def) (simp add: new_bdg_def lg.read_after_write)

theorem default_treatment_isolated_witness:
  "{a. (a, ''component_version_treatment'') \<in> scm_edges (build_scm_graph
      (project_to_temporal_dag demo_env reach_classes ''component_version_treatment'' ''runtime_sbom_drift'' 10 None demo_bdg)
      ''component_version_treatment'' ''runtime_sbom_drift'' [])} = {}"
  using default_treatment_isolated [OF lg.multigraph_library_axioms, of demo_env demo_bdg "''component_version_treatment''" "[]"
      "''runtime_sbom_drift''" _ reach_classes 10 None] demo_typed
  by (simp add: demo_facts)

end
