(* ===== verification/Causal_Analysis.thy ===== *)
theory Causal_Analysis
  imports Causal_Validation Causal_Attribution
begin

text \<open>
  The analysis of experiment runs, \<open>application/run_analysis.py\<close> of the causal engine: one run is turned
  into observations, gated, and attributed only when every gate passes; a summary adds reports up.

  The attribution is that of \<open>Causal_Attribution\<close> over an empty dependency graph, as the code has it;
  \<open>engine\<close> is \<open>None\<close> when it cannot be imported. Explanations are left out.
\<close>

section \<open>Counting\<close>

definition tally :: "('k, nat) dict \<Rightarrow> 'k \<Rightarrow> ('k, nat) dict" where
  "tally d k = dict_set d k (optional 0 (dict_get d k) + 1)"

definition add_count :: "('k, nat) dict \<Rightarrow> 'k \<times> nat \<Rightarrow> ('k, nat) dict" where
  "add_count d = (\<lambda>(k, n). dict_set d k (optional 0 (dict_get d k) + n))"

section \<open>One run\<close>

record analysis_report =
  rp_run_id :: string
  rp_scenario_id :: string
  rp_run_completed :: bool
  rp_injection_succeeded :: "bool option"
  rp_ground_truth :: int
  rp_built :: nat
  rp_excluded :: nat
  rp_status_counts :: "(string, nat) dict"
  rp_evidence_ids :: "string list"
  rp_drift_outcome :: string
  rp_drift_score :: "real option"
  rp_preflight_passed :: bool
  rp_blocker_gate :: string
  rp_blocker_reason :: string
  rp_attempted :: bool
  rp_status :: string
  rp_reason :: string
  rp_ate :: "pyfloat option"
  rp_assumptions :: "string list"
  rp_insufficiencies :: "builder_insufficiency list"
  rp_provenance :: "window_provenance list"
  rp_missing :: "string list"

definition real_estimate_produced :: "analysis_report \<Rightarrow> bool" where
  "real_estimate_produced r \<longleftrightarrow> rp_attempted r \<and> rp_status r = ''completed'' \<and> rp_ate r \<noteq> None"

definition new_report :: "run_manifest \<Rightarrow> analysis_report" where
  "new_report m =
     \<lparr>rp_run_id = run_id m, rp_scenario_id = attack_id m, rp_run_completed = run_completed m,
      rp_injection_succeeded = injection_succeeded m, rp_ground_truth = ground_truth_label m, rp_built = 0, rp_excluded = 0,
      rp_status_counts = [], rp_evidence_ids = [], rp_drift_outcome = [], rp_drift_score = None, rp_preflight_passed = False,
      rp_blocker_gate = [], rp_blocker_reason = [], rp_attempted = False, rp_status = [], rp_reason = [], rp_ate = None,
      rp_assumptions = [], rp_insufficiencies = [], rp_provenance = [], rp_missing = []\<rparr>"

text \<open>What estimation draws on: DoWhy, the graph library and the components of NetworkX.\<close>

record ('g, 'm, 'e, 'r) engine =
  en_dowhy :: "('m, 'e, 'r) dowhy"
  en_env :: "'g bdg_env"
  en_scc :: "window_var list \<Rightarrow> (window_var \<times> window_var) list \<Rightarrow> window_var list list"

definition default_quality :: evidence_quality where
  "default_quality = \<lparr>event_loss_rate = Fin 0, identity_resolution_rate = Fin 1, contract_verified = True\<rparr>"

text \<open>An exception of the pipeline becomes a result; those the pipeline itself translates never arrive here.\<close>

definition attempt_estimation ::
    "('g, 'm, 'e, 'r) engine option \<Rightarrow> observation_batch \<Rightarrow> string \<Rightarrow> string list \<Rightarrow> attribution option" where
  "attempt_estimation engine batch estimator covs =
     (case engine of
        None \<Rightarrow> None
      | Some en \<Rightarrow>
          (let b = new_bdg (env_nx (en_env en)) (95 / 100) 300 100;
               P = project_to_temporal_dag (en_env en) (en_scc en) ''component_version_treatment'' ''runtime_sbom_drift'' 10 None b
           in case estimate_causal_attribution (en_dowhy en) P (observations batch) ''component_version_treatment''
                     ''runtime_sbom_drift'' covs estimator default_quality of
                Inl e \<Rightarrow> Some ((abstain ESTIMATION_FAILED ''estimation_failed'' (length (observations batch)))
                                \<lparr>ar_assumptions := DEFAULT_CAUSAL_ASSUMPTIONS\<rparr>)
              | Inr r \<Rightarrow> Some r))"

text \<open>\<open>drift\<close> is a non-empty drift result: its outcome and its score, where it has them.\<close>

definition analyse_run ::
    "('g, 'm, 'e, 'r) engine option \<Rightarrow> (string \<Rightarrow> string option) \<Rightarrow> nat \<Rightarrow> run_manifest \<Rightarrow> bdg_node list option \<Rightarrow>
       (string option \<times> real option) option \<Rightarrow> string \<Rightarrow> string list \<Rightarrow> analysis_report" where
  "analyse_run engine parse_uuid minimum m nodes drift estimator covs =
     (let batch = build_from_run_manifest_only parse_uuid minimum m nodes ''purl'';
          preflight = run_preflight_checks (batch_preflight minimum batch);
          report = (new_report m)
            \<lparr>rp_built := included_count batch, rp_excluded := excluded_count batch,
             rp_insufficiencies := insufficiencies batch, rp_provenance := provenance_records batch,
             rp_missing := concat (map bi_missing_fields (insufficiencies batch)),
             rp_status_counts := foldl tally [] (treatment_mapping_statuses batch),
             rp_evidence_ids := treatment_evidence_ids batch,
             rp_drift_outcome := (case drift of None \<Rightarrow> [] | Some (outcome, score) \<Rightarrow> optional [] outcome),
             rp_drift_score := (case drift of None \<Rightarrow> None | Some (outcome, score) \<Rightarrow> score),
             rp_preflight_passed := passed preflight,
             rp_blocker_gate := (case first_blocker preflight of None \<Rightarrow> [] | Some g \<Rightarrow> gate_name g),
             rp_blocker_reason := (case first_blocker preflight of None \<Rightarrow> [] | Some g \<Rightarrow> reason g)\<rparr>
      in if \<not> passed preflight
         then report\<lparr>rp_attempted := False,
                rp_status := (case first_blocker preflight of
                    Some g \<Rightarrow> (if truthy_text (suggested_status g) then the (suggested_status g) else ''insufficient_evidence'')
                  | None \<Rightarrow> ''insufficient_evidence''),
                rp_reason := (case first_blocker preflight of Some g \<Rightarrow> reason g | None \<Rightarrow> ''preflight_failed''),
                rp_assumptions := []\<rparr>
         else case attempt_estimation engine batch estimator covs of
                Some r \<Rightarrow> report\<lparr>rp_attempted := True, rp_status := attribution_status_value (ar_status r),
                            rp_reason := ar_reason r, rp_ate := ar_ate r, rp_assumptions := ar_assumptions r\<rparr>
              | None \<Rightarrow> report\<lparr>rp_attempted := True, rp_status := ''dependency_unavailable'',
                            rp_reason := ''dowhy_unavailable'', rp_ate := None, rp_assumptions := []\<rparr>)"

section \<open>The summary\<close>

record pipeline_summary =
  total_runs :: nat
  attack_runs :: nat
  benign_runs :: nat
  completed_runs :: nat
  failed_injection_runs :: nat
  sufficient_batches :: nat
  preflight_passed_count :: nat
  attempted_count :: nat
  completed_count :: nat
  real_estimates :: nat
  status_totals :: "(string, nat) dict"
  reason_counts :: "(string, nat) dict"
  missing_data_fields :: "string list"

definition empty_summary :: "nat \<Rightarrow> pipeline_summary" where
  "empty_summary n =
     \<lparr>total_runs = n, attack_runs = 0, benign_runs = 0, completed_runs = 0, failed_injection_runs = 0, sufficient_batches = 0,
      preflight_passed_count = 0, attempted_count = 0, completed_count = 0, real_estimates = 0, status_totals = [],
      reason_counts = [], missing_data_fields = []\<rparr>"

definition count_if :: "bool \<Rightarrow> nat \<Rightarrow> nat" where
  "count_if P n = (if P then n + 1 else n)"

definition summarise_report :: "pipeline_summary \<Rightarrow> analysis_report \<Rightarrow> pipeline_summary" where
  "summarise_report s r =
     s\<lparr>attack_runs := count_if (rp_ground_truth r = 1) (attack_runs s),
       benign_runs := count_if (rp_ground_truth r \<noteq> 1 \<and> rp_ground_truth r = 0) (benign_runs s),
       completed_runs := count_if (rp_run_completed r) (completed_runs s),
       failed_injection_runs := count_if (rp_injection_succeeded r = Some False) (failed_injection_runs s),
       sufficient_batches := count_if (rp_built r \<ge> 10) (sufficient_batches s),
       preflight_passed_count := count_if (rp_preflight_passed r) (preflight_passed_count s),
       attempted_count := count_if (rp_attempted r) (attempted_count s),
       completed_count := count_if (rp_status r = ''completed'') (completed_count s),
       real_estimates := count_if (real_estimate_produced r) (real_estimates s),
       status_totals := foldl add_count (status_totals s) (rp_status_counts r),
       reason_counts := (if rp_reason r \<noteq> [] then tally (reason_counts s) (rp_reason r) else reason_counts s)\<rparr>"

definition from_reports :: "analysis_report list \<Rightarrow> pipeline_summary" where
  "from_reports rs =
     (foldl summarise_report (empty_summary (length rs)) rs)
       \<lparr>missing_data_fields := sort (remdups (concat (map rp_missing rs)))\<rparr>"

section \<open>What the analysis of a run reports\<close>

lemma single_run_length: "length (observations (build_from_run_manifest_only u n m nodes t)) = (if usable m then 1 else 0)"
proof -
  have "length (map obs_row (observations (build_from_run_manifest_only u n m nodes t))) = (if usable m then 1 else 0)"
    unfolding single_run(3) by simp
  then show ?thesis by simp
qed

lemma single_run_observations:
  "\<exists>os. observations (build_from_run_manifest_only u n m nodes t) = os \<and> length os \<le> 1 \<and>
     (os \<noteq> [] \<longleftrightarrow> usable m) \<and> (\<forall>obs \<in> set os. outcome_value obs = 1 \<longleftrightarrow> fst (classify_run_outcome m) = POSITIVE)"
proof -
  have rows: "map obs_row (observations (build_from_run_manifest_only u n m nodes t)) = (if usable m then [row_of t m] else [])"
    by (rule single_run(3))
  have "outcome_value obs = 1 \<longleftrightarrow> fst (classify_run_outcome m) = POSITIVE"
    if "obs \<in> set (observations (build_from_run_manifest_only u n m nodes t))" for obs
  proof -
    have "obs_row obs \<in> set (if usable m then [row_of t m] else [])"
      using that unfolding rows [symmetric] by simp
    then show ?thesis by (auto simp: obs_row_def row_of_def split: if_splits)
  qed
  then show ?thesis using single_run_length [of u n m nodes t] by (auto split: if_splits)
qed

text \<open>
  The preflight of one run.\<close>

lemma run_preflight_exactly:
  "passed (run_preflight_checks (batch_preflight k (build_from_run_manifest_only u n m nodes t))) \<longleftrightarrow>
     usable m \<and> fst (classify_run_outcome m) = POSITIVE \<and> k \<le> 1 \<and>
     (let ss = node_statuses (case nodes of None \<Rightarrow> [] | Some ns \<Rightarrow> ns)
      in ss \<noteq> [] \<and> (\<forall>s \<in> set ss. upper s \<notin> {''UNRESOLVED'', ''INVALID'', ''AMBIGUOUS''}))"
proof -
  define b where "b = build_from_run_manifest_only u n m nodes t"
  obtain os where os: "observations b = os" "length os \<le> 1" "os \<noteq> [] \<longleftrightarrow> usable m"
      "\<forall>obs \<in> set os. outcome_value obs = 1 \<longleftrightarrow> fst (classify_run_outcome m) = POSITIVE"
    using single_run_observations [of u n m nodes t] unfolding b_def by blast
  have statuses: "treatment_mapping_statuses b = node_statuses (case nodes of None \<Rightarrow> [] | Some ns \<Rightarrow> ns)" if "usable m"
    using that single_run_statuses [of u n m nodes t] failed_label [of m] by (auto simp: b_def usable_def)
  have gates: "preflight_gates (batch_preflight k b) =
      [gate_minimum_observations (included_count b) k,
       gate_outcome_present (length (filter (\<lambda>obs. outcome_value obs = 1) os)),
       gate_no_duplicate_observations (map window_index os), gate_component_mapping_quality (treatment_mapping_statuses b) True]"
    by (simp add: preflight_gates_def batch_preflight_def os(1))
  show ?thesis
  proof (cases "usable m")
    case False
    then have "os = []" using os(3) by simp
    with False show ?thesis
      unfolding preflight_fields gates [unfolded b_def] by (simp add: gate_simps)
  next
    case True
    then obtain obs where "os = [obs]"
      using os(2,3) by (cases os) auto
    with True os(4) show ?thesis
      unfolding preflight_fields gates [unfolded b_def] statuses [OF True, unfolded b_def] Let_def
      by (auto simp: gate_simps single_run(1))
  qed
qed

lemma analyse_run_fields:
  "rp_ground_truth (analyse_run engine u k m nodes drift estimator covs) = ground_truth_label m"
  "rp_run_completed (analyse_run engine u k m nodes drift estimator covs) = run_completed m"
  "rp_injection_succeeded (analyse_run engine u k m nodes drift estimator covs) = injection_succeeded m"
  "rp_built (analyse_run engine u k m nodes drift estimator covs) = (if usable m then 1 else 0)"
  "rp_attempted (analyse_run engine u k m nodes drift estimator covs) =
     rp_preflight_passed (analyse_run engine u k m nodes drift estimator covs)"
  "rp_preflight_passed (analyse_run engine u k m nodes drift estimator covs) =
     passed (run_preflight_checks (batch_preflight k (build_from_run_manifest_only u k m nodes ''purl'')))"
  by (auto simp: analyse_run_def new_report_def single_run Let_def split: option.split)

text \<open>A verdict that blocks gives a reason and a status other than success.\<close>

definition honest :: "gate_verdict \<Rightarrow> bool" where
  "honest g \<longleftrightarrow> gate_outcome_of g = PASS \<or>
     truthy_text (suggested_status g) \<and> suggested_status g \<noteq> Some ''completed'' \<and> reason g \<noteq> []"

lemma honest_block [simp]: "honest (block_gate n r s) \<longleftrightarrow> s \<noteq> [] \<and> s \<noteq> ''completed'' \<and> r \<noteq> []"
  by (simp add: honest_def block_gate_def truthy_text_def)

lemma honest_pass [simp]: "honest (pass_gate n)"
  by (simp add: honest_def pass_gate_def)

lemma honest_gates [simp]:
  "honest (gate_minimum_observations i j)" "honest (gate_unique_run_ids ids j)"
  "honest (gate_treatment_variation ts)" "honest (gate_outcome_present i)" "honest (gate_no_duplicate_observations is)"
  "honest (gate_component_mapping_quality ss a)" "honest (gate_temporal_order t y)" "honest (gate_covariates_pre_treatment cs t)"
  by (simp_all add: gate_minimum_observations_def gate_unique_run_ids_def gate_treatment_variation_def
      gate_outcome_present_def gate_no_duplicate_observations_def gate_component_mapping_quality_def gate_temporal_order_def
      gate_covariates_pre_treatment_def Let_def)

lemma blocked_status:
  assumes "first_blocker (run_preflight_checks p) = Some g"
  shows "truthy_text (suggested_status g)" "suggested_status g \<noteq> Some ''completed''" "reason g \<noteq> []"
proof -
  have g: "g \<in> set (preflight_gates p)" "gate_outcome_of g = BLOCK"
    using find_SomeD [OF assms [unfolded preflight_fields]] by simp_all
  have "\<forall>g \<in> set (preflight_gates p). honest g"
    by (auto simp: preflight_gates_def split: option.splits)
  then show "truthy_text (suggested_status g)" "suggested_status g \<noteq> Some ''completed''" "reason g \<noteq> []"
    using g by (auto simp: honest_def)
qed

lemma attempt_single:
  assumes "length (observations b) = 1" "attempt_estimation engine b estimator covs = Some r"
  shows "ar_status r \<noteq> COMPLETED \<and> ar_reason r \<noteq> []"
proof -
  obtain obs where obs: "observations b = [obs]"
    using assms(1) by (cases "observations b") auto
  obtain en where en: "engine = Some en"
    using assms(2) by (cases engine) (simp_all add: attempt_estimation_def)
  define P where "P = project_to_temporal_dag (en_env en) (en_scc en) ''component_version_treatment'' ''runtime_sbom_drift'' 10 None
    (new_bdg (env_nx (en_env en)) (95 / 100) 300 100)"
  have "estimate_causal_attribution (en_dowhy en) P [obs] ''component_version_treatment'' ''runtime_sbom_drift'' covs estimator
      default_quality = Inr (if treatment_or_outcome_in_cycle P then abstain INVALID_GRAPH ''cyclic_treatment_or_outcome'' 1
        else abstain INSUFFICIENT_EVIDENCE ''no_empirical_variation'' 1)"
    by (simp add: one_observation_insufficient) (simp add: estimate_causal_attribution_def)
  moreover note assms(2) [unfolded attempt_estimation_def en obs option.case Let_def, folded P_def]
  ultimately show ?thesis
    by (auto simp: abstain_def split: if_splits)
qed

lemma analyse_run_abstains:
  "rp_status (analyse_run engine u k m nodes drift estimator covs) \<noteq> ''completed'' \<and>
   rp_reason (analyse_run engine u k m nodes drift estimator covs) \<noteq> []"
proof (cases "passed (run_preflight_checks (batch_preflight k (build_from_run_manifest_only u k m nodes ''purl'')))")
  case False
  then obtain g where g: "first_blocker (run_preflight_checks (batch_preflight k (build_from_run_manifest_only u k m nodes ''purl''))) = Some g"
    using first_blocker_exists by blast
  show ?thesis
    using False blocked_status [OF g] by (auto simp: analyse_run_def g truthy_text_def Let_def split: option.splits)
next
  case True
  then have "usable m"
    by (simp add: run_preflight_exactly)
  then have one: "length (observations (build_from_run_manifest_only u k m nodes ''purl'')) = 1"
    by (simp add: single_run_length)
  have "attribution_status_value st = ''completed'' \<Longrightarrow> st = COMPLETED" for st
    by (cases st) simp_all
  then show ?thesis
    using True attempt_single [OF one, of engine estimator covs]
    by (cases "attempt_estimation engine (build_from_run_manifest_only u k m nodes ''purl'') estimator covs")
       (auto simp: analyse_run_def Let_def)
qed

text \<open>
  C39: A run is estimated exactly when it completed with a positive label, the minimum is at most one and the
  graph supplied a mapping status that no gate refuses. Even then no analysis of a run ever completes: a
  single observation never varies. Every report gives a reason.
\<close>

theorem analysis_never_completes:
  "(rp_attempted (analyse_run engine u k m nodes drift estimator covs) \<longleftrightarrow>
      usable m \<and> fst (classify_run_outcome m) = POSITIVE \<and> k \<le> 1 \<and>
      (let ss = node_statuses (case nodes of None \<Rightarrow> [] | Some ns \<Rightarrow> ns)
       in ss \<noteq> [] \<and> set (map upper ss) \<inter> {''UNRESOLVED'', ''INVALID'', ''AMBIGUOUS''} = {})) \<and>
   rp_status (analyse_run engine u k m nodes drift estimator covs) \<noteq> ''completed'' \<and>
   \<not> real_estimate_produced (analyse_run engine u k m nodes drift estimator covs) \<and>
   rp_reason (analyse_run engine u k m nodes drift estimator covs) \<noteq> []"
  using analyse_run_abstains [of engine u k m nodes drift estimator covs]
  by (auto simp: analyse_run_fields run_preflight_exactly real_estimate_produced_def Let_def disjoint_iff)

section \<open>What a summary adds up\<close>

lemma summarise_counts:
  "attack_runs (foldl summarise_report s rs) = attack_runs s + length (filter (\<lambda>r. rp_ground_truth r = 1) rs)"
  "benign_runs (foldl summarise_report s rs) = benign_runs s + length (filter (\<lambda>r. rp_ground_truth r = 0) rs)"
  "completed_runs (foldl summarise_report s rs) = completed_runs s + length (filter rp_run_completed rs)"
  "failed_injection_runs (foldl summarise_report s rs) =
     failed_injection_runs s + length (filter (\<lambda>r. rp_injection_succeeded r = Some False) rs)"
  "sufficient_batches (foldl summarise_report s rs) = sufficient_batches s + length (filter (\<lambda>r. rp_built r \<ge> 10) rs)"
  "preflight_passed_count (foldl summarise_report s rs) = preflight_passed_count s + length (filter rp_preflight_passed rs)"
  "attempted_count (foldl summarise_report s rs) = attempted_count s + length (filter rp_attempted rs)"
  "completed_count (foldl summarise_report s rs) = completed_count s + length (filter (\<lambda>r. rp_status r = ''completed'') rs)"
  "real_estimates (foldl summarise_report s rs) = real_estimates s + length (filter real_estimate_produced rs)"
  "total_runs (foldl summarise_report s rs) = total_runs s"
  by (induction rs arbitrary: s) (simp_all add: summarise_report_def count_if_def)

lemma tally_get: "optional 0 (dict_get (tally d k) j) = optional 0 (dict_get d j) + (if j = k then 1 else 0)"
  by (simp add: tally_def)

lemma reason_counts_get:
  "optional 0 (dict_get (reason_counts (foldl summarise_report s rs)) w) =
     optional 0 (dict_get (reason_counts s) w) + length (filter (\<lambda>r. rp_reason r = w \<and> w \<noteq> []) rs)"
  by (induction rs arbitrary: s) (auto simp: summarise_report_def tally_get)

text \<open>
  The summary of an experiment: runs are counted by label, completion and failed injection; as many
  estimations are attempted as preflights pass; no batch is sufficient, no estimation completes and no
  estimate is produced, whatever the runs, the graph data, the minimum and the engine; and the counts of
  the reasons are those of the reports.
\<close>

theorem summary_exactly:
  assumes "S = from_reports (map (\<lambda>(m, nodes). analyse_run engine u k m nodes drift estimator covs) runs)"
  shows "total_runs S = length runs \<and>
    attack_runs S = length (filter (\<lambda>(m, _). ground_truth_label m = 1) runs) \<and>
    benign_runs S = length (filter (\<lambda>(m, _). ground_truth_label m = 0) runs) \<and>
    completed_runs S = length (filter (\<lambda>(m, _). run_completed m) runs) \<and>
    failed_injection_runs S = length (filter (\<lambda>(m, _). injection_succeeded m = Some False) runs) \<and>
    attempted_count S = preflight_passed_count S \<and> sufficient_batches S = 0 \<and> completed_count S = 0 \<and> real_estimates S = 0 \<and>
    optional 0 (dict_get (reason_counts S) w) =
      length (filter (\<lambda>(m, nodes). rp_reason (analyse_run engine u k m nodes drift estimator covs) = w) runs)"
proof -
  define f where "f = (\<lambda>(m, nodes). analyse_run engine u k m nodes drift estimator covs)"
  have none: "\<not> real_estimate_produced (f x)" "rp_status (f x) \<noteq> ''completed''" "rp_reason (f x) \<noteq> []" for x
    using analyse_run_abstains [of engine u k "fst x" "snd x" drift estimator covs]
    by (auto simp: f_def real_estimate_produced_def case_prod_unfold)
  have reads: "rp_ground_truth (f x) = ground_truth_label (fst x)" "rp_run_completed (f x) = run_completed (fst x)"
      "rp_injection_succeeded (f x) = injection_succeeded (fst x)" "rp_built (f x) \<le> 1" "rp_attempted (f x) = rp_preflight_passed (f x)" for x
    by (simp_all add: f_def case_prod_unfold analyse_run_fields)
  have built: "\<not> 10 \<le> rp_built (f x)" for x
    using reads(4) [of x] by simp
  have S: "S = (foldl summarise_report (empty_summary (length runs)) (map f runs))
      \<lparr>missing_data_fields := sort (remdups (concat (map rp_missing (map f runs))))\<rparr>"
    by (simp add: assms from_reports_def f_def)
  have reasons: "(\<lambda>x. rp_reason (f x) = w \<and> w \<noteq> []) = (\<lambda>x. rp_reason (f x) = w)"
    using none(3) by auto
  show ?thesis
    unfolding f_def [symmetric]
    by (simp add: S summarise_counts reason_counts_get empty_summary_def filter_map comp_def reads(1-3,5) built none(1,2) reasons
        case_prod_unfold) (simp add: f_def case_prod_unfold)
qed

definition demo_engine :: "(lgraph, unit, unit, unit) engine" where
  "demo_engine = \<lparr>en_dowhy = demo_dowhy, en_env = demo_env, en_scc = reach_classes\<rparr>"

definition demo_nodes :: "bdg_node list" where
  "demo_nodes = [\<lparr>bn_node_type = Some ''purl'', bn_mapping_status = Some ''VERIFIED'', bn_evidence_refs = [''e1'']\<rparr>]"

theorem summary_exactly_witness:
  "real_estimates (from_reports (map (\<lambda>(m, nodes). analyse_run (Some demo_engine) Some 1 m nodes None ''backdoor.linear_regression'' [])
     [(demo_run, Some demo_nodes), (demo_run, None)])) = 0"
  using summary_exactly [OF refl, of "Some demo_engine" Some 1 None "''backdoor.linear_regression''" "[]"
      "[(demo_run, Some demo_nodes), (demo_run, None)]"] by simp

end
