(* ===== verification/Causal_Usecases.thy ===== *)
theory Causal_Usecases
  imports Causal_Snapshot Causal_Analysis
begin

text \<open>
  The use cases of the causal engine that put graph, projection and attribution together,
  \<open>application/use_cases.py\<close> with the adapter \<open>infrastructure/dowhy_estimator.py\<close>: an event is applied and a
  snapshot that was cut is stored; a model is built from the current graph; an attribution is run and
  stored. A repository is the list of what it holds; a store may fail, as a parameter says. The scoring use
  case is in \<open>Causal_Pceps\<close>.
\<close>

section \<open>Updating the graph\<close>

record stored_snapshot =
  st_snapshot :: bdg_snapshot
  st_document :: bdg_doc

record snapshot_repository =
  sr_stored :: "stored_snapshot list"
  sr_calls :: nat

text \<open>\<open>saves n\<close> says whether the \<open>n\<close>-th store succeeds; one that fails raises. A known id is not stored again.\<close>

datatype update_error = GraphError py_error | StoreError

definition save_snapshot :: "(nat \<Rightarrow> bool) \<Rightarrow> stored_snapshot \<Rightarrow> snapshot_repository \<Rightarrow> snapshot_repository \<times> update_error option" where
  "save_snapshot saves st repo =
     (let repo' = repo\<lparr>sr_calls := sr_calls repo + 1\<rparr>
      in if \<not> saves (sr_calls repo) then (repo', Some StoreError)
         else if sn_id (st_snapshot st) \<in> sn_id ` st_snapshot ` set (sr_stored repo) then (repo', None)
         else (repo'\<lparr>sr_stored := sr_stored repo @ [st]\<rparr>, None))"

definition update_bdg_execute ::
    "'g bdg_env \<Rightarrow> conversions \<Rightarrow> (nat \<Rightarrow> bool) \<Rightarrow> bdg_event \<Rightarrow> (nat \<Rightarrow> uuid) \<Rightarrow> 'g bdg \<times> snapshot_repository \<Rightarrow>
       ('g bdg \<times> snapshot_repository) \<times> (update_error + graph_mutation)" where
  "update_bdg_execute env cv saves ev drawn = (\<lambda>(b, repo).
     (case update env ev drawn b of
        (b', Inl e) \<Rightarrow> ((b', repo), Inl (GraphError e))
      | (b', Inr m) \<Rightarrow>
          (if snapshot_cut m
           then (case save_snapshot saves \<lparr>st_snapshot = last (snapshots b'), st_document = serialize_bdg (env_nx env) cv b'\<rparr> repo of
                   (repo', Some e) \<Rightarrow> ((b', repo'), Inl e)
                 | (repo', None) \<Rightarrow> ((b', repo'), Inr m))
           else ((b', repo), Inr m))))"

section \<open>Models and attributions\<close>

text \<open>\<open>BuildScmUseCase\<close>: the four errors of the pipeline become \<open>None\<close>, any other is raised.\<close>

definition build_scm_execute ::
    "('g, 'm, 'e, 'r) engine \<Rightarrow> 'g bdg \<Rightarrow> causal_observation list \<Rightarrow> string \<Rightarrow> string \<Rightarrow> string list \<Rightarrow> nat \<Rightarrow>
       py_error + 'm option" where
  "build_scm_execute en b obs treatment outcome covs n =
     (let P = project_to_temporal_dag (en_env en) (en_scc en) treatment outcome n None b
      in case construct_causal_model (en_dowhy en) P obs treatment outcome covs of
           Inr m \<Rightarrow> Inr (Some m)
         | Inl (RaisedError e) \<Rightarrow> Inl e
         | Inl _ \<Rightarrow> Inr None)"

definition confidence_band :: "pyfloat \<Rightarrow> string" where
  "confidence_band s =
     (if s \<ge> Fin (4 / 5) then ''high'' else if s \<ge> Fin (1 / 2) then ''medium'' else if s \<ge> Fin (1 / 5) then ''low'' else ''very_low'')"

datatype estimation_metric =
    EstimationDuration string string
  | JobsTotal string string
  | AttributionConfidence string pyfloat
  | RefutationsTotal string string

text \<open>The metrics one estimation reports, in the order the adapter reports them.\<close>

definition estimation_metrics :: "string \<Rightarrow> attribution \<Rightarrow> estimation_metric list" where
  "estimation_metrics estimator r =
     EstimationDuration estimator (attribution_status_value (ar_status r)) #
     (if ar_status r = COMPLETED
      then JobsTotal ''completed'' estimator # AttributionConfidence (confidence_band (ar_confidence r)) (ar_confidence r) #
           map (\<lambda>ref. RefutationsTotal (rf_name ref) (if rf_passed ref then ''pass'' else ''fail'')) (ar_refutations r)
      else if ar_status r = NOT_IDENTIFIABLE then [JobsTotal ''not_identifiable'' estimator]
      else [])"

text \<open>
  The adapter has the quality of the evidence from its construction, and \<open>RunAttributionUseCase\<close> takes one
  as well, \<open>quality\<close>, which it does not pass on. The state is the stored attributions and the metrics.
\<close>

definition estimate ::
    "('g, 'm, 'e, 'r) engine \<Rightarrow> evidence_quality \<Rightarrow> projection \<Rightarrow> causal_observation list \<Rightarrow> string \<Rightarrow> string \<Rightarrow> string list \<Rightarrow>
       string \<Rightarrow> py_error + attribution \<times> estimation_metric list" where
  "estimate en configured P obs treatment outcome covs estimator =
     py_bind (estimate_causal_attribution (en_dowhy en) P obs treatment outcome covs estimator configured)
       (\<lambda>r. Inr (r, estimation_metrics estimator r))"

definition run_attribution_execute ::
    "('g, 'm, 'e, 'r) engine \<Rightarrow> evidence_quality \<Rightarrow> 'g bdg \<Rightarrow> causal_observation list \<Rightarrow> string \<Rightarrow> string \<Rightarrow> string list \<Rightarrow>
       string \<Rightarrow> nat \<Rightarrow> evidence_quality \<Rightarrow> attribution list \<times> estimation_metric list \<Rightarrow>
       (attribution list \<times> estimation_metric list) \<times> (py_error + attribution)" where
  "run_attribution_execute en configured b obs treatment outcome covs estimator n quality = (\<lambda>(saved, metrics).
     (let P = project_to_temporal_dag (en_env en) (en_scc en) treatment outcome n None b
      in case estimate en configured P obs treatment outcome covs estimator of
           Inl e \<Rightarrow> ((saved, metrics), Inl e)
         | Inr (r, ms) \<Rightarrow> ((saved @ [r], metrics @ ms), Inr r)))"

section \<open>What the repository holds\<close>

lemma execute_redelivered:
  "be_id ev \<in> idempotency_index b \<Longrightarrow> update_bdg_execute env cv saves ev drawn (b, repo) = ((b, repo), Inr (no_mutation (be_id ev)))"
  by (simp add: update_bdg_execute_def update_def process_upserts_def no_mutation_def)

text \<open>
  What the use case leaves of a well-formed graph, whichever way the store goes.\<close>

lemma execute_cases:
  assumes "multigraph_library nx ok" "env_nx env = nx" "bdg_wf nx ok b" "0 \<le> event_confidence ev" "event_confidence ev \<le> 1"
    and "be_id ev \<notin> idempotency_index b"
  obtains b' m where "bdg_wf nx ok b'" "event_done nx (be_id ev) (length (event_upserts ev drawn)) b b' m"
    "update env ev drawn b = (b', Inr m)"
    "\<not> snapshot_cut m \<Longrightarrow> update_bdg_execute env cv saves ev drawn (b, repo) = ((b', repo), Inr m)"
    "snapshot_cut m \<Longrightarrow> \<not> saves (sr_calls repo) \<Longrightarrow>
       update_bdg_execute env cv saves ev drawn (b, repo) = ((b', repo\<lparr>sr_calls := sr_calls repo + 1\<rparr>), Inl StoreError)"
proof -
  obtain b' m where "update env ev drawn b = (b', Inr m)" "bdg_wf nx ok b'"
      "event_done nx (be_id ev) (length (event_upserts ev drawn)) b b' m"
    by (rule multigraph_library.updates_step [OF assms(1-5), where drawn = drawn]) (use assms(6) in auto)
  with that show ?thesis
    by (simp add: update_bdg_execute_def save_snapshot_def Let_def)
qed

text \<open>
  C34: When the store of a snapshot fails, the use case raises, but the graph has counted the event and closed
  the batch. Its redelivery is then a success that stores nothing: the snapshot is never stored.
\<close>

theorem failed_store_loses_snapshot:
  assumes "multigraph_library nx ok" "env_nx env = nx" "bdg_wf nx ok b" "0 \<le> event_confidence ev" "event_confidence ev \<le> 1"
    and "be_id ev \<notin> idempotency_index b" "batch_size b \<le> events_since_snapshot b + 1" "\<not> saves (sr_calls repo)"
  shows "\<exists>b' sn. update_bdg_execute env cv saves ev drawn (b, repo) = ((b', repo\<lparr>sr_calls := sr_calls repo + 1\<rparr>), Inl StoreError) \<and>
    snapshots b' = snapshots b @ [sn] \<and> events_since_snapshot b' = 0 \<and>
    (\<forall>repo'. update_bdg_execute env cv saves ev drawn' (b', repo') = ((b', repo'), Inr (no_mutation (be_id ev))))"
proof -
  obtain b' m where run: "event_done nx (be_id ev) (length (event_upserts ev drawn)) b b' m"
      "snapshot_cut m \<Longrightarrow> \<not> saves (sr_calls repo) \<Longrightarrow>
         update_bdg_execute env cv saves ev drawn (b, repo) = ((b', repo\<lparr>sr_calls := sr_calls repo + 1\<rparr>), Inl StoreError)"
    by (rule execute_cases [OF assms(1-6), of drawn cv saves repo]) blast
  then show ?thesis
    using assms(7,8) by (auto simp: event_done_def execute_redelivered)
qed

theorem failed_store_loses_snapshot_witness:
  "\<exists>b' sn. snapshots b' = [sn] \<and>
     update_bdg_execute demo_env demo_conversions (\<lambda>n. n > 0) (demo_event ''e'' 0) show_nat (b', \<lparr>sr_stored = [], sr_calls = 1\<rparr>) =
       ((b', \<lparr>sr_stored = [], sr_calls = 1\<rparr>), Inr (no_mutation ''e''))"
  using failed_store_loses_snapshot [OF lg.multigraph_library_axioms, of demo_env demo_bdg "demo_event ''e'' 0" "\<lambda>n. n > 0"
      "\<lparr>sr_stored = [], sr_calls = 0\<rparr>" demo_conversions show_nat show_nat]
  by (simp add: demo_facts) (auto simp: demo_bdg_def new_bdg_def)

section \<open>Attribution results\<close>

text \<open>
  The quality of the evidence that a caller gives the attribution use case has no effect; a result is
  stored exactly when one is returned, and only results that completed or were not identifiable are counted
  as jobs.
\<close>

theorem attribution_ignores_quality:
  "run_attribution_execute en configured b obs treatment outcome covs estimator n quality s =
     run_attribution_execute en configured b obs treatment outcome covs estimator n quality' s \<and>
   (case run_attribution_execute en configured b obs treatment outcome covs estimator n quality (saved, metrics) of
      (s', Inl e) \<Rightarrow> s' = (saved, metrics)
    | ((saved', metrics'), Inr r) \<Rightarrow> saved' = saved @ [r] \<and>
        ((\<exists>label. JobsTotal label estimator \<in> set (drop (length metrics) metrics')) \<longleftrightarrow> ar_status r \<in> {COMPLETED, NOT_IDENTIFIABLE}))"
  by (auto simp: run_attribution_execute_def estimate_def estimation_metrics_def py_bind_def Let_def split: sum.split)

end
