(* ===== verification/Causal_Pceps.thy ===== *)
theory Causal_Pceps
  imports Causal_Attribution
begin

text \<open>
  The priority score of an attribution: the sixteen features of \<open>domain/pceps/feature_extractor.py\<close>, the
  calibration and severity of \<open>domain/pceps/scorer.py\<close> and the use case that joins them. The trained model
  is a parameter, \<open>None\<close> where it raises. Features are floats with their NaN, calibrated probabilities reals.
\<close>

section \<open>Features\<close>

record feature_context =
  fx_attribution :: "attribution option"
  fx_violations :: "int option"
  fx_rules :: "int option"
  fx_kl_divergence :: "pyfloat option"
  fx_kl_threshold :: "pyfloat option"
  fx_new_processes :: "int option"
  fx_exec_events :: "int option"
  fx_unexpected_network :: "int option"
  fx_network_events :: "int option"
  fx_privilege_transition :: "bool option"
  fx_sensitive_files :: "int option"
  fx_file_events :: "int option"
  fx_criticality :: "pyfloat option"
  fx_signature_invalid :: "bool option"
  fx_namespace_risk :: "pyfloat option"
  fx_account_privilege :: "bool option"
  fx_dropped :: "int option"
  fx_captured :: "int option"
  fx_centrality :: "pyfloat option"
  fx_centrality_median :: "pyfloat option"
  fx_centrality_mad :: "pyfloat option"
  fx_prior_drift :: "int option"
  fx_prior_observed :: "int option"
  fx_novelty :: "bool option"

record feature_baseline =
  bl_medians :: "pyfloat list"
  bl_mads :: "pyfloat list"

record feature_vector =
  fv_values :: "pyfloat list"
  fv_mask :: "bool list"
  fv_completeness :: real
  fv_imputed :: "string list"

definition PCEPS_FEATURE_NAMES :: "string list" where
  "PCEPS_FEATURE_NAMES =
     [''f1_causal_effect'', ''f2_attribution_confidence'', ''f3_contract_violation_rate'', ''f4_behavioral_divergence_ratio'',
      ''f5_new_process_rate'', ''f6_unexpected_network_rate'', ''f7_privilege_transition'', ''f8_sensitive_file_access_rate'',
      ''f9_component_criticality'', ''f10_image_signature_invalid'', ''f11_namespace_risk_weight'',
      ''f12_service_account_privilege'', ''f13_event_loss_rate'', ''f14_graph_centrality_delta'',
      ''f15_prior_drift_frequency'', ''f16_runtime_component_novelty'']"

text \<open>\<open>sys.float_info.epsilon\<close>.\<close>

definition DELTA :: pyfloat where
  "DELTA = Fin (1 / 2 ^ 52)"

definition clamp :: "pyfloat \<Rightarrow> pyfloat" where
  "clamp x = py_max (Fin 0) (py_min (Fin 1) x)"

text \<open>A value, or the rule for a missing one with its mark.\<close>

definition set_feature :: "pyfloat option \<times> pyfloat \<Rightarrow> pyfloat \<times> bool" where
  "set_feature = (\<lambda>(v, missing). case v of Some x \<Rightarrow> (clamp x, False) | None \<Rightarrow> (clamp missing, True))"

definition rate :: "int option \<Rightarrow> int option \<Rightarrow> pyfloat option" where
  "rate n m =
     (case (n, m) of (Some a, Some b) \<Rightarrow> Some (Fin (real_of_int a / real_of_int (max 1 b))) | _ \<Rightarrow> None)"

definition flag :: "bool option \<Rightarrow> pyfloat option" where
  "flag b = map_option (\<lambda>x. if x then Fin 1 else Fin 0) b"

text \<open>\<open>x or y\<close> for an optional float: zero counts as missing.\<close>

definition float_or :: "pyfloat option \<Rightarrow> pyfloat \<Rightarrow> pyfloat" where
  "float_or x y = (case x of None \<Rightarrow> y | Some v \<Rightarrow> if zero_float v then y else v)"

definition completed_attribution :: "feature_context \<Rightarrow> attribution option" where
  "completed_attribution ctx =
     (case fx_attribution ctx of None \<Rightarrow> None | Some a \<Rightarrow> if ar_status a = COMPLETED then Some a else None)"

definition f1_causal_effect :: "feature_context \<Rightarrow> pyfloat option" where
  "f1_causal_effect ctx =
     (case completed_attribution ctx of None \<Rightarrow> None | Some a \<Rightarrow> map_option clamp (ar_ate a))"

definition f3_violation_rate :: "feature_context \<Rightarrow> pyfloat option" where
  "f3_violation_rate ctx =
     (case (fx_violations ctx, fx_rules ctx) of
        (Some v, None) \<Rightarrow> (if v = 0 then Some (Fin 0) else None)
      | _ \<Rightarrow> rate (fx_violations ctx) (fx_rules ctx))"

definition f4_divergence_ratio :: "feature_context \<Rightarrow> pyfloat option" where
  "f4_divergence_ratio ctx =
     (case (fx_kl_divergence ctx, fx_kl_threshold ctx) of
        (Some d, Some t) \<Rightarrow> Some (py_min (Fin 1) (float_div d (py_max t DELTA)))
      | _ \<Rightarrow> None)"

definition f13_loss_rate :: "feature_context \<Rightarrow> pyfloat option" where
  "f13_loss_rate ctx =
     (case (fx_dropped ctx, fx_captured ctx) of
        (Some d, Some c) \<Rightarrow> rate (Some d) (Some (c + d))
      | _ \<Rightarrow> None)"

definition f14_centrality_delta :: "feature_context \<Rightarrow> feature_baseline \<Rightarrow> pyfloat option" where
  "f14_centrality_delta ctx bl =
     map_option (\<lambda>c. py_min (Fin 1) (py_max (Fin 0)
         (float_div (c - float_or (fx_centrality_median ctx) (bl_medians bl ! 13))
            (py_max (float_or (fx_centrality_mad ctx) (bl_mads bl ! 13)) DELTA)))) (fx_centrality ctx)"

definition f15_drift_frequency :: "feature_context \<Rightarrow> pyfloat option" where
  "f15_drift_frequency ctx =
     (case (fx_prior_drift ctx, fx_prior_observed ctx) of
        (Some d, Some n) \<Rightarrow> Some (Fin (real_of_int (d + 1) / real_of_int (n + 2)))
      | _ \<Rightarrow> None)"

text \<open>The features in order, each with its rule for a missing value.\<close>

definition raw_features :: "feature_context \<Rightarrow> feature_baseline \<Rightarrow> (pyfloat option \<times> pyfloat) list" where
  "raw_features ctx bl =
     (let med = (\<lambda>i. bl_medians bl ! i)
      in [(f1_causal_effect ctx, med 0),
          (map_option ar_confidence (completed_attribution ctx), med 1),
          (f3_violation_rate ctx, med 2),
          (f4_divergence_ratio ctx, med 3),
          (rate (fx_new_processes ctx) (fx_exec_events ctx), med 4),
          (rate (fx_unexpected_network ctx) (fx_network_events ctx), med 5),
          (flag (fx_privilege_transition ctx), med 6),
          (rate (fx_sensitive_files ctx) (fx_file_events ctx), med 7),
          (fx_criticality ctx, med 8),
          (flag (fx_signature_invalid ctx), Fin 1),
          (fx_namespace_risk ctx, med 10),
          (flag (fx_account_privilege ctx), Fin 1),
          (f13_loss_rate ctx, Fin 1),
          (f14_centrality_delta ctx bl, med 13),
          (f15_drift_frequency ctx, med 14),
          (flag (fx_novelty ctx), Fin 1)])"

text \<open>\<open>None\<close> is the \<open>IndexError\<close> of a baseline that is too short, or the \<open>ZeroDivisionError\<close> of feature 15.\<close>

definition derive_pceps_features :: "feature_context \<Rightarrow> feature_baseline \<Rightarrow> feature_vector option" where
  "derive_pceps_features ctx bl =
     (if length (bl_medians bl) < 15 then None
      else if fx_centrality ctx \<noteq> None \<and> (case fx_centrality_mad ctx of None \<Rightarrow> True | Some m \<Rightarrow> zero_float m) \<and> length (bl_mads bl) < 14
      then None
      else if fx_prior_drift ctx \<noteq> None \<and> fx_prior_observed ctx = Some (- 2) then None
      else
        (let set = map set_feature (raw_features ctx bl);
             mask = map snd set
         in Some \<lparr>fv_values = map fst set, fv_mask = mask,
                  fv_completeness = 1 - real (length (filter id mask)) / 16,
                  fv_imputed = map fst (filter snd (zip PCEPS_FEATURE_NAMES mask))\<rparr>))"

section \<open>Scoring\<close>

definition CLAMP_EPS :: real where
  "CLAMP_EPS = 1 / 10 ^ 7"

definition clamp_probability :: "pyfloat \<Rightarrow> pyfloat" where
  "clamp_probability p = py_max (Fin CLAMP_EPS) (py_min (Fin (1 - CLAMP_EPS)) p)"

definition logit :: "real \<Rightarrow> real" where
  "logit p = ln (p / (1 - p))"

definition sigmoid :: "real \<Rightarrow> real" where
  "sigmoid x = (if x \<ge> 0 then 1 / (1 + exp (- x)) else (let e = exp x in e / (1 + e)))"

text \<open>The clamped probability is finite.\<close>

definition float_value :: "pyfloat \<Rightarrow> real" where
  "float_value x = (case x of Fin r \<Rightarrow> r | _ \<Rightarrow> 0)"

definition platt_calibrate :: "pyfloat \<Rightarrow> real \<Rightarrow> real \<Rightarrow> real" where
  "platt_calibrate p a b = sigmoid (a * logit (float_value (clamp_probability p)) + b)"

datatype severity = CRITICAL | HIGH | MEDIUM | LOW | INFO

definition SEVERITY_THRESHOLDS :: "(real \<times> severity) list" where
  "SEVERITY_THRESHOLDS = [(80, CRITICAL), (60, HIGH), (40, MEDIUM), (20, LOW), (0, INFO)]"

definition map_score_to_severity :: "real \<Rightarrow> severity" where
  "map_score_to_severity s =
     (case find (\<lambda>(t, sev). s \<ge> t) SEVERITY_THRESHOLDS of Some (t, sev) \<Rightarrow> sev | None \<Rightarrow> INFO)"

record pceps_scorer =
  ps_predict :: "pyfloat list \<Rightarrow> pyfloat option"
  ps_a :: real
  ps_b :: real
  ps_version :: string

record pceps_score =
  sc_score :: real
  sc_severity :: severity
  sc_raw :: pyfloat
  sc_calibrated :: real
  sc_completeness :: real
  sc_imputed :: "string list"
  sc_version :: string

definition score_features :: "pceps_scorer \<Rightarrow> feature_vector \<Rightarrow> pceps_score option" where
  "score_features sc fv =
     map_option (\<lambda>p.
       (let cal = platt_calibrate p (ps_a sc) (ps_b sc); s = 100 * cal
        in \<lparr>sc_score = s, sc_severity = map_score_to_severity s, sc_raw = p, sc_calibrated = cal,
            sc_completeness = fv_completeness fv, sc_imputed = fv_imputed fv, sc_version = ps_version sc\<rparr>))
       (ps_predict sc (fv_values fv @ map (\<lambda>m. if m then Fin 1 else Fin 0) (fv_mask fv)))"

text \<open>The use case: \<open>Inl\<close> is the \<open>ValueError\<close> of a refusal, \<open>None\<close> an exception of the features or the model.\<close>

definition run_pceps_scoring ::
    "pceps_scorer \<Rightarrow> feature_baseline \<Rightarrow> attribution \<Rightarrow> feature_context \<Rightarrow> py_error + pceps_score option" where
  "run_pceps_scoring sc bl a ctx =
     (if ar_status a = NOT_IDENTIFIABLE then Inl ValueError
      else
        (let ctx' = (if fx_attribution ctx = None then ctx\<lparr>fx_attribution := Some a\<rparr> else ctx)
         in Inr (case derive_pceps_features ctx' bl of None \<Rightarrow> None | Some fv \<Rightarrow> score_features sc fv)))"

section \<open>The feature vector\<close>

lemma clamp_in_unit: "unit_float (clamp x)"
  using clamp_unit by (simp add: clamp_def unit_float_def)

lemma set_feature_unit: "unit_float (fst (set_feature p))"
  by (cases p) (simp add: set_feature_def clamp_in_unit split: option.split)

lemma set_feature_mask: "snd (set_feature p) \<longleftrightarrow> fst p = None"
  by (cases p) (simp add: set_feature_def split: option.split)

lemma length_raw_features: "length (raw_features ctx bl) = 16"
  by (simp add: raw_features_def Let_def)

lemma zip_filter_snd: "length xs = length bs \<Longrightarrow> map fst (filter snd (zip xs bs)) = map (nth xs) (filter (nth bs) [0..<length xs])"
proof (induction xs bs rule: list_induct2)
  case (Cons x xs b bs)
  have "[0..<length (x # xs)] = 0 # map Suc [0..<length xs]"
    by (simp add: upt_conv_Cons map_Suc_upt del: upt_Suc)
  with Cons.IH show ?case by (simp add: filter_map comp_def del: upt_Suc)
qed simp

text \<open>
  C40: A derived vector has sixteen values within 0 and 1, marks exactly the features without a value, names
  them, and its completeness is the share of the others.
\<close>

theorem features_exactly:
  assumes "derive_pceps_features ctx bl = Some fv"
  shows "length (fv_values fv) = 16 \<and> list_all unit_float (fv_values fv) \<and>
    fv_mask fv = map (\<lambda>p. fst p = None) (raw_features ctx bl) \<and>
    fv_imputed fv = map (nth PCEPS_FEATURE_NAMES) (filter (nth (fv_mask fv)) [0..<16]) \<and>
    fv_completeness fv = real (length (filter (\<lambda>p. fst p \<noteq> None) (raw_features ctx bl))) / 16"
proof -
  have fv: "fv_values fv = map fst (map set_feature (raw_features ctx bl))"
      "fv_mask fv = map snd (map set_feature (raw_features ctx bl))"
      "fv_imputed fv = map fst (filter snd (zip PCEPS_FEATURE_NAMES (fv_mask fv)))"
      "fv_completeness fv = 1 - real (length (filter id (fv_mask fv))) / 16"
    using assms by (auto simp: derive_pceps_features_def Let_def split: if_splits)
  have mask: "fv_mask fv = map (\<lambda>p. fst p = None) (raw_features ctx bl)"
    unfolding fv(2) by (simp add: set_feature_mask)
  have "length (filter (\<lambda>p. fst p = None) (raw_features ctx bl)) + length (filter (\<lambda>p. fst p \<noteq> None) (raw_features ctx bl)) = 16"
    using sum_length_filter_compl [of "\<lambda>p. fst p = None" "raw_features ctx bl"] by (simp add: length_raw_features)
  then have "fv_completeness fv = real (length (filter (\<lambda>p. fst p \<noteq> None) (raw_features ctx bl))) / 16"
    unfolding fv(4) mask by (simp add: filter_map comp_def field_simps)
  moreover have "list_all unit_float (fv_values fv)" "length (fv_values fv) = 16"
    by (simp_all add: fv(1) list_all_iff set_feature_unit length_raw_features)
  moreover have "length PCEPS_FEATURE_NAMES = 16"
    by (simp add: PCEPS_FEATURE_NAMES_def)
  ultimately show ?thesis
    using zip_filter_snd [of PCEPS_FEATURE_NAMES "fv_mask fv"] mask unfolding fv(3) by (simp add: length_raw_features)
qed

text \<open>
  A completed attribution whose effect is not a number has the largest causal effect there is.\<close>

theorem nan_effect_is_largest:
  assumes "derive_pceps_features ctx bl = Some fv" "fx_attribution ctx = Some a" "ar_status a = COMPLETED" "ar_ate a = Some NaN"
  shows "fv_values fv ! 0 = Fin 1 \<and> fv_mask fv ! 0 = False"
proof -
  have "raw_features ctx bl ! 0 = (Some (Fin 1), bl_medians bl ! 0)"
    using assms(2-4) by (simp add: raw_features_def f1_causal_effect_def completed_attribution_def clamp_def Let_def)
  moreover have "fv_values fv ! 0 = fst (set_feature (raw_features ctx bl ! 0))" "fv_mask fv ! 0 = snd (set_feature (raw_features ctx bl ! 0))"
    using assms(1) by (auto simp: derive_pceps_features_def length_raw_features Let_def split: if_splits)
  ultimately show ?thesis
    by (simp add: set_feature_def clamp_def py_max_def py_min_def)
qed

section \<open>The score\<close>

lemma sigmoid_eq: "sigmoid x = 1 / (1 + exp (- x))"
  by (simp add: sigmoid_def exp_minus field_simps Let_def)

lemma sigmoid_bounds: "0 < sigmoid x" "sigmoid x < 1"
  by (simp_all add: sigmoid_eq add_pos_pos)

lemma sigmoid_mono: "x \<le> y \<Longrightarrow> sigmoid x \<le> sigmoid y"
  unfolding sigmoid_eq by (intro divide_left_mono mult_pos_pos add_pos_pos) simp_all

lemma clamp_probability_bounds:
  "CLAMP_EPS \<le> float_value (clamp_probability p)" "float_value (clamp_probability p) \<le> 1 - CLAMP_EPS"
  by (cases p; simp add: clamp_probability_def py_max_def py_min_def float_value_def CLAMP_EPS_def)+

lemma CLAMP_EPS_bounds: "0 < CLAMP_EPS" "CLAMP_EPS < 1 / 2"
  by (simp_all add: CLAMP_EPS_def)

lemma logit_mono: "0 < p \<Longrightarrow> p \<le> q \<Longrightarrow> q < 1 \<Longrightarrow> logit p \<le> logit q"
  unfolding logit_def by (subst ln_le_cancel_iff) (simp_all add: frac_le)

lemma clamp_probability_mono: "p \<le> q \<Longrightarrow> float_value (clamp_probability p) \<le> float_value (clamp_probability q)"
  by (cases p; cases q) (auto simp: clamp_probability_def py_max_def py_min_def float_value_def CLAMP_EPS_def)

lemma platt_mono: "0 \<le> a \<Longrightarrow> p \<le> q \<Longrightarrow> platt_calibrate p a b \<le> platt_calibrate q a b"
  unfolding platt_calibrate_def using clamp_probability_bounds [of p] clamp_probability_bounds [of q] CLAMP_EPS_bounds
  by (intro sigmoid_mono add_right_mono mult_left_mono logit_mono clamp_probability_mono) simp_all

definition severity_rank :: "severity \<Rightarrow> nat" where
  "severity_rank s = (case s of CRITICAL \<Rightarrow> 4 | HIGH \<Rightarrow> 3 | MEDIUM \<Rightarrow> 2 | LOW \<Rightarrow> 1 | INFO \<Rightarrow> 0)"

lemma severity_cases:
  "map_score_to_severity s = (if s \<ge> 80 then CRITICAL else if s \<ge> 60 then HIGH else if s \<ge> 40 then MEDIUM
     else if s \<ge> 20 then LOW else INFO)"
  by (simp add: map_score_to_severity_def SEVERITY_THRESHOLDS_def)

text \<open>
  A score lies between 0 and 100, is the calibrated probability in percent, and with a slope that is not
  negative a larger raw probability never lowers the score or the severity.
\<close>

theorem score_monotone:
  assumes "score_features sc fv = Some s" "score_features sc fv' = Some s'" "0 \<le> ps_a sc" "sc_raw s \<le> sc_raw s'"
  shows "0 < sc_score s \<and> sc_score s < 100 \<and> sc_score s \<le> sc_score s' \<and>
    severity_rank (sc_severity s) \<le> severity_rank (sc_severity s')"
proof -
  have score: "sc_score x = 100 * platt_calibrate (sc_raw x) (ps_a sc) (ps_b sc) \<and> sc_severity x = map_score_to_severity (sc_score x)"
    if "score_features sc f = Some x" for f x
    using that by (auto simp: score_features_def Let_def)
  have "platt_calibrate (sc_raw s) (ps_a sc) (ps_b sc) \<le> platt_calibrate (sc_raw s') (ps_a sc) (ps_b sc)"
    by (rule platt_mono [OF assms(3,4)])
  moreover have "0 < platt_calibrate (sc_raw s) (ps_a sc) (ps_b sc)" "platt_calibrate (sc_raw s) (ps_a sc) (ps_b sc) < 1"
    by (simp_all add: platt_calibrate_def sigmoid_bounds)
  ultimately show ?thesis
    using score [OF assms(1)] score [OF assms(2)] by (auto simp: severity_cases severity_rank_def)
qed

text \<open>
  A raw probability that is not a number is calibrated like the largest one.\<close>

theorem nan_probability_is_largest:
  assumes "0 \<le> a"
  shows "platt_calibrate p a b \<le> platt_calibrate NaN a b"
proof -
  have top: "float_value (clamp_probability NaN) = 1 - CLAMP_EPS"
    by (simp add: clamp_probability_def py_max_def py_min_def float_value_def CLAMP_EPS_def)
  show ?thesis
    unfolding platt_calibrate_def top using clamp_probability_bounds [of p] CLAMP_EPS_bounds assms
    by (intro sigmoid_mono add_right_mono mult_left_mono logit_mono) simp_all
qed

section \<open>The use case\<close>

text \<open>
  An attribution that failed, lacked evidence or had an invalid graph is scored all the same, and its
  causal effect is the median of the training data: only one of the five statuses without an effect is refused.
\<close>

theorem scores_without_effect:
  assumes "ar_status a \<notin> {COMPLETED, NOT_IDENTIFIABLE}" "fx_attribution ctx = None" "derive_pceps_features ctx bl = Some fv"
  shows "\<exists>fv. run_pceps_scoring sc bl a ctx = Inr (score_features sc fv) \<and>
    fv_values fv ! 0 = clamp (bl_medians bl ! 0) \<and> fv_mask fv ! 0"
proof -
  let ?ctx = "ctx\<lparr>fx_attribution := Some a\<rparr>"
  obtain fv where fv: "derive_pceps_features ?ctx bl = Some fv"
    using assms(3) by (auto simp: derive_pceps_features_def Let_def split: if_splits)
  have first: "raw_features ?ctx bl ! 0 = (None, bl_medians bl ! 0)"
    using assms(1) by (simp add: raw_features_def f1_causal_effect_def completed_attribution_def Let_def)
  have "fv_values fv ! 0 = fst (set_feature (raw_features ?ctx bl ! 0))" "fv_mask fv ! 0 = snd (set_feature (raw_features ?ctx bl ! 0))"
    using fv by (auto simp: derive_pceps_features_def length_raw_features Let_def split: if_splits)
  then show ?thesis
    unfolding first using assms(1,2) fv by (auto simp: run_pceps_scoring_def set_feature_def)
qed

section \<open>Concrete inputs\<close>

definition demo_context :: "attribution option \<Rightarrow> feature_context" where
  "demo_context a =
     \<lparr>fx_attribution = a, fx_violations = Some 1, fx_rules = Some 4, fx_kl_divergence = None, fx_kl_threshold = None,
      fx_new_processes = None, fx_exec_events = None, fx_unexpected_network = None, fx_network_events = None,
      fx_privilege_transition = None, fx_sensitive_files = None, fx_file_events = None, fx_criticality = None,
      fx_signature_invalid = None, fx_namespace_risk = None, fx_account_privilege = None, fx_dropped = None,
      fx_captured = None, fx_centrality = None, fx_centrality_median = None, fx_centrality_mad = None,
      fx_prior_drift = None, fx_prior_observed = None, fx_novelty = None\<rparr>"

definition demo_baseline :: feature_baseline where
  "demo_baseline = \<lparr>bl_medians = replicate 16 (Fin (1 / 2)), bl_mads = replicate 16 (Fin 1)\<rparr>"

definition demo_scorer :: pceps_scorer where
  "demo_scorer = \<lparr>ps_predict = (\<lambda>xs. Some (hd xs)), ps_a = 1, ps_b = 0, ps_version = ''v''\<rparr>"

definition demo_vector :: feature_vector where
  "demo_vector = \<lparr>fv_values = [Fin (1 / 2)], fv_mask = [False], fv_completeness = 1, fv_imputed = []\<rparr>"

lemma demo_derives: "\<exists>fv. derive_pceps_features (demo_context a) demo_baseline = Some fv"
  by (simp add: derive_pceps_features_def demo_context_def demo_baseline_def Let_def)

theorem features_exactly_witness:
  "\<exists>fv. derive_pceps_features (demo_context None) demo_baseline = Some fv \<and> fv_completeness fv = 1 / 16"
proof -
  obtain fv where fv: "derive_pceps_features (demo_context None) demo_baseline = Some fv"
    using demo_derives by blast
  moreover have "filter (\<lambda>p. fst p \<noteq> None) (raw_features (demo_context None) demo_baseline) = [(Some (Fin (1 / 4)), bl_medians demo_baseline ! 2)]"
    by (simp add: raw_features_def demo_context_def f1_causal_effect_def completed_attribution_def f3_violation_rate_def rate_def
        f4_divergence_ratio_def flag_def f13_loss_rate_def f14_centrality_delta_def f15_drift_frequency_def Let_def)
  ultimately show ?thesis
    using features_exactly [OF fv] by simp
qed

definition demo_result :: "attribution_status \<Rightarrow> attribution" where
  "demo_result s = (abstain s [] 1)\<lparr>ar_ate := Some NaN\<rparr>"

theorem nan_effect_is_largest_witness:
  "\<exists>fv. derive_pceps_features (demo_context (Some (demo_result COMPLETED))) demo_baseline = Some fv \<and> fv_values fv ! 0 = Fin 1"
proof -
  obtain fv where fv: "derive_pceps_features (demo_context (Some (demo_result COMPLETED))) demo_baseline = Some fv"
    using demo_derives by blast
  then show ?thesis
    using nan_effect_is_largest [OF fv, of "demo_result COMPLETED"] by (simp add: demo_context_def demo_result_def abstain_def)
qed

theorem score_monotone_witness:
  "\<exists>s. score_features demo_scorer demo_vector = Some s \<and> 0 < sc_score s \<and> sc_score s < 100"
proof -
  obtain s where s: "score_features demo_scorer demo_vector = Some s" "sc_raw s = Fin (1 / 2)"
    by (simp add: score_features_def demo_scorer_def demo_vector_def Let_def)
  then show ?thesis
    using score_monotone [OF s(1) s(1)] by (simp add: demo_scorer_def)
qed

theorem nan_probability_is_largest_witness:
  "platt_calibrate (Fin (1 / 2)) 2 1 \<le> platt_calibrate NaN 2 1"
  by (rule nan_probability_is_largest) simp

theorem scores_without_effect_witness:
  "\<exists>fv. run_pceps_scoring demo_scorer demo_baseline (demo_result ESTIMATION_FAILED) (demo_context None) = Inr (score_features demo_scorer fv) \<and>
     fv_mask fv ! 0"
proof -
  obtain fv where fv: "derive_pceps_features (demo_context None) demo_baseline = Some fv"
    using demo_derives by blast
  then show ?thesis
    using scores_without_effect [of "demo_result ESTIMATION_FAILED", OF _ _ fv]
    by (auto simp: demo_context_def demo_result_def abstain_def)
qed

end
