(* ===== verification/Gateway_Event.thy ===== *)
theory Gateway_Event
  imports Sbom_Binding Causal_Update
begin

text \<open>
  The two contracts of a drift event: what the gateway accepts, \<open>phantom_core/models/drift.py\<close>, and what
  travels to the causal engine, \<open>phantom_core/models/causal_event.py\<close>, with the translation between them,
  \<open>application/commands.py\<close> of the gateway, and from the second into an event of the dependency graph,
  \<open>infrastructure/redis_consumer.py\<close> of the causal engine.

  A record holds the fields of a parsed model, with text already stripped; a predicate \<open>valid_\<dots>\<close> says which
  records its fields and validators accept. UUIDs are text in their canonical form.
\<close>

section \<open>Numbers in text\<close>

definition is_digit :: "char \<Rightarrow> bool" where
  "is_digit c \<longleftrightarrow> c \<in> set ''0123456789''"

text \<open>\<open>int(text)\<close>: a sign and digits, with single underscores between them.\<close>

definition int_of_text :: "string \<Rightarrow> int option" where
  "int_of_text s =
     (let t = strip s;
          (neg, ds) = (case t of [] \<Rightarrow> (False, [])
                       | c # r \<Rightarrow> if c = CHR ''-'' then (True, r) else if c = CHR ''+'' then (False, r) else (False, t));
          parts = split_on CHR ''_'' ds
      in if list_all (\<lambda>p. p \<noteq> [] \<and> list_all is_digit p) parts
         then Some ((if neg then - 1 else 1) * int (read_digits (concat parts))) else None)"

text \<open>\<open>int(value)\<close> of a JSON value, \<open>None\<close> where it raises.\<close>

definition json_int :: "json \<Rightarrow> int option" where
  "json_int j =
     (case j of
        JNum r \<Rightarrow> Some (if r \<ge> 0 then \<lfloor>r\<rfloor> else \<lceil>r\<rceil>)
      | JBool b \<Rightarrow> Some (if b then 1 else 0)
      | JStr s \<Rightarrow> int_of_text s
      | _ \<Rightarrow> None)"

lemma json_int_of_int [simp]: "json_int (JNum (real_of_int n)) = Some n"
  by (simp add: json_int_def)

section \<open>What the gateway accepts\<close>

definition digest_text :: "string \<Rightarrow> bool" where
  "digest_text v \<longleftrightarrow> starts_with v ''sha256:'' \<and> is_hex64 (drop 7 v)"

text \<open>\<open>(?:sha256:)?[0-9a-fA-F]{64}\<close>.\<close>

definition hash_text :: "string \<Rightarrow> bool" where
  "hash_text v \<longleftrightarrow>
     (let h = (if starts_with v ''sha256:'' then drop 7 v else v)
      in length h = 64 \<and> list_all (\<lambda>c. c \<in> set ''0123456789abcdefABCDEF'') h)"

record drift_process =
  pi_pid :: int
  pi_tgid :: int
  pi_ppid :: int
  pi_uid :: int
  pi_gid :: int
  pi_comm :: string
  pi_executable_path :: string
  pi_start_time_ns :: int
  pi_executable_hash :: "string option"
  pi_hash_status :: "string option"

definition valid_process :: "drift_process \<Rightarrow> bool" where
  "valid_process p \<longleftrightarrow>
     pi_pid p > 0 \<and> pi_tgid p > 0 \<and> pi_ppid p \<ge> 0 \<and> pi_uid p \<ge> 0 \<and> pi_gid p \<ge> 0 \<and>
     pi_comm p \<noteq> [] \<and> length (pi_comm p) \<le> 16 \<and>
     pi_executable_path p \<noteq> [] \<and> length (pi_executable_path p) \<le> 4096 \<and> pi_start_time_ns p \<ge> 0 \<and>
     (case pi_executable_hash p of None \<Rightarrow> True | Some h \<Rightarrow> hash_text h) \<and>
     pi_hash_status p \<in> {None, Some ''available'', Some ''unavailable'', Some ''ambiguous'', Some ''invalid''} \<and>
     \<not> (pi_hash_status p = Some ''available'' \<and> pi_executable_hash p = None) \<and>
     \<not> (pi_hash_status p \<in> {Some ''unavailable'', Some ''ambiguous'', Some ''invalid''} \<and> pi_executable_hash p \<noteq> None)"

record drift_workload =
  wl_cluster_name :: string
  wl_namespace :: string
  wl_pod_name :: string
  wl_pod_uid :: uuid
  wl_container_name :: string
  wl_container_id :: string
  wl_image_digest :: string
  wl_cgroup_id :: int
  wl_service_account :: "string option"

definition valid_workload :: "drift_workload \<Rightarrow> bool" where
  "valid_workload w \<longleftrightarrow>
     wl_cluster_name w \<noteq> [] \<and> wl_namespace w \<noteq> [] \<and> wl_pod_name w \<noteq> [] \<and> wl_pod_uid w \<noteq> [] \<and>
     wl_container_name w \<noteq> [] \<and> wl_container_id w \<noteq> [] \<and> length (wl_container_id w) \<le> 256 \<and>
     digest_text (wl_image_digest w) \<and> wl_cgroup_id w \<ge> 0"

record drift_binding =
  db_sbom_id :: "uuid option"
  db_purl :: "string option"
  db_image_digest :: string
  db_confidence :: "real option"
  db_status :: string
  db_resolver_version :: "string option"
  db_method :: "string option"
  db_evidence :: "json list"
  db_candidate_purls :: "string list"
  db_reason :: "string option"

definition BINDING_STATUSES :: "string list" where
  "BINDING_STATUSES = [''bound'', ''ambiguous'', ''unbound'', ''insufficient_evidence'']"

text \<open>A binding that a request brings: its confidence is a number, 0 by default.\<close>

definition valid_drift_binding :: "drift_binding \<Rightarrow> bool" where
  "valid_drift_binding b \<longleftrightarrow>
     (case db_purl b of None \<Rightarrow> True | Some p \<Rightarrow> p \<noteq> [] \<and> length p \<le> 2048) \<and> digest_text (db_image_digest b) \<and>
     (case db_confidence b of None \<Rightarrow> False | Some c \<Rightarrow> 0 \<le> c \<and> c \<le> 1) \<and> db_status b \<in> set BINDING_STATUSES \<and>
     (if db_status b = ''bound''
      then db_sbom_id b \<noteq> None \<and> db_purl b \<noteq> None \<and> db_confidence b \<noteq> Some 0 \<and> truthy_text (db_resolver_version b) \<and>
           truthy_text (db_method b) \<and> db_evidence b \<noteq> []
      else db_purl b = None \<and> truthy_text (db_reason b)) \<and>
     (db_status b = ''ambiguous'' \<longrightarrow> length (db_candidate_purls b) \<ge> 2)"

record contract_violation =
  vi_type :: string
  vi_expected :: "string option"
  vi_observed :: string
  vi_severity :: string
  vi_confidence :: real

definition VIOLATION_TYPES :: "string list" where
  "VIOLATION_TYPES =
     [''unexpected_executable'', ''unexpected_file'', ''unexpected_network'', ''unexpected_syscall_class'', ''unexpected_purl'',
      ''unexpected_process_relation'', ''privilege_transition'', ''rate_limit'']"

definition valid_violation :: "contract_violation \<Rightarrow> bool" where
  "valid_violation v \<longleftrightarrow>
     vi_type v \<in> set VIOLATION_TYPES \<and> vi_observed v \<noteq> [] \<and>
     vi_severity v \<in> {''low'', ''medium'', ''high'', ''critical''} \<and> 0 \<le> vi_confidence v \<and> vi_confidence v \<le> 1"

record drift_evidence =
  de_kernel_timestamp_ns :: int
  de_cpu :: int
  de_architecture :: string
  de_event_loss_observed :: bool
  de_correlation_id :: "uuid option"
  de_raw_event_digest :: string
  de_resource_path :: "string option"
  de_resource_hash :: "string option"
  de_run_id :: "string option"
  de_scenario_id :: "string option"

definition valid_evidence :: "drift_evidence \<Rightarrow> bool" where
  "valid_evidence e \<longleftrightarrow>
     de_kernel_timestamp_ns e \<ge> 0 \<and> de_cpu e \<ge> 0 \<and> de_architecture e \<in> {''x86_64'', ''arm64''} \<and>
     digest_text (de_raw_event_digest e) \<and> (case de_resource_hash e of None \<Rightarrow> True | Some h \<Rightarrow> hash_text h) \<and>
     (case de_run_id e of None \<Rightarrow> True | Some r \<Rightarrow> r \<noteq> [] \<and> length r \<le> 200) \<and>
     (case de_scenario_id e of None \<Rightarrow> True | Some r \<Rightarrow> r \<noteq> [] \<and> length r \<le> 200)"

definition RUNTIME_EVENT_TYPES :: "string list" where
  "RUNTIME_EVENT_TYPES =
     [''exec'', ''file_open'', ''file_write'', ''network_connect'', ''network_accept'', ''privilege_transition'',
      ''namespace_change'', ''module_load'']"

record drift_request =
  dq_event_id :: uuid
  dq_observed_at :: "time stamp"
  dq_node_name :: string
  dq_event_type :: string
  dq_process :: drift_process
  dq_workload :: drift_workload
  dq_identity_status :: string
  dq_binding :: "drift_binding option"
  dq_violations :: "contract_violation list"
  dq_evidence :: drift_evidence
  dq_agent_sequence :: int
  dq_tenant_id :: uuid

definition valid_request :: "drift_request \<Rightarrow> bool" where
  "valid_request r \<longleftrightarrow>
     is_aware (dq_observed_at r) \<and> dq_node_name r \<noteq> [] \<and> dq_event_type r \<in> set RUNTIME_EVENT_TYPES \<and>
     valid_process (dq_process r) \<and> valid_workload (dq_workload r) \<and>
     dq_identity_status r \<in> {''resolved'', ''ambiguous'', ''missing'', ''stale''} \<and>
     (case dq_binding r of None \<Rightarrow> True | Some b \<Rightarrow> valid_drift_binding b) \<and>
     length (dq_violations r) \<le> 64 \<and> list_all valid_violation (dq_violations r) \<and> valid_evidence (dq_evidence r) \<and>
     dq_agent_sequence r \<ge> 0"

section \<open>What travels\<close>

record causal_binding =
  cb_status :: string
  cb_image_digest :: string
  cb_sbom_id :: "uuid option"
  cb_purl :: "string option"
  cb_confidence :: "real option"
  cb_resolver_version :: string
  cb_method :: string
  cb_evidence :: "json list"
  cb_candidate_purls :: "string list"
  cb_reason :: "string option"

definition valid_causal_binding :: "causal_binding \<Rightarrow> bool" where
  "valid_causal_binding b \<longleftrightarrow>
     cb_status b \<in> set BINDING_STATUSES \<and> digest_text (cb_image_digest b) \<and> cb_purl b \<noteq> Some [] \<and>
     (case cb_confidence b of None \<Rightarrow> True | Some c \<Rightarrow> 0 \<le> c \<and> c \<le> 1) \<and>
     cb_resolver_version b \<noteq> [] \<and> cb_method b \<noteq> [] \<and>
     (if cb_status b = ''bound''
      then cb_sbom_id b \<noteq> None \<and> cb_purl b \<noteq> None \<and> cb_confidence b \<noteq> None \<and> the (cb_confidence b) > 0 \<and> cb_evidence b \<noteq> []
      else cb_purl b = None \<and> cb_confidence b = None \<and> truthy_text (cb_reason b)) \<and>
     (cb_status b = ''ambiguous'' \<longrightarrow> length (cb_candidate_purls b) \<ge> 2)"

record causal_event =
  ce_schema_version :: string
  ce_event_id :: uuid
  ce_drift_event_id :: uuid
  ce_outbox_id :: uuid
  ce_tenant_id :: uuid
  ce_observed_at :: "time stamp"
  ce_event_type :: string
  ce_cluster :: string
  ce_workload :: "(string \<times> json) list"
  ce_process :: "(string \<times> json) list"
  ce_evidence :: "(string \<times> json) list"
  ce_binding :: "causal_binding option"
  ce_violations :: "(string \<times> json) list list"

text \<open>\<open>values.get(key) in (None, "")\<close> for one of the required keys.\<close>

definition missing_evidence :: "(string \<times> json) list \<Rightarrow> string list \<Rightarrow> bool" where
  "missing_evidence values keys \<longleftrightarrow> list_ex (\<lambda>k. dict_get values k \<in> {None, Some JNull, Some (JStr [])}) keys"

definition valid_causal_event :: "causal_event \<Rightarrow> bool" where
  "valid_causal_event ev \<longleftrightarrow>
     ce_schema_version ev = ''1.0'' \<and> is_aware (ce_observed_at ev) \<and> ce_event_type ev \<noteq> [] \<and> ce_cluster ev \<noteq> [] \<and>
     (case ce_binding ev of None \<Rightarrow> True | Some b \<Rightarrow> valid_causal_binding b) \<and>
     \<not> missing_evidence (ce_workload ev) [''namespace'', ''pod_uid'', ''container_id'', ''image_digest''] \<and>
     \<not> missing_evidence (ce_process ev) [''tgid'', ''start_time_ns''] \<and>
     \<not> missing_evidence (ce_evidence ev) [''raw_event_digest''] \<and>
     (case (json_int (json_field (ce_process ev) ''tgid'' JNull), json_int (json_field (ce_process ev) ''start_time_ns'' JNull)) of
        (Some t, Some s) \<Rightarrow> t > 0 \<and> s \<ge> 0
      | _ \<Rightarrow> False) \<and>
     (case dict_get (ce_workload ev) ''image_digest'' of
        Some (JStr d) \<Rightarrow> digest_text d \<and> (case ce_binding ev of None \<Rightarrow> True | Some b \<Rightarrow> cb_image_digest b = d)
      | _ \<Rightarrow> False)"

section \<open>From the request to the event\<close>

definition text_json :: "string option \<Rightarrow> json" where
  "text_json t = (case t of None \<Rightarrow> JNull | Some s \<Rightarrow> JStr s)"

definition int_json :: "int \<Rightarrow> json" where
  "int_json n = JNum (real_of_int n)"

text \<open>\<open>model_dump\<close> of the nested models, as the JSON column stores it.\<close>

definition process_json :: "drift_process \<Rightarrow> (string \<times> json) list" where
  "process_json p =
     [(''pid'', int_json (pi_pid p)), (''tgid'', int_json (pi_tgid p)), (''ppid'', int_json (pi_ppid p)),
      (''uid'', int_json (pi_uid p)), (''gid'', int_json (pi_gid p)), (''comm'', JStr (pi_comm p)),
      (''executable_path'', JStr (pi_executable_path p)), (''start_time_ns'', int_json (pi_start_time_ns p)),
      (''executable_hash'', text_json (pi_executable_hash p)), (''executable_hash_status'', text_json (pi_hash_status p))]"

definition workload_json :: "drift_workload \<Rightarrow> (string \<times> json) list" where
  "workload_json w =
     [(''cluster_name'', JStr (wl_cluster_name w)), (''namespace'', JStr (wl_namespace w)), (''pod_name'', JStr (wl_pod_name w)),
      (''pod_uid'', JStr (wl_pod_uid w)), (''container_name'', JStr (wl_container_name w)),
      (''container_id'', JStr (wl_container_id w)), (''image_digest'', JStr (wl_image_digest w)),
      (''cgroup_id'', int_json (wl_cgroup_id w)), (''service_account'', text_json (wl_service_account w))]"

definition evidence_json :: "drift_evidence \<Rightarrow> (string \<times> json) list" where
  "evidence_json e =
     [(''kernel_timestamp_ns'', int_json (de_kernel_timestamp_ns e)), (''cpu'', int_json (de_cpu e)),
      (''architecture'', JStr (de_architecture e)), (''event_loss_observed'', JBool (de_event_loss_observed e)),
      (''correlation_id'', text_json (de_correlation_id e)), (''raw_event_digest'', JStr (de_raw_event_digest e)),
      (''resource_path'', text_json (de_resource_path e)), (''resource_hash'', text_json (de_resource_hash e)),
      (''run_id'', text_json (de_run_id e)), (''scenario_id'', text_json (de_scenario_id e))]"

definition violation_json :: "contract_violation \<Rightarrow> (string \<times> json) list" where
  "violation_json v =
     [(''violation_type'', JStr (vi_type v)), (''expected'', text_json (vi_expected v)), (''observed'', JStr (vi_observed v)),
      (''severity'', JStr (vi_severity v)), (''confidence'', JNum (vi_confidence v))]"

text \<open>The answer of the SBOM service, or the name of the exception its client raised.\<close>

datatype sbom_answer = Mapped causal_payload | Raised string

definition binding_body :: "uuid \<Rightarrow> drift_request \<Rightarrow> time stamp binding_request" where
  "binding_body tenant r =
     \<lparr>rq_event_id = dq_event_id r, rq_run_id = optional [] (de_run_id (dq_evidence r)), rq_tenant_id = tenant,
      rq_event_type = dq_event_type r, rq_observed_at = dq_observed_at r, rq_container_id = wl_container_id (dq_workload r),
      rq_image_digest = wl_image_digest (dq_workload r),
      rq_pod_uid = (if wl_pod_uid (dq_workload r) \<noteq> [] then Some (wl_pod_uid (dq_workload r)) else None),
      rq_namespace = Some (wl_namespace (dq_workload r)), rq_workload_name = Some (wl_pod_name (dq_workload r)),
      rq_tgid = pi_tgid (dq_process r), rq_pid_start_time_ns = pi_start_time_ns (dq_process r),
      rq_executable_path = Some (pi_executable_path (dq_process r)), rq_executable_hash = pi_executable_hash (dq_process r),
      rq_comm = Some (pi_comm (dq_process r)), rq_uid = Some (pi_uid (dq_process r)),
      rq_resource_path = de_resource_path (dq_evidence r), rq_resource_hash = de_resource_hash (dq_evidence r)\<rparr>"

definition evidence_entry :: "string \<times> string \<times> string \<times> real \<Rightarrow> json" where
  "evidence_entry = (\<lambda>(k, v, d, c).
     JObj [(''kind'', JStr k), (''value'', JStr v), (''description'', JStr d), (''confidence_contribution'', JNum c)])"

definition mapped_binding :: "causal_payload \<Rightarrow> drift_binding" where
  "mapped_binding pl =
     \<lparr>db_sbom_id = pl_sbom_id pl, db_purl = pl_purl pl, db_image_digest = pl_image_digest pl, db_confidence = pl_confidence pl,
      db_status = pl_binding_status pl, db_resolver_version = Some (pl_resolver_version pl), db_method = Some (pl_method pl),
      db_evidence = map evidence_entry (pl_evidence pl), db_candidate_purls = pl_candidate_purls pl, db_reason = pl_reason pl\<rparr>"

definition fallback_binding :: "string \<Rightarrow> string \<Rightarrow> drift_binding" where
  "fallback_binding digest why =
     \<lparr>db_sbom_id = None, db_purl = None, db_image_digest = digest, db_confidence = None, db_status = ''insufficient_evidence'',
      db_resolver_version = Some ''v1'', db_method = Some ''abstain'', db_evidence = [], db_candidate_purls = [],
      db_reason = Some why\<rparr>"

text \<open>\<open>None\<close> for the client is a gateway without one.\<close>

definition resolve_runtime_binding ::
    "(time stamp binding_request \<Rightarrow> sbom_answer) option \<Rightarrow> uuid \<Rightarrow> drift_request \<Rightarrow> drift_binding option" where
  "resolve_runtime_binding client tenant r =
     (let digest = wl_image_digest (dq_workload r);
          unavailable = ''SBOM mapping service was not available for this event''
      in if digest = [] then None
         else case client of
           None \<Rightarrow> Some (fallback_binding digest unavailable)
         | Some call \<Rightarrow>
             (if wl_container_id (dq_workload r) \<in> {[], ''unknown''} then Some (fallback_binding digest unavailable)
              else case call (binding_body tenant r) of
                Mapped pl \<Rightarrow> Some (mapped_binding pl)
              | Raised name \<Rightarrow> Some (fallback_binding digest (''SBOM mapping unavailable: '' @ name))))"

definition causal_binding_of :: "drift_binding \<Rightarrow> causal_binding" where
  "causal_binding_of b =
     \<lparr>cb_status = db_status b, cb_image_digest = db_image_digest b, cb_sbom_id = db_sbom_id b, cb_purl = db_purl b,
      cb_confidence = (if db_status b = ''bound'' then db_confidence b else None),
      cb_resolver_version = optional [] (db_resolver_version b), cb_method = optional [] (db_method b),
      cb_evidence = db_evidence b, cb_candidate_purls = db_candidate_purls b, cb_reason = db_reason b\<rparr>"

text \<open>The binding of a request: the one it brings or the one the gateway resolves.\<close>

definition request_binding ::
    "(time stamp binding_request \<Rightarrow> sbom_answer) option \<Rightarrow> uuid \<Rightarrow> drift_request \<Rightarrow> drift_binding option" where
  "request_binding client tenant r =
     (case dq_binding r of Some b \<Rightarrow> Some b | None \<Rightarrow> resolve_runtime_binding client tenant r)"

text \<open>The stored payload; the ids of the drift event and of the outbox record are added when it is published.\<close>

definition mutation_payload :: "uuid \<Rightarrow> drift_request \<Rightarrow> drift_binding option \<Rightarrow> causal_event" where
  "mutation_payload tenant r binding =
     \<lparr>ce_schema_version = ''1.0'', ce_event_id = dq_event_id r, ce_drift_event_id = [], ce_outbox_id = [], ce_tenant_id = tenant,
      ce_observed_at = dq_observed_at r, ce_event_type = dq_event_type r, ce_cluster = wl_cluster_name (dq_workload r),
      ce_workload = workload_json (dq_workload r), ce_process = process_json (dq_process r),
      ce_evidence = evidence_json (dq_evidence r), ce_binding = map_option causal_binding_of binding,
      ce_violations = map violation_json (dq_violations r)\<rparr>"

text \<open>What \<open>publish_graph_mutation_job\<close> sends, if the event passes its contract.\<close>

definition published_event :: "uuid \<Rightarrow> uuid \<Rightarrow> causal_event \<Rightarrow> causal_event option" where
  "published_event drift_id outbox_id payload =
     (let ev = payload\<lparr>ce_drift_event_id := drift_id, ce_outbox_id := outbox_id\<rparr>
      in if valid_causal_event ev then Some ev else None)"

section \<open>From the event to the dependency graph\<close>

definition graph_binding_status :: "string option \<Rightarrow> string" where
  "graph_binding_status s =
     (if s = Some ''bound'' then ''resolved'' else if s = Some ''ambiguous'' then ''ambiguous'' else ''missing'')"

text \<open>
  The arguments of the update in \<open>_process_message\<close>. \<open>show\<close> is \<open>str\<close> on numbers and containers; the attributes
  hold dictionaries under three of their keys, as their text.
\<close>

definition binding_json :: "causal_binding \<Rightarrow> json" where
  "binding_json b =
     JObj [(''binding_status'', JStr (cb_status b)), (''image_digest'', JStr (cb_image_digest b)), (''sbom_id'', text_json (cb_sbom_id b)),
           (''purl'', text_json (cb_purl b)), (''confidence'', (case cb_confidence b of None \<Rightarrow> JNull | Some c \<Rightarrow> JNum c)),
           (''resolver_version'', JStr (cb_resolver_version b)), (''method'', JStr (cb_method b)), (''evidence'', JArr (cb_evidence b)),
           (''candidate_purls'', JArr (map JStr (cb_candidate_purls b))), (''reason'', text_json (cb_reason b))]"

definition attrs_of :: "(json \<Rightarrow> string) \<Rightarrow> causal_event \<Rightarrow> (string, string) dict" where
  "attrs_of show ev =
     [(''process'', show (JObj (ce_process ev))), (''runtime_evidence'', show (JObj (ce_evidence ev))),
      (''sbom_binding'', show (case ce_binding ev of None \<Rightarrow> JObj [] | Some b \<Rightarrow> binding_json b)),
      (''schema_version'', ce_schema_version ev), (''drift_event_id'', ce_drift_event_id ev), (''outbox_id'', ce_outbox_id ev)]"

definition stamp_time :: "time stamp \<Rightarrow> time" where
  "stamp_time s = (case s of Aware t \<Rightarrow> t | Naive t \<Rightarrow> t)"

definition graph_event :: "(json \<Rightarrow> string) \<Rightarrow> causal_event \<Rightarrow> bdg_event" where
  "graph_event show ev =
     (let field = (\<lambda>values key. py_str show (json_field values key JNull));
          confidence = (case ce_binding ev of None \<Rightarrow> None | Some b \<Rightarrow> cb_confidence b)
      in \<lparr>be_id = ce_event_id ev, be_type = ce_event_type ev, be_time = stamp_time (ce_observed_at ev),
          be_tenant = ce_tenant_id ev, be_cluster = ce_cluster ev, be_namespace = field (ce_workload ev) ''namespace'',
          be_pod_uid = field (ce_workload ev) ''pod_uid'', be_container_id = field (ce_workload ev) ''container_id'',
          be_image_digest = field (ce_workload ev) ''image_digest'',
          be_tgid = the (json_int (json_field (ce_process ev) ''tgid'' JNull)),
          be_start_ns = the (json_int (json_field (ce_process ev) ''start_time_ns'' JNull)),
          be_identity_confidence = 1, be_binding_confidence = (case confidence of None \<Rightarrow> 0 | Some c \<Rightarrow> c),
          be_collector_confidence = (if json_truthy (json_field (ce_evidence ev) ''raw_event_digest'' JNull) then 1 else 0),
          be_binding_status = graph_binding_status (map_option cb_status (ce_binding ev)),
          be_purl = (case ce_binding ev of None \<Rightarrow> None | Some b \<Rightarrow> cb_purl b),
          be_violations = Some (map (map (\<lambda>(k, v). (k, py_str show v))) (ce_violations ev)),
          be_attrs = Some (attrs_of show ev)\<rparr>)"

end
