(* ===== verification/Gateway_Contract.thy ===== *)
theory Gateway_Contract
  imports Gateway_Event
begin

text \<open>
  What holds between the contracts of \<open>Gateway_Event\<close>: which requests become publishable events, that the
  answers of the SBOM service always do, and what an event becomes in the dependency graph.
\<close>

section \<open>Publishable requests\<close>

lemmas json_dump = process_json_def workload_json_def evidence_json_def dict_get_def missing_evidence_def json_field_def
  int_json_def

lemma dumped_fields:
  "dict_get (workload_json w) ''namespace'' = Some (JStr (wl_namespace w))"
  "dict_get (workload_json w) ''pod_uid'' = Some (JStr (wl_pod_uid w))"
  "dict_get (workload_json w) ''container_id'' = Some (JStr (wl_container_id w))"
  "dict_get (workload_json w) ''image_digest'' = Some (JStr (wl_image_digest w))"
  "dict_get (process_json p) ''tgid'' = Some (JNum (real_of_int (pi_tgid p)))"
  "dict_get (process_json p) ''start_time_ns'' = Some (JNum (real_of_int (pi_start_time_ns p)))"
  "dict_get (evidence_json e) ''raw_event_digest'' = Some (JStr (de_raw_event_digest e))"
  by (simp_all add: json_dump)

lemma causal_binding_digest: "cb_image_digest (causal_binding_of b) = db_image_digest b"
  by (simp add: causal_binding_of_def)

text \<open>
  The binding is the only part of a valid request that can keep its event from being published.
\<close>

lemma published_iff:
  assumes "valid_request r"
  shows "published_event d i (mutation_payload tenant r binding) \<noteq> None \<longleftrightarrow>
    (case binding of None \<Rightarrow> True
     | Some b \<Rightarrow> valid_causal_binding (causal_binding_of b) \<and> db_image_digest b = wl_image_digest (dq_workload r))"
proof -
  have valid: "is_aware (dq_observed_at r)" "dq_event_type r \<noteq> []" "valid_process (dq_process r)" "valid_workload (dq_workload r)"
      "valid_evidence (dq_evidence r)"
    using assms by (auto simp: valid_request_def RUNTIME_EVENT_TYPES_def)
  have fields: "wl_cluster_name (dq_workload r) \<noteq> []" "wl_namespace (dq_workload r) \<noteq> []" "wl_pod_uid (dq_workload r) \<noteq> []"
      "wl_container_id (dq_workload r) \<noteq> []" "digest_text (wl_image_digest (dq_workload r))" "pi_tgid (dq_process r) > 0"
      "pi_start_time_ns (dq_process r) \<ge> 0" "digest_text (de_raw_event_digest (dq_evidence r))"
    using valid(3-5) by (simp_all add: valid_process_def valid_workload_def valid_evidence_def)
  have nonempty: "wl_image_digest (dq_workload r) \<noteq> []" "de_raw_event_digest (dq_evidence r) \<noteq> []"
    using fields(5,8) by (auto simp: digest_text_def starts_with_def)
  show ?thesis
    using valid(1,2) fields nonempty
    by (cases binding) (simp_all add: published_event_def valid_causal_event_def mutation_payload_def missing_evidence_def
        dumped_fields json_field_def causal_binding_digest Let_def)
qed

lemma published_is_payload:
  "published_event d i payload = Some ev \<Longrightarrow> ev = payload\<lparr>ce_drift_event_id := d, ce_outbox_id := i\<rparr> \<and> valid_causal_event ev"
  by (auto simp: published_event_def Let_def split: if_splits)

section \<open>Answers of the SBOM service\<close>

lemma truthy_cases [simp]: "truthy_text None = False" "truthy_text (Some s) \<longleftrightarrow> s \<noteq> []"
  by (simp_all add: truthy_text_def)

lemma truthy_SomeD: "truthy_text t \<Longrightarrow> \<exists>s. t = Some s \<and> s \<noteq> []"
  by (cases t) simp_all

lemma first_text_truthy:
  "truthy_text (first_text xs d) \<longleftrightarrow> (\<exists>s \<in> set xs. s \<noteq> []) \<or> truthy_text d"
  by (auto simp: first_text_def truthy_text_def filter_empty_conv split: list.split dest: filter_eq_ConsD)

lemma map_event_complete:
  fixes r :: "'t mapping_result"
  assumes r: "r = map_event mid now index e"
  shows "mapping_method r \<noteq> []" "resolver_version r \<noteq> []"
    "status r \<noteq> VERIFIED \<Longrightarrow> status r \<noteq> INFERRED \<Longrightarrow> ambiguity_reason r \<noteq> [] \<or> unresolved_reason r \<noteq> [] \<or> invalid_reason r \<noteq> []"
    "status r = VERIFIED \<Longrightarrow> evidence r \<noteq> []" "status r = AMBIGUOUS \<Longrightarrow> 2 \<le> length (candidate_purls r)"
proof -
  have "mapping_method r \<noteq> [] \<and> resolver_version r \<noteq> [] \<and>
      (status r \<noteq> VERIFIED \<longrightarrow> status r \<noteq> INFERRED \<longrightarrow> ambiguity_reason r \<noteq> [] \<or> unresolved_reason r \<noteq> [] \<or> invalid_reason r \<noteq> []) \<and>
      (status r = VERIFIED \<longrightarrow> evidence r \<noteq> []) \<and> (status r = AMBIGUOUS \<longrightarrow> 2 \<le> length (candidate_purls r))"
  proof (cases "\<exists>d idx. indexed index e d idx")
    case True
    then obtain d idx where i: "indexed index e d idx" by blast
    obtain cs es where c: "collect idx d e = (cs, es)" by fastforce
    have "es \<noteq> []" using collect_evidence [of idx d e] c by simp
    then show ?thesis
      unfolding r map_event_indexed [OF i] c
      by (simp add: decide_mapping_def unresolved_result_def ambiguous_result_def RESOLVER_VERSION_def Let_def)
  next
    case False
    then have "r = invalid_result mid now e ''Process container_id is empty; cannot resolve image'' \<or>
        (\<exists>d why. why \<noteq> [] \<and> r = unresolved_result mid now e d None why [])"
      unfolding r map_event_def indexed_def by (auto split: option.split)
    then show ?thesis
      by (auto simp: invalid_result_def unresolved_result_def RESOLVER_VERSION_def)
  qed
  then show "mapping_method r \<noteq> []" "resolver_version r \<noteq> []"
      "status r \<noteq> VERIFIED \<Longrightarrow> status r \<noteq> INFERRED \<Longrightarrow> ambiguity_reason r \<noteq> [] \<or> unresolved_reason r \<noteq> [] \<or> invalid_reason r \<noteq> []"
      "status r = VERIFIED \<Longrightarrow> evidence r \<noteq> []" "status r = AMBIGUOUS \<Longrightarrow> 2 \<le> length (candidate_purls r)"
    by blast+
qed

lemma payload_fields:
  assumes "to_causal_binding_payload r = Inr pl"
  shows "pl_method pl = mapping_method r" "pl_resolver_version pl = resolver_version r" "length (pl_evidence pl) = length (evidence r)"
    "truthy_text (pl_reason pl) \<longleftrightarrow> ambiguity_reason r \<noteq> [] \<or> unresolved_reason r \<noteq> [] \<or> invalid_reason r \<noteq> [] \<or> status r = INFERRED"
    "pl_binding_status pl \<in> set BINDING_STATUSES"
  using assms
  by (auto simp: to_causal_binding_payload_def first_text_truthy BINDING_STATUSES_def Let_def split: if_splits prod.splits)

lemma overridden_valid:
  assumes "valid_causal_binding (causal_binding_of (mapped_binding (pl\<lparr>pl_binding_status := ''insufficient_evidence'', pl_sbom_id := None,
      pl_purl := None, pl_confidence := None, pl_reason := Some why\<rparr>)))"
  shows "valid_causal_binding (causal_binding_of (mapped_binding (pl\<lparr>pl_binding_status := ''insufficient_evidence'', pl_sbom_id := None,
      pl_purl := None, pl_confidence := None, pl_candidate_purls := [], pl_reason := Some why\<rparr>)))"
  using assms by (simp add: valid_causal_binding_def causal_binding_of_def mapped_binding_def)

lemma route_payload_valid:
  assumes "rq_container_id body \<noteq> []" "digest_text (rq_image_digest body)"
    and rows: "\<And>sb. sb \<in> set (get_by_image_digest (rq_image_digest body) (rq_tenant_id body)) \<Longrightarrow>
      sb_sbom_id sb \<noteq> [] \<and> [] \<notin> set (get_components (sb_sbom_id sb) (rq_tenant_id body))"
    and run: "map_runtime_binding get_by_image_digest get_components mid now body = Inr pl"
  shows "valid_causal_binding (causal_binding_of (mapped_binding pl)) \<and> pl_image_digest pl = rq_image_digest body"
proof -
  define verified where "verified = filter (\<lambda>sb. verification_status sb = VS_VERIFIED)
    (get_by_image_digest (rq_image_digest body) (rq_tenant_id body))"
  define r where "r = map_event mid now (binding_indices get_components body verified) (runtime_of body)"
  have "sb \<in> set (get_by_image_digest (rq_image_digest body) (rq_tenant_id body))" if "verified = [sb]" for sb
    using that filter_is_subset unfolding verified_def by (metis list.set_intros(1) subsetD)
  then have rows': "sb_sbom_id sb \<noteq> [] \<and> [] \<notin> set (get_components (sb_sbom_id sb) (rq_tenant_id body))" if "verified = [sb]" for sb
    using rows that by blast
  have digest: "event_digest (runtime_of body) = Some (rq_image_digest body)" "rq_image_digest body \<noteq> []"
    using assms(2) by (auto simp: event_digest_def runtime_of_def truthy_text_def digest_text_def starts_with_def)
  obtain p0 where p0: "to_causal_binding_payload r = Inr p0"
    using binding_payload [OF assms(1) digest(2) rows' r_def] by blast
  note cases = payload_cases [OF binding_indices_wf [of verified get_components body, OF rows'] r_def, unfolded p0 sum.case]
  note complete = map_event_complete [OF r_def] payload_fields [OF p0]
  have p0_digest: "pl_image_digest p0 = rq_image_digest body"
    using cases digest(1) by simp
  have valid: "valid_causal_binding (causal_binding_of (mapped_binding p0))"
  proof (cases "status r = VERIFIED")
    case True
    then have "evidence r \<noteq> []" "selected_purl r \<noteq> []" "pl_sbom_id p0 \<noteq> None"
      using complete(4) p0 by (auto simp: to_causal_binding_payload_def Let_def dest!: truthy_SomeD split: if_splits)
    moreover have "pl_evidence p0 \<noteq> []"
      using complete(8) \<open>evidence r \<noteq> []\<close> by (metis length_0_conv)
    ultimately show ?thesis
      using True cases complete(1,2,6,7,10) p0_digest assms(2)
      by (simp add: valid_causal_binding_def causal_binding_of_def mapped_binding_def)
  next
    case False
    then have "truthy_text (pl_reason p0)" "pl_binding_status p0 \<noteq> ''bound''"
      using complete(3,9) cases by auto
    moreover have "2 \<le> length (pl_candidate_purls p0)" if "pl_binding_status p0 = ''ambiguous''"
      using that complete(5) cases False by (auto split: if_splits)
    ultimately show ?thesis
      using False cases complete(1,2,6,7,10) p0_digest assms(2)
      by (simp add: valid_causal_binding_def causal_binding_of_def mapped_binding_def)
  qed
  have abstaining: "valid_causal_binding (causal_binding_of (mapped_binding (p0\<lparr>pl_binding_status := ''insufficient_evidence'', pl_sbom_id := None,
      pl_purl := None, pl_confidence := None, pl_reason := Some why\<rparr>)))" if "why \<noteq> []" for why
    using valid that
    by (simp add: valid_causal_binding_def causal_binding_of_def mapped_binding_def BINDING_STATUSES_def truthy_text_def)
  show ?thesis
    using run valid p0_digest abstaining
    by (auto simp: map_runtime_binding_def p0 r_def [symmetric] verified_def [symmetric] Let_def intro!: overridden_valid split: if_splits)
qed

lemma fallback_valid:
  "digest_text d \<Longrightarrow> why \<noteq> [] \<Longrightarrow> valid_causal_binding (causal_binding_of (fallback_binding d why))"
  by (simp add: valid_causal_binding_def causal_binding_of_def fallback_binding_def BINDING_STATUSES_def optional_def)

lemma brought_valid:
  assumes "valid_drift_binding b"
  shows "valid_causal_binding (causal_binding_of b) \<longleftrightarrow> truthy_text (db_resolver_version b) \<and> truthy_text (db_method b)"
proof -
  have truthy: "truthy_text t \<longleftrightarrow> optional [] t \<noteq> []" for t
    by (cases t) (simp_all add: optional_def)
  show ?thesis
    using assms
    by (cases "db_status b = ''bound''"; cases "db_confidence b"; cases "db_purl b")
      (auto simp: valid_causal_binding_def valid_drift_binding_def causal_binding_of_def truthy)
qed

text \<open>
  C23: A request whose binding the gateway resolves always becomes a publishable event. Where the SBOM service
  answers, its answer is one of the route's; where the call raises, or there is no client, nothing is assumed.
\<close>

theorem resolved_request_publishes:
  assumes "valid_request r" "dq_binding r = None"
    and answers: "\<And>call body pl. client = Some call \<Longrightarrow> call body = Mapped pl \<Longrightarrow>
      \<exists>mid now. map_runtime_binding get_by_image_digest get_components mid now body = Inr pl"
    and rows: "\<And>d sb. sb \<in> set (get_by_image_digest d tenant) \<Longrightarrow> sb_sbom_id sb \<noteq> [] \<and> [] \<notin> set (get_components (sb_sbom_id sb) tenant)"
  shows "published_event d i (mutation_payload tenant r (request_binding client tenant r)) \<noteq> None"
proof -
  let ?digest = "wl_image_digest (dq_workload r)"
  have wl: "digest_text ?digest" "?digest \<noteq> []" "wl_container_id (dq_workload r) \<noteq> []"
    using assms(1) by (auto simp: valid_request_def valid_workload_def digest_text_def starts_with_def)
  have body: "rq_image_digest (binding_body tenant r) = ?digest" "rq_container_id (binding_body tenant r) = wl_container_id (dq_workload r)"
      "rq_tenant_id (binding_body tenant r) = tenant"
    by (simp_all add: binding_body_def)
  have mapped: "valid_causal_binding (causal_binding_of (mapped_binding pl)) \<and> pl_image_digest pl = ?digest"
    if answered: "client = Some call" "call (binding_body tenant r) = Mapped pl" for call pl
  proof -
    obtain mid now where "map_runtime_binding get_by_image_digest get_components mid now (binding_body tenant r) = Inr pl"
      using answers [OF answered] by blast
    then show ?thesis using wl rows
      by (intro route_payload_valid [where body = "binding_body tenant r", unfolded body]) auto
  qed
  have mapped': "valid_causal_binding (causal_binding_of (mapped_binding pl)) \<and> pl_image_digest pl = ?digest"
    if "(case client of None \<Rightarrow> Raised [] | Some call \<Rightarrow> call (binding_body tenant r)) = Mapped pl" for pl
    using that mapped by (cases client) auto
  show ?thesis
    unfolding published_iff [OF assms(1)] using assms(2) wl mapped'
    by (cases client)
      (auto simp: request_binding_def resolve_runtime_binding_def Let_def mapped_binding_def fallback_binding_def
        intro!: fallback_valid [unfolded fallback_binding_def] split: sbom_answer.split)
qed

text \<open>
  C24: A request that brings its own binding is accepted without a resolver version or a method, and for another
  image; its event is then never publishable.
\<close>

theorem brought_binding_publishes_exactly:
  assumes "valid_request r" "dq_binding r = Some b"
  shows "published_event d i (mutation_payload tenant r (request_binding c tenant r)) \<noteq> None \<longleftrightarrow>
    truthy_text (db_resolver_version b) \<and> truthy_text (db_method b) \<and> db_image_digest b = wl_image_digest (dq_workload r)"
proof -
  have "valid_drift_binding b"
    using assms by (simp add: valid_request_def)
  then show ?thesis
    unfolding published_iff [OF assms(1)] by (simp add: request_binding_def assms(2) brought_valid)
qed

section \<open>Events in the graph\<close>

lemma binding_confidence_bounds:
  assumes "valid_causal_binding b"
  shows "cb_confidence b = None \<longleftrightarrow> cb_status b \<noteq> ''bound''" "cb_confidence b = Some c \<Longrightarrow> 0 < c \<and> c \<le> 1"
    "cb_purl b = None \<longleftrightarrow> cb_status b \<noteq> ''bound''" "cb_purl b \<noteq> Some []"
  using assms by (auto simp: valid_causal_binding_def split: if_splits)

definition names_component :: "causal_event \<Rightarrow> bool" where
  "names_component ev \<longleftrightarrow> (case ce_binding ev of None \<Rightarrow> False | Some b \<Rightarrow> cb_status b = ''bound'')"

lemma graph_event_confidence:
  assumes "valid_causal_event ev"
  shows "0 \<le> event_confidence (graph_event show ev)" "event_confidence (graph_event show ev) \<le> 1"
    "0 < event_confidence (graph_event show ev) \<longleftrightarrow>
       names_component ev \<and> json_truthy (json_field (ce_evidence ev) ''raw_event_digest'' JNull)"
proof -
  have conf: "event_confidence (graph_event show ev) =
      (if json_truthy (json_field (ce_evidence ev) ''raw_event_digest'' JNull) then 1 else 0) *
      (case ce_binding ev of None \<Rightarrow> 0 | Some b \<Rightarrow> (case cb_confidence b of None \<Rightarrow> 0 | Some c \<Rightarrow> c))"
    by (simp add: event_confidence_def graph_event_def Let_def split: option.split)
  have "0 \<le> event_confidence (graph_event show ev) \<and> event_confidence (graph_event show ev) \<le> 1 \<and>
    (0 < event_confidence (graph_event show ev) \<longleftrightarrow>
       names_component ev \<and> json_truthy (json_field (ce_evidence ev) ''raw_event_digest'' JNull))"
  proof (cases "ce_binding ev")
    case None
    then show ?thesis unfolding conf by (simp add: names_component_def)
  next
    case (Some b)
    with assms have "valid_causal_binding b" by (simp add: valid_causal_event_def)
    then show ?thesis
      unfolding conf using Some binding_confidence_bounds [of b]
      by (cases "cb_confidence b") (auto simp: names_component_def)
  qed
  then show "0 \<le> event_confidence (graph_event show ev)" "event_confidence (graph_event show ev) \<le> 1"
    "0 < event_confidence (graph_event show ev) \<longleftrightarrow>
       names_component ev \<and> json_truthy (json_field (ce_evidence ev) ''raw_event_digest'' JNull)"
    by blast+
qed

lemma graph_event_component:
  assumes "valid_causal_event ev"
  shows "component_key (graph_event show ev) \<noteq> None \<longleftrightarrow> names_component ev"
proof (cases "ce_binding ev")
  case None
  then show ?thesis by (simp add: component_key_def graph_event_def graph_binding_status_def names_component_def Let_def)
next
  case (Some b)
  with assms have "valid_causal_binding b" by (simp add: valid_causal_event_def)
  from binding_confidence_bounds(3,4) [OF this] Some show ?thesis
    by (cases "cb_purl b") (auto simp: component_key_def graph_event_def graph_binding_status_def names_component_def Let_def)
qed

lemma graph_event_relations:
  "map_event_to_relations (be_type (graph_event show ev)) (be_tenant (graph_event show ev))
     (optional [] (be_attrs (graph_event show ev))) = map_event_to_relations (ce_event_type ev) (ce_tenant_id ev) []"
  by (simp add: map_event_to_relations_def graph_event_def attrs_of_def optional_def dict_get_def Let_def)

text \<open>
  C25: Every valid event has a confidence within the unit interval, which is positive only for a bound component;
  it names a component exactly then. Its relations never depend on what was accessed: all files of a tenant
  are one node, and of the event types the gateway accepts those of the network have no relation at all.
\<close>

theorem graph_event_exactly:
  assumes "valid_causal_event ev" "ce_event_type ev \<in> set RUNTIME_EVENT_TYPES"
  shows "0 \<le> event_confidence (graph_event show ev) \<and> event_confidence (graph_event show ev) \<le> 1 \<and>
    (0 < event_confidence (graph_event show ev) \<longleftrightarrow>
       names_component ev \<and> json_truthy (json_field (ce_evidence ev) ''raw_event_digest'' JNull)) \<and>
    (component_key (graph_event show ev) \<noteq> None \<longleftrightarrow> names_component ev) \<and>
    map er_key (map_event_to_relations (be_type (graph_event show ev)) (be_tenant (graph_event show ev))
         (optional [] (be_attrs (graph_event show ev)))) =
       (if ce_event_type ev \<in> {''exec'', ''file_open'', ''file_write''} then [[ce_tenant_id ev, ''OTHER_RESOURCE'']] else [])"
  using graph_event_confidence [OF assms(1)] graph_event_component [OF assms(1)] assms(2)
  unfolding graph_event_relations
  by (auto simp: map_event_to_relations_def RUNTIME_EVENT_TYPES_def optional_def dict_get_def Let_def)

section \<open>Concrete inputs\<close>

definition demo_digest :: string where
  "demo_digest = ''sha256:'' @ replicate 64 CHR ''0''"

definition demo_request :: "drift_binding option \<Rightarrow> drift_request" where
  "demo_request b =
     \<lparr>dq_event_id = ''e'', dq_observed_at = Aware 0, dq_node_name = ''node'', dq_event_type = ''exec'',
      dq_process = \<lparr>pi_pid = 1, pi_tgid = 1, pi_ppid = 0, pi_uid = 0, pi_gid = 0, pi_comm = ''sh'', pi_executable_path = ''/bin/sh'',
        pi_start_time_ns = 5, pi_executable_hash = None, pi_hash_status = None\<rparr>,
      dq_workload = \<lparr>wl_cluster_name = ''c'', wl_namespace = ''n'', wl_pod_name = ''p'', wl_pod_uid = ''u'', wl_container_name = ''k'',
        wl_container_id = ''id'', wl_image_digest = demo_digest, wl_cgroup_id = 7, wl_service_account = None\<rparr>,
      dq_identity_status = ''resolved'', dq_binding = b, dq_violations = [],
      dq_evidence = \<lparr>de_kernel_timestamp_ns = 9, de_cpu = 0, de_architecture = ''x86_64'', de_event_loss_observed = False,
        de_correlation_id = None, de_raw_event_digest = demo_digest, de_resource_path = None, de_resource_hash = None,
        de_run_id = None, de_scenario_id = None\<rparr>,
      dq_agent_sequence = 1, dq_tenant_id = ''t''\<rparr>"

definition demo_brought :: drift_binding where
  "demo_brought =
     \<lparr>db_sbom_id = None, db_purl = None, db_image_digest = demo_digest, db_confidence = Some 0, db_status = ''unbound'',
      db_resolver_version = None, db_method = None, db_evidence = [], db_candidate_purls = [], db_reason = Some ''no SBOM''\<rparr>"

lemma demo_digest_text: "digest_text demo_digest"
  by (simp add: digest_text_def demo_digest_def starts_with_def is_hex64_def list_all_iff)

lemma demo_request_valid: "valid_request (demo_request None)" "valid_request (demo_request (Some demo_brought))"
  using demo_digest_text
  by (simp_all add: valid_request_def demo_request_def valid_process_def valid_workload_def valid_evidence_def valid_drift_binding_def
      demo_brought_def BINDING_STATUSES_def RUNTIME_EVENT_TYPES_def is_aware_def)

lemma demo_request_binding: "dq_binding (demo_request b) = b"
  by (simp add: demo_request_def)

text \<open>Gateways without a client, with one whose call raises, and with one that reaches the route.\<close>

definition demo_route :: "time stamp binding_request \<Rightarrow> sbom_answer" where
  "demo_route body = (case map_runtime_binding (\<lambda>d t. [] :: time stamp sbom list) (\<lambda>s t. []) ''m'' (Aware 0) body of Inl e \<Rightarrow> Raised ''x'' | Inr pl \<Rightarrow> Mapped pl)"

lemma demo_route_answers:
  "demo_route body = Mapped pl \<Longrightarrow> \<exists>mid now. map_runtime_binding (\<lambda>d t. [] :: time stamp sbom list) (\<lambda>s t. []) mid now body = Inr pl"
  unfolding demo_route_def by (intro exI [of _ "''m''"] exI [of _ "Aware 0"]) (simp split: sum.splits)

theorem resolved_request_publishes_witness:
  "published_event ''d'' ''o'' (mutation_payload ''t'' (demo_request None) (request_binding None ''t'' (demo_request None))) \<noteq> None \<and>
   published_event ''d'' ''o'' (mutation_payload ''t'' (demo_request None)
     (request_binding (Some (\<lambda>body. Raised ''ReadTimeout'')) ''t'' (demo_request None))) \<noteq> None \<and>
   published_event ''d'' ''o'' (mutation_payload ''t'' (demo_request None)
     (request_binding (Some demo_route) ''t'' (demo_request None))) \<noteq> None"
proof -
  have publishes: "published_event ''d'' ''o'' (mutation_payload ''t'' (demo_request None) (request_binding client ''t'' (demo_request None))) \<noteq> None"
    if "client \<in> {None, Some (\<lambda>body. Raised ''ReadTimeout''), Some demo_route}" for client
    using that resolved_request_publishes [OF demo_request_valid(1) demo_request_binding,
        where client = client and get_by_image_digest = "\<lambda>d t. [] :: time stamp sbom list" and get_components = "\<lambda>s t. []" and tenant = "''t''"]
      demo_route_answers by fastforce
  show ?thesis by (intro conjI publishes) simp_all
qed

theorem brought_binding_publishes_exactly_witness:
  "published_event ''d'' ''o'' (mutation_payload ''t'' (demo_request (Some demo_brought))
     (request_binding None ''t'' (demo_request (Some demo_brought)))) = None"
  using brought_binding_publishes_exactly [OF demo_request_valid(2), of demo_brought] by (simp add: demo_request_def demo_brought_def)

definition demo_payload :: causal_event where
  "demo_payload = mutation_payload ''t'' (demo_request None) (Some (fallback_binding demo_digest ''none''))"

lemma demo_payload_valid: "\<exists>ev. published_event ''d'' ''o'' demo_payload = Some ev"
  using published_iff [OF demo_request_valid(1), of "''d''" "''o''" "''t''" "Some (fallback_binding demo_digest ''none'')"]
    fallback_valid [OF demo_digest_text, of "''none''"]
  by (simp add: demo_payload_def fallback_binding_def demo_request_def)

theorem graph_event_exactly_witness:
  "\<exists>ev. published_event ''d'' ''o'' demo_payload = Some ev \<and> event_confidence (graph_event (\<lambda>j. []) ev) = 0 \<and>
     map er_key (map_event_to_relations (be_type (graph_event (\<lambda>j. []) ev)) (be_tenant (graph_event (\<lambda>j. []) ev))
       (optional [] (be_attrs (graph_event (\<lambda>j. []) ev)))) = [[''t'', ''OTHER_RESOURCE'']]"
proof -
  obtain ev where ev: "published_event ''d'' ''o'' demo_payload = Some ev"
    using demo_payload_valid by blast
  from published_is_payload [OF this] have fields: "ev = demo_payload\<lparr>ce_drift_event_id := ''d'', ce_outbox_id := ''o''\<rparr>" "valid_causal_event ev"
    by blast+
  have "ce_event_type ev = ''exec''" "ce_tenant_id ev = ''t''" "\<not> names_component ev"
    by (simp_all add: fields(1) demo_payload_def mutation_payload_def demo_request_def names_component_def causal_binding_of_def
        fallback_binding_def)
  then show ?thesis
    using ev graph_event_exactly [OF fields(2), of "\<lambda>j. []"] by (auto simp: RUNTIME_EVENT_TYPES_def)
qed

end
