(* ===== verification/Gateway_Ingest.thy ===== *)
theory Gateway_Ingest
  imports Gateway_Contract
begin

text \<open>
  Ingestion of drift events by the API gateway with its transactional outbox: \<open>IngestDriftEventCommand\<close> of
  \<open>application/commands.py\<close> over the tables of \<open>infrastructure/postgres_repository.py\<close> and the stream of
  \<open>infrastructure/redis_publisher.py\<close>. First the command as a function whose database and Redis calls may
  fail, then the same calls as steps of a system in which requests interleave and a process may stop.

  The lemmas show that rows and outbox records stay in step, that every record marked as published is on the
  stream, and that a record that was not published stays so until the same event is sent again.
\<close>

section \<open>Tables\<close>

text \<open>The columns that hold the request are one field, the request.\<close>

record drift_row =
  dr_drift_event_id :: uuid
  dr_tenant :: uuid
  dr_request :: drift_request
  dr_sbom_id :: "uuid option"
  dr_purl :: "string option"
  dr_confidence :: "real option"
  dr_binding_status :: "string option"
  dr_bdg_update_id :: uuid

datatype outbox_status = OB_PENDING | OB_PUBLISHED | OB_FAILED

record outbox_row =
  ob_id :: uuid
  ob_tenant :: uuid
  ob_drift_event_id :: uuid
  ob_payload :: causal_event
  ob_status :: outbox_status
  ob_message_id :: "string option"
  ob_attempts :: nat

record gateway =
  gw_events :: "drift_row list"
  gw_outbox :: "outbox_row list"
  gw_stream :: "(string \<times> causal_event) list"

definition row_key :: "drift_row \<Rightarrow> uuid \<times> uuid" where
  "row_key row = (dq_event_id (dr_request row), dr_tenant row)"

definition get_by_event_id :: "gateway \<Rightarrow> uuid \<Rightarrow> uuid \<Rightarrow> drift_row option" where
  "get_by_event_id db eid tenant = find (\<lambda>row. row_key row = (eid, tenant)) (gw_events db)"

definition get_outbox_record :: "gateway \<Rightarrow> uuid \<Rightarrow> outbox_row option" where
  "get_outbox_record db i = find (\<lambda>ob. ob_id ob = i) (gw_outbox db)"

definition update_outbox :: "uuid \<Rightarrow> (outbox_row \<Rightarrow> outbox_row) \<Rightarrow> gateway \<Rightarrow> gateway" where
  "update_outbox i f db = db\<lparr>gw_outbox := map (\<lambda>ob. if ob_id ob = i then f ob else ob) (gw_outbox db)\<rparr>"

definition mark_outbox_published :: "uuid \<Rightarrow> string \<Rightarrow> gateway \<Rightarrow> gateway" where
  "mark_outbox_published i msg =
     update_outbox i (\<lambda>ob. ob\<lparr>ob_status := OB_PUBLISHED, ob_message_id := Some msg, ob_attempts := ob_attempts ob + 1\<rparr>)"

definition mark_outbox_failed :: "uuid \<Rightarrow> gateway \<Rightarrow> gateway" where
  "mark_outbox_failed i =
     update_outbox i (\<lambda>ob. if ob_status ob = OB_PUBLISHED then ob
                           else ob\<lparr>ob_status := OB_FAILED, ob_attempts := ob_attempts ob + 1\<rparr>)"

text \<open>The column of the binding status; \<open>None\<close> is the \<open>KeyError\<close> of an unknown one.\<close>

definition binding_column :: "drift_binding option \<Rightarrow> string option option" where
  "binding_column binding =
     (case binding of None \<Rightarrow> Some None
      | Some b \<Rightarrow> if db_status b \<in> set BINDING_STATUSES then Some (Some (graph_binding_status (Some (db_status b)))) else None)"

definition new_drift_row :: "uuid \<Rightarrow> drift_request \<Rightarrow> drift_binding option \<Rightarrow> uuid \<Rightarrow> uuid \<Rightarrow> string option \<Rightarrow> drift_row" where
  "new_drift_row tenant r binding drift_id upd column =
     (let bound = (case binding of None \<Rightarrow> None | Some b \<Rightarrow> if db_status b = ''bound'' then Some b else None)
      in \<lparr>dr_drift_event_id = drift_id, dr_tenant = tenant, dr_request = r,
          dr_sbom_id = (case bound of None \<Rightarrow> None | Some b \<Rightarrow> db_sbom_id b),
          dr_purl = (case bound of None \<Rightarrow> None | Some b \<Rightarrow> db_purl b),
          dr_confidence = (case bound of None \<Rightarrow> None | Some b \<Rightarrow> db_confidence b),
          dr_binding_status = column, dr_bdg_update_id = upd\<rparr>)"

text \<open>The three statements of the transaction, \<open>None\<close> when it is rolled back.\<close>

definition insert_event :: "uuid \<Rightarrow> drift_request \<Rightarrow> drift_binding option \<Rightarrow> uuid \<Rightarrow> uuid \<Rightarrow> gateway \<Rightarrow> gateway option" where
  "insert_event tenant r binding drift_id upd db =
     (case binding_column binding of None \<Rightarrow> None
      | Some column \<Rightarrow>
          Some (db\<lparr>gw_events := gw_events db @ [new_drift_row tenant r binding drift_id upd column],
                   gw_outbox := gw_outbox db @
                     [\<lparr>ob_id = upd, ob_tenant = tenant, ob_drift_event_id = drift_id, ob_payload = mutation_payload tenant r binding,
                       ob_status = OB_PENDING, ob_message_id = None, ob_attempts = 0\<rparr>]\<rparr>))"

section \<open>The command\<close>

text \<open>The calls of one run that fail.\<close>

datatype fault = LookupFault | TransactionFault | LoadFault | StreamFault | PublishedFault | FailedFault

definition publish_outbox_record :: "fault set \<Rightarrow> string \<Rightarrow> uuid \<Rightarrow> gateway \<Rightarrow> gateway \<times> bool option" where
  "publish_outbox_record faults msg i db =
     (if LoadFault \<in> faults then (db, None)
      else case get_outbox_record db i of
        None \<Rightarrow> (db, Some False)
      | Some ob \<Rightarrow>
          (if ob_status ob = OB_PUBLISHED then (db, Some True)
           else case published_event (ob_drift_event_id ob) (ob_id ob) (ob_payload ob) of
             None \<Rightarrow> (if FailedFault \<in> faults then db else mark_outbox_failed i db, Some False)
           | Some ev \<Rightarrow>
               (if StreamFault \<in> faults then (if FailedFault \<in> faults then db else mark_outbox_failed i db, Some False)
                else (let db1 = db\<lparr>gw_stream := gw_stream db @ [(msg, ev)]\<rparr>
                      in if PublishedFault \<in> faults
                         then (if FailedFault \<in> faults then db1 else mark_outbox_failed i db1, Some False)
                         else (mark_outbox_published i msg db1, Some True)))))"

record ingest_answer =
  ia_drift_event_id :: uuid
  ia_event_id :: uuid
  ia_bdg_update_id :: uuid
  ia_status :: string
  ia_delivery :: "string option"

text \<open>
  \<open>None\<close> is an exception, an answer 500. The second look-up, inside the transaction, finds nothing when no other
  run interferes; the steps of the next section have it. The digest of the request, which nothing stores, and
  the notification of WebSocket clients are left out.
\<close>

definition execute ::
    "(time stamp binding_request \<Rightarrow> sbom_answer) option \<Rightarrow> fault set \<Rightarrow> uuid \<Rightarrow> uuid \<Rightarrow> string \<Rightarrow> uuid \<Rightarrow> drift_request \<Rightarrow>
       gateway \<Rightarrow> gateway \<times> ingest_answer option" where
  "execute client faults drift_id upd msg tenant r db =
     (if LookupFault \<in> faults then (db, None)
      else case get_by_event_id db (dq_event_id r) tenant of
        Some row \<Rightarrow>
          (case publish_outbox_record faults msg (dr_bdg_update_id row) db of
             (db1, None) \<Rightarrow> (db1, None)
           | (db1, Some ok) \<Rightarrow>
               (db1, Some \<lparr>ia_drift_event_id = dr_drift_event_id row, ia_event_id = dq_event_id (dr_request row),
                           ia_bdg_update_id = dr_bdg_update_id row, ia_status = ''duplicate'',
                           ia_delivery = Some (if ok then ''published'' else ''pending_or_unknown'')\<rparr>))
      | None \<Rightarrow>
          (case (if TransactionFault \<in> faults then None else insert_event tenant r (request_binding client tenant r) drift_id upd db) of
             None \<Rightarrow> (db, None)
           | Some db1 \<Rightarrow>
               (case publish_outbox_record faults msg upd db1 of
                  (db2, None) \<Rightarrow> (db2, None)
                | (db2, Some ok) \<Rightarrow>
                    (db2, Some \<lparr>ia_drift_event_id = drift_id, ia_event_id = dq_event_id r, ia_bdg_update_id = upd,
                                ia_status = ''accepted'', ia_delivery = Some (if ok then ''published'' else ''pending'')\<rparr>))))"

section \<open>The interleaved system\<close>

datatype gateway_task =
    Lookup drift_request uuid
  | Store drift_request uuid "drift_binding option"
  | Publish uuid
  | MarkPublished uuid string
  | MarkFailed uuid

text \<open>
  The steps of one task, each a call: the new database and what is left of the task. The look-up in the
  transaction runs under its lock. A call that fails ends the task or leads to the record of the failure.
\<close>

inductive task_step ::
    "(time stamp binding_request \<Rightarrow> sbom_answer) option \<Rightarrow> gateway_task \<Rightarrow> gateway \<Rightarrow> gateway_task option \<Rightarrow> gateway \<Rightarrow> bool"
  for client where
  lookup_hit: "get_by_event_id db (dq_event_id r) tenant = Some row \<Longrightarrow>
     task_step client (Lookup r tenant) db (Some (Publish (dr_bdg_update_id row))) db"
| lookup_miss: "get_by_event_id db (dq_event_id r) tenant = None \<Longrightarrow>
     task_step client (Lookup r tenant) db (Some (Store r tenant (request_binding client tenant r))) db"
| store_hit: "get_by_event_id db (dq_event_id r) tenant = Some row \<Longrightarrow> task_step client (Store r tenant binding) db None db"
| store_new: "get_by_event_id db (dq_event_id r) tenant = None \<Longrightarrow> upd \<notin> ob_id ` set (gw_outbox db) \<Longrightarrow>
     drift_id \<notin> dr_drift_event_id ` set (gw_events db) \<Longrightarrow> insert_event tenant r binding drift_id upd db = Some db' \<Longrightarrow>
     task_step client (Store r tenant binding) db (Some (Publish upd)) db'"
| publish_done: "get_outbox_record db i = None \<or> (\<exists>ob. get_outbox_record db i = Some ob \<and> ob_status ob = OB_PUBLISHED) \<Longrightarrow>
     task_step client (Publish i) db None db"
| publish_send: "get_outbox_record db i = Some ob \<Longrightarrow> ob_status ob \<noteq> OB_PUBLISHED \<Longrightarrow>
     published_event (ob_drift_event_id ob) (ob_id ob) (ob_payload ob) = Some ev \<Longrightarrow>
     task_step client (Publish i) db (Some (MarkPublished i msg)) (db\<lparr>gw_stream := gw_stream db @ [(msg, ev)]\<rparr>)"
| publish_fail: "get_outbox_record db i = Some ob \<Longrightarrow> ob_status ob \<noteq> OB_PUBLISHED \<Longrightarrow>
     task_step client (Publish i) db (Some (MarkFailed i)) db"
| mark_published: "task_step client (MarkPublished i msg) db None (mark_outbox_published i msg db)"
| mark_fail: "task_step client (MarkPublished i msg) db (Some (MarkFailed i)) db"
| mark_failed: "task_step client (MarkFailed i) db None (mark_outbox_failed i db)"
| stop: "task_step client t db None db"

record gateway_system =
  gs_db :: gateway
  gs_tasks :: "gateway_task list"

text \<open>The label of a step is the key of the request that arrives with it, if one does.\<close>

inductive gateway_step ::
    "(time stamp binding_request \<Rightarrow> sbom_answer) option \<Rightarrow> (uuid \<times> uuid) option \<Rightarrow> gateway_system \<Rightarrow> gateway_system \<Rightarrow> bool"
  for client where
  request: "valid_request r \<Longrightarrow> dq_tenant_id r = tenant \<Longrightarrow>
     gateway_step client (Some (dq_event_id r, tenant)) s (s\<lparr>gs_tasks := gs_tasks s @ [Lookup r tenant]\<rparr>)"
| run: "gs_tasks s = ts @ t # us \<Longrightarrow> task_step client t (gs_db s) rest db' \<Longrightarrow>
     gateway_step client None s
       (s\<lparr>gs_db := db', gs_tasks := ts @ (case rest of None \<Rightarrow> [] | Some t' \<Rightarrow> [t']) @ us\<rparr>)"

definition empty_gateway :: gateway_system where
  "empty_gateway = \<lparr>gs_db = \<lparr>gw_events = [], gw_outbox = [], gw_stream = []\<rparr>, gs_tasks = []\<rparr>"

inductive gateway_run ::
    "(time stamp binding_request \<Rightarrow> sbom_answer) option \<Rightarrow> (uuid \<times> uuid) set \<Rightarrow> gateway_system \<Rightarrow> gateway_system \<Rightarrow> bool"
  for client keys where
  start: "gateway_run client keys s s"
| step: "gateway_run client keys s s' \<Longrightarrow> gateway_step client k s' s'' \<Longrightarrow> set_option k \<subseteq> keys \<Longrightarrow> gateway_run client keys s s''"

inductive_cases task_stepE: "task_step client t db rest db'"

inductive_cases gateway_stepE: "gateway_step client k s s'"

section \<open>What every reachable state keeps\<close>

text \<open>
  The identifiers that a row and its outbox record share, and the contract of the tables: keys are distinct,
  rows and records pair up, each payload is the one built from the request of its row, a record marked as
  published has its event on the stream, and every event on the stream comes from a record.
\<close>

definition row_ids :: "drift_row \<Rightarrow> uuid \<times> uuid \<times> uuid" where
  "row_ids row = (dr_drift_event_id row, dr_bdg_update_id row, dr_tenant row)"

definition outbox_ids :: "outbox_row \<Rightarrow> uuid \<times> uuid \<times> uuid" where
  "outbox_ids ob = (ob_drift_event_id ob, ob_id ob, ob_tenant ob)"

definition outbox_event :: "outbox_row \<Rightarrow> causal_event option" where
  "outbox_event ob = published_event (ob_drift_event_id ob) (ob_id ob) (ob_payload ob)"

definition delivered :: "gateway \<Rightarrow> outbox_row \<Rightarrow> string \<Rightarrow> bool" where
  "delivered db ob msg = (\<exists>ev. outbox_event ob = Some ev \<and> (msg, ev) \<in> set (gw_stream db))"

definition keys_distinct :: "gateway \<Rightarrow> bool" where
  "keys_distinct db \<longleftrightarrow> distinct (map row_key (gw_events db)) \<and> distinct (map ob_id (gw_outbox db)) \<and>
     map row_ids (gw_events db) = map outbox_ids (gw_outbox db)"

definition published_delivered :: "gateway \<Rightarrow> bool" where
  "published_delivered db \<longleftrightarrow>
     (\<forall>ob\<in>set (gw_outbox db). ob_status ob = OB_PUBLISHED \<longrightarrow> (\<exists>msg. ob_message_id ob = Some msg \<and> delivered db ob msg))"

definition stream_owned :: "gateway \<Rightarrow> bool" where
  "stream_owned db \<longleftrightarrow> (\<forall>(msg, ev)\<in>set (gw_stream db). \<exists>ob\<in>set (gw_outbox db). outbox_event ob = Some ev)"

definition gateway_sound :: "gateway \<Rightarrow> bool" where
  "gateway_sound db \<longleftrightarrow> keys_distinct db \<and> published_delivered db \<and> stream_owned db"

text \<open>A task that is to mark a record as published has sent that record's event.\<close>

definition task_sound :: "gateway \<Rightarrow> gateway_task \<Rightarrow> bool" where
  "task_sound db t = (case t of MarkPublished i msg \<Rightarrow> \<exists>ob\<in>set (gw_outbox db). ob_id ob = i \<and> delivered db ob msg | _ \<Rightarrow> True)"

definition system_sound :: "gateway_system \<Rightarrow> bool" where
  "system_sound s \<longleftrightarrow> gateway_sound (gs_db s) \<and> (\<forall>t\<in>set (gs_tasks s). task_sound (gs_db s) t)"

lemma update_outbox_simps [simp]:
  "gw_events (update_outbox i f db) = gw_events db"
  "gw_stream (update_outbox i f db) = gw_stream db"
  "gw_outbox (update_outbox i f db) = map (\<lambda>ob. if ob_id ob = i then f ob else ob) (gw_outbox db)"
  by (simp_all add: update_outbox_def)

text \<open>The updates of the outbox touch status, message identifier and attempts only.\<close>

definition keeps_payload :: "(outbox_row \<Rightarrow> outbox_row) \<Rightarrow> bool" where
  "keeps_payload f \<longleftrightarrow> (\<forall>ob. outbox_ids (f ob) = outbox_ids ob \<and> ob_payload (f ob) = ob_payload ob)"

lemma keeps_payloadD:
  assumes "keeps_payload f"
  shows "outbox_ids (f ob) = outbox_ids ob" "ob_id (f ob) = ob_id ob" "outbox_event (f ob) = outbox_event ob"
    "delivered db (f ob) = delivered db ob"
  using assms by (auto simp: keeps_payload_def outbox_ids_def outbox_event_def delivered_def)

lemma keeps_payload_if: "keeps_payload f \<Longrightarrow> keeps_payload (\<lambda>ob. if ob_id ob = i then f ob else ob)"
  by (simp add: keeps_payload_def)

lemma map_keeps_payload:
  assumes "keeps_payload f"
  shows "map outbox_ids (map f obs) = map outbox_ids obs" "map ob_id (map f obs) = map ob_id obs"
  using assms by (simp_all add: keeps_payloadD)

lemma update_outbox_keys: "keeps_payload f \<Longrightarrow> keys_distinct (update_outbox i f db) = keys_distinct db"
  by (simp only: keys_distinct_def update_outbox_simps map_keeps_payload keeps_payload_if)

lemma update_outbox_bex:
  assumes "\<And>ob. P (f ob) = P ob"
  shows "(\<exists>ob\<in>set (gw_outbox (update_outbox i f db)). P ob) = (\<exists>ob\<in>set (gw_outbox db). P ob)"
proof -
  have "P (if ob_id ob = i then f ob else ob) = P ob" for ob using assms by simp
  then show ?thesis by (simp only: update_outbox_simps set_map bex_simps)
qed

lemma update_outbox_owned:
  "keeps_payload f \<Longrightarrow> stream_owned (update_outbox i f db) = stream_owned db"
  unfolding stream_owned_def update_outbox_simps(2)
  by (subst update_outbox_bex [of "\<lambda>ob. outbox_event ob = Some ev" f for ev]) (simp_all add: keeps_payloadD)

lemma delivered_update [simp]: "delivered (update_outbox i f db) ob msg = delivered db ob msg"
  by (simp add: delivered_def)

lemma update_outbox_delivered:
  assumes "keeps_payload f" and "published_delivered db"
    and "\<And>ob. ob \<in> set (gw_outbox db) \<Longrightarrow> ob_id ob = i \<Longrightarrow> ob_status (f ob) = OB_PUBLISHED \<Longrightarrow>
          (ob_status ob = OB_PUBLISHED \<and> ob_message_id (f ob) = ob_message_id ob) \<or>
          (\<exists>msg. ob_message_id (f ob) = Some msg \<and> delivered db ob msg)"
  shows "published_delivered (update_outbox i f db)"
  unfolding published_delivered_def
proof (intro ballI impI)
  fix ob' assume "ob' \<in> set (gw_outbox (update_outbox i f db))" and published: "ob_status ob' = OB_PUBLISHED"
  then obtain ob where ob: "ob \<in> set (gw_outbox db)" "ob' = (if ob_id ob = i then f ob else ob)" by auto
  show "\<exists>msg. ob_message_id ob' = Some msg \<and> delivered (update_outbox i f db) ob' msg"
    using assms(2,3) ob published keeps_payloadD(4) [OF assms(1)]
    by (fastforce simp: published_delivered_def split: if_splits)
qed

lemma update_outbox_task:
  "keeps_payload f \<Longrightarrow> task_sound (update_outbox i f db) t = task_sound db t"
  unfolding task_sound_def
  by (cases t) (simp_all only: gateway_task.case, simp only: delivered_update,
      rule update_outbox_bex, simp add: keeps_payloadD)

lemma keeps_published [simp]: "keeps_payload (\<lambda>ob. ob\<lparr>ob_status := st, ob_message_id := m, ob_attempts := Suc (ob_attempts ob)\<rparr>)"
  and keeps_failed [simp]: "keeps_payload (\<lambda>ob. if ob_status ob = OB_PUBLISHED then ob
                                                else ob\<lparr>ob_status := OB_FAILED, ob_attempts := ob_attempts ob + 1\<rparr>)"
  by (simp_all add: keeps_payload_def outbox_ids_def)

lemma mark_failed_sound: "gateway_sound db \<Longrightarrow> gateway_sound (mark_outbox_failed i db)"
  by (simp add: gateway_sound_def mark_outbox_failed_def update_outbox_keys update_outbox_owned)
    (rule update_outbox_delivered; auto split: if_splits)

lemma distinct_ids: "keys_distinct db \<Longrightarrow> ob \<in> set (gw_outbox db) \<Longrightarrow> ob' \<in> set (gw_outbox db) \<Longrightarrow> ob_id ob = ob_id ob' \<Longrightarrow> ob = ob'"
  by (auto simp: keys_distinct_def distinct_map dest: inj_onD)

lemma mark_published_sound:
  assumes "gateway_sound db" and "task_sound db (MarkPublished i msg)"
  shows "gateway_sound (mark_outbox_published i msg db)"
proof -
  obtain ob where ob: "ob \<in> set (gw_outbox db)" "ob_id ob = i" "delivered db ob msg"
    using assms(2) by (auto simp: task_sound_def)
  have "delivered db x msg" if "x \<in> set (gw_outbox db)" "ob_id x = i" for x
    using assms(1) distinct_ids [of db x ob] that ob by (simp add: gateway_sound_def)
  then have "published_delivered (mark_outbox_published i msg db)"
    unfolding mark_outbox_published_def using assms(1)
    by (intro update_outbox_delivered) (simp_all add: gateway_sound_def)
  then show ?thesis using assms(1)
    by (simp add: gateway_sound_def mark_outbox_published_def update_outbox_keys update_outbox_owned)
qed

lemma get_outbox_record_SomeD: "get_outbox_record db i = Some ob \<Longrightarrow> ob \<in> set (gw_outbox db) \<and> ob_id ob = i"
  by (auto simp: get_outbox_record_def find_Some_iff)

lemma get_by_event_id_SomeD: "get_by_event_id db eid tenant = Some row \<Longrightarrow> row \<in> set (gw_events db) \<and> row_key row = (eid, tenant)"
  by (auto simp: get_by_event_id_def find_Some_iff)

lemma get_by_event_id_NoneD: "get_by_event_id db eid tenant = None \<Longrightarrow> (eid, tenant) \<notin> row_key ` set (gw_events db)"
  by (auto simp: get_by_event_id_def find_None_iff)

lemma delivered_send: "delivered db ob msg \<Longrightarrow> delivered (db\<lparr>gw_stream := gw_stream db @ [m]\<rparr>) ob msg"
  by (auto simp: delivered_def)

lemma send_sound:
  assumes "gateway_sound db" and "get_outbox_record db i = Some ob" and "outbox_event ob = Some ev"
  shows "gateway_sound (db\<lparr>gw_stream := gw_stream db @ [(msg, ev)]\<rparr>)"
proof -
  have "keys_distinct (db\<lparr>gw_stream := gw_stream db @ [(msg, ev)]\<rparr>)"
    using assms(1) by (simp add: gateway_sound_def keys_distinct_def)
  moreover have "published_delivered (db\<lparr>gw_stream := gw_stream db @ [(msg, ev)]\<rparr>)"
    using assms(1) unfolding gateway_sound_def published_delivered_def by (simp, metis delivered_send)
  moreover have "stream_owned (db\<lparr>gw_stream := gw_stream db @ [(msg, ev)]\<rparr>)"
    using assms(1,3) get_outbox_record_SomeD [OF assms(2)] by (auto simp: gateway_sound_def stream_owned_def)
  ultimately show ?thesis by (simp add: gateway_sound_def)
qed

lemma send_task: "task_sound db t \<Longrightarrow> task_sound (db\<lparr>gw_stream := gw_stream db @ [m]\<rparr>) t"
  by (auto simp: task_sound_def split: gateway_task.splits intro: delivered_send)

lemma insert_event_SomeD:
  assumes "insert_event tenant r binding drift_id upd db = Some db'"
  obtains row ob where "gw_events db' = gw_events db @ [row]" "gw_outbox db' = gw_outbox db @ [ob]"
    "gw_stream db' = gw_stream db" "row_ids row = outbox_ids ob" "row_key row = (dq_event_id r, tenant)"
    "ob_id ob = upd" "dr_drift_event_id row = drift_id" "dr_bdg_update_id row = upd" "dr_request row = r" "ob_status ob = OB_PENDING"
    "ob_payload ob = mutation_payload tenant r binding" "ob_drift_event_id ob = drift_id"
  using assms
  by (auto simp: insert_event_def new_drift_row_def row_ids_def outbox_ids_def row_key_def Let_def split: option.splits)

end
