(* ===== verification/Gateway_Outbox.thy ===== *)
theory Gateway_Outbox
  imports Gateway_Ingest
begin

text \<open>
  What the outbox of the API gateway guarantees, over the definitions of \<open>Gateway_Ingest\<close>: the tables and the
  stream stay in step under every interleaving and every crash, one run of the command is a run of the
  interleaved system, an event that is sent again is delivered, and without that nothing delivers it.
\<close>

section \<open>Every step keeps the contract\<close>

lemma insert_sound:
  assumes "gateway_sound db" and "insert_event tenant r binding drift_id upd db = Some db'"
    and "get_by_event_id db (dq_event_id r) tenant = None" and "upd \<notin> ob_id ` set (gw_outbox db)"
  shows "gateway_sound db'"
proof -
  obtain row ob where new: "gw_events db' = gw_events db @ [row]" "gw_outbox db' = gw_outbox db @ [ob]"
      "gw_stream db' = gw_stream db" "row_ids row = outbox_ids ob" "row_key row = (dq_event_id r, tenant)"
      "ob_id ob = upd" "ob_status ob = OB_PENDING"
    using assms(2) by (rule insert_event_SomeD)
  have "keys_distinct db'"
    using assms(1,4) get_by_event_id_NoneD [OF assms(3)] new by (simp add: gateway_sound_def keys_distinct_def)
  moreover have "delivered db' = delivered db" by (intro ext) (simp add: delivered_def new)
  then have "published_delivered db'" using assms(1) new by (simp add: gateway_sound_def published_delivered_def)
  moreover have "stream_owned db'" using assms(1) new by (auto simp: gateway_sound_def stream_owned_def)
  ultimately show ?thesis by (simp add: gateway_sound_def)
qed

lemma insert_task:
  assumes "insert_event tenant r binding drift_id upd db = Some db'" and "task_sound db t"
  shows "task_sound db' t"
proof -
  obtain row ob where "gw_outbox db' = gw_outbox db @ [ob]" "gw_stream db' = gw_stream db"
    using assms(1) by (rule insert_event_SomeD)
  then show ?thesis using assms(2) by (auto simp: task_sound_def delivered_def split: gateway_task.splits)
qed

lemma mark_task [simp]:
  "task_sound (mark_outbox_published i msg db) t = task_sound db t"
  "task_sound (mark_outbox_failed i db) t = task_sound db t"
  by (simp_all add: mark_outbox_published_def mark_outbox_failed_def update_outbox_task)

text \<open>
  A step keeps the tables, leaves a sound task, and spoils no other task.\<close>

lemma task_step_sound:
  assumes "task_step client t db rest db'" and "gateway_sound db" and "task_sound db t"
  shows "gateway_sound db' \<and> (\<forall>t'. rest = Some t' \<longrightarrow> task_sound db' t') \<and> (\<forall>t'. task_sound db t' \<longrightarrow> task_sound db' t')"
  using assms
proof (induction rule: task_step.induct)
  case (publish_send db i ob ev msg)
  then have ev: "outbox_event ob = Some ev" by (simp add: outbox_event_def)
  have "gateway_sound (db\<lparr>gw_stream := gw_stream db @ [(msg, ev)]\<rparr>)"
    using publish_send ev by (intro send_sound)
  moreover have "task_sound (db\<lparr>gw_stream := gw_stream db @ [(msg, ev)]\<rparr>) (MarkPublished i msg)"
    using get_outbox_record_SomeD [OF publish_send(1)] ev by (auto simp: task_sound_def delivered_def)
  ultimately show ?case by (simp add: send_task)
next
  case (store_new db r tenant upd drift_id binding db')
  then show ?case using insert_sound insert_task by (fastforce simp: task_sound_def)
qed (auto simp: mark_published_sound mark_failed_sound, simp_all add: task_sound_def)

lemma gateway_step_sound:
  assumes "gateway_step client k s s'" and "system_sound s"
  shows "system_sound s'"
  using assms
proof (induction rule: gateway_step.induct)
  case (request r tenant s)
  then show ?case by (simp add: system_sound_def task_sound_def)
next
  case (run s ts t us rest db')
  then show ?case using task_step_sound [OF run(2)]
    by (auto simp: system_sound_def split: option.splits)
qed

lemma gateway_run_sound: "gateway_run client keys s s' \<Longrightarrow> system_sound s \<Longrightarrow> system_sound s'"
  by (induction rule: gateway_run.induct) (auto intro: gateway_step_sound)

lemma empty_sound: "system_sound empty_gateway"
  by (simp add: system_sound_def empty_gateway_def gateway_sound_def keys_distinct_def published_delivered_def stream_owned_def)

section \<open>One run of the command is a run of the system\<close>

lemma run_task:
  assumes "gateway_run client keys s \<lparr>gs_db = db, gs_tasks = ts @ [t]\<rparr>" and "task_step client t db rest db'"
  shows "gateway_run client keys s \<lparr>gs_db = db', gs_tasks = ts @ (case rest of None \<Rightarrow> [] | Some t' \<Rightarrow> [t'])\<rparr>"
proof (rule gateway_run.step [OF assms(1)])
  show "gateway_step client None \<lparr>gs_db = db, gs_tasks = ts @ [t]\<rparr>
      \<lparr>gs_db = db', gs_tasks = ts @ (case rest of None \<Rightarrow> [] | Some t' \<Rightarrow> [t'])\<rparr>"
    using gateway_step.run [of "\<lparr>gs_db = db, gs_tasks = ts @ [t]\<rparr>" ts t "[]" client rest db'] assms(2) by simp
qed simp

lemmas run_task_on = run_task [where rest = "Some t'" for t', simplified]
  and run_task_off = run_task [where rest = None, simplified]

lemma run_mark_failed:
  assumes "gateway_run client keys s \<lparr>gs_db = db, gs_tasks = ts @ [MarkFailed i]\<rparr>"
  shows "gateway_run client keys s \<lparr>gs_db = (if gone then db else mark_outbox_failed i db), gs_tasks = ts\<rparr>"
  using run_task_off [OF assms task_step.stop] run_task_off [OF assms task_step.mark_failed] by simp

lemma run_publish:
  assumes "gateway_run client keys s \<lparr>gs_db = db, gs_tasks = ts @ [Publish i]\<rparr>"
  shows "gateway_run client keys s \<lparr>gs_db = fst (publish_outbox_record faults msg i db), gs_tasks = ts\<rparr>"
proof (cases "LoadFault \<in> faults \<or> get_outbox_record db i = None \<or>
              (\<exists>ob. get_outbox_record db i = Some ob \<and> ob_status ob = OB_PUBLISHED)")
  case True
  then have "fst (publish_outbox_record faults msg i db) = db" by (auto simp: publish_outbox_record_def)
  then show ?thesis using run_task_off [OF assms task_step.stop] by simp
next
  case False
  then obtain ob where ob: "LoadFault \<notin> faults" "get_outbox_record db i = Some ob" "ob_status ob \<noteq> OB_PUBLISHED" by auto
  show ?thesis
  proof (cases "StreamFault \<in> faults \<or> outbox_event ob = None")
    case True
    then have "fst (publish_outbox_record faults msg i db) = (if FailedFault \<in> faults then db else mark_outbox_failed i db)"
      using ob by (auto simp: publish_outbox_record_def outbox_event_def split: option.splits)
    then show ?thesis using run_mark_failed [OF run_task_on [OF assms task_step.publish_fail [OF ob(2,3)]]] by simp
  next
    case False
    then obtain ev where ev: "outbox_event ob = Some ev" "StreamFault \<notin> faults" by auto
    let ?db = "db\<lparr>gw_stream := gw_stream db @ [(msg, ev)]\<rparr>"
    have sent: "gateway_run client keys s \<lparr>gs_db = ?db, gs_tasks = ts @ [MarkPublished i msg]\<rparr>"
      using run_task_on [OF assms task_step.publish_send [OF ob(2,3)]] ev by (simp add: outbox_event_def)
    show ?thesis
      using run_task_off [OF sent task_step.mark_published]
        run_mark_failed [OF run_task_on [OF sent task_step.mark_fail], of "FailedFault \<in> faults"] ob ev
      by (simp add: publish_outbox_record_def outbox_event_def Let_def)
  qed
qed

lemma execute_runs:
  assumes "valid_request r" and "dq_tenant_id r = tenant" and "upd \<notin> ob_id ` set (gw_outbox db)"
    and "drift_id \<notin> dr_drift_event_id ` set (gw_events db)"
  shows "gateway_run client {(dq_event_id r, tenant)} \<lparr>gs_db = db, gs_tasks = ts\<rparr>
           \<lparr>gs_db = fst (execute client faults drift_id upd msg tenant r db), gs_tasks = ts\<rparr>"
    (is "gateway_run client ?keys ?s \<lparr>gs_db = ?db', gs_tasks = ts\<rparr>")
proof -
  have asked: "gateway_run client ?keys ?s \<lparr>gs_db = db, gs_tasks = ts @ [Lookup r tenant]\<rparr>"
    using gateway_run.step [OF gateway_run.start gateway_step.request [OF assms(1,2)], of ?keys client ?s] by simp
  then have unchanged: "gateway_run client ?keys ?s ?s" using run_task_off [OF asked task_step.stop] by simp
  show ?thesis
  proof (cases "get_by_event_id db (dq_event_id r) tenant")
    case (Some row)
    then show ?thesis
      using unchanged run_publish [OF run_task_on [OF asked task_step.lookup_hit [OF Some]], of faults msg]
      by (auto simp: execute_def split: prod.splits option.splits)
  next
    case None
    let ?store = "insert_event tenant r (request_binding client tenant r) drift_id upd db"
    show ?thesis
    proof (cases "LookupFault \<in> faults \<or> TransactionFault \<in> faults \<or> ?store = None")
      case True
      then have "?db' = db" using None by (auto simp: execute_def)
      then show ?thesis using unchanged by simp
    next
      case False
      then obtain db1 where db1: "?store = Some db1" by auto
      have "gateway_run client ?keys ?s \<lparr>gs_db = db1, gs_tasks = ts @ [Publish upd]\<rparr>"
        using run_task_on [OF run_task_on [OF asked task_step.lookup_miss [OF None]]
            task_step.store_new [OF None assms(3,4) db1]] .
      from run_publish [OF this, of faults msg] show ?thesis
        using False None db1 by (auto simp: execute_def split: prod.splits option.splits)
    qed
  qed
qed

section \<open>Records and the rows they belong to\<close>

lemma row_has_record:
  assumes "gateway_sound db" and "row \<in> set (gw_events db)"
  obtains ob where "get_outbox_record db (dr_bdg_update_id row) = Some ob" "ob \<in> set (gw_outbox db)"
    "ob_id ob = dr_bdg_update_id row" "ob_drift_event_id ob = dr_drift_event_id row"
proof -
  have keys: "keys_distinct db" using assms(1) by (simp add: gateway_sound_def)
  then have "row_ids row \<in> outbox_ids ` set (gw_outbox db)"
    using assms(2) by (metis keys_distinct_def image_eqI set_map)
  then obtain ob where ob: "ob \<in> set (gw_outbox db)" "row_ids row = outbox_ids ob" by auto
  then have i: "ob_id ob = dr_bdg_update_id row" by (simp add: row_ids_def outbox_ids_def)
  obtain ob' where ob': "get_outbox_record db (dr_bdg_update_id row) = Some ob'"
    using ob(1) i by (cases "get_outbox_record db (dr_bdg_update_id row)") (auto simp: get_outbox_record_def find_None_iff)
  then have "ob' = ob" using distinct_ids [OF keys _ ob(1)] get_outbox_record_SomeD [OF ob'] i by simp
  then show thesis using that ob' ob i by (simp add: row_ids_def outbox_ids_def)
qed

lemma rows_differ:
  assumes "gateway_sound db" and "row \<in> set (gw_events db)" and "row' \<in> set (gw_events db)"
    and "row_key row \<noteq> row_key row'"
  shows "dr_bdg_update_id row \<noteq> dr_bdg_update_id row'"
proof -
  have "map dr_bdg_update_id (gw_events db) = map (fst \<circ> snd) (map row_ids (gw_events db))" by (simp add: row_ids_def comp_def)
  also have "\<dots> = map (fst \<circ> snd) (map outbox_ids (gw_outbox db))"
    using assms(1) by (simp only: gateway_sound_def keys_distinct_def)
  also have "\<dots> = map ob_id (gw_outbox db)" by (simp add: outbox_ids_def comp_def)
  finally have "distinct (map dr_bdg_update_id (gw_events db))"
    using assms(1) by (simp only: gateway_sound_def keys_distinct_def)
  then have "inj_on dr_bdg_update_id (set (gw_events db))" by (simp add: distinct_map)
  then show ?thesis using assms(2-4) inj_onD by metis
qed

lemma get_outbox_update:
  assumes "get_outbox_record db i = Some ob" and "keeps_payload f"
  shows "get_outbox_record (update_outbox i f db) i = Some (f ob)"
proof -
  have "find (\<lambda>ob. ob_id ob = i) (map (\<lambda>ob. if ob_id ob = i then f ob else ob) obs) = map_option f (find (\<lambda>ob. ob_id ob = i) obs)"
    for obs using keeps_payloadD(2) [OF assms(2)] by (induction obs) auto
  then show ?thesis using assms(1) by (simp add: get_outbox_record_def)
qed

lemma event_names_record: "outbox_event ob = Some ev \<Longrightarrow> ce_outbox_id ev = ob_id ob"
  unfolding outbox_event_def by (drule published_is_payload) simp

section \<open>Sending an event again\<close>

text \<open>
  The outcome of a publication without failures: the record's new state and the answer.\<close>

lemma publish_without_faults:
  assumes "get_outbox_record db i = Some ob" and "ob_status ob = OB_PUBLISHED \<Longrightarrow> delivered db ob old \<and> ob_message_id ob = Some old"
  shows "\<exists>db'. publish_outbox_record {} msg i db = (db', Some (outbox_event ob \<noteq> None)) \<and> gw_events db' = gw_events db \<and>
    (\<exists>ob' m. get_outbox_record db' i = Some ob' \<and>
       (if outbox_event ob = None then ob_status ob' = OB_FAILED \<and> ob_attempts ob' = ob_attempts ob + 1 \<and> gw_stream db' = gw_stream db
        else ob_status ob' = OB_PUBLISHED \<and> ob_message_id ob' = Some m \<and> delivered db' ob' m))"
proof (cases "ob_status ob = OB_PUBLISHED")
  case True
  then have "outbox_event ob \<noteq> None" using assms(2) by (auto simp: delivered_def)
  then show ?thesis using True assms by (auto simp: publish_outbox_record_def)
next
  case pending: False
  show ?thesis
  proof (cases "outbox_event ob")
    case None
    then have "publish_outbox_record {} msg i db = (mark_outbox_failed i db, Some False)"
      using pending assms(1) by (simp add: publish_outbox_record_def outbox_event_def)
    then show ?thesis using None pending get_outbox_update [OF assms(1) keeps_failed]
      by (simp add: mark_outbox_failed_def)
  next
    case (Some ev)
    let ?sent = "db\<lparr>gw_stream := gw_stream db @ [(msg, ev)]\<rparr>"
    have "get_outbox_record ?sent i = Some ob" using assms(1) by (simp add: get_outbox_record_def)
    from get_outbox_update [OF this keeps_published]
    have "get_outbox_record (mark_outbox_published i msg ?sent) i
        = Some (ob\<lparr>ob_status := OB_PUBLISHED, ob_message_id := Some msg, ob_attempts := ob_attempts ob + 1\<rparr>)"
      by (simp add: mark_outbox_published_def)
    moreover have "publish_outbox_record {} msg i db = (mark_outbox_published i msg ?sent, Some True)"
      using Some pending assms(1) by (simp add: publish_outbox_record_def outbox_event_def Let_def)
    ultimately show ?thesis
      using Some by (auto simp: mark_outbox_published_def delivered_def outbox_event_def)
  qed
qed

section \<open>Without a new request nothing is delivered\<close>

text \<open>A task that has nothing to do with a row.\<close>

definition avoids :: "drift_row \<Rightarrow> gateway_task \<Rightarrow> bool" where
  "avoids row t =
     (case t of Lookup r tenant \<Rightarrow> (dq_event_id r, tenant) \<noteq> row_key row
      | Store r tenant _ \<Rightarrow> (dq_event_id r, tenant) \<noteq> row_key row
      | Publish i \<Rightarrow> i \<noteq> dr_bdg_update_id row
      | MarkPublished i _ \<Rightarrow> i \<noteq> dr_bdg_update_id row
      | MarkFailed i \<Rightarrow> i \<noteq> dr_bdg_update_id row)"

definition holds_record :: "drift_row \<Rightarrow> outbox_row \<Rightarrow> gateway \<Rightarrow> bool" where
  "holds_record row ob db \<longleftrightarrow> row \<in> set (gw_events db) \<and> ob \<in> set (gw_outbox db) \<and> ob_id ob = dr_bdg_update_id row"

lemma update_other_record:
  assumes "holds_record row ob db" and "i \<noteq> dr_bdg_update_id row"
  shows "holds_record row ob (update_outbox i f db)"
  using assms by (auto simp: holds_record_def)

lemma task_step_avoids:
  assumes "task_step client t db rest db'" and "gateway_sound db" and "holds_record row ob db" and "avoids row t"
  shows "holds_record row ob db' \<and> (\<forall>t'. rest = Some t' \<longrightarrow> avoids row t') \<and> (\<forall>m. delivered db' ob m \<longrightarrow> delivered db ob m)"
  using assms
proof (induction rule: task_step.induct)
  case (lookup_hit db r tenant row')
  then have "dr_bdg_update_id row' \<noteq> dr_bdg_update_id row"
    using rows_differ [of db row row'] get_by_event_id_SomeD [OF lookup_hit(1)]
    by (auto simp: holds_record_def avoids_def)
  then show ?case using lookup_hit by (simp add: avoids_def)
next
  case (store_new db r tenant upd drift_id binding db')
  from store_new(4) obtain row' ob' where "gw_events db' = gw_events db @ [row']" "gw_outbox db' = gw_outbox db @ [ob']"
    "gw_stream db' = gw_stream db" by (rule insert_event_SomeD)
  moreover have "upd \<noteq> dr_bdg_update_id row"
    using store_new(2,6) by (metis holds_record_def image_eqI)
  ultimately show ?case using store_new(6,7) by (simp add: holds_record_def avoids_def delivered_def)
next
  case (publish_send db i ob' ev msg)
  have "ce_outbox_id ev = i" using event_names_record [of ob' ev] publish_send get_outbox_record_SomeD [OF publish_send(1)]
    by (simp add: outbox_event_def)
  moreover have "i \<noteq> ob_id ob" using publish_send by (auto simp: holds_record_def avoids_def)
  ultimately have "outbox_event ob \<noteq> Some ev" using event_names_record [of ob ev] by auto
  then show ?case using publish_send by (auto simp: holds_record_def avoids_def delivered_def)
qed (auto simp: avoids_def mark_outbox_published_def mark_outbox_failed_def intro: update_other_record)

lemma gateway_step_avoids:
  assumes "gateway_step client k s s'" and "gateway_sound (gs_db s)" and "holds_record row ob (gs_db s)"
    and "\<forall>t\<in>set (gs_tasks s). avoids row t" and "k \<noteq> Some (row_key row)"
  shows "holds_record row ob (gs_db s') \<and> (\<forall>t\<in>set (gs_tasks s'). avoids row t) \<and>
         (\<forall>m. delivered (gs_db s') ob m \<longrightarrow> delivered (gs_db s) ob m)"
  using assms
proof (induction rule: gateway_step.induct)
  case (request r tenant s)
  then show ?case by (simp add: avoids_def)
next
  case (run s ts t us rest db')
  then show ?case using task_step_avoids [OF run(2)] by (auto split: option.splits)
qed

lemma gateway_run_avoids:
  assumes "gateway_run client keys s s'" and "system_sound s" and "holds_record row ob (gs_db s)"
    and "\<forall>t\<in>set (gs_tasks s). avoids row t" and "row_key row \<notin> keys"
  shows "holds_record row ob (gs_db s') \<and> (\<forall>t\<in>set (gs_tasks s'). avoids row t) \<and>
         (\<forall>m. delivered (gs_db s') ob m \<longrightarrow> delivered (gs_db s) ob m)"
  using assms
proof (induction rule: gateway_run.induct)
  case (step s s' k s'')
  then have "k \<noteq> Some (row_key row)" by auto
  moreover have "gateway_sound (gs_db s')" using gateway_run_sound step by (auto simp: system_sound_def)
  ultimately show ?case using gateway_step_avoids [OF step(2), of row ob] step by blast
qed simp

section \<open>Properties\<close>

text \<open>
  C19: in every state that the gateway can reach, whatever requests arrive, however their runs interleave and
  whichever of them stop or fail, each event of a tenant has one row, each row one outbox record with its
  identifiers, each record marked as published its event on the stream, and each event on the stream a record.
\<close>

theorem outbox_in_step:
  assumes "gateway_run client keys empty_gateway s"
  shows "gateway_sound (gs_db s)"
  using gateway_run_sound [OF assms empty_sound] by (simp add: system_sound_def)

text \<open>
  C22: one run of the ingestion command, with any of its database and Redis calls failing, is a run of the
  interleaved system in which one request of that tenant arrives and its task ends.
\<close>

theorem execute_is_run:
  assumes "valid_request r" and "dq_tenant_id r = tenant" and "upd \<notin> ob_id ` set (gw_outbox db)"
    and "drift_id \<notin> dr_drift_event_id ` set (gw_events db)"
  shows "gateway_run client {(dq_event_id r, tenant)} \<lparr>gs_db = db, gs_tasks = ts\<rparr>
           \<lparr>gs_db = fst (execute client faults drift_id upd msg tenant r db), gs_tasks = ts\<rparr>"
  using assms by (rule execute_runs)

text \<open>
  C21: sending an event again stores nothing, answers with the identifiers of its row, and publishes its record
  when the payload makes an event; otherwise the record counts one more failed attempt.
\<close>

theorem resend_delivers:
  assumes "gateway_sound db" and "get_by_event_id db (dq_event_id r) tenant = Some row"
  shows "\<exists>db' ob ob' m.
    get_outbox_record db (dr_bdg_update_id row) = Some ob \<and> get_outbox_record db' (dr_bdg_update_id row) = Some ob' \<and>
    execute client {} drift_id upd msg tenant r db =
      (db', Some \<lparr>ia_drift_event_id = dr_drift_event_id row, ia_event_id = dq_event_id r, ia_bdg_update_id = dr_bdg_update_id row,
                  ia_status = ''duplicate'', ia_delivery = Some (if outbox_event ob \<noteq> None then ''published'' else ''pending_or_unknown'')\<rparr>) \<and>
    gw_events db' = gw_events db \<and>
    (if outbox_event ob = None then ob_status ob' = OB_FAILED \<and> ob_attempts ob' = ob_attempts ob + 1 \<and> gw_stream db' = gw_stream db
     else ob_status ob' = OB_PUBLISHED \<and> ob_message_id ob' = Some m \<and> delivered db' ob' m)"
proof -
  have row: "row \<in> set (gw_events db)" "row_key row = (dq_event_id r, tenant)"
    using get_by_event_id_SomeD [OF assms(2)] by simp_all
  obtain ob where ob: "get_outbox_record db (dr_bdg_update_id row) = Some ob" "ob \<in> set (gw_outbox db)"
    using row_has_record [OF assms(1) row(1)] by blast
  obtain old where "ob_status ob = OB_PUBLISHED \<Longrightarrow> delivered db ob old \<and> ob_message_id ob = Some old"
    using assms(1) ob(2) by (fastforce simp: gateway_sound_def published_delivered_def)
  from publish_without_faults [OF ob(1) this, of msg] show ?thesis
    using ob(1) assms(2) row(2) by (fastforce simp: execute_def row_key_def)
qed

text \<open>
  C20: nothing relays the outbox. Once no task is left, a record that is not published stays as it is, and
  nothing more of it reaches the stream, in every run in which its event is not sent again.
\<close>

theorem unpublished_needs_resend:
  assumes "gateway_run client all_keys empty_gateway s" and "gs_tasks s = []"
    and "row \<in> set (gw_events (gs_db s))" and "ob \<in> set (gw_outbox (gs_db s))" and "ob_id ob = dr_bdg_update_id row"
    and "gateway_run client keys s s'" and "row_key row \<notin> keys"
  shows "ob \<in> set (gw_outbox (gs_db s')) \<and> (\<forall>m. delivered (gs_db s') ob m \<longrightarrow> delivered (gs_db s) ob m)"
  using gateway_run_avoids [OF assms(6) gateway_run_sound [OF assms(1) empty_sound], of row ob] assms
  by (simp add: holds_record_def)

section \<open>Witnesses\<close>

text \<open>A request whose publication failed, and a second one that comes after it.\<close>

definition demo_failed :: gateway where
  "demo_failed = fst (execute None {StreamFault} ''d'' ''u'' ''1-0'' ''t'' (demo_request None) (gs_db empty_gateway))"

definition demo_answer :: drift_binding where
  "demo_answer = fallback_binding demo_digest ''SBOM mapping service was not available for this event''"

definition demo_row :: drift_row where
  "demo_row = new_drift_row ''t'' (demo_request None) (Some demo_answer) ''d'' ''u'' (Some ''missing'')"

definition demo_record :: outbox_row where
  "demo_record = \<lparr>ob_id = ''u'', ob_tenant = ''t'', ob_drift_event_id = ''d'',
                  ob_payload = mutation_payload ''t'' (demo_request None) (Some demo_answer),
                  ob_status = OB_FAILED, ob_message_id = None, ob_attempts = 1\<rparr>"

lemma demo_failed_run: "gateway_run None {(''e'', ''t'')} empty_gateway \<lparr>gs_db = demo_failed, gs_tasks = []\<rparr>"
  using execute_runs [OF demo_request_valid(1), of "''t''" "''u''" "gs_db empty_gateway" "''d''" None "[]" "{StreamFault}" "''1-0''"]
  by (simp add: demo_failed_def demo_request_def empty_gateway_def)

lemma demo_resolved: "request_binding None ''t'' (demo_request None) = Some demo_answer"
  by (simp add: request_binding_def demo_request_def resolve_runtime_binding_def demo_digest_def demo_answer_def)

lemma demo_failed_tables: "demo_failed = \<lparr>gw_events = [demo_row], gw_outbox = [demo_record], gw_stream = []\<rparr>"
proof -
  let ?db = "\<lparr>gw_events = [demo_row], gw_outbox = [demo_record\<lparr>ob_status := OB_PENDING, ob_attempts := 0\<rparr>], gw_stream = []\<rparr>"
  have new: "insert_event ''t'' (demo_request None) (Some demo_answer) ''d'' ''u'' (gs_db empty_gateway) = Some ?db"
    by (simp add: insert_event_def binding_column_def demo_answer_def fallback_binding_def BINDING_STATUSES_def
        graph_binding_status_def empty_gateway_def demo_row_def demo_record_def)
  have "publish_outbox_record {StreamFault} ''1-0'' ''u'' ?db
      = (\<lparr>gw_events = [demo_row], gw_outbox = [demo_record], gw_stream = []\<rparr>, Some False)"
    by (simp add: publish_outbox_record_def get_outbox_record_def demo_record_def mark_outbox_failed_def update_outbox_def
        split: option.splits)
  moreover have "get_by_event_id (gs_db empty_gateway) (dq_event_id (demo_request None)) ''t'' = None"
    by (simp add: get_by_event_id_def empty_gateway_def)
  ultimately show ?thesis using new by (simp add: demo_failed_def execute_def demo_resolved)
qed

lemma demo_event: "outbox_event demo_record \<noteq> None"
  using published_iff [OF demo_request_valid(1), of "''d''" "''u''" "''t''" "Some demo_answer"] fallback_valid [OF demo_digest_text]
  by (simp add: outbox_event_def demo_record_def demo_answer_def fallback_binding_def demo_request_def)

lemma demo_key: "row_key demo_row = (''e'', ''t'')" "dr_bdg_update_id demo_row = ''u''" "ob_id demo_record = ''u''"
  by (simp_all add: row_key_def demo_row_def new_drift_row_def demo_request_def demo_record_def Let_def)

theorem outbox_in_step_witness:
  "gateway_sound demo_failed \<and> ob_status demo_record = OB_FAILED \<and> gw_outbox demo_failed = [demo_record]"
  using outbox_in_step [OF demo_failed_run] by (simp add: demo_failed_tables demo_record_def)

theorem execute_is_run_witness:
  "gateway_run None {(''e'', ''t'')} \<lparr>gs_db = demo_failed, gs_tasks = []\<rparr>
     \<lparr>gs_db = fst (execute None {LoadFault} ''d2'' ''u2'' ''2-0'' ''t'' (demo_request None) demo_failed), gs_tasks = []\<rparr>"
  using execute_is_run [OF demo_request_valid(1), of "''t''" "''u2''" demo_failed "''d2''" None "[]" "{LoadFault}" "''2-0''"]
  by (simp add: demo_failed_tables demo_key demo_request_def demo_row_def new_drift_row_def Let_def)

theorem resend_delivers_witness:
  "\<exists>db' ob'. execute None {} ''d2'' ''u2'' ''2-0'' ''t'' (demo_request None) demo_failed =
      (db', Some \<lparr>ia_drift_event_id = ''d'', ia_event_id = ''e'', ia_bdg_update_id = ''u'',
                  ia_status = ''duplicate'', ia_delivery = Some ''published''\<rparr>) \<and>
     get_outbox_record db' ''u'' = Some ob' \<and> ob_status ob' = OB_PUBLISHED"
proof -
  have "gateway_sound demo_failed" using gateway_run_sound [OF demo_failed_run empty_sound] by (simp add: system_sound_def)
  moreover have e: "dq_event_id (demo_request None) = ''e''" by (simp add: demo_request_def)
  moreover have "get_by_event_id demo_failed (dq_event_id (demo_request None)) ''t'' = Some demo_row"
    by (simp add: e get_by_event_id_def demo_failed_tables demo_key)
  ultimately obtain db' ob ob' m where
    "get_outbox_record demo_failed ''u'' = Some ob" "get_outbox_record db' ''u'' = Some ob'"
    "execute None {} ''d2'' ''u2'' ''2-0'' ''t'' (demo_request None) demo_failed =
      (db', Some \<lparr>ia_drift_event_id = dr_drift_event_id demo_row, ia_event_id = ''e'', ia_bdg_update_id = ''u'',
         ia_status = ''duplicate'', ia_delivery = Some (if outbox_event ob \<noteq> None then ''published'' else ''pending_or_unknown'')\<rparr>)"
    "if outbox_event ob = None then ob_status ob' = OB_FAILED \<and> ob_attempts ob' = ob_attempts ob + 1 \<and> gw_stream db' = gw_stream demo_failed
     else ob_status ob' = OB_PUBLISHED \<and> ob_message_id ob' = Some m \<and> delivered db' ob' m"
    using resend_delivers [of demo_failed "demo_request None" "''t''" demo_row None "''d2''" "''u2''" "''2-0''"]
    unfolding demo_key e by blast
  moreover from this(1) have "ob = demo_record" by (simp add: get_outbox_record_def demo_failed_tables demo_key)
  moreover have "dr_drift_event_id demo_row = ''d''" by (simp add: demo_row_def new_drift_row_def Let_def)
  ultimately show ?thesis using demo_event by simp
qed

theorem unpublished_needs_resend_witness:
  "demo_record \<in> set (gw_outbox (fst (execute None {} ''d2'' ''u2'' ''2-0'' ''t'' ((demo_request None)\<lparr>dq_event_id := ''f''\<rparr>) demo_failed)))"
proof -
  have "valid_request ((demo_request None)\<lparr>dq_event_id := ''f''\<rparr>)"
    using demo_request_valid(1) by (simp add: valid_request_def)
  then have "gateway_run None {(''f'', ''t'')} \<lparr>gs_db = demo_failed, gs_tasks = []\<rparr>
      \<lparr>gs_db = fst (execute None {} ''d2'' ''u2'' ''2-0'' ''t'' ((demo_request None)\<lparr>dq_event_id := ''f''\<rparr>) demo_failed), gs_tasks = []\<rparr>"
    using execute_runs [of "(demo_request None)\<lparr>dq_event_id := ''f''\<rparr>" "''t''" "''u2''" demo_failed "''d2''" None "[]" "{}" "''2-0''"]
    by (simp add: demo_failed_tables demo_key demo_request_def demo_row_def new_drift_row_def Let_def)
  from unpublished_needs_resend [OF demo_failed_run _ _ _ _ this, of demo_row demo_record] show ?thesis
    by (simp add: demo_failed_tables demo_key)
qed

end
