(* ===== verification/Causal_Consumer.thy ===== *)
theory Causal_Consumer
  imports Gateway_Contract Causal_Usecases
begin

text \<open>
  The consumer of the causal engine, \<open>infrastructure/redis_consumer.py\<close>: reading, applying, acknowledging and
  dead-lettering the messages of the event stream, and reclaiming those that were not acknowledged. The
  replies of Redis are inputs: what a read or a claim hands out, how often an entry was delivered, and whether
  a command fails.
\<close>

section \<open>State and inputs\<close>

type_synonym stream_fields = "(string \<times> string) list"

datatype pending_reply = PendingFault | NotPending | Delivered nat

text \<open>
  An entry handed out, with the random identifiers its update draws, whether the dead-letter stream takes it,
  and the reply on its pending state.
\<close>

record stream_entry =
  sd_id :: string
  sd_fields :: stream_fields
  sd_drawn :: "nat \<Rightarrow> uuid"
  sd_dlq_ok :: bool
  sd_pending :: pending_reply

text \<open>The reply to an acknowledgement: the count, and per identifier whether it is still pending (\<open>None\<close>: the query fails).\<close>

datatype ack_reply = AckFault | AckCount nat "string \<Rightarrow> bool option"

text \<open>\<open>co_requested\<close> lists the identifiers of the acknowledgements sent, \<open>co_dlq\<close> the dead-letter stream.\<close>

record 'g consumer =
  co_graph :: "'g bdg \<times> snapshot_repository"
  co_pending_acks :: "string list"
  co_attempts :: "string \<rightharpoonup> nat"
  co_tick :: nat
  co_flushes :: nat
  co_requested :: "string list"
  co_dlq :: "(string \<times> stream_fields) list"

text \<open>\<open>cn_parse\<close> is the reading of JSON by pydantic, \<open>cn_show\<close> is \<open>str\<close>.\<close>

record 'g consumer_env =
  cn_env :: "'g bdg_env"
  cn_conversions :: conversions
  cn_saves :: "nat \<Rightarrow> bool"
  cn_parse :: "string \<Rightarrow> causal_event option"
  cn_show :: "json \<Rightarrow> string"
  cn_acks :: "nat \<Rightarrow> ack_reply"

definition ACK_BATCH_SIZE :: nat where "ACK_BATCH_SIZE = 100"
definition MAX_DELIVERY_ATTEMPTS :: nat where "MAX_DELIVERY_ATTEMPTS = 3"

section \<open>Operations\<close>

definition field_text :: "stream_fields \<Rightarrow> string \<Rightarrow> string" where
  "field_text entries key = (case dict_get entries key of None \<Rightarrow> [] | Some v \<Rightarrow> v)"

text \<open>The event of a message that the contract accepts.\<close>

definition message_event :: "'g consumer_env \<Rightarrow> stream_fields \<Rightarrow> causal_event option" where
  "message_event cn entries =
     (if field_text entries ''schema_version'' \<noteq> ''1.0'' then None
      else case cn_parse cn (field_text entries ''event'') of
        None \<Rightarrow> None
      | Some ev \<Rightarrow> if valid_causal_event ev then Some ev else None)"

definition process_message :: "'g consumer_env \<Rightarrow> stream_entry \<Rightarrow> 'g consumer \<Rightarrow> 'g consumer \<times> bool" where
  "process_message cn d c =
     (case message_event cn (sd_fields d) of
        None \<Rightarrow> (c, False)
      | Some ev \<Rightarrow>
          (case update_bdg_execute (cn_env cn) (cn_conversions cn) (cn_saves cn) (graph_event (cn_show cn) ev) (sd_drawn d) (co_graph c) of
             (g, Inl _) \<Rightarrow> (c\<lparr>co_graph := g\<rparr>, False)
           | (g, Inr _) \<Rightarrow> (c\<lparr>co_graph := g, co_attempts := (co_attempts c)(sd_id d := None)\<rparr>, True)))"

definition handle_dead_letter :: "stream_entry \<Rightarrow> 'g consumer \<Rightarrow> 'g consumer \<times> bool" where
  "handle_dead_letter d c =
     (if sd_dlq_ok d then (c\<lparr>co_dlq := co_dlq c @ [(sd_id d, sd_fields d)]\<rparr>, True) else (c, False))"

definition append_ack :: "stream_entry \<Rightarrow> 'g consumer \<Rightarrow> 'g consumer" where
  "append_ack d c = c\<lparr>co_pending_acks := co_pending_acks c @ [sd_id d]\<rparr>"

text \<open>A failing query of the pending state leaves the list of acknowledgements as it was.\<close>

definition flush_acks :: "'g consumer_env \<Rightarrow> 'g consumer \<Rightarrow> 'g consumer" where
  "flush_acks cn c =
     (if co_pending_acks c = [] then c
      else (let c' = c\<lparr>co_flushes := co_flushes c + 1, co_requested := co_requested c @ co_pending_acks c\<rparr>
            in case cn_acks cn (co_flushes c) of
                 AckFault \<Rightarrow> c'
               | AckCount n still \<Rightarrow>
                   (if n \<noteq> length (co_pending_acks c)
                    then (if list_ex (\<lambda>i. still i = None) (co_pending_acks c) then c'
                          else c'\<lparr>co_pending_acks := filter (\<lambda>i. still i = Some True) (co_pending_acks c)\<rparr>)
                    else c'\<lparr>co_pending_acks := []\<rparr>)))"

text \<open>The dead-letter branch of the loop: the entry is moved, acknowledged and forgotten.\<close>

definition dead_letter :: "stream_entry \<Rightarrow> 'g consumer \<Rightarrow> 'g consumer" where
  "dead_letter d c =
     (case handle_dead_letter d c of
        (c', True) \<Rightarrow> (append_ack d c')\<lparr>co_attempts := (co_attempts c')(sd_id d := None)\<rparr>
      | (c', False) \<Rightarrow> c')"

definition take_entry :: "'g consumer_env \<Rightarrow> 'g consumer \<Rightarrow> stream_entry \<Rightarrow> 'g consumer" where
  "take_entry cn c d =
     (let attempts = (case co_attempts c (sd_id d) of None \<Rightarrow> 0 | Some n \<Rightarrow> n) + 1;
          c1 = c\<lparr>co_attempts := (co_attempts c)(sd_id d \<mapsto> attempts)\<rparr>;
          c2 = (if attempts > MAX_DELIVERY_ATTEMPTS then dead_letter d c1
                else case process_message cn d c1 of
                       (c', True) \<Rightarrow> append_ack d c'
                     | (c', False) \<Rightarrow> if attempts \<ge> MAX_DELIVERY_ATTEMPTS then dead_letter d c' else c')
      in if length (co_pending_acks c2) \<ge> ACK_BATCH_SIZE then flush_acks cn c2 else c2)"

text \<open>The body of \<open>_reclaim_pending\<close> for one entry; \<open>None\<close> when its query of the pending state fails, which ends it.\<close>

definition reclaim_entry :: "'g consumer_env \<Rightarrow> stream_entry \<Rightarrow> 'g consumer \<Rightarrow> 'g consumer \<times> bool" where
  "reclaim_entry cn d c =
     (case process_message cn d c of
        (c', True) \<Rightarrow> (append_ack d c', True)
      | (c', False) \<Rightarrow>
          (case sd_pending d of
             PendingFault \<Rightarrow> (c', False)
           | reply \<Rightarrow>
               (if (case reply of Delivered n \<Rightarrow> n | _ \<Rightarrow> 1) \<ge> MAX_DELIVERY_ATTEMPTS
                then (case handle_dead_letter d c' of (c'', True) \<Rightarrow> (append_ack d c'', True) | (c'', False) \<Rightarrow> (c'', True))
                else (c', True))))"

fun reclaim_entries :: "'g consumer_env \<Rightarrow> stream_entry list \<Rightarrow> 'g consumer \<Rightarrow> 'g consumer" where
  "reclaim_entries cn [] c = flush_acks cn c"
| "reclaim_entries cn (d # ds) c =
     (case reclaim_entry cn d c of (c', True) \<Rightarrow> reclaim_entries cn ds c' | (c', False) \<Rightarrow> c')"

text \<open>\<open>claimed\<close> is the reply of the claim, \<open>None\<close> when it fails.\<close>

definition reclaim_pending :: "'g consumer_env \<Rightarrow> stream_entry list option \<Rightarrow> 'g consumer \<Rightarrow> 'g consumer" where
  "reclaim_pending cn claimed c =
     (case claimed of None \<Rightarrow> c | Some [] \<Rightarrow> c | Some ds \<Rightarrow> reclaim_entries cn ds c)"

text \<open>One round of the loop of \<open>run\<close>: \<open>read\<close> is the reply of the read, \<open>None\<close> when it fails.\<close>

definition consumer_round ::
    "'g consumer_env \<Rightarrow> 'g consumer \<Rightarrow> stream_entry list option \<times> stream_entry list option \<Rightarrow> 'g consumer" where
  "consumer_round cn c = (\<lambda>(received, claimed).
     (case received of
        None \<Rightarrow> c
      | Some ds \<Rightarrow>
          (let c1 = flush_acks cn (foldl (take_entry cn) c ds);
               c2 = c1\<lparr>co_tick := co_tick c1 + 1\<rparr>
           in if co_tick c2 mod 6 = 0 then reclaim_pending cn claimed c2 else c2)))"

text \<open>
  \<open>run\<close> with what it has received until it stops: pending entries are reclaimed, the rounds follow, and the
  acknowledgements are flushed. The worker of \<open>interface/worker.py\<close> starts it on a new graph.
\<close>

definition consumer_rounds ::
    "'g consumer_env \<Rightarrow> stream_entry list option \<Rightarrow> (stream_entry list option \<times> stream_entry list option) list \<Rightarrow> 'g consumer \<Rightarrow> 'g consumer" where
  "consumer_rounds cn claimed replies c = foldl (consumer_round cn) (reclaim_pending cn claimed c) replies"

definition consumer_run ::
    "'g consumer_env \<Rightarrow> stream_entry list option \<Rightarrow> (stream_entry list option \<times> stream_entry list option) list \<Rightarrow> 'g consumer \<Rightarrow> 'g consumer" where
  "consumer_run cn claimed replies c = flush_acks cn (consumer_rounds cn claimed replies c)"

definition new_consumer :: "'g bdg \<times> snapshot_repository \<Rightarrow> 'g consumer" where
  "new_consumer g = \<lparr>co_graph = g, co_pending_acks = [], co_attempts = Map.empty, co_tick = 0, co_flushes = 0, co_requested = [], co_dlq = []\<rparr>"

definition start_worker :: "'g consumer_env \<Rightarrow> real \<Rightarrow> real \<Rightarrow> int \<Rightarrow> snapshot_repository \<Rightarrow> 'g consumer" where
  "start_worker cn lam delta n repo = new_consumer (new_bdg (env_nx (cn_env cn)) lam delta n, repo)"

section \<open>The index of applied events\<close>

lemma upsert_index:
  "upsert_node nx uuid4 sk ty key t q label eid b = (b', e) \<Longrightarrow> idempotency_index b' = idempotency_index b"
  "upsert_edge nx uuid4 u v ety t q eid w b = (b', e) \<Longrightarrow> idempotency_index b' = idempotency_index b"
  by (auto simp: upsert_node_def upsert_edge_def Let_def split: option.splits prod.splits if_splits)

lemma apply_upsert_index: "apply_upsert env t q eid u s = (s', e) \<Longrightarrow> idempotency_index (fst s') = idempotency_index (fst s)"
  by (cases s; cases u) (auto simp: Let_def split: option.splits prod.splits dest: upsert_index)

lemma run_upserts_index: "run_upserts (apply_upsert env t q eid) us s = (s', e) \<Longrightarrow> idempotency_index (fst s') = idempotency_index (fst s)"
  by (induction us arbitrary: s) (auto split: prod.splits option.splits dest: apply_upsert_index)

lemma close_batch_index: "close_batch env tenant eid s = (b', m) \<Longrightarrow> idempotency_index b' = idempotency_index (fst s)"
  by (auto simp: close_batch_def commit_snapshot_def Let_def split: if_splits)

lemma process_upserts_index:
  assumes "process_upserts env tenant eid t q us b = (b', r)" and "eid \<notin> idempotency_index b"
  shows "idempotency_index b' = insert eid (idempotency_index b)"
proof -
  obtain b1 m1 e where run: "run_upserts (apply_upsert env t q eid) us
      (b\<lparr>idempotency_index := insert eid (idempotency_index b)\<rparr>, no_mutation eid) = ((b1, m1), e)" by (metis surj_pair)
  obtain b2 m2 where close: "close_batch env tenant eid (b1, m1) = (b2, m2)" by (metis surj_pair)
  have "b' = (case e of None \<Rightarrow> b2 | Some _ \<Rightarrow> b1)"
    using assms by (auto simp: process_upserts_def run close split: option.splits)
  then show ?thesis using run_upserts_index [OF run] close_batch_index [OF close] by (simp split: option.splits)
qed

text \<open>
  Whether the update succeeds or not, its event counts as applied from then on.\<close>

lemma update_index: "idempotency_index (fst (update env ev drawn b)) = insert (be_id ev) (idempotency_index b)"
proof (cases "be_id ev \<in> idempotency_index b")
  case True
  then show ?thesis by (auto simp: update_def process_upserts_def)
next
  case False
  then show ?thesis using process_upserts_index by (metis update_def surj_pair fst_conv)
qed

lemma updates_index: "idempotency_index (updates env ds b) = idempotency_index b \<union> be_id ` fst ` set ds"
  unfolding updates_def by (induction ds arbitrary: b) (auto simp: update_index)

lemma updates_append: "updates env (ds @ ds') b = updates env ds' (updates env ds b)"
  by (simp add: updates_def)

lemma execute_updates: "fst (fst (update_bdg_execute env cv saves ev drawn (b, repo))) = updates env [(ev, drawn)] b"
  by (auto simp: update_bdg_execute_def updates_def split: prod.splits sum.splits option.splits)

section \<open>What an acknowledgement stands for\<close>

text \<open>
  \<open>applied\<close>: the updates that the entries handed out may cause. A message is settled when its event is in the
  graph's index or the message is on the dead-letter stream.
\<close>

definition applied :: "'g consumer_env \<Rightarrow> stream_entry set \<Rightarrow> delivery set" where
  "applied cn D = {(graph_event (cn_show cn) ev, sd_drawn d) | d ev. d \<in> D \<and> message_event cn (sd_fields d) = Some ev}"

definition settled :: "'g consumer_env \<Rightarrow> stream_entry set \<Rightarrow> 'g consumer \<Rightarrow> string \<Rightarrow> bool" where
  "settled cn D c i \<longleftrightarrow> (\<exists>d\<in>D. sd_id d = i \<and>
     ((\<exists>ev. message_event cn (sd_fields d) = Some ev \<and> ce_event_id ev \<in> idempotency_index (fst (co_graph c))) \<or>
      (i, sd_fields d) \<in> set (co_dlq c)))"

definition accounted :: "'g consumer_env \<Rightarrow> stream_entry set \<Rightarrow> 'g consumer \<Rightarrow> bool" where
  "accounted cn D c \<longleftrightarrow> (\<forall>i \<in> set (co_pending_acks c) \<union> set (co_requested c). settled cn D c i)"

definition advances :: "'g consumer_env \<Rightarrow> stream_entry set \<Rightarrow> 'g consumer \<Rightarrow> 'g consumer \<Rightarrow> bool" where
  "advances cn D c c' \<longleftrightarrow>
     (\<exists>ds. set ds \<subseteq> applied cn D \<and> fst (co_graph c') = updates (cn_env cn) ds (fst (co_graph c))) \<and>
     set (co_dlq c) \<subseteq> set (co_dlq c') \<and> (accounted cn D c \<longrightarrow> accounted cn D c')"

lemma advances_refl [simp]: "advances cn D c c"
  by (auto simp: advances_def updates_def intro: exI [of _ "[]"])

lemma advances_trans:
  assumes "advances cn D c c'" and "advances cn D c' c''"
  shows "advances cn D c c''"
proof -
  obtain ds ds' where "set (ds @ ds') \<subseteq> applied cn D" "fst (co_graph c'') = updates (cn_env cn) (ds @ ds') (fst (co_graph c))"
    using assms by (auto simp: advances_def updates_append)
  then show ?thesis using assms unfolding advances_def by blast
qed

lemma advances_settled: "advances cn D c c' \<Longrightarrow> settled cn D c i \<Longrightarrow> settled cn D c' i"
  by (auto simp: advances_def settled_def updates_index)

text \<open>
  A step that leaves the graph alone and acknowledges only what is settled.\<close>

lemma advancesI:
  assumes "co_graph c' = co_graph c" "set (co_dlq c) \<subseteq> set (co_dlq c')"
    and "\<And>i. i \<in> set (co_pending_acks c') \<union> set (co_requested c') \<Longrightarrow>
           i \<in> set (co_pending_acks c) \<union> set (co_requested c) \<or> settled cn D c' i"
  shows "advances cn D c c'"
proof -
  have "settled cn D c i \<Longrightarrow> settled cn D c' i" for i
    using assms(1,2) by (auto simp: settled_def)
  then show ?thesis using assms
    unfolding advances_def accounted_def by (auto simp: updates_def intro!: exI [of _ "[]"])
qed

section \<open>Every operation advances\<close>

lemma process_advances:
  assumes "process_message cn d c = (c', ok)" and "d \<in> D"
  shows "advances cn D c c' \<and> (ok \<longrightarrow> settled cn D c' (sd_id d)) \<and> co_dlq c' = co_dlq c \<and>
    co_pending_acks c' = co_pending_acks c \<and> co_requested c' = co_requested c"
proof (cases "message_event cn (sd_fields d)")
  case None
  then show ?thesis using assms by (simp add: process_message_def)
next
  case (Some ev)
  let ?e = "graph_event (cn_show cn) ev"
  obtain b repo where g: "co_graph c = (b, repo)" by fastforce
  obtain g' r where exec: "update_bdg_execute (cn_env cn) (cn_conversions cn) (cn_saves cn) ?e (sd_drawn d) (co_graph c) = (g', r)"
    by fastforce
  then have graph: "fst g' = updates (cn_env cn) [(?e, sd_drawn d)] b"
    using execute_updates [of "cn_env cn" "cn_conversions cn" "cn_saves cn" ?e "sd_drawn d" b repo] g by simp
  have c': "co_graph c' = g'" "co_dlq c' = co_dlq c" "co_pending_acks c' = co_pending_acks c" "co_requested c' = co_requested c"
    using assms(1) Some exec by (auto simp: process_message_def split: sum.splits)
  have "(?e, sd_drawn d) \<in> applied cn D" using Some assms(2) by (auto simp: applied_def)
  then have step: "\<exists>ds. set ds \<subseteq> applied cn D \<and> fst (co_graph c') = updates (cn_env cn) ds (fst (co_graph c))"
    by (intro exI [of _ "[(?e, sd_drawn d)]"]) (simp add: c' graph g)
  then have mono: "settled cn D c i \<Longrightarrow> settled cn D c' i" for i
    by (auto simp: settled_def updates_index c')
  have "be_id ?e = ce_event_id ev" by (simp add: graph_event_def Let_def)
  then have "settled cn D c' (sd_id d)"
    using assms(2) Some by (auto simp: settled_def c' graph updates_index)
  then show ?thesis using step mono by (simp add: advances_def c' accounted_def)
qed

lemma dead_letter_advances:
  assumes "handle_dead_letter d c = (c', ok)" and "d \<in> D"
  shows "advances cn D c c' \<and> (ok \<longrightarrow> settled cn D c' (sd_id d))"
proof -
  have "advances cn D c c'" using assms(1) by (intro advancesI) (auto simp: handle_dead_letter_def split: if_splits)
  moreover have "ok \<longrightarrow> settled cn D c' (sd_id d)"
    using assms by (auto simp: handle_dead_letter_def settled_def split: if_splits)
  ultimately show ?thesis by simp
qed

lemma append_ack_advances: "settled cn D c (sd_id d) \<Longrightarrow> advances cn D c (append_ack d c)"
  by (rule advancesI) (auto simp: append_ack_def settled_def)

lemma flush_advances: "advances cn D c (flush_acks cn c)"
  by (rule advancesI) (auto simp: flush_acks_def Let_def split: ack_reply.splits)

lemma forget_advances: "advances cn D c (c\<lparr>co_attempts := a\<rparr>)" "advances cn D c (c\<lparr>co_tick := t\<rparr>)"
  by (rule advancesI; simp)+

lemma dead_letter_step:
  assumes "d \<in> D"
  shows "advances cn D c (dead_letter d c)"
proof -
  obtain c' ok where run: "handle_dead_letter d c = (c', ok)" by fastforce
  from dead_letter_advances [OF this assms] have "advances cn D c c'" "ok \<Longrightarrow> advances cn D c' (append_ack d c')"
    by (auto intro: append_ack_advances)
  then show ?thesis using run
    by (cases ok) (auto simp: dead_letter_def intro: advances_trans forget_advances(1))
qed

lemma process_step:
  assumes "process_message cn d c = (c', ok)" and "d \<in> D"
  shows "advances cn D c c'" "ok \<Longrightarrow> advances cn D c (append_ack d c')"
  using process_advances [OF assms] by (auto intro: advances_trans append_ack_advances)

lemma take_entry_advances:
  assumes "d \<in> D"
  shows "advances cn D c (take_entry cn c d)"
proof -
  define c1 where "c1 = c\<lparr>co_attempts := (co_attempts c)(sd_id d \<mapsto> (case co_attempts c (sd_id d) of None \<Rightarrow> 0 | Some n \<Rightarrow> n) + 1)\<rparr>"
  obtain c' ok where run: "process_message cn d c1 = (c', ok)" by fastforce
  have "advances cn D c c1" by (simp add: c1_def forget_advances)
  moreover have "advances cn D c1 c'" "ok \<Longrightarrow> advances cn D c1 (append_ack d c')" "advances cn D c1 (dead_letter d c')"
    using process_step [OF run assms] advances_trans [OF _ dead_letter_step [OF assms]] by blast+
  moreover note dead_letter_step [OF assms, of cn c1]
  ultimately have step: "advances cn D c (if n > MAX_DELIVERY_ATTEMPTS then dead_letter d c1
      else case process_message cn d c1 of (c', True) \<Rightarrow> append_ack d c'
           | (c', False) \<Rightarrow> if n \<ge> MAX_DELIVERY_ATTEMPTS then dead_letter d c' else c')" for n
    using run by (cases ok) (auto intro: advances_trans)
  then show ?thesis
    unfolding take_entry_def Let_def c1_def [symmetric]
    using advances_trans [OF step flush_advances] by (simp only: if_split) blast
qed

lemma reclaim_entry_advances:
  assumes "reclaim_entry cn d c = (c', ok)" and "d \<in> D"
  shows "advances cn D c c'"
proof -
  obtain c1 good where run: "process_message cn d c = (c1, good)" by fastforce
  obtain c2 moved where dl: "handle_dead_letter d c1 = (c2, moved)" by fastforce
  have "advances cn D c1 c2" "moved \<Longrightarrow> advances cn D c1 (append_ack d c2)"
    using dead_letter_advances [OF dl assms(2)] by (auto intro: advances_trans append_ack_advances)
  then show ?thesis
    using assms(1) run dl process_step [OF run assms(2)]
    by (cases good; cases moved; cases "sd_pending d")
      (auto simp: reclaim_entry_def split: if_splits intro: advances_trans)
qed

lemma reclaim_entries_advances: "set ds \<subseteq> D \<Longrightarrow> advances cn D c (reclaim_entries cn ds c)"
proof (induction ds arbitrary: c)
  case Nil
  then show ?case by (simp add: flush_advances)
next
  case (Cons d ds)
  obtain c' ok where run: "reclaim_entry cn d c = (c', ok)" by fastforce
  then have "advances cn D c c'" using reclaim_entry_advances Cons(2) by auto
  then show ?case using run Cons by (cases ok) (auto intro: advances_trans)
qed

text \<open>What a run hands out: the entries read and those claimed.\<close>

definition entries_of :: "stream_entry list option \<Rightarrow> stream_entry list" where
  "entries_of reply = (case reply of None \<Rightarrow> [] | Some ds \<Rightarrow> ds)"

definition received_entries :: "(stream_entry list option \<times> stream_entry list option) list \<Rightarrow> stream_entry list" where
  "received_entries replies = concat (map (entries_of \<circ> fst) replies)"

definition claimed_entries :: "stream_entry list option \<Rightarrow> (stream_entry list option \<times> stream_entry list option) list \<Rightarrow> stream_entry list" where
  "claimed_entries claimed replies = entries_of claimed @ concat (map (entries_of \<circ> snd) replies)"

lemma reclaim_pending_advances: "set (entries_of claimed) \<subseteq> D \<Longrightarrow> advances cn D c (reclaim_pending cn claimed c)"
  by (auto simp: reclaim_pending_def entries_of_def simp del: reclaim_entries.simps
      intro!: reclaim_entries_advances split: option.splits list.splits)

lemma take_entries_advances: "set ds \<subseteq> D \<Longrightarrow> advances cn D c (foldl (take_entry cn) c ds)"
  by (induction ds arbitrary: c) (auto intro: advances_trans take_entry_advances)

lemma round_advances:
  assumes "set (entries_of received) \<union> set (entries_of claimed) \<subseteq> D"
  shows "advances cn D c (consumer_round cn c (received, claimed))"
proof (cases received)
  case None
  then show ?thesis by (simp add: consumer_round_def)
next
  case (Some ds)
  define c1 where "c1 = flush_acks cn (foldl (take_entry cn) c ds)"
  have "advances cn D c c1" unfolding c1_def
    using assms Some by (intro advances_trans [OF take_entries_advances flush_advances]) (simp add: entries_of_def)
  then have "advances cn D c (c1\<lparr>co_tick := co_tick c1 + 1\<rparr>)" by (rule advances_trans) (rule forget_advances)
  moreover from this have "advances cn D c (reclaim_pending cn claimed (c1\<lparr>co_tick := co_tick c1 + 1\<rparr>))"
    using assms by (intro advances_trans [OF _ reclaim_pending_advances]) auto
  ultimately show ?thesis using Some by (simp add: consumer_round_def Let_def c1_def)
qed

lemma rounds_advance:
  "set (received_entries replies) \<union> set (claimed_entries None replies) \<subseteq> D \<Longrightarrow> advances cn D c (foldl (consumer_round cn) c replies)"
proof (induction replies arbitrary: c)
  case (Cons reply replies)
  obtain r k where reply: "reply = (r, k)" by fastforce
  have "advances cn D c (consumer_round cn c (r, k))"
    using Cons.prems by (intro round_advances) (simp add: received_entries_def claimed_entries_def entries_of_def reply)
  moreover have "advances cn D (consumer_round cn c (r, k)) (foldl (consumer_round cn) (consumer_round cn c (r, k)) replies)"
    using Cons.prems by (intro Cons.IH) (simp add: received_entries_def claimed_entries_def reply entries_of_def)
  ultimately show ?case unfolding reply foldl_Cons by (rule advances_trans)
qed simp

lemma run_advances:
  assumes "set (received_entries replies) \<union> set (claimed_entries claimed replies) \<subseteq> D"
  shows "advances cn D c (consumer_run cn claimed replies c)"
proof -
  have claims: "claimed_entries claimed replies = entries_of claimed @ claimed_entries None replies"
    by (simp add: claimed_entries_def entries_of_def)
  then have "advances cn D c (reclaim_pending cn claimed c)" using assms by (intro reclaim_pending_advances) simp
  moreover have "advances cn D (reclaim_pending cn claimed c) (consumer_rounds cn claimed replies c)"
    unfolding consumer_rounds_def using assms claims by (intro rounds_advance) simp
  ultimately show ?thesis unfolding consumer_run_def by (meson advances_trans flush_advances)
qed

end
