(* ===== verification/Causal_Delivery.thy ===== *)
theory Causal_Delivery
  imports Causal_Consumer
begin

text \<open>
  What the path from the event stream into the dependency graph guarantees, over the definitions of
  \<open>Causal_Consumer\<close>: what an acknowledgement stands for, which messages become dead letters, what happens to an
  event that the gateway published, and what a restart of the worker keeps.
\<close>

section \<open>Delivery attempts\<close>

text \<open>
  The counters of the loop when no entry is read twice, and dead letters that come from claimed entries which
  were delivered three times or more.
\<close>

definition counted_once :: "string set \<Rightarrow> 'g consumer \<Rightarrow> bool" where
  "counted_once seen c \<longleftrightarrow> (\<forall>i n. co_attempts c i = Some n \<longrightarrow> i \<in> seen \<and> n = 1)"

definition exhausted :: "stream_entry set \<Rightarrow> string \<times> stream_fields \<Rightarrow> bool" where
  "exhausted K e \<longleftrightarrow> (\<exists>d\<in>K. e = (sd_id d, sd_fields d) \<and> (\<exists>n. sd_pending d = Delivered n \<and> MAX_DELIVERY_ATTEMPTS \<le> n))"

definition loop_inv :: "string set \<Rightarrow> stream_entry set \<Rightarrow> 'g consumer \<Rightarrow> bool" where
  "loop_inv seen K c \<longleftrightarrow> counted_once seen c \<and> (\<forall>e\<in>set (co_dlq c). exhausted K e)"

lemma process_inv:
  assumes "process_message cn d c = (c', ok)"
  shows "co_dlq c' = co_dlq c" "co_attempts c' \<subseteq>\<^sub>m co_attempts c"
  using assms by (auto simp: process_message_def map_le_def split: option.splits sum.splits prod.splits if_splits)

lemma loop_inv_mono:
  assumes "loop_inv seen K c" and "co_dlq c' = co_dlq c" and "co_attempts c' \<subseteq>\<^sub>m co_attempts c"
  shows "loop_inv seen K c'"
  using assms by (force simp: loop_inv_def counted_once_def map_le_def dom_def)

lemma loop_inv_keeps [simp]:
  "loop_inv seen K (append_ack d c) = loop_inv seen K c" "loop_inv seen K (flush_acks cn c) = loop_inv seen K c"
  "loop_inv seen K (c\<lparr>co_tick := t\<rparr>) = loop_inv seen K c"
  by (auto simp: loop_inv_def counted_once_def append_ack_def flush_acks_def Let_def split: ack_reply.splits)

lemma take_entry_inv:
  assumes "loop_inv seen K c" and "sd_id d \<notin> seen"
  shows "loop_inv (insert (sd_id d) seen) K (take_entry cn c d)"
proof -
  have none: "co_attempts c (sd_id d) = None" using assms by (cases "co_attempts c (sd_id d)") (auto simp: loop_inv_def counted_once_def)
  define c1 where "c1 = c\<lparr>co_attempts := (co_attempts c)(sd_id d \<mapsto> Suc 0)\<rparr>"
  have c1: "loop_inv (insert (sd_id d) seen) K c1"
    using assms(1) by (auto simp: loop_inv_def counted_once_def c1_def)
  obtain c' ok where run: "process_message cn d c1 = (c', ok)" by fastforce
  then have "loop_inv (insert (sd_id d) seen) K c'" by (intro loop_inv_mono [OF c1 process_inv [OF run]])
  then show ?thesis
    using run none by (cases ok) (simp_all add: take_entry_def Let_def c1_def [symmetric] MAX_DELIVERY_ATTEMPTS_def)
qed

lemma take_entries_inv:
  "loop_inv seen K c \<Longrightarrow> distinct (map sd_id ds) \<Longrightarrow> sd_id ` set ds \<inter> seen = {} \<Longrightarrow>
   loop_inv (seen \<union> sd_id ` set ds) K (foldl (take_entry cn) c ds)"
proof (induction ds arbitrary: c seen)
  case (Cons d ds)
  have "loop_inv (insert (sd_id d) seen) K (take_entry cn c d)" using Cons.prems by (intro take_entry_inv) auto
  from Cons.IH [OF this] Cons.prems show ?case by (auto simp: Un_commute)
qed simp

lemma dead_letter_inv:
  assumes "handle_dead_letter d c = (c', ok)" and "loop_inv seen K c" and "d \<in> K"
    and "sd_pending d = Delivered n" and "MAX_DELIVERY_ATTEMPTS \<le> n"
  shows "loop_inv seen K c'"
proof -
  have "exhausted K (sd_id d, sd_fields d)" using assms(3-5) unfolding exhausted_def by blast
  then show ?thesis using assms(1,2) by (auto simp: handle_dead_letter_def loop_inv_def counted_once_def split: if_splits)
qed

lemma reclaim_entry_inv:
  assumes "reclaim_entry cn d c = (c', ok)" and "loop_inv seen K c" and "d \<in> K"
  shows "loop_inv seen K c'"
proof -
  obtain c1 good where run: "process_message cn d c = (c1, good)" by fastforce
  have c1: "loop_inv seen K c1" by (rule loop_inv_mono [OF assms(2) process_inv [OF run]])
  obtain c2 moved where dl: "handle_dead_letter d c1 = (c2, moved)" by fastforce
  show ?thesis
    using assms(1,3) run c1 dl dead_letter_inv [OF dl c1 assms(3)]
    by (cases good; cases moved; cases "sd_pending d")
      (auto simp: reclaim_entry_def MAX_DELIVERY_ATTEMPTS_def split: if_splits)
qed

lemma reclaim_entries_inv: "loop_inv seen K c \<Longrightarrow> set ds \<subseteq> K \<Longrightarrow> loop_inv seen K (reclaim_entries cn ds c)"
proof (induction ds arbitrary: c)
  case (Cons d ds)
  obtain c' ok where run: "reclaim_entry cn d c = (c', ok)" by fastforce
  then have "loop_inv seen K c'" using reclaim_entry_inv Cons.prems by auto
  then show ?case using run Cons by (cases ok) auto
qed simp

lemma reclaim_pending_inv: "loop_inv seen K c \<Longrightarrow> set (entries_of claimed) \<subseteq> K \<Longrightarrow> loop_inv seen K (reclaim_pending cn claimed c)"
  by (auto simp: reclaim_pending_def entries_of_def simp del: reclaim_entries.simps
      intro!: reclaim_entries_inv split: option.splits list.splits)

lemma round_inv:
  assumes "loop_inv seen K c" and "distinct (map sd_id (entries_of received))" and "sd_id ` set (entries_of received) \<inter> seen = {}"
    and "set (entries_of claimed) \<subseteq> K"
  shows "loop_inv (seen \<union> sd_id ` set (entries_of received)) K (consumer_round cn c (received, claimed))"
proof (cases received)
  case None
  then show ?thesis using assms(1) by (simp add: consumer_round_def entries_of_def)
next
  case (Some ds)
  then have "loop_inv (seen \<union> sd_id ` set ds) K (flush_acks cn (foldl (take_entry cn) c ds))"
    using take_entries_inv [OF assms(1), of ds cn] assms(2,3) by (simp add: entries_of_def)
  then show ?thesis using Some assms(4)
    by (auto simp: consumer_round_def Let_def entries_of_def [of "Some ds"] intro!: reclaim_pending_inv)
qed

lemma rounds_inv:
  "loop_inv seen K c \<Longrightarrow> distinct (map sd_id (received_entries replies)) \<Longrightarrow> sd_id ` set (received_entries replies) \<inter> seen = {} \<Longrightarrow>
   set (claimed_entries None replies) \<subseteq> K \<Longrightarrow> \<exists>seen'. loop_inv seen' K (foldl (consumer_round cn) c replies)"
proof (induction replies arbitrary: c seen)
  case (Cons reply replies)
  obtain r k where reply: "reply = (r, k)" by fastforce
  have parts: "received_entries (reply # replies) = entries_of r @ received_entries replies"
    "claimed_entries None (reply # replies) = entries_of k @ claimed_entries None replies"
    by (simp_all add: received_entries_def claimed_entries_def reply entries_of_def)
  have "loop_inv (seen \<union> sd_id ` set (entries_of r)) K (consumer_round cn c (r, k))"
    using Cons.prems unfolding parts by (intro round_inv) auto
  from Cons.IH [OF this] show ?case
    using Cons.prems unfolding parts by (auto simp: Int_Un_distrib Int_Un_distrib2 Int_commute reply)
qed auto

section \<open>Properties\<close>

text \<open>
  C27: whatever fails, an acknowledgement is sent, or due, only for a message whose event is in the graph's index
  or which is on the dead-letter stream.
\<close>

theorem acknowledged_is_settled:
  assumes "set (received_entries replies) \<union> set (claimed_entries claimed replies) \<subseteq> D"
    and "i \<in> set (co_requested (consumer_run cn claimed replies (new_consumer g))) \<union>
             set (co_pending_acks (consumer_run cn claimed replies (new_consumer g)))"
  shows "settled cn D (consumer_run cn claimed replies (new_consumer g)) i"
proof -
  have "accounted cn D (new_consumer g)" by (simp add: accounted_def new_consumer_def)
  then show ?thesis using run_advances [OF assms(1), of cn "new_consumer g"] assms(2)
    by (auto simp: advances_def accounted_def)
qed

text \<open>
  C28: Redis hands an entry to a group once. Then the loop's own counters never reach its limit: every dead
  letter is an entry that was claimed again, after three deliveries or more.
\<close>

theorem loop_never_dead_letters:
  assumes "distinct (map sd_id (received_entries replies))"
    and "e \<in> set (co_dlq (consumer_run cn claimed replies (new_consumer g)))"
  shows "exhausted (set (claimed_entries claimed replies)) e"
proof -
  let ?K = "set (claimed_entries claimed replies)"
  have claims: "set (entries_of claimed) \<subseteq> ?K" "set (claimed_entries None replies) \<subseteq> ?K"
    by (auto simp: claimed_entries_def entries_of_def)
  have "loop_inv {} ?K (new_consumer g)" by (simp add: loop_inv_def counted_once_def new_consumer_def)
  from reclaim_pending_inv [OF this claims(1)] obtain seen where "loop_inv seen ?K (consumer_rounds cn claimed replies (new_consumer g))"
    using rounds_inv [of "{}" ?K _ replies] assms(1) claims(2) unfolding consumer_rounds_def by blast
  then have "loop_inv seen ?K (consumer_run cn claimed replies (new_consumer g))" by (simp add: consumer_run_def)
  then show ?thesis using assms(2) by (simp add: loop_inv_def)
qed

text \<open>
  C26: an event that the gateway published is never a poison message: its update succeeds unless the store of a
  snapshot fails, its event is applied either way, and its redelivery succeeds and changes nothing.
\<close>

theorem published_event_is_applied:
  assumes "multigraph_library nx ok" "env_nx (cn_env cn) = nx" "bdg_wf nx ok (fst (co_graph c))"
    and "published_event drift_id outbox_id payload = Some ev"
    and "sd_fields d = [(''schema_version'', ce_schema_version ev), (''event'', json)]" "cn_parse cn json = Some ev"
  shows "\<exists>c' stored c''. process_message cn d c = (c', stored) \<and> bdg_wf nx ok (fst (co_graph c')) \<and>
    ce_event_id ev \<in> idempotency_index (fst (co_graph c')) \<and> (stored \<or> \<not> cn_saves cn (sr_calls (snd (co_graph c)))) \<and>
    process_message cn d c' = (c'', True) \<and> co_graph c'' = co_graph c'"
proof -
  obtain b repo where g: "co_graph c = (b, repo)" by fastforce
  let ?e = "graph_event (cn_show cn) ev" and ?exec = "update_bdg_execute (cn_env cn) (cn_conversions cn) (cn_saves cn)"
  have valid: "valid_causal_event ev" by (rule published_is_payload [OF assms(4), THEN conjunct2])
  then have msg: "message_event cn (sd_fields d) = Some ev"
    using assms(5,6) by (simp add: message_event_def field_text_def dict_get_def valid_causal_event_def)
  have id: "be_id ?e = ce_event_id ev" by (simp add: graph_event_def Let_def)
  note confident = graph_event_confidence(1,2) [OF valid, of "cn_show cn"]
  obtain b' repo' r where exec: "?exec ?e (sd_drawn d) (b, repo) = ((b', repo'), r)" by (metis surj_pair)
  have "bdg_wf nx ok b' \<and> ce_event_id ev \<in> idempotency_index b' \<and> ((\<exists>m. r = Inr m) \<or> \<not> cn_saves cn (sr_calls repo))"
  proof (cases "be_id ?e \<in> idempotency_index b")
    case True
    then show ?thesis using execute_redelivered [OF True] exec assms(3) g id by auto
  next
    case False
    obtain b1 m where done1: "update (cn_env cn) ?e (sd_drawn d) b = (b1, Inr m)" "bdg_wf nx ok b1"
      using multigraph_library.updates_step [OF assms(1,2) _ confident False] assms(3) g by (metis fst_conv)
    moreover have "idempotency_index b1 = insert (be_id ?e) (idempotency_index b)"
      using update_index [of "cn_env cn" ?e "sd_drawn d" b] done1 by simp
    ultimately show ?thesis using exec id
      by (auto simp: update_bdg_execute_def save_snapshot_def Let_def split: if_splits prod.splits option.splits)
  qed
  moreover from this have "?exec ?e (sd_drawn d) (b', repo') = ((b', repo'), Inr (no_mutation (be_id ?e)))"
    by (intro execute_redelivered) (simp add: id)
  ultimately show ?thesis using msg exec g by (cases r) (auto simp: process_message_def)
qed

text \<open>
  C29: the worker starts on a new graph and restores none. Its graph is the result of updates by the entries that
  were handed out since it started: an event acknowledged before is not in it.
\<close>

theorem restart_forgets:
  assumes "set (received_entries replies) \<union> set (claimed_entries claimed replies) = D"
    and "c = consumer_run cn claimed replies (start_worker cn lam delta n repo)"
  shows "(\<exists>ds. set ds \<subseteq> applied cn D \<and> fst (co_graph c) = updates (cn_env cn) ds (new_bdg (env_nx (cn_env cn)) lam delta n)) \<and>
    (\<forall>eid. (\<forall>d\<in>D. \<forall>ev. message_event cn (sd_fields d) = Some ev \<longrightarrow> ce_event_id ev \<noteq> eid) \<longrightarrow>
       eid \<notin> idempotency_index (fst (co_graph c)))"
proof -
  obtain ds where ds: "set ds \<subseteq> applied cn D"
      "fst (co_graph c) = updates (cn_env cn) ds (new_bdg (env_nx (cn_env cn)) lam delta n)"
    using run_advances [of replies claimed D cn "start_worker cn lam delta n repo"] assms
    by (auto simp: advances_def start_worker_def new_consumer_def)
  have "\<exists>d\<in>D. \<exists>ev. message_event cn (sd_fields d) = Some ev \<and> ce_event_id ev = eid"
    if "eid \<in> idempotency_index (fst (co_graph c))" for eid
  proof -
    have "eid \<in> be_id ` fst ` set ds" using that ds(2) by (simp add: updates_index new_bdg_def)
    then show ?thesis using ds(1) by (fastforce simp: applied_def graph_event_def Let_def)
  qed
  then show ?thesis using ds by blast
qed

text \<open>
  C30: the graph knows events by their identifier alone, the gateway by identifier and tenant. Once an event is
  applied, another tenant's event with its identifier is acknowledged and leaves the graph as it is.
\<close>

theorem other_tenant_dropped:
  assumes "message_event cn (sd_fields d) = Some ev" and "message_event cn (sd_fields d') = Some ev'"
    and "ce_event_id ev' = ce_event_id ev" and "process_message cn d c = (c1, stored)"
    and "c2 = consumer_run cn claimed replies c1"
  shows "process_message cn d' c2 = (c2\<lparr>co_attempts := (co_attempts c2)(sd_id d' := None)\<rparr>, True)"
proof -
  let ?D = "insert d (set (received_entries replies) \<union> set (claimed_entries claimed replies))"
  have id: "be_id (graph_event s e) = ce_event_id e" for s e by (simp add: graph_event_def Let_def)
  obtain b repo where g: "co_graph c = (b, repo)" by fastforce
  obtain g1 r where exec: "update_bdg_execute (cn_env cn) (cn_conversions cn) (cn_saves cn) (graph_event (cn_show cn) ev) (sd_drawn d) (b, repo)
      = (g1, r)" by fastforce
  then have "be_id (graph_event (cn_show cn) ev) \<in> idempotency_index (fst g1)"
    using execute_updates [of "cn_env cn" "cn_conversions cn" "cn_saves cn" "graph_event (cn_show cn) ev" "sd_drawn d" b repo]
    by (simp add: updates_index)
  moreover have "co_graph c1 = g1" using assms(1,4) g exec by (auto simp: process_message_def split: sum.splits)
  moreover have "advances cn ?D c1 c2" unfolding assms(5) by (rule run_advances) auto
  ultimately have known: "be_id (graph_event (cn_show cn) ev') \<in> idempotency_index (fst (co_graph c2))"
    using assms(3) by (auto simp: advances_def updates_index id)
  obtain b2 repo2 where g2: "co_graph c2 = (b2, repo2)" by fastforce
  with execute_redelivered [of "graph_event (cn_show cn) ev'" b2] known assms(2) show ?thesis
    by (simp add: process_message_def)
qed

section \<open>Witnesses\<close>

text \<open>One event of each of two tenants, with the same identifier, and messages that carry them or nothing.\<close>

definition stream_payload :: "string \<Rightarrow> causal_event" where
  "stream_payload t = mutation_payload t (demo_request None) (Some (fallback_binding demo_digest ''none''))"

definition stream_event :: "string \<Rightarrow> causal_event" where
  "stream_event t = (stream_payload t)\<lparr>ce_drift_event_id := ''d'', ce_outbox_id := ''o''\<rparr>"

definition stream_message :: "string \<Rightarrow> stream_entry" where
  "stream_message t = \<lparr>sd_id = ''1-'' @ t, sd_fields = [(''schema_version'', ''1.0''), (''event'', t)], sd_drawn = show_nat,
                       sd_dlq_ok = True, sd_pending = Delivered 1\<rparr>"

definition poison_message :: stream_entry where
  "poison_message = \<lparr>sd_id = ''0-1'', sd_fields = [], sd_drawn = show_nat, sd_dlq_ok = True, sd_pending = Delivered 3\<rparr>"

definition stream_env :: "lgraph consumer_env" where
  "stream_env = \<lparr>cn_env = demo_env, cn_conversions = demo_conversions, cn_saves = (\<lambda>_. True),
                 cn_parse = (\<lambda>t. Some (stream_event t)), cn_show = (\<lambda>_. []), cn_acks = (\<lambda>_. AckCount 1 (\<lambda>_. Some False))\<rparr>"

definition no_snapshots :: snapshot_repository where
  "no_snapshots = \<lparr>sr_stored = [], sr_calls = 0\<rparr>"

lemma stream_published: "published_event ''d'' ''o'' (stream_payload t) = Some (stream_event t)"
proof -
  have "published_event ''d'' ''o'' (stream_payload t) \<noteq> None"
    using published_iff [OF demo_request_valid(1), of "''d''" "''o''" t "Some (fallback_binding demo_digest ''none'')"]
      fallback_valid [OF demo_digest_text, of "''none''"]
    by (simp add: stream_payload_def fallback_binding_def demo_request_def)
  then show ?thesis using published_is_payload [of "''d''" "''o''" "stream_payload t"] by (auto simp: stream_event_def)
qed

lemma stream_message_event:
  "message_event stream_env (sd_fields (stream_message t)) = Some (stream_event t)"
  "message_event stream_env (sd_fields poison_message) = None" "ce_event_id (stream_event t) = ''e''"
proof -
  have "valid_causal_event (stream_event t)" by (rule published_is_payload [OF stream_published, THEN conjunct2])
  then show "message_event stream_env (sd_fields (stream_message t)) = Some (stream_event t)"
    by (simp add: message_event_def stream_message_def field_text_def dict_get_def stream_env_def)
qed (simp_all add: message_event_def poison_message_def field_text_def dict_get_def stream_event_def stream_payload_def
    mutation_payload_def demo_request_def)

lemma poison_run:
  "co_dlq (consumer_run stream_env (Some [poison_message]) [] (new_consumer g)) = [(''0-1'', [])]"
  "co_requested (consumer_run stream_env (Some [poison_message]) [] (new_consumer g)) = [''0-1'']"
  using stream_message_event(2)
  by (simp_all add: consumer_run_def consumer_rounds_def reclaim_pending_def reclaim_entry_def process_message_def poison_message_def
      MAX_DELIVERY_ATTEMPTS_def handle_dead_letter_def append_ack_def new_consumer_def flush_acks_def stream_env_def Let_def)

theorem acknowledged_is_settled_witness:
  "settled stream_env {poison_message} (consumer_run stream_env (Some [poison_message]) [] (new_consumer (demo_bdg, no_snapshots))) ''0-1''"
  by (rule acknowledged_is_settled) (simp_all add: poison_run received_entries_def claimed_entries_def entries_of_def)

theorem loop_never_dead_letters_witness:
  "exhausted {poison_message} (''0-1'', [])"
  using loop_never_dead_letters [of "[]" "(''0-1'', [])" stream_env "Some [poison_message]" "(demo_bdg, no_snapshots)"] poison_run(1)
  by (simp add: received_entries_def claimed_entries_def entries_of_def)

lemma stream_facts:
  "env_nx (cn_env stream_env) = list_graph" "cn_parse stream_env t = Some (stream_event t)" "cn_saves stream_env n"
  "sd_fields (stream_message t) = [(''schema_version'', ce_schema_version (stream_event t)), (''event'', t)]"
  "bdg_wf list_graph lg_ok (fst (co_graph (new_consumer (demo_bdg, r))))"
  by (simp_all add: stream_env_def demo_facts stream_message_def stream_event_def stream_payload_def mutation_payload_def new_consumer_def)

theorem published_event_is_applied_witness:
  "\<exists>c'. process_message stream_env (stream_message ''t'') (new_consumer (demo_bdg, no_snapshots)) = (c', True) \<and>
     ''e'' \<in> idempotency_index (fst (co_graph c'))"
  using published_event_is_applied [OF lg.multigraph_library_axioms stream_facts(1) stream_facts(5) stream_published stream_facts(4,2)]
    stream_facts(3) stream_message_event(3) by metis

theorem restart_forgets_witness:
  "''e'' \<notin> idempotency_index (fst (co_graph (consumer_run stream_env None [(Some [poison_message], None)]
     (start_worker stream_env (1 / 2) 300 1 no_snapshots))))"
  using restart_forgets [of "[(Some [poison_message], None)]" None "{poison_message}" _ stream_env "1 / 2" 300 1 no_snapshots,
      OF _ refl] stream_message_event(2)
  by (simp add: received_entries_def claimed_entries_def entries_of_def)

theorem other_tenant_dropped_witness:
  "ce_tenant_id (stream_event ''u'') \<noteq> ce_tenant_id (stream_event ''t'') \<and>
   (\<exists>c. snd (process_message stream_env (stream_message ''u'') c) \<and>
        co_graph (fst (process_message stream_env (stream_message ''u'') c)) = co_graph c)"
proof -
  obtain c1 stored where run: "process_message stream_env (stream_message ''t'') (new_consumer (demo_bdg, no_snapshots)) = (c1, stored)"
    by fastforce
  have "ce_event_id (stream_event ''u'') = ce_event_id (stream_event ''t'')" by (simp add: stream_message_event(3))
  from other_tenant_dropped [OF stream_message_event(1) stream_message_event(1) this run refl, of None "[]"]
  have "snd (process_message stream_env (stream_message ''u'') (consumer_run stream_env None [] c1)) \<and>
      co_graph (fst (process_message stream_env (stream_message ''u'') (consumer_run stream_env None [] c1)))
        = co_graph (consumer_run stream_env None [] c1)" by simp
  then show ?thesis by (auto simp: stream_event_def stream_payload_def mutation_payload_def)
qed

end
