(* ===== verification/Spec2Isabelle.thy ===== *)
theory Spec2Isabelle
  imports Event_Parser Contract_Generation Drift_Decider Cgroup_Attributor Sbom_Binding Sbom_Metrics Sbom_Service
    Causal_Usecases Causal_Pceps Gateway_Outbox Causal_Delivery
begin

text \<open>
  PHANTOM: from kernel events to behavioural contracts, components and causes.

  The program watches containers through eBPF, learns a Markov model of their normal behaviour (a contract),
  scores observed windows against it, ties behaviour to components of a verified SBOM, keeps a dependency
  graph of what it saw, and attributes drift to components. This library models the logic of its services and
  the path of an event from the gateway into the graph; paths below are relative to \<open>src/services\<close>.

  \<^bold>\<open>The agent\<close> (\<open>ebpf-agent\<close>).
  \<^item> \<open>Ctypes\<close>, \<open>Event_Parser\<close>: the record layouts of the kernel and their decoder, \<open>event_parser.py\<close>. Machine
    integers are words, text is bytes up to the first NUL. Lemmas: which buffers are refused, decoding inverts
    the layout, every field lies in its type.
  \<^item> \<open>Markov_Chain\<close>, \<open>Markov_Serializer\<close>: training, pruning and prediction of the variable-order chain and its
    stored form, \<open>chain.py\<close> and \<open>serializer.py\<close>. A dictionary is an association list in insertion order.
  \<^item> \<open>Kl_Scorer\<close>, \<open>Drift_Config\<close>, \<open>Drift_Calibrator\<close>, \<open>Drift_Decider\<close>: scores, thresholds and the three-state
    decision, \<open>domain/drift\<close>. The bound on calibration alerts composes scorer, calibrator and decider.
  \<^item> \<open>Contract_Generation\<close>: the use case that trains, signs and stores, over abstract ports.
  \<^item> \<open>Cgroup_Attributor\<close>: from a cgroup to a workload, with its cache, \<open>attributor.py\<close>.

  \<^bold>\<open>The SBOM service\<close> (\<open>sbom-service\<close>).
  \<^item> \<open>Sbom_Evidence\<close>, \<open>Sbom_Resolver\<close>, \<open>Sbom_Metrics\<close>, \<open>Sbom_Binding\<close>: from a runtime event to a component by
    tiers of evidence, the quality of mappings, and the binding route, \<open>domain/mapping\<close> and \<open>routers.py\<close>.
  \<^item> \<open>Sbom_Entities\<close>, \<open>Sbom_Cosign\<close>, \<open>Sbom_Verification\<close>, \<open>Sbom_Ingest\<close>, \<open>Sbom_Service\<close>: the document and its
    record, the cosign adapter, verification jobs, ingestion, and all of them over one store, where every
    repository call is a step that interleaves with those of other requests. Refinement lemmas tie the use
    case functions to the step relations; invariants hold in every reachable state, crashes included.

  \<^bold>\<open>The gateway\<close> (\<open>api-gateway\<close>).
  \<^item> \<open>Gateway_Event\<close>, \<open>Gateway_Contract\<close>: the two contracts of a drift event (\<open>phantom_core/models\<close>), the
    translation between them with the binding asked of the SBOM service (\<open>commands.py\<close>), and from there into an
    event of the graph. Lemmas: which accepted requests can be published, and what they mean for the graph.
  \<^item> \<open>Gateway_Ingest\<close>, \<open>Gateway_Outbox\<close>: ingestion with the transactional outbox, as a function whose calls
    may fail and as interleaved steps of which any may stop: what every reachable state keeps, and that an
    undelivered event waits until it is sent again.

  \<^bold>\<open>The causal engine\<close> (\<open>causal-engine\<close>).
  \<^item> \<open>Causal_Multigraph\<close>, \<open>Causal_Graph\<close>, \<open>Causal_Update\<close>: the dependency graph, \<open>domain/bdg.py\<close>. Each event is a
    list of upserts; \<open>Causal_Update\<close> proves that a stream of events, redeliveries included, leaves exactly the
    counts, evidence and decayed weights its history determines.
  \<^item> \<open>Causal_Projection\<close>: the temporal DAG. \<open>Causal_Snapshot\<close>: storing and restoring a graph.
  \<^item> \<open>Causal_Observations\<close>, \<open>Causal_Validation\<close>: experiment runs become observations and pass gates.
  \<^item> \<open>Causal_Attribution\<close>, \<open>Causal_Analysis\<close>: the structural model, the estimation with its abstentions and
    confidence, and the analysis of runs. \<open>Causal_Pceps\<close>: the features and the calibrated score.
  \<^item> \<open>Causal_Usecases\<close>: the use cases that join graph, repository and estimator.
  \<^item> \<open>Causal_Consumer\<close>, \<open>Causal_Delivery\<close>: the consumer of the event stream, \<open>redis_consumer.py\<close>, over the
    replies of Redis: what an acknowledgement stands for, which messages become dead letters, that every event
    the gateway publishes is applied, and what a restart forgets.

  \<^bold>\<open>Interfaces.\<close> \<open>Prelude\<close> holds Python's dictionaries, errors as sums, text and floats with their NaN. What a
  component relies on and does not define is a locale that the component's clients are proved in and that is
  interpreted on the model's own definitions: dictionaries, the graph library (\<open>multigraph_library\<close>, on an
  executable list graph), strongly connected components (\<open>scc_library\<close>) and the others named in their theories.
  Third-party code is an argument: the BCC structures' bytes, SHA-256, signing, Kubernetes, cosign, NetworkX,
  DoWhy, pandas quantiles, the trained model, conversions of times and UUIDs, and the supply of fresh UUIDs.

  \<^bold>\<open>Recursion.\<close> Every definition is total. Loops are structural recursion over lists, bounded ranges, or
  functions with a termination proof; nothing uses fuel.

  \<^bold>\<open>Not modelled.\<close> Logging, metrics that nothing reads, and rounding of floats (they are reals with
  infinities and NaN); failures inside pandas and of the graph as text in the structural model; the agent's wiring, loader and dispatcher and the kernel programs in C; the Syft adapter
  and the routes that only translate HTTP; the queries of the causal repositories that only read and write
  rows, model training and the worker's probes; the other commands, queries and routes of the gateway, its
  authentication and its WebSocket streams; the AWS credential broker, the report generator, research drivers
  and scripts, which are input, output and glue around other services.
\<close>

end
